(* ===== verification/Prelude.thy ===== *)
theory Prelude
  imports Complex_Main "HOL-Library.AList" "HOL-Library.Sublist" "HOL-Library.Char_ord"
    "HOL-Library.List_Lexorder" "HOL-Library.Product_Lexorder" "HOL-Library.Multiset"
begin

text \<open>
  Shared ground of the development: JSON values, the parts of Python's standard library
  the services use (ordered dictionaries, \<open>dict.fromkeys\<close>, \<open>max\<close> with a key, banker's
  rounding, string methods, decimal printing), and the collections of facts that the
  component theories extend and their proofs use.

  A Python dictionary whose order or size matters is an association list without
  duplicate keys: \<open>AList.update\<close> replaces a value in place and appends a new key, which is
  what a Python dictionary does.
\<close>

named_theorems model_defs "definitions of small accessors and predicates, for unfolding"
named_theorems state_simps "how a store operation changes what the other operations read"
named_theorems inv_intros "operations that keep the invariant of their component"

section \<open>JSON values\<close>

text \<open>
  What the code calls \<open>Any\<close> in request bodies. \<open>JNull\<close> is Python's \<open>None\<close>.
\<close>

datatype json =
    JNull
  | JBool bool
  | JInt int
  | JFloat real
  | JStr string
  | JArr "json list"
  | JObj "(string \<times> json) list"

type_synonym jobj = "(string \<times> json) list"

definition obj_get :: "jobj \<Rightarrow> string \<Rightarrow> json" where
  \<comment> \<open>\<open>dict.get(k)\<close>: \<open>None\<close> for a missing key\<close>
  "obj_get kvs k = (case map_of kvs k of None \<Rightarrow> JNull | Some v \<Rightarrow> v)"

text \<open>Python truth of a JSON value.\<close>

fun truthy :: "json \<Rightarrow> bool" where
  "truthy JNull = False"
| "truthy (JBool b) = b"
| "truthy (JInt i) = (i \<noteq> 0)"
| "truthy (JFloat r) = (r \<noteq> 0)"
| "truthy (JStr s) = (s \<noteq> [])"
| "truthy (JArr xs) = (xs \<noteq> [])"
| "truthy (JObj kvs) = (kvs \<noteq> [])"

section \<open>Lists and dictionaries\<close>

text \<open>\<open>list(dict.fromkeys(xs))\<close>: first occurrences, in order.\<close>

definition fromkeys :: "'a list \<Rightarrow> 'a list" where
  "fromkeys xs = foldl (\<lambda>acc x. if x \<in> set acc then acc else acc @ [x]) [] xs"

lemma fromkeys_acc_set:
  "set (foldl (\<lambda>acc x. if x \<in> set acc then acc else acc @ [x]) acc xs) = set acc \<union> set xs"
  by (induction xs arbitrary: acc) auto

lemma set_fromkeys [simp]: "set (fromkeys xs) = set xs"
  by (simp add: fromkeys_def fromkeys_acc_set)

lemma fromkeys_acc_distinct:
  "distinct acc \<Longrightarrow> distinct (foldl (\<lambda>acc x. if x \<in> set acc then acc else acc @ [x]) acc xs)"
  by (induction xs arbitrary: acc) auto

lemma distinct_fromkeys [simp]: "distinct (fromkeys xs)"
  by (simp add: fromkeys_def fromkeys_acc_distinct)

lemma fromkeys_Nil [simp]: "fromkeys [] = []"
  by (simp add: fromkeys_def)

lemma fromkeys_eq_Nil [simp]: "fromkeys xs = [] \<longleftrightarrow> xs = []"
  by (metis fromkeys_Nil set_fromkeys set_empty)

lemma fromkeys_acc_id:
  "distinct (acc @ xs) \<Longrightarrow> foldl (\<lambda>acc x. if x \<in> set acc then acc else acc @ [x]) acc xs = acc @ xs"
  by (induction xs arbitrary: acc) auto

lemma fromkeys_id: "distinct xs \<Longrightarrow> fromkeys xs = xs"
  using fromkeys_acc_id [of "[]" xs] by (simp add: fromkeys_def)

text \<open>
  Python's \<open>max(x, *xs, key=f)\<close>: the first of the elements with the largest key.
\<close>

fun max_by :: "('a \<Rightarrow> 'k::linorder) \<Rightarrow> 'a \<Rightarrow> 'a list \<Rightarrow> 'a" where
  "max_by f best [] = best"
| "max_by f best (x # xs) = max_by f (if f best < f x then x else best) xs"

lemma max_by_in: "max_by f b xs \<in> insert b (set xs)"
proof (induction xs arbitrary: b)
  case Nil
  then show ?case by simp
next
  case (Cons x xs)
  from Cons.IH [of "if f b < f x then x else b"] show ?case
    by (auto split: if_splits)
qed

lemma max_by_ge: "y \<in> insert b (set xs) \<Longrightarrow> f y \<le> f (max_by f b xs)"
proof (induction xs arbitrary: b y)
  case Nil
  then show ?case by simp
next
  case (Cons x xs)
  let ?b = "if f b < f x then x else b"
  have b: "f ?b \<le> f (max_by f ?b xs)" by (rule Cons.IH) simp
  from Cons.prems consider "y = b" | "y = x" | "y \<in> set xs" by auto
  then show ?case
  proof cases
    case 1
    have "f b \<le> f ?b" by (simp add: less_imp_le)
    with b 1 show ?thesis by (metis max_by.simps(2) order.trans)
  next
    case 2
    have "f x \<le> f ?b" by (simp add: not_less)
    with b 2 show ?thesis by (metis max_by.simps(2) order.trans)
  next
    case 3
    then show ?thesis using Cons.IH [of y ?b] by simp
  qed
qed

text \<open>
  An ordered dictionary used as an LRU list: a key moves to the end, the oldest entries
  go first. \<open>AList.delete\<close> then append is \<open>move_to_end\<close> of an existing key.
\<close>

definition lru_put :: "'k \<Rightarrow> 'v \<Rightarrow> ('k \<times> 'v) list \<Rightarrow> ('k \<times> 'v) list" where
  "lru_put k v d = AList.delete k d @ [(k, v)]"

definition lru_trim :: "nat \<Rightarrow> ('k \<times> 'v) list \<Rightarrow> ('k \<times> 'v) list" where
  \<comment> \<open>\<open>while len(d) > max: d.popitem(last=False)\<close>\<close>
  "lru_trim n d = drop (length d - n) d"

lemma map_of_delete_append [simp]:
  "[k \<mapsto> v] ++ map_of (AList.delete k d) = (map_of d)(k \<mapsto> v)"
  by (rule ext) (auto simp: map_add_def delete_conv' split: option.splits)

lemma map_of_lru_put [simp]: "map_of (lru_put k v d) = (map_of d)(k \<mapsto> v)"
  by (simp add: lru_put_def)

lemma distinct_lru_put [simp]:
  "distinct (map fst d) \<Longrightarrow> distinct (map fst (lru_put k v d))"
  by (simp add: lru_put_def delete_keys distinct_removeAll)

lemma length_lru_trim [simp]: "length (lru_trim n d) = min n (length d)"
  by (auto simp: lru_trim_def)

lemma distinct_lru_trim [simp]:
  "distinct (map fst d) \<Longrightarrow> distinct (map fst (lru_trim n d))"
  by (simp add: lru_trim_def drop_map [symmetric])

lemma lru_trim_id [simp]: "length d \<le> n \<Longrightarrow> lru_trim n d = d"
  by (simp add: lru_trim_def)

lemma map_of_lru_trim:
  assumes "distinct (map fst d)"
  shows "map_of (lru_trim n d) k = Some v \<Longrightarrow> map_of d k = Some v"
  using assms by (metis distinct_lru_trim lru_trim_def in_set_dropD map_of_eq_Some_iff)

lemma lru_trim_keeps_last:
  "0 < n \<Longrightarrow> \<exists>d'. lru_trim n (d @ [x]) = d' @ [x]"
  by (cases "length d + 1 \<le> n") (auto simp: lru_trim_def)

lemma map_of_trim_put:
  assumes "distinct (map fst d)" "0 < n"
  shows "map_of (lru_trim n (lru_put k v d)) k = Some v"
proof -
  have "(k, v) \<in> set (lru_trim n (lru_put k v d))"
    using lru_trim_keeps_last [OF assms(2), of "AList.delete k d" "(k, v)"]
    by (auto simp: lru_put_def)
  with assms(1) show ?thesis by (simp add: map_of_eq_Some_iff)
qed

section \<open>Strings and numbers\<close>

definition ascii_lower :: "char \<Rightarrow> char" where
  "ascii_lower c =
     (let n = of_char c :: nat in if 65 \<le> n \<and> n \<le> 90 then char_of (n + 32) else c)"

definition str_lower :: "string \<Rightarrow> string" where
  "str_lower s = map ascii_lower s"

definition ascii_upper :: "char \<Rightarrow> char" where
  "ascii_upper c =
     (let n = of_char c :: nat in if 97 \<le> n \<and> n \<le> 122 then char_of (n - 32) else c)"

definition str_upper :: "string \<Rightarrow> string" where
  "str_upper s = map ascii_upper s"

definition is_space :: "char \<Rightarrow> bool" where
  "is_space c \<longleftrightarrow> (of_char c :: nat) \<in> {9, 10, 11, 12, 13, 28, 29, 30, 31, 32}"

definition str_strip :: "string \<Rightarrow> string" where
  "str_strip s = rev (dropWhile is_space (rev (dropWhile is_space s)))"

definition is_digit :: "char \<Rightarrow> bool" where
  "is_digit c \<longleftrightarrow> (let n = of_char c :: nat in 48 \<le> n \<and> n \<le> 57)"

definition quoted :: "string \<Rightarrow> string" where
  "quoted s = CHR 0x27 # s @ [CHR 0x27]"

fun join :: "string \<Rightarrow> string list \<Rightarrow> string" where
  "join sep [] = []"
| "join sep [s] = s"
| "join sep (s # t # ss) = s @ sep @ join sep (t # ss)"

text \<open>\<open>s.split(c)\<close> on one character: never empty.\<close>

fun split_char :: "char \<Rightarrow> string \<Rightarrow> string list" where
  "split_char c [] = [[]]"
| "split_char c (x # xs) =
     (if x = c then [] # split_char c xs
      else (case split_char c xs of [] \<Rightarrow> [[x]] | p # ps \<Rightarrow> (x # p) # ps))"

lemma split_char_not_Nil [simp]: "split_char c s \<noteq> []"
  by (induction s) (auto split: list.splits)

text \<open>Decimal printing, as \<open>str(n)\<close>.\<close>

fun nat_digits :: "nat \<Rightarrow> string" where
  "nat_digits n = (if n < 10 then [char_of (48 + n)] else nat_digits (n div 10) @ [char_of (48 + n mod 10)])"

declare nat_digits.simps [simp del]

definition str_int :: "int \<Rightarrow> string" where
  "str_int i = (if i < 0 then ''-'' @ nat_digits (nat (- i)) else nat_digits (nat i))"

text \<open>Python 3's \<open>round(x)\<close>: to the nearest integer, ties to the even one.\<close>

definition py_round :: "real \<Rightarrow> int" where
  "py_round x =
     (let f = \<lfloor>x\<rfloor>; d = x - of_int f in
      if d < 1/2 then f else if 1/2 < d then f + 1 else if even f then f else f + 1)"

lemma py_round_of_int [simp]: "py_round (of_int i) = i"
  by (simp add: py_round_def)

lemma py_round_numeral [simp]: "py_round (numeral n) = numeral n" "py_round 0 = 0" "py_round 1 = 1"
  using py_round_of_int [of "numeral n"] py_round_of_int [of 0] py_round_of_int [of 1] by simp_all

lemma py_round_le: "x \<le> of_int i \<Longrightarrow> py_round x \<le> i"
proof -
  assume le: "x \<le> of_int i"
  show "py_round x \<le> i"
  proof (cases "x = of_int i")
    case True
    then show ?thesis by simp
  next
    case False
    with le have "x < of_int i" by simp
    then have "\<lfloor>x\<rfloor> < i" by (simp add: floor_less_iff)
    then show ?thesis by (auto simp: py_round_def Let_def)
  qed
qed

lemma py_round_ge: "of_int i \<le> x \<Longrightarrow> i \<le> py_round x"
proof -
  assume "of_int i \<le> x"
  then have "i \<le> \<lfloor>x\<rfloor>" by (simp add: le_floor_iff)
  then show "i \<le> py_round x" by (auto simp: py_round_def Let_def)
qed

lemma py_round_mono: "x \<le> y \<Longrightarrow> py_round x \<le> py_round y"
proof -
  assume xy: "x \<le> y"
  then have fl: "\<lfloor>x\<rfloor> \<le> \<lfloor>y\<rfloor>" by (rule floor_mono)
  show "py_round x \<le> py_round y"
  proof (cases "\<lfloor>x\<rfloor> = \<lfloor>y\<rfloor>")
    case True
    with xy show ?thesis by (auto simp: py_round_def Let_def)
  next
    case False
    with fl have "\<lfloor>x\<rfloor> + 1 \<le> \<lfloor>y\<rfloor>" by simp
    moreover have "py_round x \<le> \<lfloor>x\<rfloor> + 1" by (auto simp: py_round_def Let_def)
    moreover have "\<lfloor>y\<rfloor> \<le> py_round y" by (auto simp: py_round_def Let_def)
    ultimately show ?thesis by simp
  qed
qed

definition clamp :: "int \<Rightarrow> int \<Rightarrow> int \<Rightarrow> int" where
  "clamp lo hi x = max lo (min hi x)"

lemma clamp_bounds: "lo \<le> hi \<Longrightarrow> lo \<le> clamp lo hi x \<and> clamp lo hi x \<le> hi"
  by (simp add: clamp_def)

lemma clamp_mono: "x \<le> y \<Longrightarrow> clamp lo hi x \<le> clamp lo hi y"
  by (auto simp: clamp_def)

section \<open>Results\<close>

text \<open>
  A computation that may raise is a value of \<open>'e + 'a\<close>, the exception on the left.
\<close>

definition result_bind :: "'e + 'a \<Rightarrow> ('a \<Rightarrow> 'e + 'b) \<Rightarrow> 'e + 'b" where
  "result_bind r f = (case r of Inl e \<Rightarrow> Inl e | Inr x \<Rightarrow> f x)"

lemma result_bind_simps [simp]:
  "result_bind (Inl e) f = Inl e"
  "result_bind (Inr x) f = f x"
  by (simp_all add: result_bind_def)

lemma result_bind_Inr_iff:
  "result_bind r f = Inr y \<longleftrightarrow> (\<exists>x. r = Inr x \<and> f x = Inr y)"
  by (cases r) simp_all

lemma result_bind_Inl_iff:
  "result_bind r f = Inl e \<longleftrightarrow> (r = Inl e \<or> (\<exists>x. r = Inr x \<and> f x = Inl e))"
  by (cases r) simp_all

text \<open>\<open>guard_that b e\<close>: raise \<open>e\<close> unless \<open>b\<close>.\<close>

definition guard_that :: "bool \<Rightarrow> 'e \<Rightarrow> 'e + unit" where
  "guard_that b e = (if b then Inr () else Inl e)"

lemma guard_that_simps [simp]:
  "guard_that True e = Inr ()"
  "guard_that False e = Inl e"
  by (simp_all add: guard_that_def)

lemma guard_that_Inr_iff [simp]: "guard_that b e = Inr u \<longleftrightarrow> b"
  by (simp add: guard_that_def)

lemma guard_that_Inl_iff [simp]: "guard_that b e = Inl e' \<longleftrightarrow> \<not> b \<and> e' = e"
  by (auto simp: guard_that_def)

section \<open>Effects\<close>

text \<open>
  A method of a service reads and writes a store and may raise: from a state it gives an
  exception (its class) or a value, and the state it leaves, also when it raised.
\<close>

type_synonym ('s, 'a) effect = "'s \<Rightarrow> (string + 'a) \<times> 's"

definition return_value :: "'a \<Rightarrow> ('s, 'a) effect" where
  "return_value x = (\<lambda>s. (Inr x, s))"

definition raise_error :: "string \<Rightarrow> ('s, 'a) effect" where
  "raise_error e = (\<lambda>s. (Inl e, s))"

definition and_then :: "('s, 'a) effect \<Rightarrow> ('a \<Rightarrow> ('s, 'b) effect) \<Rightarrow> ('s, 'b) effect" where
  "and_then m f = (\<lambda>s. case m s of (Inl e, s') \<Rightarrow> (Inl e, s') | (Inr x, s') \<Rightarrow> f x s')"

text \<open>\<open>try: m except Exception as e: h e\<close>: the handler starts in the state the error left.\<close>

definition or_else :: "('s, 'a) effect \<Rightarrow> (string \<Rightarrow> ('s, 'a) effect) \<Rightarrow> ('s, 'a) effect" where
  "or_else m h = (\<lambda>s. case m s of (Inl e, s') \<Rightarrow> h e s' | (Inr x, s') \<Rightarrow> (Inr x, s'))"

lemma effect_simps [simp]:
  "return_value x s = (Inr x, s)" "raise_error e s = (Inl e, s)"
  by (simp_all add: return_value_def raise_error_def)

lemma and_then_Inr:
  "and_then m f s = (Inr y, t) \<longleftrightarrow> (\<exists>x s'. m s = (Inr x, s') \<and> f x s' = (Inr y, t))"
  by (auto simp: and_then_def split: prod.split sum.split)

lemma and_then_value: "m s = (Inr x, s') \<Longrightarrow> and_then m f s = f x s'"
  by (simp add: and_then_def)

lemma or_else_value: "m s = (Inr x, s') \<Longrightarrow> or_else m h s = (Inr x, s')"
  by (simp add: or_else_def)

end
