(* ===== verification/Json_Text.thy ===== *)
theory Json_Text
  imports Prelude
begin

text \<open>
  What \<open>json.dumps\<close> prints for strings and lists of strings (\<open>ensure_ascii\<close>, compact
  separators), as the request hash and the audit chain use it, and that the text determines the
  value. Characters are the code points below 256.
\<close>

definition hex_digit :: "nat \<Rightarrow> char" where
  "hex_digit n = (if n < 10 then char_of (48 + n) else char_of (87 + n))"

definition hex_value :: "char \<Rightarrow> nat" where
  "hex_value c = (let n = of_char c :: nat in if n < 58 then n - 48 else n - 87)"

definition json_plain :: "char \<Rightarrow> bool" where
  "json_plain c \<longleftrightarrow>
     (let n = of_char c :: nat in 32 \<le> n \<and> n \<le> 126 \<and> n \<noteq> 34 \<and> n \<noteq> 92)"

definition json_escape :: "char \<Rightarrow> string" where
  "json_escape c =
     (let n = of_char c :: nat in
      if json_plain c then [c]
      else if n = 34 \<or> n = 92 then [CHR 0x5C, c]
      else if n = 8 then [CHR 0x5C, CHR ''b'']
      else if n = 12 then [CHR 0x5C, CHR ''f'']
      else if n = 10 then [CHR 0x5C, CHR ''n'']
      else if n = 13 then [CHR 0x5C, CHR ''r'']
      else if n = 9 then [CHR 0x5C, CHR ''t'']
      else [CHR 0x5C, CHR ''u'', CHR ''0'', CHR ''0'', hex_digit (n div 16), hex_digit (n mod 16)])"

definition json_string :: "string \<Rightarrow> string" where
  "json_string s = CHR 0x22 # concat (map json_escape s) @ [CHR 0x22]"

definition json_string_list :: "string list \<Rightarrow> string" where
  "json_string_list xs = ''['' @ join '','' (map json_string xs) @ '']''"

text \<open>Reading a string back: what stands before the closing quote, and the rest.\<close>

fun scan_string :: "string \<Rightarrow> string \<times> string" where
  "scan_string [] = ([], [])"
| "scan_string (c # cs) =
     (if c = CHR 0x22 then ([], cs)
      else if c = CHR 0x5C then
        (case cs of
           [] \<Rightarrow> ([], [])
         | e # es \<Rightarrow>
             if e = CHR ''u'' then
               (case es of
                  a # b # h # l # rest \<Rightarrow>
                    (let (s, r) = scan_string rest in (char_of (16 * hex_value h + hex_value l) # s, r))
                | _ \<Rightarrow> ([], []))
             else
               (let (s, r) = scan_string es in
                ((if e = CHR ''b'' then CHR 0x08 else if e = CHR ''f'' then CHR 0x0C
                  else if e = CHR ''n'' then CHR 0x0A else if e = CHR ''r'' then CHR 0x0D
                  else if e = CHR ''t'' then CHR 0x09 else e) # s, r)))
      else (let (s, r) = scan_string cs in (c # s, r)))"

lemma hex_value_digit: "n < 16 \<Longrightarrow> hex_value (hex_digit n) = n"
  by (auto simp: hex_value_def hex_digit_def Let_def)

lemma of_char_eqD: "of_char c = (n :: nat) \<Longrightarrow> c = char_of n"
  by (metis char_of_char)

lemma of_char_less: "(of_char c :: nat) < 256"
  by (rule nat_of_char_less_256)

lemma char_codes:
  "char_of (34::nat) = CHR 0x22" "char_of (92::nat) = CHR 0x5C" "char_of (8::nat) = CHR 0x08"
  "char_of (12::nat) = CHR 0x0C" "char_of (10::nat) = CHR 0x0A" "char_of (13::nat) = CHR 0x0D"
  "char_of (9::nat) = CHR 0x09"
  by (rule of_char_eqD [symmetric], simp)+

lemma scan_escape:
  "scan_string (json_escape c @ rest) = (c # fst (scan_string rest), snd (scan_string rest))"
proof -
  let ?n = "of_char c :: nat"
  consider "json_plain c" | "?n \<in> {34, 92}" | "?n \<in> {8, 12, 10, 13, 9}"
    | "\<not> json_plain c" "?n \<notin> {34, 92}" "?n \<notin> {8, 12, 10, 13, 9}" by blast
  then show ?thesis
  proof cases
    case 1
    then have "c \<noteq> CHR 0x22 \<and> c \<noteq> CHR 0x5C" by (auto simp: json_plain_def)
    with 1 show ?thesis by (simp add: json_escape_def split: prod.split)
  next
    case 2
    then show ?thesis by (auto dest!: of_char_eqD simp: json_escape_def json_plain_def char_codes split: prod.split)
  next
    case 3
    then show ?thesis by (auto dest!: of_char_eqD simp: json_escape_def json_plain_def char_codes split: prod.split)
  next
    case 4
    then have e: "json_escape c = [CHR 0x5C, CHR ''u'', CHR ''0'', CHR ''0'', hex_digit (?n div 16), hex_digit (?n mod 16)]"
      by (simp add: json_escape_def Let_def)
    have "?n div 16 < 16" using of_char_less [of c] by (simp add: less_mult_imp_div_less)
    then have "char_of (16 * hex_value (hex_digit (?n div 16)) + hex_value (hex_digit (?n mod 16))) = c"
      by (simp add: hex_value_digit)
    then show ?thesis by (simp add: e split: prod.split)
  qed
qed

lemma scan_json_body:
  "scan_string (concat (map json_escape s) @ CHR 0x22 # rest) = (s, rest)"
  by (induction s) (simp_all add: scan_escape)

lemma json_string_append_inject:
  "json_string a @ x = json_string b @ y \<longleftrightarrow> a = b \<and> x = y"
proof
  assume "json_string a @ x = json_string b @ y"
  then have "scan_string (concat (map json_escape a) @ CHR 0x22 # x)
           = scan_string (concat (map json_escape b) @ CHR 0x22 # y)"
    by (simp add: json_string_def)
  then show "a = b \<and> x = y" by (simp add: scan_json_body)
qed simp

lemma json_string_inject [simp]: "json_string a = json_string b \<longleftrightarrow> a = b"
  using json_string_append_inject [of a "[]" b "[]"] by simp

lemma join_json_inject:
  "length xs = length ys \<Longrightarrow>
   join '','' (map json_string xs) @ u = join '','' (map json_string ys) @ v \<Longrightarrow> xs = ys \<and> u = v"
proof (induction xs ys arbitrary: u v rule: list_induct2)
  case Nil
  then show ?case by simp
next
  case (Cons x xs y ys)
  show ?case
  proof (cases xs)
    case Nil
    with Cons show ?thesis by (simp add: json_string_append_inject)
  next
    case xs: (Cons x' xs')
    with Cons.hyps obtain y' ys' where ys: "ys = y' # ys'" by (cases ys) auto
    have j: "join '','' (map json_string (a # b # cs)) @ w
             = json_string a @ '','' @ join '','' (map json_string (b # cs)) @ w" for a b cs w
      by simp
    have "json_string x @ '','' @ join '','' (map json_string (x' # xs')) @ u =
          json_string y @ '','' @ join '','' (map json_string (y' # ys')) @ v"
      using Cons.prems unfolding xs ys j .
    then have "x = y" "join '','' (map json_string xs) @ u = join '','' (map json_string ys) @ v"
      unfolding json_string_append_inject xs ys by simp_all
    with Cons.IH show ?thesis by blast
  qed
qed

text \<open>For lists of one length, the printed text determines every entry.\<close>

lemma json_string_list_inject:
  "length xs = length ys \<Longrightarrow> json_string_list xs = json_string_list ys \<longleftrightarrow> xs = ys"
  using join_json_inject [of xs ys "'']''" "'']''"] by (auto simp: json_string_list_def)

end
