(* ===== verification/Sdk_Models.thy ===== *)
theory Sdk_Models
  imports Prelude
begin

text \<open>
  The contracts every service shares
  (\<^verbatim>\<open>packages/guardrail-sdk/guardrail_sdk/models.py\<close>): stages, decisions and their
  precedence, the payload of a stage with its validator and its shape, and the result of a
  guardrail. Text is a \<open>string\<close>; a character beyond Latin-1 has no counterpart, and
  nothing below depends on one.
\<close>

section \<open>Stages and decisions\<close>

datatype stage = Input | Retrieval | Tool | Output | Agent

datatype decision = Allow | Modify | Escalate | Block

fun stage_value :: "stage \<Rightarrow> string" where
  "stage_value Input = ''input''"
| "stage_value Retrieval = ''retrieval''"
| "stage_value Tool = ''tool''"
| "stage_value Output = ''output''"
| "stage_value Agent = ''agent''"

fun decision_value :: "decision \<Rightarrow> string" where
  "decision_value Allow = ''allow''"
| "decision_value Modify = ''modify''"
| "decision_value Escalate = ''escalate''"
| "decision_value Block = ''block''"

fun decision_precedence :: "decision \<Rightarrow> nat" where
  "decision_precedence Allow = 0"
| "decision_precedence Modify = 1"
| "decision_precedence Escalate = 2"
| "decision_precedence Block = 3"

lemma decision_precedence_inject [simp]:
  "decision_precedence d = decision_precedence e \<longleftrightarrow> d = e"
  by (cases d; cases e) simp_all

text \<open>Decisions ordered by precedence, so that the library's \<open>Max\<close> and \<open>\<le>\<close> apply.\<close>

instantiation decision :: linorder
begin

definition less_eq_decision :: "decision \<Rightarrow> decision \<Rightarrow> bool" where
  "d \<le> e \<longleftrightarrow> decision_precedence d \<le> decision_precedence e"

definition less_decision :: "decision \<Rightarrow> decision \<Rightarrow> bool" where
  "d < e \<longleftrightarrow> decision_precedence d < decision_precedence e"

instance
  by standard (auto simp: less_eq_decision_def less_decision_def)

end

lemma decision_order [simp]:
  "Allow \<le> d" "d \<le> Block" "Block \<le> d \<longleftrightarrow> d = Block" "d \<le> Allow \<longleftrightarrow> d = Allow"
  by (cases d; simp add: less_eq_decision_def)+

text \<open>\<open>strongest\<close>: the empty list allows.\<close>

fun strongest_decision :: "decision list \<Rightarrow> decision" where
  "strongest_decision [] = Allow"
| "strongest_decision (d # ds) = max_by decision_precedence d ds"

lemma strongest_decision_in: "ds \<noteq> [] \<Longrightarrow> strongest_decision ds \<in> set ds"
  using max_by_in [of decision_precedence] by (cases ds) auto

lemma strongest_decision_ge: "d \<in> set ds \<Longrightarrow> d \<le> strongest_decision ds"
  using max_by_ge [of d _ _ decision_precedence] by (cases ds) (auto simp: less_eq_decision_def)

lemma strongest_decision_Max: "ds \<noteq> [] \<Longrightarrow> strongest_decision ds = Max (set ds)"
  by (metis List.finite_set Max_eqI strongest_decision_ge strongest_decision_in)

lemma strongest_decision_perm: "set ds = set es \<Longrightarrow> strongest_decision ds = strongest_decision es"
  by (metis set_empty strongest_decision.simps(1) strongest_decision_Max)

lemma strongest_decision_Block_iff: "strongest_decision ds = Block \<longleftrightarrow> Block \<in> set ds"
proof
  assume b: "strongest_decision ds = Block"
  then have "ds \<noteq> []" by auto
  with b show "Block \<in> set ds" using strongest_decision_in by metis
next
  assume "Block \<in> set ds"
  then show "strongest_decision ds = Block" using strongest_decision_ge by fastforce
qed

lemma strongest_decision_Allow_iff: "strongest_decision ds = Allow \<longleftrightarrow> set ds \<subseteq> {Allow}"
proof
  assume a: "strongest_decision ds = Allow"
  show "set ds \<subseteq> {Allow}"
    using strongest_decision_ge [of _ ds] a by auto
next
  assume s: "set ds \<subseteq> {Allow}"
  show "strongest_decision ds = Allow"
    using strongest_decision_in [of ds] s by (cases "ds = []") auto
qed

section \<open>Payloads\<close>

datatype classification = PUBLIC | INTERNAL | CONFIDENTIAL | PII

datatype environment = Dev | Staging | Production

fun classification_value :: "classification \<Rightarrow> string" where
  "classification_value PUBLIC = ''PUBLIC''"
| "classification_value INTERNAL = ''INTERNAL''"
| "classification_value CONFIDENTIAL = ''CONFIDENTIAL''"
| "classification_value PII = ''PII''"

fun environment_value :: "environment \<Rightarrow> string" where
  "environment_value Dev = ''dev''"
| "environment_value Staging = ''staging''"
| "environment_value Production = ''production''"

record chunk =
  chunk_id :: string
  chunk_text :: string
  chunk_source :: "string option"
  chunk_metadata :: jobj

record tool_call =
  tc_name :: string
  tc_arguments :: jobj
  tc_result :: json \<comment> \<open>\<open>JNull\<close> when only the call is guarded\<close>

datatype role = RSystem | RUser | RAssistant | RTool

record message =
  msg_role :: role
  msg_content :: string

record payload =
  pl_stage :: stage
  pl_text :: "string option"
  pl_messages :: "message list option"
  pl_chunks :: "chunk list option"
  pl_tool_call :: "tool_call option"
  pl_extensions :: jobj

record security_context =
  ctx_request_id :: string
  ctx_trace_id :: string
  ctx_tenant_id :: string
  ctx_agent_id :: string
  ctx_user_id :: "string option"
  ctx_session_id :: "string option"
  ctx_action :: string
  ctx_resource :: "string option"
  ctx_arguments :: jobj
  ctx_trust_score :: int
  ctx_risk_score :: int
  ctx_data_classification :: classification
  ctx_environment :: environment
  ctx_delegation_chain :: "string list"
  ctx_tool_metadata :: "jobj option"

text \<open>The field bounds pydantic enforces when a context is built.\<close>

definition security_context_valid :: "security_context \<Rightarrow> bool" where
  "security_context_valid c \<longleftrightarrow>
     0 \<le> ctx_trust_score c \<and> ctx_trust_score c \<le> 100 \<and>
     0 \<le> ctx_risk_score c \<and> ctx_risk_score c \<le> 100"

text \<open>
  \<open>Payload._has_content_for_stage\<close>, the validator that runs when a payload is built. The
  left value is the message of the \<open>ValueError\<close>.
\<close>

definition validate_payload :: "payload \<Rightarrow> string + payload" where
  "validate_payload p =
     (if pl_stage p \<in> {Input, Output} then
        (if pl_text p = None \<and> (pl_messages p = None \<or> pl_messages p = Some []) then
           Inl (stage_value (pl_stage p) @ '' payload needs `text` or `messages`'')
         else Inr p)
      else if pl_stage p = Retrieval then
        (if pl_chunks p = None then Inl ''retrieval payload needs `chunks`'' else Inr p)
      else if pl_stage p = Tool then
        (if pl_tool_call p = None then Inl ''tool payload needs `tool_call`'' else Inr p)
      else Inr p)"

lemma validate_payload_Inr: "validate_payload p = Inr q \<Longrightarrow> q = p"
  by (auto simp: validate_payload_def split: if_splits)

text \<open>\<open>self.same_shape_as(other)\<close>, on the original and the modified copy.\<close>

definition same_shape_as :: "payload \<Rightarrow> payload \<Rightarrow> bool" where
  "same_shape_as p q =
     (if pl_stage p \<noteq> pl_stage q then False
      else if (pl_text p = None) \<noteq> (pl_text q = None) then False
      else if (pl_messages p = None) \<noteq> (pl_messages q = None) then False
      else if (case (pl_messages p, pl_messages q) of
                 (Some ms, Some ns) \<Rightarrow> map msg_role ms \<noteq> map msg_role ns
               | _ \<Rightarrow> False) then False
      else if (pl_chunks p = None) \<noteq> (pl_chunks q = None) then False
      else if (case (pl_chunks p, pl_chunks q) of
                 (Some cs, Some ds) \<Rightarrow> \<not> set (map chunk_id ds) \<subseteq> set (map chunk_id cs)
               | _ \<Rightarrow> False) then False
      else if (pl_tool_call p = None) \<noteq> (pl_tool_call q = None) then False
      else if (case (pl_tool_call p, pl_tool_call q) of
                 (Some t, Some u) \<Rightarrow> tc_name t \<noteq> tc_name u
               | _ \<Rightarrow> False) then False
      else True)"

text \<open>The same relation, field by field: \<open>rel_option\<close> says present on both sides or on neither.\<close>

lemma same_shape_iff:
  "same_shape_as p q \<longleftrightarrow>
     pl_stage p = pl_stage q \<and>
     rel_option (\<lambda>_ _. True) (pl_text p) (pl_text q) \<and>
     rel_option (\<lambda>ms ns. map msg_role ms = map msg_role ns) (pl_messages p) (pl_messages q) \<and>
     rel_option (\<lambda>cs ds. chunk_id ` set ds \<subseteq> chunk_id ` set cs) (pl_chunks p) (pl_chunks q) \<and>
     rel_option (\<lambda>t u. tc_name t = tc_name u) (pl_tool_call p) (pl_tool_call q)"
  by (cases "pl_text p"; cases "pl_text q"; cases "pl_messages p"; cases "pl_messages q";
      cases "pl_chunks p"; cases "pl_chunks q"; cases "pl_tool_call p"; cases "pl_tool_call q";
      simp add: same_shape_as_def)

lemma rel_option_trans:
  "rel_option P x y \<Longrightarrow> rel_option Q y z \<Longrightarrow> (\<And>a b c. P a b \<Longrightarrow> Q b c \<Longrightarrow> R a c) \<Longrightarrow> rel_option R x z"
  by (cases x; cases y; cases z) auto

lemma same_shape_refl [simp]: "same_shape_as p p"
  by (simp add: same_shape_iff option.rel_refl)

lemma same_shape_trans:
  assumes "same_shape_as p q" "same_shape_as q r"
  shows "same_shape_as p r"
  using assms unfolding same_shape_iff
  by (elim conjE, intro conjI) (simp, (erule (1) rel_option_trans, force)+)

lemma same_shape_stage: "same_shape_as p q \<Longrightarrow> pl_stage q = pl_stage p"
  by (simp add: same_shape_iff)

lemma same_shape_tool_name:
  "same_shape_as p q \<Longrightarrow> pl_tool_call p = Some t \<Longrightarrow> \<exists>u. pl_tool_call q = Some u \<and> tc_name u = tc_name t"
  by (cases "pl_tool_call q") (auto simp: same_shape_iff)

lemma same_shape_chunk_ids:
  "same_shape_as p q \<Longrightarrow> pl_chunks p = Some cs \<Longrightarrow>
   \<exists>ds. pl_chunks q = Some ds \<and> chunk_id ` set ds \<subseteq> chunk_id ` set cs"
  by (cases "pl_chunks q") (auto simp: same_shape_iff)

section \<open>Results of guardrails\<close>

record finding =
  f_type :: string
  f_score :: real
  f_start :: "int option"
  f_end :: "int option"
  f_location :: "string option"

record guardrail_result =
  gr_decision :: decision
  gr_reason :: string
  gr_risk_score :: int
  gr_modified_payload :: "payload option"
  gr_findings :: "finding list"
  gr_metadata :: jobj
  gr_latency_ms :: real

text \<open>
  The field bound of \<open>risk_score\<close> and \<open>GuardrailResult._modify_needs_payload\<close>: what
  every result that exists satisfies.
\<close>

definition guardrail_result_valid :: "guardrail_result \<Rightarrow> bool" where
  "guardrail_result_valid r \<longleftrightarrow>
     0 \<le> gr_risk_score r \<and> gr_risk_score r \<le> 100 \<and>
     \<not> (gr_decision r = Modify \<and> gr_modified_payload r = None) \<and>
     str_strip (gr_reason r) \<noteq> []"

record guardrail_outcome =
  go_guardrail_id :: string
  go_version :: string
  go_decision :: decision
  go_reason :: string
  go_risk_score :: int
  go_latency_ms :: real
  go_mode :: string
  go_error :: "string option"
  go_findings :: "finding list"

end
