(* ===== verification/Descriptors.thy ===== *)
theory Descriptors
  imports Sdk_Models
begin

text \<open>
  Action descriptors (\<^verbatim>\<open>app/context/descriptors.py\<close>): what a request does. This theory
  holds the descriptor itself and the helpers that read tool arguments and names.
\<close>

datatype action_kind = DSql | DHttp | DFile | DMessage | DModel | DUnknown

datatype verb = VRead | VWrite | VDelete | VSend | VExecute | VAdmin | VUnknown

datatype destination = Internal | External

fun verb_value :: "verb \<Rightarrow> string" where
  "verb_value VRead = ''read''"
| "verb_value VWrite = ''write''"
| "verb_value VDelete = ''delete''"
| "verb_value VSend = ''send''"
| "verb_value VExecute = ''execute''"
| "verb_value VAdmin = ''admin''"
| "verb_value VUnknown = ''unknown''"

fun kind_value :: "action_kind \<Rightarrow> string" where
  "kind_value DSql = ''sql''"
| "kind_value DHttp = ''http''"
| "kind_value DFile = ''file''"
| "kind_value DMessage = ''message''"
| "kind_value DModel = ''model''"
| "kind_value DUnknown = ''unknown''"

fun destination_value :: "destination \<Rightarrow> string" where
  "destination_value Internal = ''internal''"
| "destination_value External = ''external''"

fun verb_severity :: "verb \<Rightarrow> nat" where
  "verb_severity VRead = 0"
| "verb_severity VSend = 1"
| "verb_severity VWrite = 2"
| "verb_severity VExecute = 3"
| "verb_severity VDelete = 3"
| "verb_severity VAdmin = 4"
| "verb_severity VUnknown = 5"

record action_descriptor =
  ad_kind :: action_kind
  ad_verb :: verb
  ad_target :: "string option"
  ad_tables :: "string list"
  ad_columns :: "string list"
  ad_rows_requested :: "int option"
  ad_has_limit :: "bool option"
  ad_has_filter :: "bool option"
  ad_destination :: "destination option"
  ad_destination_host :: "string option"
  ad_statements :: nat
  ad_notes :: "string list"

definition plain_descriptor :: "action_kind \<Rightarrow> verb \<Rightarrow> string option \<Rightarrow> action_descriptor" where
  "plain_descriptor k v target = \<lparr>ad_kind = k, ad_verb = v, ad_target = target, ad_tables = [],
     ad_columns = [], ad_rows_requested = None, ad_has_limit = None, ad_has_filter = None,
     ad_destination = None, ad_destination_host = None, ad_statements = 1, ad_notes = []\<rparr>"

definition ad_parsed :: "action_descriptor \<Rightarrow> bool" where
  "ad_parsed d \<longleftrightarrow> ad_kind d \<noteq> DUnknown \<and> ad_verb d \<noteq> VUnknown"

definition ad_writes :: "action_descriptor \<Rightarrow> bool" where
  "ad_writes d \<longleftrightarrow> ad_verb d \<in> {VWrite, VDelete, VSend, VExecute, VAdmin}"

section \<open>Arguments\<close>

fun first_str :: "jobj \<Rightarrow> string list \<Rightarrow> string option" where
  "first_str args [] = None"
| "first_str args (k # ks) =
     (case obj_get args k of
        JStr s \<Rightarrow> if str_strip s \<noteq> [] then Some s else first_str args ks
      | _ \<Rightarrow> first_str args ks)"

fun first_present :: "jobj \<Rightarrow> string list \<Rightarrow> json option" where
  "first_present args [] = None"
| "first_present args (k # ks) =
     (if truthy (obj_get args k) then Some (obj_get args k) else first_present args ks)"

definition row_arg_keys :: "string list" where
  "row_arg_keys = [''limit'', ''max_rows'', ''rows'', ''count'', ''top'', ''page_size'']"

definition sql_keys :: "string list" where
  "sql_keys = [''sql'', ''query'', ''statement'']"

text \<open>\<open>{**request_arguments, **tool_arguments}\<close>: the tool's value wins, in place.\<close>

definition merge_args :: "jobj option \<Rightarrow> jobj option \<Rightarrow> jobj" where
  "merge_args request tool =
     foldl (\<lambda>acc (k, v). AList.update k v acc) []
       ((case request of None \<Rightarrow> [] | Some r \<Rightarrow> r) @ (case tool of None \<Rightarrow> [] | Some t \<Rightarrow> t))"

definition sql_text :: "jobj option \<Rightarrow> jobj option \<Rightarrow> string option" where
  "sql_text tool_arguments request_arguments =
     first_str (merge_args request_arguments tool_arguments) sql_keys"

text \<open>\<open>_int_arg\<close>: the first argument that is a non-negative integer or a string of digits.\<close>

fun int_arg_of :: "jobj \<Rightarrow> string list \<Rightarrow> int option" where
  "int_arg_of args [] = None"
| "int_arg_of args (k # ks) =
     (case obj_get args k of
        JBool _ \<Rightarrow> int_arg_of args ks
      | JInt i \<Rightarrow> if 0 \<le> i then Some i else int_arg_of args ks
      | JStr s \<Rightarrow>
          if s \<noteq> [] \<and> list_all is_digit s
          then Some (foldl (\<lambda>n c. 10 * n + (of_char c - 48)) 0 s) else int_arg_of args ks
      | _ \<Rightarrow> int_arg_of args ks)"

definition int_arg :: "jobj \<Rightarrow> int option" where
  "int_arg args = int_arg_of args row_arg_keys"

section \<open>Verbs from names\<close>

definition name_verbs :: "(verb \<times> string list) list" where
  "name_verbs =
    [(VDelete, [''delete'', ''remove'', ''drop'', ''purge'', ''destroy'', ''truncate'', ''erase'']),
     (VAdmin, [''grant'', ''revoke'', ''admin'', ''permission'', ''role'', ''policy'', ''config'']),
     (VExecute, [''exec'', ''execute'', ''run'', ''shell'', ''eval'', ''script'', ''invoke'', ''command'']),
     (VSend, [''send'', ''email'', ''notify'', ''publish'', ''post_message'', ''message'', ''webhook'',
              ''share'', ''upload'']),
     (VWrite, [''create'', ''update'', ''put'', ''post'', ''write'', ''insert'', ''set'', ''save'',
               ''patch'', ''modify'', ''edit'']),
     (VRead, [''get'', ''list'', ''read'', ''search'', ''fetch'', ''query'', ''describe'', ''lookup'',
              ''find'', ''export'', ''select''])]"

text \<open>The maximal runs of \<open>[a-z0-9]\<close>: \<open>re.split\<close> on the rest, without empty parts.\<close>

definition name_char :: "char \<Rightarrow> bool" where
  "name_char c \<longleftrightarrow>
     (let n = of_char c :: nat in (97 \<le> n \<and> n \<le> 122) \<or> (48 \<le> n \<and> n \<le> 57))"

function name_words :: "string \<Rightarrow> string list" where
  "name_words [] = []"
| "name_words (c # cs) =
     (if name_char c then (c # takeWhile name_char cs) # name_words (dropWhile name_char cs)
      else name_words cs)"
  by pat_completeness auto

termination
  by (relation "measure length") (auto simp: le_imp_less_Suc length_dropWhile_le)

definition needle_matches :: "string list \<Rightarrow> string \<Rightarrow> bool" where
  "needle_matches words n \<longleftrightarrow>
     n \<in> set words \<or> (CHR ''_'' \<in> set n \<and> sublist n (join ''_'' words))"

fun verb_of_words :: "string list \<Rightarrow> (verb \<times> string list) list \<Rightarrow> verb" where
  "verb_of_words words [] = VUnknown"
| "verb_of_words words ((v, needles) # rest) =
     (if list_ex (needle_matches words) needles then v else verb_of_words words rest)"

definition verb_from_name :: "string \<Rightarrow> verb" where
  "verb_from_name name = verb_of_words (name_words (str_lower name)) name_verbs"

end
