(* ===== verification/Session_Store.thy ===== *)
theory Session_Store
  imports Sdk_Models
begin

text \<open>
  What the gateway remembers between requests
  (\<^verbatim>\<open>app/session/store.py\<close>): the session view and update, the per-replica
  \<open>MemorySessionStore\<close> with its bounded least-recently-used dictionaries, and the
  interface \<open>session_memory\<close> of the laws a store promises to the contextual decisions,
  which the memory store fulfils. Times are seconds, Python's floats are reals. The Redis
  store issues Redis commands and is not modelled.
\<close>

section \<open>Views and updates\<close>

definition SESSION_TTL :: real where "SESSION_TTL = 8 * 3600"
definition SEEN_TTL :: real where "SEEN_TTL = 90 * 86400"
definition DENIAL_WINDOW :: real where "DENIAL_WINDOW = 15 * 60"
definition VOLUME_WINDOW :: nat where "VOLUME_WINDOW = 200"
definition MAX_PENALTIES :: nat where "MAX_PENALTIES = 50"
definition MAX_RECENT_DENIALS :: nat where "MAX_RECENT_DENIALS = 100"

lemmas store_constants = SESSION_TTL_def SEEN_TTL_def DENIAL_WINDOW_def VOLUME_WINDOW_def
  MAX_PENALTIES_def MAX_RECENT_DENIALS_def

record penalty =
  pen_code :: string
  pen_points :: int
  pen_half_life_days :: real
  pen_at :: real

definition penalty_remaining :: "penalty \<Rightarrow> real \<Rightarrow> real" where
  "penalty_remaining p now =
     (let age_days = max 0 (now - pen_at p) / 86400 in
      of_int (pen_points p) * 2 powr (- age_days / pen_half_life_days p))"

record session_view =
  sv_available :: bool
  sv_has_session :: bool
  sv_age_seconds :: real
  sv_steps :: nat
  sv_denials :: nat
  sv_labels :: "string set"
  sv_quarantined_until :: real
  sv_first_seen_target :: "bool option"
  sv_volume_p95 :: "real option"
  sv_volume_samples :: nat
  sv_penalties :: "penalty list"
  sv_penalised :: bool
  sv_agent_recent_denials :: nat
  sv_agent_quarantined_until :: real

definition quarantined :: "session_view \<Rightarrow> real \<Rightarrow> bool" where
  "quarantined v now \<longleftrightarrow> now < sv_quarantined_until v \<or> now < sv_agent_quarantined_until v"

record session_update =
  su_denied :: bool
  su_allowed :: bool
  su_labels :: "string set"
  su_target :: "string option"
  su_volume_key :: "string option"
  su_rows :: "int option"
  su_quarantine_seconds :: int
  su_agent_quarantine_seconds :: int
  su_penalty :: "penalty option"

text \<open>
  The 95th percentile: \<open>math.ceil(0.95 * n)\<close> is the integer division below for every
  window length the store keeps (at most 200).
\<close>

definition p95 :: "real list \<Rightarrow> real option" where
  "p95 values =
     (if values = [] then None
      else (let s = sort values; n = length s in
            Some (s ! (min (n - 1) ((19 * n + 19) div 20 - 1)))))"

lemma p95_None [simp]: "p95 vs = None \<longleftrightarrow> vs = []"
  by (simp add: p95_def Let_def)

lemma p95_in: "p95 vs = Some x \<Longrightarrow> x \<in> set vs"
proof -
  assume a: "p95 vs = Some x"
  then have "vs \<noteq> []" by (auto simp: p95_def)
  then have lt: "min (length vs - 1) k < length vs" for k
    by (cases vs) auto
  from a have x: "x = sort vs ! min (length vs - 1) ((19 * length vs + 19) div 20 - 1)"
    by (simp add: p95_def Let_def split: if_splits)
  have "x \<in> set (sort vs)"
    unfolding x by (rule nth_mem) (simp only: length_sort lt)
  then show ?thesis by simp
qed

section \<open>The memory store\<close>

record agent_entry =
  ae_exp :: real
  ae_seen :: "(string \<times> real) list"
  ae_vol :: "(string \<times> real list) list"
  ae_pen :: "penalty list"
  ae_den :: "real list"
  ae_aq :: real

record session_state =
  ss_started :: real
  ss_steps :: nat
  ss_denials :: nat
  ss_labels :: "string set"
  ss_quarantined_until :: real
  ss_penalised :: bool

record session_entry =
  se_exp :: real
  se_state :: "session_state option" \<comment> \<open>\<open>None\<close> until \<open>started\<close> is written\<close>

type_synonym session_key = "string \<times> string \<times> string"
type_synonym agent_key = "string \<times> string"

record memory_store =
  ms_max :: nat
  ms_sessions :: "(session_key \<times> session_entry) list"
  ms_agents :: "(agent_key \<times> agent_entry) list"

definition fresh_agent :: "real \<Rightarrow> agent_entry" where
  "fresh_agent e = \<lparr>ae_exp = e, ae_seen = [], ae_vol = [], ae_pen = [], ae_den = [], ae_aq = 0\<rparr>"

definition fresh_session :: "real \<Rightarrow> session_entry" where
  "fresh_session e = \<lparr>se_exp = e, se_state = None\<rparr>"

text \<open>\<open>_touch\<close>: the live entry or a fresh one, moved to the end, the oldest entries dropped.\<close>

definition touch ::
  "nat \<Rightarrow> ('e \<Rightarrow> real) \<Rightarrow> (real \<Rightarrow> 'e) \<Rightarrow> real \<Rightarrow> ('k \<times> 'e) list \<Rightarrow> 'k \<Rightarrow> real \<Rightarrow> 'e \<times> ('k \<times> 'e) list" where
  "touch mx expiry fresh now d key ttl =
     (let entry = (case map_of d key of
                     None \<Rightarrow> fresh (now + ttl)
                   | Some e \<Rightarrow> if expiry e \<le> now then fresh (now + ttl) else e)
      in (entry, lru_trim mx (lru_put key entry d)))"

text \<open>Writing through a reference to an entry: it stays where it is, if it is still there.\<close>

definition mutate :: "'k \<Rightarrow> 'e \<Rightarrow> ('k \<times> 'e) list \<Rightarrow> ('k \<times> 'e) list" where
  "mutate key e d = map (\<lambda>(k, v). if k = key then (k, e) else (k, v)) d"

definition live_agent :: "memory_store \<Rightarrow> real \<Rightarrow> agent_key \<Rightarrow> agent_entry" where
  "live_agent st now key =
     (case map_of (ms_agents st) key of
        None \<Rightarrow> fresh_agent 0
      | Some a \<Rightarrow> if ae_exp a \<le> now then fresh_agent 0 else a)"

definition live_session :: "memory_store \<Rightarrow> real \<Rightarrow> session_key \<Rightarrow> session_state option" where
  "live_session st now key =
     (case map_of (ms_sessions st) key of
        None \<Rightarrow> None
      | Some s \<Rightarrow> if se_exp s \<le> now then None else se_state s)"

definition nonempty :: "string option \<Rightarrow> bool" where
  [simp]: "nonempty s \<longleftrightarrow> s \<noteq> None \<and> s \<noteq> Some []"

definition agent_part :: "agent_entry \<Rightarrow> real \<Rightarrow> string option \<Rightarrow> string option \<Rightarrow> session_view" where
  "agent_part a now target vkey =
     (let vols = (if nonempty vkey
                  then (case map_of (ae_vol a) (the vkey) of None \<Rightarrow> [] | Some vs \<Rightarrow> vs) else []) in
      \<lparr>sv_available = True, sv_has_session = False, sv_age_seconds = 0, sv_steps = 0, sv_denials = 0,
       sv_labels = {}, sv_quarantined_until = 0,
       sv_first_seen_target =
         (if nonempty target
          then Some ((case map_of (ae_seen a) (the target) of None \<Rightarrow> 0 | Some t \<Rightarrow> t) \<le> now - SEEN_TTL)
          else None),
       sv_volume_p95 = p95 vols, sv_volume_samples = length vols, sv_penalties = ae_pen a,
       sv_penalised = False,
       sv_agent_recent_denials = length (filter (\<lambda>t. now - DENIAL_WINDOW < t) (ae_den a)),
       sv_agent_quarantined_until = ae_aq a\<rparr>)"

definition memory_view ::
  "memory_store \<Rightarrow> real \<Rightarrow> string \<Rightarrow> string \<Rightarrow> string option \<Rightarrow> string option \<Rightarrow> string option \<Rightarrow>
   session_view" where
  "memory_view st now tenant agent sid target vkey =
     (let base = agent_part (live_agent st now (tenant, agent)) now target vkey;
          s = (if nonempty sid then live_session st now (tenant, agent, the sid) else None) in
      case s of
        None \<Rightarrow> base
      | Some x \<Rightarrow> base\<lparr>sv_has_session := True, sv_age_seconds := now - ss_started x,
                       sv_steps := ss_steps x, sv_denials := ss_denials x, sv_labels := ss_labels x,
                       sv_quarantined_until := ss_quarantined_until x,
                       sv_penalised := ss_penalised x\<rparr>)"

text \<open>The agent half of \<open>record\<close>, on the touched entry.\<close>

definition push_volume :: "session_update \<Rightarrow> (string \<times> real list) list \<Rightarrow> (string \<times> real list) list" where
  "push_volume u vol =
     (if su_allowed u \<and> nonempty (su_volume_key u) \<and> su_rows u \<noteq> None
      then (let k = the (su_volume_key u);
                w = (case map_of vol k of None \<Rightarrow> [] | Some vs \<Rightarrow> vs) @ [of_int (the (su_rows u))]
            in AList.update k (drop (length w - VOLUME_WINDOW) w) vol)
      else vol)"

definition update_agent :: "real \<Rightarrow> session_update \<Rightarrow> agent_entry \<Rightarrow> agent_entry" where
  "update_agent now u a = a\<lparr>
     ae_exp := now + SEEN_TTL,
     ae_seen := (if su_allowed u \<and> nonempty (su_target u)
                 then AList.update (the (su_target u)) now (ae_seen a) else ae_seen a),
     ae_vol := push_volume u (ae_vol a),
     ae_pen := (case su_penalty u of Some p \<Rightarrow> take MAX_PENALTIES (p # ae_pen a) | None \<Rightarrow> ae_pen a),
     ae_den := (if su_denied u
                then drop (length (ae_den a @ [now]) - MAX_RECENT_DENIALS) (ae_den a @ [now])
                else ae_den a),
     ae_aq := (if su_agent_quarantine_seconds u \<noteq> 0
               then max (ae_aq a) (now + of_int (su_agent_quarantine_seconds u)) else ae_aq a)\<rparr>"

text \<open>The session half.\<close>

definition new_session_state :: "real \<Rightarrow> session_state" where
  "new_session_state now = \<lparr>ss_started = now, ss_steps = 0, ss_denials = 0, ss_labels = {},
     ss_quarantined_until = 0, ss_penalised = False\<rparr>"

definition update_session :: "real \<Rightarrow> session_update \<Rightarrow> session_entry \<Rightarrow> session_entry" where
  "update_session now u s =
     (let x = (case se_state s of None \<Rightarrow> new_session_state now | Some x \<Rightarrow> x) in
      \<lparr>se_exp = now + SESSION_TTL,
       se_state = Some (x\<lparr>
         ss_steps := ss_steps x + 1,
         ss_denials := ss_denials x + (if su_denied u then 1 else 0),
         ss_labels := ss_labels x \<union> su_labels u,
         ss_quarantined_until :=
           (if su_quarantine_seconds u \<noteq> 0
            then max (ss_quarantined_until x) (now + of_int (su_quarantine_seconds u))
            else ss_quarantined_until x),
         ss_penalised := (ss_penalised x \<or> su_penalty u \<noteq> None)\<rparr>)\<rparr>)"

definition memory_record ::
  "memory_store \<Rightarrow> real \<Rightarrow> string \<Rightarrow> string \<Rightarrow> string option \<Rightarrow> session_update \<Rightarrow> memory_store" where
  "memory_record st now tenant agent sid u =
     (let (a, agents) = touch (ms_max st) ae_exp fresh_agent now (ms_agents st) (tenant, agent) SEEN_TTL;
          st = st\<lparr>ms_agents := mutate (tenant, agent) (update_agent now u a) agents\<rparr>
      in if \<not> nonempty sid then st
         else (let key = (tenant, agent, the sid);
                   (s, sessions) = touch (ms_max st) se_exp fresh_session now (ms_sessions st) key SESSION_TTL
               in st\<lparr>ms_sessions := mutate key (update_session now u s) sessions\<rparr>))"

section \<open>What recording changes\<close>

lemma map_of_mutate: "map_of (mutate key e d) k =
    (if k = key then (case map_of d k of None \<Rightarrow> None | Some _ \<Rightarrow> Some e) else map_of d k)"
  by (induction d) (auto simp: mutate_def)

lemma map_of_mutate_touched:
  assumes "distinct (map fst d)" "0 < n"
  shows "map_of (mutate key e (lru_trim n (lru_put key v d))) key = Some e"
  by (simp only: map_of_mutate map_of_trim_put [OF assms] simp_thms if_True option.case)

lemma fst_mutate [simp]: "map fst (mutate key e d) = map fst d"
  by (induction d) (auto simp: mutate_def)

lemma length_mutate [simp]: "length (mutate key e d) = length d"
  by (simp add: mutate_def)

definition store_inv :: "memory_store \<Rightarrow> bool" where
  "store_inv st \<longleftrightarrow>
     0 < ms_max st \<and> length (ms_sessions st) \<le> ms_max st \<and> length (ms_agents st) \<le> ms_max st \<and>
     distinct (map fst (ms_sessions st)) \<and> distinct (map fst (ms_agents st))"

definition empty_store :: "nat \<Rightarrow> memory_store" where
  "empty_store mx = \<lparr>ms_max = mx, ms_sessions = [], ms_agents = []\<rparr>"

lemma store_inv_empty [inv_intros]: "0 < mx \<Longrightarrow> store_inv (empty_store mx)"
  by (simp add: store_inv_def empty_store_def)

lemma memory_record_max [simp]: "ms_max (memory_record st now t a sid u) = ms_max st"
  by (simp add: memory_record_def touch_def Let_def)

lemma store_inv_record [inv_intros]: "store_inv st \<Longrightarrow> store_inv (memory_record st now t a sid u)"
  by (auto simp: store_inv_def memory_record_def touch_def Let_def)

text \<open>The touched entry is the live one or a fresh one; after the write it holds the new value.\<close>

lemma record_agent_entry:
  assumes "store_inv st"
  shows "map_of (ms_agents (memory_record st now t a sid u)) (t, a) =
     Some (update_agent now u
       (case map_of (ms_agents st) (t, a) of
          None \<Rightarrow> fresh_agent (now + SEEN_TTL)
        | Some e \<Rightarrow> if ae_exp e \<le> now then fresh_agent (now + SEEN_TTL) else e))"
proof -
  have "distinct (map fst (ms_agents st))" "0 < ms_max st"
    using assms by (simp_all add: store_inv_def)
  then show ?thesis
    by (simp add: memory_record_def touch_def Let_def map_of_mutate_touched
        del: map_of_eq_Some_iff)
qed

lemma record_session_entry:
  assumes "store_inv st" "sid \<noteq> []"
  shows "map_of (ms_sessions (memory_record st now t a (Some sid) u)) (t, a, sid) =
     Some (update_session now u
       (case map_of (ms_sessions st) (t, a, sid) of
          None \<Rightarrow> fresh_session (now + SESSION_TTL)
        | Some e \<Rightarrow> if se_exp e \<le> now then fresh_session (now + SESSION_TTL) else e))"
proof -
  have "distinct (map fst (ms_sessions st))" "0 < ms_max st"
    using assms(1) by (simp_all add: store_inv_def)
  then show ?thesis
    using assms(2) by (simp add: memory_record_def touch_def Let_def map_of_mutate_touched
        del: map_of_eq_Some_iff)
qed

lemma update_agent_simps [simp]:
  "ae_exp (update_agent now u a) = now + SEEN_TTL"
  "ae_aq (update_agent now u a) =
     (if su_agent_quarantine_seconds u \<noteq> 0
      then max (ae_aq a) (now + of_int (su_agent_quarantine_seconds u)) else ae_aq a)"
  by (simp_all add: update_agent_def)

definition session_of :: "memory_store \<Rightarrow> real \<Rightarrow> session_key \<Rightarrow> session_state" where
  "session_of st now key =
     (case live_session st now key of None \<Rightarrow> new_session_state now | Some x \<Rightarrow> x)"

lemma live_session_record:
  assumes "store_inv st" "sid \<noteq> []" "now' < now + SESSION_TTL"
  shows "live_session (memory_record st now t a (Some sid) u) now' (t, a, sid) =
    se_state (update_session now u \<lparr>se_exp = 0, se_state = Some (session_of st now (t, a, sid))\<rparr>)"
  using assms
  by (auto simp: live_session_def record_session_entry session_of_def update_session_def
      fresh_session_def Let_def split: option.split)

lemma live_agent_record:
  assumes "store_inv st" "now' < now + SEEN_TTL"
  shows "live_agent (memory_record st now t a sid u) now' (t, a) =
    update_agent now u (live_agent st now (t, a))"
proof -
  have "update_agent now u (fresh_agent x) = update_agent now u (fresh_agent y)" for x y
    by (simp add: update_agent_def fresh_agent_def split: option.split)
  with assms show ?thesis
    by (auto simp: live_agent_def record_agent_entry split: option.split)
qed

section \<open>The interface\<close>

text \<open>A run of updates of one session, each with its time.\<close>

fun run_updates ::
  "('s \<Rightarrow> real \<Rightarrow> string \<Rightarrow> string \<Rightarrow> string option \<Rightarrow> session_update \<Rightarrow> 's) \<Rightarrow>
   's \<Rightarrow> string \<Rightarrow> string \<Rightarrow> string \<Rightarrow> (real \<times> session_update) list \<Rightarrow> 's" where
  "run_updates rec st t a sid [] = st"
| "run_updates rec st t a sid ((now, u) # us) = run_updates rec (rec st now t a (Some sid) u) t a sid us"

text \<open>Times go forward, with no pause as long as a session's lifetime, up to \<open>end_time\<close>.\<close>

fun active_until :: "real \<Rightarrow> (real \<times> session_update) list \<Rightarrow> real \<Rightarrow> bool" where
  "active_until start [] end_time \<longleftrightarrow> start \<le> end_time \<and> end_time < start + SESSION_TTL"
| "active_until start ((now, u) # us) end_time \<longleftrightarrow>
     start \<le> now \<and> now < start + SESSION_TTL \<and> active_until now us end_time"

text \<open>
  The laws the contextual decisions rest on. \<open>fits st t a sid\<close> says that recording for this
  session drops nobody else's entry. Within the session's lifetime a later view shows every
  label, denial and quarantine that was recorded; other agents' views are untouched.
\<close>

locale session_memory =
  fixes view :: "'s \<Rightarrow> real \<Rightarrow> string \<Rightarrow> string \<Rightarrow> string option \<Rightarrow> string option \<Rightarrow> string option \<Rightarrow> session_view"
    and record_update :: "'s \<Rightarrow> real \<Rightarrow> string \<Rightarrow> string \<Rightarrow> string option \<Rightarrow> session_update \<Rightarrow> 's"
    and invar :: "'s \<Rightarrow> bool"
    and fits :: "'s \<Rightarrow> string \<Rightarrow> string \<Rightarrow> string option \<Rightarrow> bool"
  assumes invar_record: "invar st \<Longrightarrow> invar (record_update st now t a osid u)"
    and view_session:
      "invar st \<Longrightarrow> sid \<noteq> [] \<Longrightarrow> now \<le> now' \<Longrightarrow> now' < now + SESSION_TTL \<Longrightarrow>
       sv_has_session (view (record_update st now t a (Some sid) u) now' t a (Some sid) tgt vk) \<and>
       sv_labels (view (record_update st now t a (Some sid) u) now' t a (Some sid) tgt vk) =
         sv_labels (view st now t a (Some sid) tgt vk) \<union> su_labels u \<and>
       sv_denials (view (record_update st now t a (Some sid) u) now' t a (Some sid) tgt vk) =
         sv_denials (view st now t a (Some sid) tgt vk) + (if su_denied u then 1 else 0) \<and>
       sv_quarantined_until (view (record_update st now t a (Some sid) u) now' t a (Some sid) tgt vk) =
         (if su_quarantine_seconds u \<noteq> 0
          then max (sv_quarantined_until (view st now t a (Some sid) tgt vk))
                   (now + of_int (su_quarantine_seconds u))
          else sv_quarantined_until (view st now t a (Some sid) tgt vk))"
    and view_agent:
      "invar st \<Longrightarrow> now \<le> now' \<Longrightarrow> now' < now + SEEN_TTL \<Longrightarrow>
       sv_agent_quarantined_until (view (record_update st now t a osid u) now' t a osid' tgt vk) =
         (if su_agent_quarantine_seconds u \<noteq> 0
          then max (sv_agent_quarantined_until (view st now t a osid' tgt vk))
                   (now + of_int (su_agent_quarantine_seconds u))
          else sv_agent_quarantined_until (view st now t a osid' tgt vk))"
    and view_other:
      "invar st \<Longrightarrow> fits st t a osid \<Longrightarrow> (t', a') \<noteq> (t, a) \<Longrightarrow>
       view (record_update st now t a osid u) now' t' a' osid' tgt vk = view st now' t' a' osid' tgt vk"
begin

lemma labels_persist:
  assumes "invar st" "sid \<noteq> []" "active_until now us end_time"
    and "l \<in> sv_labels (view (record_update st now t a (Some sid) u) now t a (Some sid) tgt vk)"
  shows "l \<in> sv_labels (view (run_updates record_update (record_update st now t a (Some sid) u) t a sid us)
                          end_time t a (Some sid) tgt vk)"
  using assms
proof (induction us arbitrary: st now u)
  case Nil
  then show ?case
    using view_session [of st sid now end_time t a u tgt vk] view_session [of st sid now now t a u tgt vk]
    by (simp add: SESSION_TTL_def)
next
  case (Cons x us)
  obtain now2 u2 where x: "x = (now2, u2)" by (cases x)
  let ?st = "record_update st now t a (Some sid) u"
  have inv: "invar ?st" by (rule invar_record) fact
  have time: "now \<le> now2" "now2 < now + SESSION_TTL" "active_until now2 us end_time"
    using Cons.prems(3) x by simp_all
  have "l \<in> sv_labels (view ?st now2 t a (Some sid) tgt vk)"
    using Cons.prems(1,2,4) time view_session [of st sid now now2 t a u tgt vk]
      view_session [of st sid now now t a u tgt vk] by (simp add: SESSION_TTL_def)
  then have "l \<in> sv_labels (view (record_update ?st now2 t a (Some sid) u2) now2 t a (Some sid) tgt vk)"
    using inv Cons.prems(2) view_session [of ?st sid now2 now2 t a u2 tgt vk] by (simp add: SESSION_TTL_def)
  from Cons.IH [OF inv Cons.prems(2) time(3) this] show ?case by (simp add: x)
qed

lemma quarantine_holds:
  assumes "invar st" "sid \<noteq> []" "0 < su_quarantine_seconds u"
    and "now \<le> now'" "now' < now + of_int (su_quarantine_seconds u)" "now' < now + SESSION_TTL"
  shows "quarantined (view (record_update st now t a (Some sid) u) now' t a (Some sid) tgt vk) now'"
  using assms view_session [of st sid now now' t a u tgt vk] by (auto simp: quarantined_def)

lemma agent_quarantine_holds:
  assumes "invar st" "0 < su_agent_quarantine_seconds u"
    and "now \<le> now'" "now' < now + of_int (su_agent_quarantine_seconds u)" "now' < now + SEEN_TTL"
  shows "quarantined (view (record_update st now t a sid u) now' t a sid' tgt vk) now'"
  using assms view_agent [of st now now' t a sid u sid' tgt vk] by (auto simp: quarantined_def)

end

text \<open>The memory store has room when the entries it touches exist or both lists are below the bound.\<close>

definition has_room :: "memory_store \<Rightarrow> string \<Rightarrow> string \<Rightarrow> string option \<Rightarrow> bool" where
  "has_room st t a sid \<longleftrightarrow>
     ((t, a) \<in> fst ` set (ms_agents st) \<or> length (ms_agents st) < ms_max st) \<and>
     (\<not> nonempty sid \<or> (t, a, the sid) \<in> fst ` set (ms_sessions st) \<or> length (ms_sessions st) < ms_max st)"

lemma length_lru_put_le:
  assumes "length d \<le> n" "k \<in> fst ` set d \<or> length d < n"
  shows "length (lru_put k v d) \<le> n"
proof (cases "k \<in> fst ` set d")
  case True
  then have "length (removeAll k (map fst d)) < length (map fst d)"
    by (intro length_removeAll_less) simp
  then have "length (AList.delete k d) < length d"
    by (metis delete_keys length_map)
  with assms(1) show ?thesis by (simp add: lru_put_def)
next
  case False
  with assms show ?thesis by (simp add: lru_put_def)
qed

lemma lru_trim_put_other:
  assumes "length d \<le> n" "k \<in> fst ` set d \<or> length d < n" "k' \<noteq> k"
  shows "map_of (lru_trim n (lru_put k v d)) k' = map_of d k'"
  using length_lru_put_le [OF assms(1,2), of v] assms(3) by simp

lemma memory_view_session:
  assumes "store_inv st" "sid \<noteq> []" "now \<le> now'" "now' < now + SESSION_TTL"
  shows "sv_has_session (memory_view (memory_record st now t a (Some sid) u) now' t a (Some sid) tgt vk) \<and>
       sv_labels (memory_view (memory_record st now t a (Some sid) u) now' t a (Some sid) tgt vk) =
         sv_labels (memory_view st now t a (Some sid) tgt vk) \<union> su_labels u \<and>
       sv_denials (memory_view (memory_record st now t a (Some sid) u) now' t a (Some sid) tgt vk) =
         sv_denials (memory_view st now t a (Some sid) tgt vk) + (if su_denied u then 1 else 0) \<and>
       sv_quarantined_until (memory_view (memory_record st now t a (Some sid) u) now' t a (Some sid) tgt vk) =
         (if su_quarantine_seconds u \<noteq> 0
          then max (sv_quarantined_until (memory_view st now t a (Some sid) tgt vk))
                   (now + of_int (su_quarantine_seconds u))
          else sv_quarantined_until (memory_view st now t a (Some sid) tgt vk))"
  using assms
  by (cases "live_session st now (t, a, sid)")
    (simp_all add: memory_view_def Let_def live_session_record session_of_def update_session_def
      new_session_state_def agent_part_def)

lemma memory_view_agent:
  assumes "store_inv st" "now \<le> now'" "now' < now + SEEN_TTL"
  shows "sv_agent_quarantined_until (memory_view (memory_record st now t a sid u) now' t a sid' tgt vk) =
         (if su_agent_quarantine_seconds u \<noteq> 0
          then max (sv_agent_quarantined_until (memory_view st now t a sid' tgt vk))
                   (now + of_int (su_agent_quarantine_seconds u))
          else sv_agent_quarantined_until (memory_view st now t a sid' tgt vk))"
proof -
  have q: "sv_agent_quarantined_until (memory_view s n t a sid' tgt vk) = ae_aq (live_agent s n (t, a))"
    for s n by (simp add: memory_view_def Let_def agent_part_def split: option.split)
  show ?thesis using assms by (simp add: q live_agent_record)
qed

lemma memory_record_agents_other:
  assumes "store_inv st" "has_room st t a sid" "key \<noteq> (t, a)"
  shows "map_of (ms_agents (memory_record st now t a sid u)) key = map_of (ms_agents st) key"
  using assms lru_trim_put_other [of "ms_agents st" "ms_max st" "(t, a)" key]
  by (simp add: memory_record_def touch_def Let_def map_of_mutate store_inv_def has_room_def)

lemma memory_record_sessions_other:
  assumes "store_inv st" "has_room st t a sid" "(fst key, fst (snd key)) \<noteq> (t, a)"
  shows "map_of (ms_sessions (memory_record st now t a sid u)) key = map_of (ms_sessions st) key"
proof (cases "nonempty sid")
  case True
  have ne: "key \<noteq> (t, a, the sid)" using assms(3) by auto
  show ?thesis
    using True assms(1,2) ne lru_trim_put_other [OF _ _ ne, of "ms_sessions st" "ms_max st"]
    by (simp add: memory_record_def touch_def Let_def map_of_mutate store_inv_def has_room_def)
qed (simp add: memory_record_def Let_def touch_def split: if_splits)

lemma memory_view_other:
  assumes "store_inv st" "has_room st t a sid" "(t', a') \<noteq> (t, a)"
  shows "memory_view (memory_record st now t a sid u) now' t' a' sid' tgt vk =
         memory_view st now' t' a' sid' tgt vk"
  using memory_record_agents_other [OF assms(1,2), of "(t', a')" now u]
    memory_record_sessions_other [OF assms(1,2), of "(t', a', the sid')" now u] assms(3)
  by (simp add: memory_view_def live_agent_def live_session_def)

interpretation memory: session_memory memory_view memory_record store_inv has_room
  by unfold_locales
    (rule store_inv_record memory_view_session memory_view_agent memory_view_other; assumption)+

end
