(* ===== verification/Risk_Engine.thy ===== *)
theory Risk_Engine
  imports Descriptors Session_Store
begin

text \<open>
  Risk v2 (\<^verbatim>\<open>app/risk/engine.py\<close>): the additive, capped, reason-coded score, the agent's
  current trust and the band. Floats are reals here; the comparisons of \<open>band_for\<close> and the
  roundings of the confidence penalty give the same result in double precision for every
  score and trust in \<open>0..100\<close> and every combination of missing context.
\<close>

datatype band = Low | Elevated | High | Critical

fun band_value :: "band \<Rightarrow> string" where
  "band_value Low = ''low''"
| "band_value Elevated = ''elevated''"
| "band_value High = ''high''"
| "band_value Critical = ''critical''"

fun band_rank :: "band \<Rightarrow> nat" where
  "band_rank Low = 0"
| "band_rank Elevated = 1"
| "band_rank High = 2"
| "band_rank Critical = 3"

instantiation band :: linorder
begin

definition less_eq_band :: "band \<Rightarrow> band \<Rightarrow> bool" where
  "a \<le> b \<longleftrightarrow> band_rank a \<le> band_rank b"

definition less_band :: "band \<Rightarrow> band \<Rightarrow> bool" where
  "a < b \<longleftrightarrow> band_rank a < band_rank b"

instance
proof
  fix a b :: band
  show "a \<le> b \<Longrightarrow> b \<le> a \<Longrightarrow> a = b"
    by (cases a; cases b) (simp_all add: less_eq_band_def)
qed (auto simp: less_eq_band_def less_band_def)

end

record risk_config =
  rc_new_resource :: int
  rc_volume_cap :: int
  rc_volume_no_baseline :: int
  rc_volume_min_rows :: int
  rc_volume_min_samples :: nat
  rc_cold_start_rows :: int
  rc_unbounded_read :: int
  rc_sensitive_then_external :: int
  rc_tainted_session :: int
  rc_low_assurance_production :: int
  rc_new_session :: int
  rc_new_session_seconds :: int
  rc_repeated_denials_cap :: int
  rc_destructive_verb :: int
  rc_unknown_tool :: int
  rc_multiple_statements :: int
  rc_confidence_penalty :: int
  rc_agent_finding :: int
  rc_tool_definition_changed :: int
  rc_elevated_row_limit :: int
  rc_penalty_after_denials :: nat
  rc_denial_penalty_points :: int
  rc_denial_penalty_half_life_days :: real
  rc_quarantine_after_denials :: nat
  rc_quarantine_seconds :: int
  rc_agent_quarantine_after_denials :: nat

definition default_risk_config :: risk_config where
  "default_risk_config = \<lparr>rc_new_resource = 15, rc_volume_cap = 25, rc_volume_no_baseline = 10,
     rc_volume_min_rows = 100, rc_volume_min_samples = 20, rc_cold_start_rows = 1000,
     rc_unbounded_read = 15, rc_sensitive_then_external = 30, rc_tainted_session = 15,
     rc_low_assurance_production = 20, rc_new_session = 5, rc_new_session_seconds = 300,
     rc_repeated_denials_cap = 20, rc_destructive_verb = 10, rc_unknown_tool = 15,
     rc_multiple_statements = 10, rc_confidence_penalty = 20, rc_agent_finding = 20,
     rc_tool_definition_changed = 25, rc_elevated_row_limit = 1000, rc_penalty_after_denials = 3,
     rc_denial_penalty_points = 10, rc_denial_penalty_half_life_days = 7,
     rc_quarantine_after_denials = 5, rc_quarantine_seconds = 900,
     rc_agent_quarantine_after_denials = 10\<rparr>"

record signal =
  sg_code :: string
  sg_points :: int
  sg_detail :: string

record assessment =
  am_score :: int
  am_band :: band
  am_trust :: int
  am_confidence :: real
  am_inherent :: int
  am_signals :: "signal list"

definition am_codes :: "assessment \<Rightarrow> string list" where
  "am_codes a = map sg_code (am_signals a)"

definition sig :: "string \<Rightarrow> int \<Rightarrow> string \<Rightarrow> signal" where
  "sig c p d = \<lparr>sg_code = c, sg_points = p, sg_detail = d\<rparr>"

definition current_trust :: "int \<Rightarrow> session_view \<Rightarrow> real \<Rightarrow> int" where
  "current_trust base v now =
     (let lost = sum_list (map (\<lambda>p. penalty_remaining p now) (sv_penalties v)) in
      max 0 (min base (py_round (of_int base - lost))))"

definition band_for :: "int \<Rightarrow> int \<Rightarrow> band" where
  "band_for score trust =
     (if 80 \<le> score then Critical
      else if of_int score < 30 + (1/5) * (of_int trust :: real) then Low
      else if of_int score < min 80 (55 + (1/5) * (of_int trust :: real)) then Elevated
      else High)"

text \<open>Each signal is the list of at most one signal, so that \<open>assess\<close> reads in the code's order.\<close>

definition new_resource_signal :: "risk_config \<Rightarrow> action_descriptor \<Rightarrow> session_view \<Rightarrow> stage \<Rightarrow> signal list" where
  "new_resource_signal cfg d v stg =
     (if ad_kind d \<noteq> DModel \<and> nonempty (ad_target d) \<and> sv_first_seen_target v = Some True \<and> stg = Tool
      then [sig ''NEW_RESOURCE'' (rc_new_resource cfg)
              (''first access to '' @ the (ad_target d) @ '' in 90 days'')]
      else [])"

definition has_baseline :: "risk_config \<Rightarrow> session_view \<Rightarrow> bool" where
  "has_baseline cfg v \<longleftrightarrow> sv_volume_p95 v \<noteq> None \<and> rc_volume_min_samples cfg \<le> sv_volume_samples v"

definition volume_signal :: "risk_config \<Rightarrow> action_descriptor \<Rightarrow> session_view \<Rightarrow> signal list" where
  "volume_signal cfg d v =
     (case ad_rows_requested d of
        None \<Rightarrow> []
      | Some rows \<Rightarrow>
          if ad_kind d \<noteq> DModel \<and> rc_volume_min_rows cfg \<le> rows then
            (if has_baseline cfg v then
               (let p = the (sv_volume_p95 v); ratio = of_int rows / max p 1 in
                if 2 \<le> ratio
                then [sig (''VOLUME_'' @ str_int \<lfloor>ratio\<rfloor> @ ''X'')
                        (min (rc_volume_cap cfg) (py_round (8 * log 2 ratio)))
                        (str_int rows @ '' rows vs p95 '' @ str_int (py_round p))]
                else [])
             else if rc_cold_start_rows cfg \<le> rows
             then [sig ''VOLUME_NO_BASELINE'' (rc_volume_no_baseline cfg)
                     (str_int rows @ '' rows, no baseline yet'')]
             else [])
          else [])"

definition unbounded_signal :: "risk_config \<Rightarrow> action_descriptor \<Rightarrow> signal list" where
  "unbounded_signal cfg d =
     (if ad_kind d = DSql \<and> ad_verb d = VRead \<and> ad_rows_requested d = None \<and> ad_has_filter d = Some False
      then [sig ''UNBOUNDED_READ'' (rc_unbounded_read cfg) ''no LIMIT and no WHERE''] else [])"

definition holds_sensitive :: "session_view \<Rightarrow> classification \<Rightarrow> bool" where
  "holds_sensitive v c \<longleftrightarrow>
     ''holds:PII'' \<in> sv_labels v \<or> ''holds:CONFIDENTIAL'' \<in> sv_labels v \<or> c = PII \<or> c = CONFIDENTIAL"

definition exfiltration_signal ::
  "risk_config \<Rightarrow> action_descriptor \<Rightarrow> session_view \<Rightarrow> classification \<Rightarrow> signal list" where
  "exfiltration_signal cfg d v c =
     (if ad_destination d = Some External \<and> ad_verb d \<in> {VSend, VWrite} \<and> holds_sensitive v c
      then [sig ''SENSITIVE_THEN_EXTERNAL'' (rc_sensitive_then_external cfg)
              (''sensitive data to '' @
               (case ad_destination_host d of None \<Rightarrow> ''None'' | Some h \<Rightarrow> h))]
      else [])"

definition taint_signal :: "risk_config \<Rightarrow> session_view \<Rightarrow> stage \<Rightarrow> signal list" where
  "taint_signal cfg v stg =
     (if stg = Tool \<and> ''untrusted_input'' \<in> sv_labels v
      then [sig ''TAINTED_SESSION'' (rc_tainted_session cfg) ''session read untrusted content''] else [])"

definition assurance_signal :: "risk_config \<Rightarrow> string \<Rightarrow> environment \<Rightarrow> signal list" where
  "assurance_signal cfg assurance env =
     (if assurance = ''A0'' \<and> env = Production
      then [sig ''LOW_ASSURANCE'' (rc_low_assurance_production cfg) ''agent_id is only claimed (A0)'']
      else [])"

definition session_signal :: "risk_config \<Rightarrow> session_view \<Rightarrow> bool \<Rightarrow> signal list" where
  "session_signal cfg v has_session_id =
     (if \<not> has_session_id then [sig ''NO_SESSION'' (rc_new_session cfg) ''no session_id'']
      else if \<not> sv_has_session v \<or> sv_age_seconds v < of_int (rc_new_session_seconds cfg)
      then [sig ''NEW_SESSION'' (rc_new_session cfg) ''session started recently'']
      else [])"

definition denials_signal :: "risk_config \<Rightarrow> session_view \<Rightarrow> signal list" where
  "denials_signal cfg v =
     (let denials = max (sv_denials v) (sv_agent_recent_denials v) in
      if 1 \<le> denials
      then [sig ''REPEATED_DENIALS'' (min (rc_repeated_denials_cap cfg) (10 * int denials))
              (str_int (int denials) @ '' recent denial(s)'')]
      else [])"

definition verb_signals :: "risk_config \<Rightarrow> action_descriptor \<Rightarrow> stage \<Rightarrow> signal list" where
  "verb_signals cfg d stg =
     (if stg = Tool \<and> ad_verb d \<in> {VDelete, VAdmin}
      then [sig ''DESTRUCTIVE_VERB'' (rc_destructive_verb cfg) (verb_value (ad_verb d))] else []) @
     (if stg = Tool \<and> \<not> ad_parsed d
      then [sig ''UNKNOWN_TOOL'' (rc_unknown_tool cfg)
              (let n = join ''; '' (ad_notes d) in if n = [] then ''unrecognised tool'' else n)]
      else []) @
     (if 1 < ad_statements d
      then [sig ''MULTIPLE_STATEMENTS'' (rc_multiple_statements cfg)
              (str_int (int (ad_statements d)) @ '' statements'')]
      else [])"

definition inventory_signals :: "risk_config \<Rightarrow> string list \<Rightarrow> stage \<Rightarrow> bool \<Rightarrow> signal list" where
  "inventory_signals cfg agent_findings stg tool_flagged =
     (if agent_findings \<noteq> []
      then [sig ''AGENT_FINDING'' (rc_agent_finding cfg) (join '', '' (sorted_list_of_set (set agent_findings)))]
      else []) @
     (if stg = Tool \<and> tool_flagged
      then [sig ''TOOL_DEFINITION_CHANGED'' (rc_tool_definition_changed cfg) ''changed since it was approved'']
      else [])"

text \<open>The share of the context that was there, in hundredths.\<close>

definition confidence100 ::
  "risk_config \<Rightarrow> action_descriptor \<Rightarrow> session_view \<Rightarrow> stage \<Rightarrow> bool \<Rightarrow> int" where
  "confidence100 cfg d v stg has_session_id =
     (if sv_available v then 30 else 0) +
     (if has_session_id then 20 else 0) +
     (if ad_parsed d \<or> stg \<noteq> Tool then 30 else 0) +
     (if ad_rows_requested d = None \<or> has_baseline cfg v then 20 else 0)"

definition two_digits :: "int \<Rightarrow> string" where
  "two_digits n = (if n < 10 then ''0'' else []) @ str_int n"

definition format2 :: "int \<Rightarrow> string" where
  \<comment> \<open>\<open>f"{c:.2f}"\<close> for a number of hundredths\<close>
  "format2 c = str_int (c div 100) @ ''.'' @ two_digits (c mod 100)"

definition confidence_penalty :: "risk_config \<Rightarrow> int \<Rightarrow> int" where
  "confidence_penalty cfg c = py_round (of_int (rc_confidence_penalty cfg) * (1 - of_int c / 100))"

definition confidence_signal :: "risk_config \<Rightarrow> int \<Rightarrow> signal list" where
  "confidence_signal cfg c =
     (if confidence_penalty cfg c \<noteq> 0
      then [sig ''LOW_CONFIDENCE'' (confidence_penalty cfg c) (''confidence '' @ format2 c)] else [])"

record assess_input =
  ai_inherent :: int
  ai_base_trust :: int
  ai_descriptor :: action_descriptor
  ai_stage :: stage
  ai_environment :: environment
  ai_assurance :: string
  ai_data_classification :: classification
  ai_has_session_id :: bool
  ai_agent_findings :: "string list"
  ai_tool_flagged :: bool

definition assess_signals :: "risk_config \<Rightarrow> session_view \<Rightarrow> assess_input \<Rightarrow> signal list" where
  "assess_signals cfg v i =
     (let d = ai_descriptor i; stg = ai_stage i in
      new_resource_signal cfg d v stg @ volume_signal cfg d v @ unbounded_signal cfg d @
      exfiltration_signal cfg d v (ai_data_classification i) @ taint_signal cfg v stg @
      assurance_signal cfg (ai_assurance i) (ai_environment i) @
      session_signal cfg v (ai_has_session_id i) @ denials_signal cfg v @ verb_signals cfg d stg @
      inventory_signals cfg (ai_agent_findings i) stg (ai_tool_flagged i) @
      confidence_signal cfg (confidence100 cfg d v stg (ai_has_session_id i)))"

definition assess :: "risk_config \<Rightarrow> real \<Rightarrow> session_view \<Rightarrow> assess_input \<Rightarrow> assessment" where
  "assess cfg now v i =
     (let sigs = assess_signals cfg v i;
          score = max 0 (min 100 (ai_inherent i + sum_list (map sg_points sigs)));
          trust = current_trust (ai_base_trust i) v now
      in \<lparr>am_score = score, am_band = band_for score trust, am_trust = trust,
          am_confidence =
            of_int (confidence100 cfg (ai_descriptor i) v (ai_stage i) (ai_has_session_id i)) / 100,
          am_inherent = ai_inherent i, am_signals = sigs\<rparr>)"

end
