(* ===== verification/Verify_Model.thy ===== *)
theory Verify_Model
  imports Json_Text Risk_Engine
begin

text \<open>
  Assurance gaps and plans (\<^verbatim>\<open>app/verify/model.py\<close>, \<^verbatim>\<open>app/verify/planner.py\<close>,
  \<^verbatim>\<open>app/verify/dryrun.py\<close>): what an action needs, what the context and the evidence
  give, the gap between the two, the cheapest set of verifiers that closes it, and the SQL dry
  run. The database's planner is a parameter: from a target and a statement it answers a row
  estimate or an exception (a time-out is one).
\<close>

datatype dim = Identity | Authorization | Resource | Behaviour | Effect

type_synonym levels = "(dim \<times> int) list"

definition EVIDENCE_TTL :: real where "EVIDENCE_TTL = 10 * 60"
definition VERIFICATION_TTL :: real where "VERIFICATION_TTL = 10 * 60"

record evidence =
  ev_kind :: string
  ev_request_hash :: string
  ev_passed :: bool
  ev_strength :: levels
  ev_detail :: jobj
  ev_issued_at :: real
  ev_expires_at :: real

datatype verification_status = Pending | Confirmed | Rejected | Expired

record verification =
  ve_id :: string
  ve_tenant_id :: string
  ve_request_hash :: string
  ve_kind :: string
  ve_agent_id :: string
  ve_user_id :: "string option"
  ve_summary :: string
  ve_status :: verification_status
  ve_created_at :: real
  ve_expires_at :: real

section \<open>Which request\<close>

text \<open>\<open>sha256\<close> of a text, in hexadecimal, is a parameter.\<close>

record request_id_parts =
  rq_tenant :: string
  rq_agent_id :: string
  rq_stage :: string
  rq_action :: string
  rq_resource :: "string option"
  rq_user_id :: "string option"
  rq_session_id :: "string option"
  rq_payload_sha256 :: string
  rq_request_sha256 :: string

definition or_empty :: "string option \<Rightarrow> string" where
  "or_empty x = (case x of None \<Rightarrow> [] | Some s \<Rightarrow> s)"

definition request_parts :: "request_id_parts \<Rightarrow> string list" where
  "request_parts r =
     [rq_tenant r, rq_agent_id r, rq_stage r, rq_action r, or_empty (rq_resource r),
      or_empty (rq_user_id r), or_empty (rq_session_id r), rq_payload_sha256 r, rq_request_sha256 r]"

definition request_hash :: "(string \<Rightarrow> string) \<Rightarrow> request_id_parts \<Rightarrow> string" where
  "request_hash sha256 r = sha256 (json_string_list (request_parts r))"

section \<open>Needs and haves\<close>

text \<open>\<open>need[dim] = level\<close>\<close>

abbreviation set_level :: "dim \<Rightarrow> int \<Rightarrow> levels \<Rightarrow> levels" where
  "set_level \<equiv> AList.update"

definition level_of :: "levels \<Rightarrow> dim \<Rightarrow> int" where
  "level_of ls x = (case map_of ls x of None \<Rightarrow> 0 | Some l \<Rightarrow> l)"

definition required :: "action_descriptor \<Rightarrow> string list \<Rightarrow> environment \<Rightarrow> levels" where
  "required d codes env =
     (let n0 = [];
          n1 = (if ad_kind d = DSql \<and> ad_verb d = VRead
                then set_level Effect 1 (set_level Resource 2 n0) else n0);
          n2 = (if ad_writes d \<and> ad_destination d = Some External then set_level Authorization 2 n1 else n1);
          n3 = (if ad_verb d \<in> {VDelete, VAdmin, VExecute}
                then set_level Effect 1 (set_level Authorization 2 n2) else n2);
          n4 = (if \<not> ad_parsed d then set_level Authorization 2 n3 else n3);
          n5 = (if ''TAINTED_SESSION'' \<in> set codes then set_level Behaviour 1 n4 else n4);
          n6 = (if env = Production then set_level Identity 1 n5 else n5)
      in if n6 = [] then set_level Authorization 2 n6 else n6)"

definition base_levels :: "string \<Rightarrow> action_descriptor \<Rightarrow> string list \<Rightarrow> levels" where
  "base_levels assurance d codes =
     [(Identity, if assurance \<in> {''A1'', ''A2'', ''A3'', ''A4''} then 1 else 0),
      (Authorization, 0),
      (Resource, if ad_parsed d \<and> nonempty (ad_target d) then 1 else 0),
      (Behaviour, if ''TAINTED_SESSION'' \<in> set codes \<or> ''REPEATED_DENIALS'' \<in> set codes then 0 else 1),
      (Effect, 0)]"

definition raise_level :: "levels \<Rightarrow> dim \<times> int \<Rightarrow> levels" where
  "raise_level have dl =
     (case map_of have (fst dl) of
        None \<Rightarrow> have
      | Some l \<Rightarrow> set_level (fst dl) (max l (snd dl)) have)"

definition current_levels :: "string \<Rightarrow> action_descriptor \<Rightarrow> string list \<Rightarrow> evidence list \<Rightarrow> levels" where
  "current_levels assurance d codes evs =
     foldl (\<lambda>have ev. if ev_passed ev then foldl raise_level have (ev_strength ev) else have)
       (base_levels assurance d codes) evs"

definition gap :: "levels \<Rightarrow> levels \<Rightarrow> levels" where
  "gap need have = filter (\<lambda>(x, l). level_of have x < l) need"

definition summary_for :: "string \<Rightarrow> action_descriptor \<Rightarrow> string" where
  "summary_for agent d =
     (let v = verb_value (ad_verb d);
          target_or = (\<lambda>dflt. if nonempty (ad_target d) then the (ad_target d) else dflt) in
      if ad_kind d = DSql then
        agent @ '' wants to '' @ v @ '' '' @
        (case ad_rows_requested d of
           Some n \<Rightarrow> ''up to '' @ str_int n @ '' rows'' | None \<Rightarrow> ''all matching rows'') @
        (if ad_columns d \<noteq> [] then '' ('' @ join '', '' (take 6 (ad_columns d)) @ '')'' else []) @
        '' from '' @
        (let tables = join '', '' (ad_tables d) in
         if tables \<noteq> [] then tables else target_or ''a database'')
      else if ad_kind d \<in> {DHttp, DMessage} \<and> nonempty (ad_destination_host d) then
        agent @ '' wants to '' @ v @ '' data to '' @ the (ad_destination_host d) @ '' ('' @
        (case ad_destination d of None \<Rightarrow> ''unknown'' | Some x \<Rightarrow> destination_value x) @ '' destination)''
      else if ad_kind d = DFile then
        agent @ '' wants to '' @ v @ '' '' @ target_or ''a file''
      else
        agent @ '' wants to run a '' @ v @ '' action on '' @ target_or ''an unrecognised tool'')"

section \<open>Plans\<close>

record verifier_spec =
  vs_kind :: string
  vs_closes :: levels
  vs_cost :: int
  vs_inline :: bool
  vs_human :: bool

definition DRY_RUN :: verifier_spec where
  "DRY_RUN = \<lparr>vs_kind = ''dry_run'', vs_closes = [(Resource, 2), (Effect, 1)], vs_cost = 5,
     vs_inline = True, vs_human = False\<rparr>"

definition USER_CONFIRMATION :: verifier_spec where
  "USER_CONFIRMATION = \<lparr>vs_kind = ''user_confirmation'', vs_closes = [(Authorization, 2), (Behaviour, 1)],
     vs_cost = 500, vs_inline = False, vs_human = False\<rparr>"

definition HUMAN_APPROVAL :: verifier_spec where
  "HUMAN_APPROVAL = \<lparr>vs_kind = ''human_approval'',
     vs_closes = [(Identity, 1), (Authorization, 2), (Resource, 2), (Behaviour, 1), (Effect, 1)],
     vs_cost = 10000, vs_inline = False, vs_human = True\<rparr>"

definition needs_human_review :: "verifier_spec list \<Rightarrow> bool" where
  "needs_human_review steps \<longleftrightarrow> list_ex vs_human steps"

definition plan_inline :: "verifier_spec list \<Rightarrow> verifier_spec list" where
  "plan_inline steps = filter vs_inline steps"

definition plan_pending :: "verifier_spec list \<Rightarrow> verifier_spec list" where
  "plan_pending steps = filter (\<lambda>s. \<not> vs_inline s \<and> \<not> vs_human s) steps"

definition plan_kinds :: "verifier_spec list \<Rightarrow> string list" where
  "plan_kinds steps = map vs_kind steps"

text \<open>\<open>itertools.combinations(xs, r)\<close>, in its order.\<close>

fun combinations :: "nat \<Rightarrow> 'a list \<Rightarrow> 'a list list" where
  "combinations 0 xs = [[]]"
| "combinations (Suc r) [] = []"
| "combinations (Suc r) (x # xs) = map ((#) x) (combinations r xs) @ combinations (Suc r) xs"

definition closes_gap :: "levels \<Rightarrow> verifier_spec list \<Rightarrow> bool" where
  "closes_gap g combo \<longleftrightarrow>
     list_all (\<lambda>(x, l). list_ex (\<lambda>v. l \<le> level_of (vs_closes v) x) combo) g"

definition plan_key :: "verifier_spec list \<Rightarrow> int \<times> nat" where
  "plan_key combo = (sum_list (map vs_cost combo), length (filter (\<lambda>v. \<not> vs_inline v) combo))"

text \<open>The loop body: a closing subset replaces the best one only when its key is smaller.\<close>

definition better :: "levels \<Rightarrow> verifier_spec list option \<Rightarrow> verifier_spec list \<Rightarrow> verifier_spec list option" where
  "better g best combo =
     (if closes_gap g combo then
        (case best of
           None \<Rightarrow> Some combo
         | Some b \<Rightarrow> if plan_key combo < plan_key b then Some combo else best)
      else best)"

definition plan :: "levels \<Rightarrow> verifier_spec list \<Rightarrow> verifier_spec list option" where
  "plan g available =
     (if g = [] then None
      else
        (let machine = filter (\<lambda>v. \<not> vs_human v) available;
             combos = concat (map (\<lambda>r. combinations r machine) [1..<length machine + 1])
         in case foldl (better g) None combos of
              Some b \<Rightarrow> Some b
            | None \<Rightarrow> Some [HUMAN_APPROVAL]))"

section \<open>The dry run\<close>

datatype dry_run_result = DryRunOk "int option" | DryRunFailed string

record sql_dry_run =
  dr_targets :: "(string \<times> string) list"
  dr_explain :: "string \<Rightarrow> string \<Rightarrow> string + int"

definition dsn_for :: "sql_dry_run \<Rightarrow> string option \<Rightarrow> string option \<Rightarrow> string option" where
  "dsn_for dr tool_name resource =
     (let look = (\<lambda>k. if nonempty k then map_of (dr_targets dr) (the k) else None) in
      case look tool_name of Some dsn \<Rightarrow> Some dsn | None \<Rightarrow> look resource)"

definition dry_run_applicable ::
  "sql_dry_run \<Rightarrow> action_descriptor \<Rightarrow> string option \<Rightarrow> string option \<Rightarrow> bool" where
  "dry_run_applicable dr d tool_name resource \<longleftrightarrow>
     ad_kind d = DSql \<and> ad_verb d = VRead \<and> ad_statements d = 1 \<and> ad_parsed d \<and> ad_notes d = [] \<and>
     dsn_for dr tool_name resource \<noteq> None"

definition dry_run ::
  "sql_dry_run \<Rightarrow> string \<Rightarrow> string option \<Rightarrow> string option \<Rightarrow> dry_run_result" where
  "dry_run dr sql tool_name resource =
     (case dsn_for dr tool_name resource of
        None \<Rightarrow> DryRunFailed ''no dry-run target configured''
      | Some dsn \<Rightarrow>
          (case dr_explain dr dsn sql of
             Inl e \<Rightarrow> DryRunFailed e
           | Inr rows \<Rightarrow> DryRunOk (Some rows)))"

end
