(* ===== verification/Verify_Plan.thy ===== *)
theory Verify_Plan
  imports Verify_Model
begin

text \<open>
  Facts about gaps, levels and plans: which evidence a level rests on, when a gap is closed,
  and that the planner finds the cheapest closing set of machine verifiers.
\<close>

section \<open>Levels and gaps\<close>

lemma level_of_set_level [simp]:
  "level_of (set_level x l ls) y = (if y = x then l else level_of ls y)"
  by (simp add: level_of_def update_conv')

lemma level_of_raise:
  "level_of (raise_level hv dl) x =
     (if fst dl = x \<and> map_of hv x \<noteq> None then max (level_of hv x) (snd dl) else level_of hv x)"
  by (auto simp: raise_level_def level_of_def update_conv' split: option.splits)

lemma dom_raise [simp]: "dom (map_of (raise_level hv dl)) = dom (map_of hv)"
  by (auto simp: raise_level_def update_conv' split: option.splits)

lemma dom_raise_all [simp]: "dom (map_of (foldl raise_level hv dls)) = dom (map_of hv)"
  by (induction dls arbitrary: hv) simp_all

lemma level_of_raise_all_ge: "level_of hv x \<le> level_of (foldl raise_level hv dls) x"
proof (induction dls arbitrary: hv)
  case (Cons dl dls)
  have "level_of hv x \<le> level_of (raise_level hv dl) x" by (simp add: level_of_raise)
  with Cons.IH [of "raise_level hv dl"] show ?case by simp
qed simp

lemma level_of_raise_all_from:
  "level_of (foldl raise_level hv dls) x = level_of hv x \<or>
   (x, level_of (foldl raise_level hv dls) x) \<in> set dls"
proof (induction dls arbitrary: hv)
  case (Cons dl dls)
  have "level_of (raise_level hv dl) x = level_of hv x \<or> (x, level_of (raise_level hv dl) x) = dl"
    by (cases dl) (simp add: level_of_raise max_def)
  then show ?case
    using Cons.IH [of "raise_level hv dl"] by auto
qed simp

lemma level_of_raise_all_in:
  "(x, l) \<in> set dls \<Longrightarrow> x \<in> dom (map_of hv) \<Longrightarrow> l \<le> level_of (foldl raise_level hv dls) x"
proof (induction dls arbitrary: hv)
  case (Cons dl dls)
  show ?case
  proof (cases "dl = (x, l)")
    case True
    then have "l \<le> level_of (raise_level hv dl) x"
      using Cons.prems by (auto simp: level_of_raise)
    then show ?thesis
      using level_of_raise_all_ge [of "raise_level hv dl" x dls] by simp
  next
    case False
    then show ?thesis using Cons.IH [of "raise_level hv dl"] Cons.prems by simp
  qed
qed simp

abbreviation add_evidence_levels :: "levels \<Rightarrow> evidence \<Rightarrow> levels" where
  "add_evidence_levels hv ev \<equiv> (if ev_passed ev then foldl raise_level hv (ev_strength ev) else hv)"

lemma dom_evidence_levels [simp]:
  "dom (map_of (foldl (\<lambda>hv ev. add_evidence_levels hv ev) hv evs)) = dom (map_of hv)"
  by (induction evs arbitrary: hv) simp_all

lemma dom_base_levels [simp]: "dom (map_of (base_levels assurance d codes)) = UNIV"
proof -
  have "x \<in> dom (map_of (base_levels assurance d codes))" for x
    by (cases x) (simp_all add: base_levels_def)
  then show ?thesis by blast
qed

lemma evidence_levels_from:
  "level_of (foldl (\<lambda>hv ev. add_evidence_levels hv ev) hv evs) x = level_of hv x \<or>
   (\<exists>ev \<in> set evs. ev_passed ev \<and>
      (x, level_of (foldl (\<lambda>hv ev. add_evidence_levels hv ev) hv evs) x) \<in> set (ev_strength ev))"
proof (induction evs arbitrary: hv)
  case (Cons ev evs)
  let ?h = "add_evidence_levels hv ev"
  have "level_of ?h x = level_of hv x \<or> ev_passed ev \<and> (x, level_of ?h x) \<in> set (ev_strength ev)"
    using level_of_raise_all_from [of hv "ev_strength ev" x] by simp
  then show ?case
    using Cons.IH [of ?h] by (simp del: if_split) fastforce
qed simp

lemma evidence_levels_ge:
  "level_of hv x \<le> level_of (foldl (\<lambda>hv ev. add_evidence_levels hv ev) hv evs) x"
proof (induction evs arbitrary: hv)
  case (Cons ev evs)
  have "level_of hv x \<le> level_of (add_evidence_levels hv ev) x"
    by (simp add: level_of_raise_all_ge)
  then show ?case using Cons.IH [of "add_evidence_levels hv ev"] by simp
qed simp

text \<open>A level above what the context gives rests on a passed piece of evidence of that level.\<close>

lemma current_level_evidence:
  assumes "level_of (base_levels assurance d codes) x < level_of (current_levels assurance d codes evs) x"
  obtains ev where "ev \<in> set evs" "ev_passed ev"
    "(x, level_of (current_levels assurance d codes evs) x) \<in> set (ev_strength ev)"
  using assms evidence_levels_from [of "base_levels assurance d codes" evs x]
  unfolding current_levels_def by fastforce

lemma current_level_append:
  "level_of (current_levels assurance d codes evs) x \<le> level_of (current_levels assurance d codes (evs @ es)) x"
  by (simp add: current_levels_def evidence_levels_ge)

lemma current_level_last:
  assumes "ev_passed ev" "(x, l) \<in> set (ev_strength ev)"
  shows "l \<le> level_of (current_levels assurance d codes (evs @ [ev])) x"
proof -
  have "x \<in> dom (map_of (current_levels assurance d codes evs))"
    by (simp only: current_levels_def dom_evidence_levels dom_base_levels UNIV_I)
  from level_of_raise_all_in [OF assms(2) this] show ?thesis
    using assms(1) by (simp add: current_levels_def)
qed

lemma base_authorization [simp]: "level_of (base_levels assurance d codes) Authorization = 0"
  by (simp add: level_of_def base_levels_def)

lemma gap_Nil: "gap need hv = [] \<longleftrightarrow> list_all (\<lambda>(x, l). l \<le> level_of hv x) need"
  by (auto simp: gap_def filter_empty_conv list_all_iff)

lemma required_not_Nil: "required d codes env \<noteq> []"
proof -
  have "(if n = [] then set_level x l n else n) \<noteq> []" for n x l by simp
  then show ?thesis unfolding required_def Let_def .
qed

section \<open>The planner\<close>

lemma set_combinations:
  "set (combinations r xs) = {ys \<in> set (subseqs xs). length ys = r}"
proof (induction r xs rule: combinations.induct)
  case (1 xs)
  have "[] \<in> set (subseqs xs)" by (induction xs) (auto simp: Let_def)
  then show ?case by auto
next
  case (2 r)
  then show ?case by auto
next
  case (3 r x xs)
  then show ?case by (auto simp: Let_def)
qed

lemma length_subseqs_le: "ys \<in> set (subseqs xs) \<Longrightarrow> length ys \<le> length xs"
  by (induction xs arbitrary: ys) (auto simp: Let_def intro: le_SucI)

lemma set_all_combinations:
  "set (concat (map (\<lambda>r. combinations r xs) [1..<length xs + 1])) = set (subseqs xs) - {[]}"
  using length_subseqs_le by (fastforce simp: set_combinations Suc_le_eq)

lemma closes_gap_Nil: "g \<noteq> [] \<Longrightarrow> \<not> closes_gap g []"
  by (cases g) (auto simp: closes_gap_def)

lemma better_fold:
  "case foldl (better g) best cs of
     None \<Rightarrow> best = None \<and> filter (closes_gap g) cs = []
   | Some m \<Rightarrow> m \<in> set_option best \<union> set (filter (closes_gap g) cs) \<and>
       (\<forall>c \<in> set_option best \<union> set (filter (closes_gap g) cs). plan_key m \<le> plan_key c)"
proof (induction cs arbitrary: best)
  case Nil
  then show ?case by (cases best) simp_all
next
  case (Cons c cs)
  show ?case
  proof (cases "closes_gap g c")
    case False
    then have "better g best c = best" by (simp add: better_def)
    then have "foldl (better g) best (c # cs) = foldl (better g) best cs"
      "filter (closes_gap g) (c # cs) = filter (closes_gap g) cs"
      using False by simp_all
    with Cons.IH [of best] show ?thesis by (simp only:)
  next
    case True
    show ?thesis
    proof (cases best)
      case None
      with True Cons.IH [of "Some c"] show ?thesis
        by (auto simp: better_def split: option.splits)
    next
      case (Some b)
      show ?thesis
      proof (cases "plan_key c < plan_key b")
        case True
        with Some \<open>closes_gap g c\<close> Cons.IH [of "Some c"] show ?thesis
          by (auto simp: better_def split: option.splits)
      next
        case False
        with Some \<open>closes_gap g c\<close> Cons.IH [of "Some b"] show ?thesis
          by (auto simp: better_def not_less split: option.splits)
      qed
    qed
  qed
qed

text \<open>C18. The planner's answer is optimal: no plan for a closed gap; otherwise a subset of the
  available machine verifiers that closes every short dimension, with the least cost and, among
  those, the fewest people; a human reviewer exactly when no such subset exists.\<close>

theorem plan_cheapest:
  "case plan g available of
     None \<Rightarrow> g = []
   | Some steps \<Rightarrow> g \<noteq> [] \<and>
       (let closing = filter (closes_gap g) (subseqs (filter (\<lambda>v. \<not> vs_human v) available)) in
        if closing = [] then steps = [HUMAN_APPROVAL]
        else steps \<in> set closing \<and> list_all (\<lambda>c. plan_key steps \<le> plan_key c) closing)"
proof (cases "g = []")
  case True
  then show ?thesis by (simp add: plan_def)
next
  case False
  define m where "m = filter (\<lambda>v. \<not> vs_human v) available"
  define cs where "cs = concat (map (\<lambda>r. combinations r m) [1..<length m + 1])"
  have pl: "plan g available = (case foldl (better g) None cs of Some b \<Rightarrow> Some b | None \<Rightarrow> Some [HUMAN_APPROVAL])"
    using False by (simp only: plan_def Let_def m_def cs_def if_False)
  have cl: "set (filter (closes_gap g) cs) = set (filter (closes_gap g) (subseqs m))"
    using set_all_combinations [of m] closes_gap_Nil [OF False] by (auto simp: cs_def)
  show ?thesis
  proof (cases "foldl (better g) None cs")
    case None
    then have "set (filter (closes_gap g) cs) = {}"
      using better_fold [where g = g and best = None and cs = cs] by simp
    then have "filter (closes_gap g) (subseqs m) = []" by (simp only: cl set_empty)
    with False None show ?thesis by (simp add: pl m_def Let_def)
  next
    case (Some b)
    then have b: "b \<in> set (filter (closes_gap g) (subseqs m))"
      "\<forall>c \<in> set (filter (closes_gap g) (subseqs m)). plan_key b \<le> plan_key c"
      using better_fold [where g = g and best = None and cs = cs] by (simp_all only: cl [symmetric]) simp_all
    then have "filter (closes_gap g) (subseqs m) \<noteq> []" by (metis empty_iff empty_set)
    with b have "if filter (closes_gap g) (subseqs m) = [] then b = [HUMAN_APPROVAL]
      else b \<in> set (filter (closes_gap g) (subseqs m))
        \<and> list_all (\<lambda>c. plan_key b \<le> plan_key c) (filter (closes_gap g) (subseqs m))"
      unfolding list_all_iff by (simp only: if_False)
    with False Some show ?thesis unfolding pl m_def Let_def by (simp del: filter.simps)
  qed
qed


definition ex_request :: "string \<Rightarrow> request_id_parts" where
  "ex_request resource = \<lparr>rq_tenant = ''acme'', rq_agent_id = ''bot'', rq_stage = ''tool'',
     rq_action = ''email.send'', rq_resource = Some resource, rq_user_id = None, rq_session_id = None,
     rq_payload_sha256 = ''00'', rq_request_sha256 = ''11''\<rparr>"


end
