(* ===== verification/Verify_Store.thy ===== *)
theory Verify_Store
  imports Verify_Plan
begin

text \<open>
  Pending verifications and request-bound evidence (\<^verbatim>\<open>app/verify/store.py\<close>): the
  protocol the verification engine calls, as a record of effects, the per-replica memory store
  that implements it, and the contract of the protocol as a locale: an abstract map from
  requests to the evidence stored for them. The memory store is an interpretation of it. The
  clock's reading is an argument of the operations that read it.
\<close>

record 's verification_store =
  st_put :: "verification \<Rightarrow> ('s, unit) effect"
  st_get :: "string \<Rightarrow> string \<Rightarrow> real \<Rightarrow> ('s, verification option) effect"
  st_pending :: "string \<Rightarrow> string \<Rightarrow> real \<Rightarrow> ('s, verification option) effect"
  st_add :: "string \<Rightarrow> evidence \<Rightarrow> ('s, unit) effect"
  st_evidence :: "string \<Rightarrow> string \<Rightarrow> real \<Rightarrow> ('s, evidence list) effect"
  st_consume :: "string \<Rightarrow> string \<Rightarrow> ('s, unit) effect"
  st_take :: "string \<Rightarrow> string \<Rightarrow> real \<Rightarrow> ('s, evidence list) effect"

definition unexpired :: "real \<Rightarrow> evidence list \<Rightarrow> evidence list" where
  "unexpired now evs = filter (\<lambda>e. now < ev_expires_at e) evs"

section \<open>The memory store\<close>

record memory_verifications =
  mv_max :: nat
  mv_ver :: "((string \<times> string) \<times> verification) list"
  mv_pend :: "((string \<times> string) \<times> string) list"
  mv_ev :: "((string \<times> string) \<times> evidence list) list"

definition mem_put :: "verification \<Rightarrow> (memory_verifications, unit) effect" where
  "mem_put v s =
     (Inr (), s\<lparr>mv_ver := lru_trim (mv_max s) (lru_put (ve_tenant_id v, ve_id v) v (mv_ver s)),
                mv_pend :=
                  (if ve_status v = Pending
                   then lru_trim (mv_max s) (AList.update (ve_tenant_id v, ve_request_hash v) (ve_id v) (mv_pend s))
                   else mv_pend s)\<rparr>)"

definition as_of :: "real \<Rightarrow> verification \<Rightarrow> verification" where
  "as_of now v =
     (if ve_status v = Pending \<and> ve_expires_at v \<le> now then v\<lparr>ve_status := Expired\<rparr> else v)"

definition mem_get :: "string \<Rightarrow> string \<Rightarrow> real \<Rightarrow> (memory_verifications, verification option) effect" where
  "mem_get tenant vid now s = (Inr (map_option (as_of now) (map_of (mv_ver s) (tenant, vid))), s)"

definition mem_pending :: "string \<Rightarrow> string \<Rightarrow> real \<Rightarrow> (memory_verifications, verification option) effect" where
  "mem_pending tenant rh now s =
     (let v = (case map_of (mv_pend s) (tenant, rh) of
                 None \<Rightarrow> None
               | Some vid \<Rightarrow>
                   if vid = [] then None
                   else map_option (as_of now) (map_of (mv_ver s) (tenant, vid)))
      in (Inr (case v of None \<Rightarrow> None | Some w \<Rightarrow> if ve_status w = Pending then Some w else None), s))"

definition mem_add :: "string \<Rightarrow> evidence \<Rightarrow> (memory_verifications, unit) effect" where
  "mem_add tenant ev s =
     (let k = (tenant, ev_request_hash ev);
          old = (case map_of (mv_ev s) k of None \<Rightarrow> [] | Some es \<Rightarrow> es)
      in (Inr (), s\<lparr>mv_ev := lru_trim (mv_max s) (lru_put k (old @ [ev]) (mv_ev s))\<rparr>))"

definition mem_stored :: "memory_verifications \<Rightarrow> string \<Rightarrow> string \<Rightarrow> evidence list" where
  "mem_stored s tenant rh = (case map_of (mv_ev s) (tenant, rh) of None \<Rightarrow> [] | Some es \<Rightarrow> es)"

definition mem_evidence :: "string \<Rightarrow> string \<Rightarrow> real \<Rightarrow> (memory_verifications, evidence list) effect" where
  "mem_evidence tenant rh now s = (Inr (unexpired now (mem_stored s tenant rh)), s)"

definition mem_consume :: "string \<Rightarrow> string \<Rightarrow> (memory_verifications, unit) effect" where
  "mem_consume tenant rh s = (Inr (), s\<lparr>mv_ev := AList.delete (tenant, rh) (mv_ev s)\<rparr>)"

definition mem_take :: "string \<Rightarrow> string \<Rightarrow> real \<Rightarrow> (memory_verifications, evidence list) effect" where
  "mem_take tenant rh now s =
     (Inr (unexpired now (mem_stored s tenant rh)), s\<lparr>mv_ev := AList.delete (tenant, rh) (mv_ev s)\<rparr>)"

definition memory_verification_store :: "memory_verifications verification_store" where
  "memory_verification_store = \<lparr>st_put = mem_put, st_get = mem_get, st_pending = mem_pending,
     st_add = mem_add, st_evidence = mem_evidence, st_consume = mem_consume, st_take = mem_take\<rparr>"

definition empty_verifications :: "nat \<Rightarrow> memory_verifications" where
  "empty_verifications n = \<lparr>mv_max = n, mv_ver = [], mv_pend = [], mv_ev = []\<rparr>"

definition mem_recorded :: "memory_verifications \<Rightarrow> string \<Rightarrow> string \<Rightarrow> verification option" where
  "mem_recorded s tenant vid = map_of (mv_ver s) (tenant, vid)"

text \<open>The dictionaries have distinct keys, and an entry is filed under its own tenant and id.\<close>

definition mem_inv :: "memory_verifications \<Rightarrow> bool" where
  "mem_inv s \<longleftrightarrow> distinct (map fst (mv_ver s)) \<and> distinct (map fst (mv_pend s)) \<and>
     distinct (map fst (mv_ev s)) \<and> length (mv_ver s) \<le> mv_max s \<and>
     length (mv_pend s) \<le> mv_max s \<and> length (mv_ev s) \<le> mv_max s \<and>
     list_all (\<lambda>((t, i), v). ve_tenant_id v = t \<and> ve_id v = i) (mv_ver s) \<and>
     list_all (\<lambda>((t, h), evs). list_all (\<lambda>e. ev_request_hash e = h) evs) (mv_ev s)"

section \<open>The contract\<close>

text \<open>
  A store that does not fail: what it keeps for a request (\<open>stored\<close>) and its verification records
  (\<open>recorded\<close>), and how each call reads and changes the two. A bounded store may forget; it
  never makes anything up.
\<close>

locale verification_memory =
  fixes ops :: "'s verification_store"
    and inv :: "'s \<Rightarrow> bool"
    and stored :: "'s \<Rightarrow> string \<Rightarrow> string \<Rightarrow> evidence list"
    and recorded :: "'s \<Rightarrow> string \<Rightarrow> string \<Rightarrow> verification option"
  assumes inv_put: "inv s \<Longrightarrow> inv (snd (st_put ops v s))"
    and inv_add: "inv s \<Longrightarrow> inv (snd (st_add ops t e s))"
    and inv_consume: "inv s \<Longrightarrow> inv (snd (st_consume ops t h s))"
    and inv_take: "inv s \<Longrightarrow> inv (snd (st_take ops t h now s))"
    and evidence_eq: "st_evidence ops t h now s = (Inr (unexpired now (stored s t h)), s)"
    and get_eq: "st_get ops t i now s = (Inr (map_option (as_of now) (recorded s t i)), s)"
    and pending_from: "inv s \<Longrightarrow> \<exists>r. st_pending ops t h now s = (Inr r, s) \<and>
        (case r of None \<Rightarrow> True | Some v \<Rightarrow> ve_status v = Pending \<and> recorded s t (ve_id v) = Some v)"
    and take_eq: "fst (st_take ops t h now s) = Inr (unexpired now (stored s t h))"
    and put_ok: "fst (st_put ops v s) = Inr ()"
    and add_ok: "fst (st_add ops t e s) = Inr ()"
    and consume_ok: "fst (st_consume ops t h s) = Inr ()"
    and stored_put: "stored (snd (st_put ops v s)) t h = stored s t h"
    and stored_add: "inv s \<Longrightarrow> set (stored (snd (st_add ops t e s)) u h) \<subseteq>
        set (stored s u h) \<union> (if u = t \<and> h = ev_request_hash e then {e} else {})"
    and stored_consume: "stored (snd (st_consume ops t h s)) u g =
        (if u = t \<and> g = h then [] else stored s u g)"
    and stored_take: "stored (snd (st_take ops t h now s)) u g =
        (if u = t \<and> g = h then [] else stored s u g)"
    and recorded_put: "inv s \<Longrightarrow> recorded (snd (st_put ops v s)) t i \<in>
        {None, recorded s t i} \<union> (if t = ve_tenant_id v \<and> i = ve_id v then {Some v} else {})"
    and recorded_add: "recorded (snd (st_add ops t e s)) = recorded s"
    and recorded_consume: "recorded (snd (st_consume ops t h s)) = recorded s"
    and recorded_take: "recorded (snd (st_take ops t h now s)) = recorded s"
    and recorded_own: "inv s \<Longrightarrow> recorded s t i = Some v \<Longrightarrow> ve_tenant_id v = t \<and> ve_id v = i"
    and stored_own: "inv s \<Longrightarrow> e \<in> set (stored s t h) \<Longrightarrow> ev_request_hash e = h"
begin

lemma evidence_then_take:
  "fst (st_take ops t h now s) = fst (st_evidence ops t h now s)"
  by (simp add: take_eq evidence_eq)

text \<open>Evidence is handed out once: after a take there is none until some is added.\<close>

lemma take_once: "st_evidence ops t h now' (snd (st_take ops t h now s)) =
    (Inr [], snd (st_take ops t h now s))"
  by (simp add: evidence_eq stored_take unexpired_def)

end

section \<open>The memory store keeps the contract\<close>

lemma list_all_lru_trim: "list_all P d \<Longrightarrow> list_all P (lru_trim n d)"
  by (auto simp: lru_trim_def list_all_iff dest: in_set_dropD)

lemma list_all_lru_put: "list_all P d \<Longrightarrow> P (k, v) \<Longrightarrow> list_all P (lru_put k v d)"
  by (auto simp: lru_put_def list_all_iff AList.delete_eq)

lemma list_all_delete: "list_all P d \<Longrightarrow> list_all P (AList.delete k d)"
  by (auto simp: list_all_iff AList.delete_eq)

lemma length_delete_trim: "length (AList.delete k d) \<le> max 0 (length d)"
  using length_delete_le [of k d] by simp

lemma as_of_pending: "ve_status (as_of now v) = Pending \<Longrightarrow> as_of now v = v"
  by (auto simp: as_of_def split: if_splits)

lemmas mem_ops = mem_put_def mem_add_def mem_consume_def mem_take_def mem_get_def mem_evidence_def

lemma mem_stored_own:
  "mem_inv s \<Longrightarrow> e \<in> set (mem_stored s t h) \<Longrightarrow> ev_request_hash e = h"
  by (fastforce simp: mem_inv_def mem_stored_def list_all_iff dest: map_of_SomeD split: option.splits)

lemma mem_recorded_own:
  "mem_inv s \<Longrightarrow> mem_recorded s t i = Some v \<Longrightarrow> ve_tenant_id v = t \<and> ve_id v = i"
  by (fastforce simp: mem_inv_def mem_recorded_def list_all_iff dest: map_of_SomeD)

lemma mem_inv_put: "mem_inv s \<Longrightarrow> mem_inv (snd (mem_put v s))"
  by (simp add: mem_inv_def mem_put_def list_all_lru_trim list_all_lru_put distinct_update)

lemma mem_add_ev:
  "mv_ev (snd (mem_add t e s)) =
     lru_trim (mv_max s) (lru_put (t, ev_request_hash e) (mem_stored s t (ev_request_hash e) @ [e]) (mv_ev s))"
  by (simp add: mem_add_def Let_def mem_stored_def)

lemma mem_add_other [simp]:
  "mv_ver (snd (mem_add t e s)) = mv_ver s" "mv_pend (snd (mem_add t e s)) = mv_pend s"
  "mv_max (snd (mem_add t e s)) = mv_max s" "fst (mem_add t e s) = Inr ()"
  by (simp_all add: mem_add_def Let_def)

lemma mem_inv_add: "mem_inv s \<Longrightarrow> mem_inv (snd (mem_add t e s))"
proof -
  assume s: "mem_inv s"
  have "list_all (\<lambda>x. ev_request_hash x = ev_request_hash e) (mem_stored s t (ev_request_hash e) @ [e])"
    using mem_stored_own [OF s] by (auto simp: list_all_iff)
  with s show ?thesis
    unfolding mem_inv_def mem_add_ev mem_add_other
    by (intro conjI list_all_lru_trim list_all_lru_put) simp_all
qed

lemma mem_inv_delete: "mem_inv s \<Longrightarrow> mem_inv (s\<lparr>mv_ev := AList.delete k (mv_ev s)\<rparr>)"
  using length_delete_le [of k "mv_ev s"]
  by (simp add: mem_inv_def distinct_delete list_all_delete)

lemma mem_pending_from:
  assumes "mem_inv s"
  shows "\<exists>r. mem_pending t h now s = (Inr r, s) \<and>
    (case r of None \<Rightarrow> True | Some v \<Rightarrow> ve_status v = Pending \<and> mem_recorded s t (ve_id v) = Some v)"
proof -
  have "mem_recorded s t (ve_id (as_of now v)) = Some (as_of now v)"
    if "map_of (mv_ver s) (t, i) = Some v" "ve_status (as_of now v) = Pending" for i v
    using mem_recorded_own [OF assms, of t i v] that as_of_pending [OF that(2)]
    by (simp add: mem_recorded_def)
  then show ?thesis
    by (auto simp: mem_pending_def Let_def split: option.splits)
qed

lemma mem_stored_add:
  assumes "mem_inv s"
  shows "set (mem_stored (snd (mem_add t e s)) u h) \<subseteq>
    set (mem_stored s u h) \<union> (if u = t \<and> h = ev_request_hash e then {e} else {})"
proof -
  let ?d = "lru_put (t, ev_request_hash e) (mem_stored s t (ev_request_hash e) @ [e]) (mv_ev s)"
  have "distinct (map fst ?d)" using assms by (simp add: mem_inv_def)
  note sub = map_of_lru_trim [OF this, of "mv_max s" "(u, h)"]
  show ?thesis
  proof (cases "map_of (lru_trim (mv_max s) ?d) (u, h)")
    case None
    then show ?thesis by (simp add: mem_stored_def mem_add_ev)
  next
    case (Some es)
    then have new: "mem_stored (snd (mem_add t e s)) u h = es"
      by (simp add: mem_stored_def [of "snd (mem_add t e s)"] mem_add_ev)
    have "es = (if u = t \<and> h = ev_request_hash e then mem_stored s u h @ [e] else mem_stored s u h)"
      using sub [OF Some] by (auto simp: mem_stored_def [of s u h])
    then show ?thesis by (simp add: new)
  qed
qed

lemma mem_stored_delete:
  "mem_stored (s\<lparr>mv_ev := AList.delete (t, h) (mv_ev s)\<rparr>) u g = (if u = t \<and> g = h then [] else mem_stored s u g)"
  by (auto simp: mem_stored_def delete_conv')

lemma mem_recorded_put:
  assumes "mem_inv s"
  shows "mem_recorded (snd (mem_put v s)) t i \<in>
    {None, mem_recorded s t i} \<union> (if t = ve_tenant_id v \<and> i = ve_id v then {Some v} else {})"
proof -
  let ?d = "lru_put (ve_tenant_id v, ve_id v) v (mv_ver s)"
  have "distinct (map fst ?d)" using assms by (simp add: mem_inv_def)
  from map_of_lru_trim [OF this, of "mv_max s" "(t, i)"] show ?thesis
    by (cases "map_of (lru_trim (mv_max s) ?d) (t, i)")
       (auto simp: mem_recorded_def mem_put_def split: if_splits)
qed

lemma mem_recorded_same [simp]:
  "mem_recorded (snd (mem_add t e s)) = mem_recorded s"
  "mem_recorded (s\<lparr>mv_ev := x\<rparr>) = mem_recorded s"
  by (rule ext, rule ext, simp add: mem_recorded_def)+

lemma mem_stored_put [simp]: "mem_stored (snd (mem_put v s)) t h = mem_stored s t h"
  by (simp add: mem_stored_def mem_put_def)

lemma mem_get_eq: "mem_get t i now s = (Inr (map_option (as_of now) (mem_recorded s t i)), s)"
  by (simp add: mem_get_def mem_recorded_def)

lemma mem_results:
  "fst (mem_put v s) = Inr ()" "fst (mem_consume t h s) = Inr ()"
  "snd (mem_consume t h s) = s\<lparr>mv_ev := AList.delete (t, h) (mv_ev s)\<rparr>"
  "fst (mem_take t h now s) = Inr (unexpired now (mem_stored s t h))"
  "snd (mem_take t h now s) = s\<lparr>mv_ev := AList.delete (t, h) (mv_ev s)\<rparr>"
  by (simp_all add: mem_ops)

lemma memory_store_fields [simp]:
  "st_put memory_verification_store = mem_put" "st_get memory_verification_store = mem_get"
  "st_pending memory_verification_store = mem_pending" "st_add memory_verification_store = mem_add"
  "st_evidence memory_verification_store = mem_evidence"
  "st_consume memory_verification_store = mem_consume" "st_take memory_verification_store = mem_take"
  by (simp_all add: memory_verification_store_def)

interpretation mem: verification_memory memory_verification_store mem_inv mem_stored mem_recorded
proof (unfold_locales, unfold memory_store_fields)
qed (simp_all only: mem_inv_put mem_inv_add mem_inv_delete mem_evidence_def mem_get_eq
  mem_pending_from mem_results mem_stored_put mem_stored_add mem_stored_delete mem_recorded_put
  mem_recorded_same mem_recorded_own mem_stored_own mem_add_other)

end
