(* ===== verification/Decision_Table.thy ===== *)
theory Decision_Table
  imports Risk_Engine
begin

text \<open>
  The decision table (\<^verbatim>\<open>app/risk/decision.py\<close>), the only place a final verdict is made:
  outcomes ordered from weakest to strongest, what the risk band alone asks for, and the table
  that combines policy, guardrails, risk and advisors. The theorems say what it promises: it is
  never weaker than the guardrails or the risk band, denials are final, obligations only reach a
  caller that accepts them, and what an enforcing advisor can and cannot do.
\<close>

datatype outcome =
  OAllow | OAllowRestricted | OModify | OThrottle | OVerify | OHold | OQuarantine | ODeny

fun outcome_value :: "outcome \<Rightarrow> string" where
  "outcome_value OAllow = ''allow''"
| "outcome_value OAllowRestricted = ''allow_restricted''"
| "outcome_value OModify = ''modify''"
| "outcome_value OThrottle = ''throttle''"
| "outcome_value OVerify = ''verify''"
| "outcome_value OHold = ''hold''"
| "outcome_value OQuarantine = ''quarantine_session''"
| "outcome_value ODeny = ''deny''"

definition outcome_order :: "outcome list" where
  "outcome_order = [OAllow, OAllowRestricted, OModify, OThrottle, OVerify, OHold, OQuarantine, ODeny]"

fun list_index :: "'a list \<Rightarrow> 'a \<Rightarrow> nat" where
  "list_index [] y = 0"
| "list_index (x # xs) y = (if x = y then 0 else Suc (list_index xs y))"

definition outcome_rank :: "outcome \<Rightarrow> nat" where
  "outcome_rank o' = list_index outcome_order o'"

lemma outcome_rank_simps [simp]:
  "outcome_rank OAllow = 0" "outcome_rank OAllowRestricted = 1" "outcome_rank OModify = 2"
  "outcome_rank OThrottle = 3" "outcome_rank OVerify = 4" "outcome_rank OHold = 5"
  "outcome_rank OQuarantine = 6" "outcome_rank ODeny = 7"
  by (simp_all add: outcome_rank_def outcome_order_def)

lemma outcome_rank_inject [simp]: "outcome_rank a = outcome_rank b \<longleftrightarrow> a = b"
  by (cases a; cases b) simp_all

text \<open>Outcomes ordered by their place in \<open>ORDER\<close>.\<close>

instantiation outcome :: linorder
begin

definition less_eq_outcome :: "outcome \<Rightarrow> outcome \<Rightarrow> bool" where
  "a \<le> b \<longleftrightarrow> outcome_rank a \<le> outcome_rank b"

definition less_outcome :: "outcome \<Rightarrow> outcome \<Rightarrow> bool" where
  "a < b \<longleftrightarrow> outcome_rank a < outcome_rank b"

instance
  by standard (auto simp: less_eq_outcome_def less_outcome_def)

end

definition strongest_of :: "outcome \<Rightarrow> outcome list \<Rightarrow> outcome" where
  "strongest_of a rest = max_by outcome_rank a rest"

lemma strongest_of_ge: "x \<in> insert a (set rest) \<Longrightarrow> x \<le> strongest_of a rest"
  using max_by_ge [of x a rest outcome_rank] by (simp add: strongest_of_def less_eq_outcome_def)

lemma strongest_of_pair: "strongest_of a [b] = max a b"
  by (simp add: strongest_of_def max_def less_eq_outcome_def)

record table_result =
  tr_outcome :: outcome
  tr_reason_codes :: "string list"
  tr_obligations :: "(string \<times> int) list"

definition to_legacy :: "outcome \<Rightarrow> bool \<Rightarrow> decision" where
  "to_legacy o' modified =
     (if o' \<in> {ODeny, OQuarantine} then Block
      else if o' \<in> {OHold, OVerify} then Escalate
      else if o' = OThrottle then Block
      else if o' = OModify \<or> modified then Modify
      else Allow)"

definition tr_legacy :: "table_result \<Rightarrow> decision" where
  "tr_legacy t = to_legacy (tr_outcome t) False"

fun from_engine :: "decision \<Rightarrow> outcome" where
  "from_engine Block = ODeny"
| "from_engine Escalate = OHold"
| "from_engine Modify = OModify"
| "from_engine Allow = OAllow"

lemma to_legacy_from_engine [simp]: "to_legacy (from_engine d) False = d"
  by (cases d) (simp_all add: to_legacy_def)

definition risk_outcome ::
  "band \<Rightarrow> action_descriptor \<Rightarrow> risk_config \<Rightarrow> outcome \<times> (string \<times> int) list \<times> string list" where
  "risk_outcome b d cfg =
     (if b = Critical then (OHold, [], [''RISK_CRITICAL''])
      else if b = High then (OVerify, [], [''RISK_HIGH''])
      else if b = Elevated then
        (let big = (case ad_rows_requested d of None \<Rightarrow> True | Some n \<Rightarrow> rc_elevated_row_limit cfg < n) in
         if ad_kind d = DSql \<and> ad_verb d = VRead \<and> big
         then (OAllowRestricted, [(''row_limit'', rc_elevated_row_limit cfg)], [''RISK_ELEVATED'', ''ROW_LIMIT''])
         else if ad_writes d \<and> ad_destination d = Some External
         then (OVerify, [], [''RISK_ELEVATED'', ''EXTERNAL_WRITE''])
         else (OAllow, [], [''RISK_ELEVATED'']))
      else (OAllow, [], []))"

definition allowing :: "outcome \<Rightarrow> bool" where
  "allowing o' \<longleftrightarrow> o' \<in> {OAllow, OAllowRestricted, OModify}"

record decide_input =
  di_policy_allow :: bool
  di_engine_decision :: decision
  di_band :: band
  di_descriptor :: action_descriptor
  di_quarantined :: bool
  di_accepts_obligations :: bool
  di_verification_available :: bool
  di_advisor_verify :: bool

definition decide :: "risk_config \<Rightarrow> decide_input \<Rightarrow> table_result" where
  "decide cfg i =
     (if \<not> di_policy_allow i
      then \<lparr>tr_outcome = ODeny, tr_reason_codes = [''POLICY_DENY''], tr_obligations = []\<rparr>
      else if di_quarantined i
      then \<lparr>tr_outcome = OQuarantine, tr_reason_codes = [''SESSION_QUARANTINED''], tr_obligations = []\<rparr>
      else
        (let r = risk_outcome (di_band i) (di_descriptor i) cfg;
             obligations = fst (snd r);
             out1 = strongest_of (fst r) [from_engine (di_engine_decision i)];
             advised = (di_advisor_verify i \<and> allowing out1);
             out2 = (if advised then OVerify else out1);
             unverifiable = (out2 = OVerify \<and> \<not> di_verification_available i);
             out3 = (if unverifiable then OHold else out2);
             unsupported = (obligations \<noteq> [] \<and> allowing out3 \<and> \<not> di_accepts_obligations i);
             out4 = (if unsupported then OHold else out3);
             codes = snd (snd r) @
               (if di_engine_decision i = Block then [''GUARDRAIL_BLOCK'']
                else if di_engine_decision i = Escalate then [''GUARDRAIL_ESCALATE''] else []) @
               (if advised then [''ADVISOR_VERIFY''] else []) @
               (if unverifiable then [''VERIFY_AS_HOLD''] else []) @
               (if unsupported then [''OBLIGATIONS_UNSUPPORTED''] else [])
         in \<lparr>tr_outcome = out4, tr_reason_codes = fromkeys codes,
             tr_obligations = (if allowing out4 then obligations else [])\<rparr>))"

section \<open>What the table promises\<close>

lemma allowing_iff_legacy: "allowing o' \<longleftrightarrow> to_legacy o' False \<in> {Allow, Modify}"
  by (cases o') (simp_all add: allowing_def to_legacy_def)

lemmas outcome_ord_simps = less_eq_outcome_def less_outcome_def max_def

lemma decide_outcome:
  assumes "di_policy_allow i" "\<not> di_quarantined i"
  shows "tr_outcome (decide cfg i) =
    (let r = fst (risk_outcome (di_band i) (di_descriptor i) cfg);
         ob = fst (snd (risk_outcome (di_band i) (di_descriptor i) cfg));
         o1 = max r (from_engine (di_engine_decision i));
         o2 = if di_advisor_verify i \<and> allowing o1 then OVerify else o1;
         o3 = if o2 = OVerify \<and> \<not> di_verification_available i then OHold else o2
     in if ob \<noteq> [] \<and> allowing o3 \<and> \<not> di_accepts_obligations i then OHold else o3)"
  using assms by (simp add: decide_def strongest_of_pair Let_def)

lemma decide_early:
  "\<not> di_policy_allow i \<Longrightarrow> tr_outcome (decide cfg i) = ODeny"
  "di_policy_allow i \<Longrightarrow> di_quarantined i \<Longrightarrow> tr_outcome (decide cfg i) = OQuarantine"
  by (simp_all add: decide_def)

lemma decide_obligations:
  "tr_obligations (decide cfg i) =
     (if di_policy_allow i \<and> \<not> di_quarantined i \<and> allowing (tr_outcome (decide cfg i))
      then fst (snd (risk_outcome (di_band i) (di_descriptor i) cfg)) else [])"
  by (simp add: decide_def Let_def)

definition wide_read :: "risk_config \<Rightarrow> action_descriptor \<Rightarrow> bool" where
  "wide_read cfg d \<longleftrightarrow> ad_kind d = DSql \<and> ad_verb d = VRead \<and>
     (case ad_rows_requested d of None \<Rightarrow> True | Some n \<Rightarrow> rc_elevated_row_limit cfg < n)"

lemma risk_obligations:
  "fst (snd (risk_outcome b d cfg)) =
     (if b = Elevated \<and> wide_read cfg d then [(''row_limit'', rc_elevated_row_limit cfg)] else [])"
  by (cases b) (auto simp: risk_outcome_def wide_read_def Let_def split: option.splits)

lemma risk_restricted:
  "fst (risk_outcome b d cfg) = OAllowRestricted \<longleftrightarrow> b = Elevated \<and> wide_read cfg d"
  by (cases b) (auto simp: risk_outcome_def wide_read_def Let_def split: option.splits)

lemma risk_outcome_range:
  "fst (risk_outcome b d cfg) \<in> {OAllow, OAllowRestricted, OVerify, OHold}"
  by (cases b) (auto simp: risk_outcome_def Let_def)

lemma decide_ge_risk:
  assumes "di_policy_allow i" "\<not> di_quarantined i"
  shows "max (fst (risk_outcome (di_band i) (di_descriptor i) cfg)) (from_engine (di_engine_decision i))
         \<le> tr_outcome (decide cfg i)"
proof -
  let ?m = "max (fst (risk_outcome (di_band i) (di_descriptor i) cfg)) (from_engine (di_engine_decision i))"
  show ?thesis
    unfolding decide_outcome [OF assms] Let_def
    by (cases ?m) (simp_all add: allowing_def less_eq_outcome_def)
qed

lemma decide_not_throttle: "tr_outcome (decide cfg i) \<noteq> OThrottle"
proof (cases "di_policy_allow i \<and> \<not> di_quarantined i")
  case True
  then show ?thesis
    using risk_outcome_range [of "di_band i" "di_descriptor i" cfg]
    by (cases "di_engine_decision i") (auto simp: decide_outcome Let_def outcome_ord_simps)
next
  case False
  then show ?thesis by (auto simp: decide_def)
qed

lemma to_legacy_mono:
  assumes "a \<le> b" "a \<noteq> OThrottle" "b \<noteq> OThrottle"
  shows "to_legacy a False \<le> to_legacy b False"
  using assms by (cases a; cases b) (simp_all add: to_legacy_def less_eq_outcome_def less_eq_decision_def)

lemma from_engine_not_throttle [simp]: "from_engine e \<noteq> OThrottle"
  by (cases e) simp_all

text \<open>C5. The decision table is never weaker than any of its inputs: a policy denial denies, a
  quarantined session is quarantined, and otherwise the outcome is at least what the risk band
  asks for and at least what the guardrails decided, also as the legacy decision.\<close>

theorem table_never_weaker:
  "if \<not> di_policy_allow i then tr_outcome (decide cfg i) = ODeny
   else if di_quarantined i then tr_outcome (decide cfg i) = OQuarantine
   else fst (risk_outcome (di_band i) (di_descriptor i) cfg) \<le> tr_outcome (decide cfg i)
      \<and> from_engine (di_engine_decision i) \<le> tr_outcome (decide cfg i)
      \<and> di_engine_decision i \<le> tr_legacy (decide cfg i)"
proof -
  have "di_engine_decision i \<le> tr_legacy (decide cfg i)"
    if "from_engine (di_engine_decision i) \<le> tr_outcome (decide cfg i)"
    using to_legacy_mono [OF that] by (simp add: tr_legacy_def decide_not_throttle)
  then show ?thesis
    using decide_ge_risk [of i cfg] by (simp add: decide_early)
qed

text \<open>C6. Obligations reach the caller in exactly one situation: an elevated wide SQL read that
  policy, session, guardrails and advisors let through, for a caller that declared that it
  accepts obligations; then the obligation is the configured row limit.\<close>

theorem obligations_exact:
  "tr_obligations (decide cfg i) =
     (if di_policy_allow i \<and> \<not> di_quarantined i \<and> di_accepts_obligations i
         \<and> di_engine_decision i \<in> {Allow, Modify} \<and> \<not> di_advisor_verify i
         \<and> di_band i = Elevated \<and> wide_read cfg (di_descriptor i)
      then [(''row_limit'', rc_elevated_row_limit cfg)] else [])"
proof (cases "di_policy_allow i \<and> \<not> di_quarantined i \<and> di_band i = Elevated \<and> wide_read cfg (di_descriptor i)")
  case True
  then have r: "fst (risk_outcome (di_band i) (di_descriptor i) cfg) = OAllowRestricted"
    using risk_restricted by blast
  show ?thesis
    using True
    by (cases "di_engine_decision i")
       (auto simp: decide_obligations decide_outcome risk_obligations r [simplified True] Let_def
          allowing_def outcome_ord_simps)
next
  case False
  then show ?thesis
    by (auto simp: decide_obligations risk_obligations)
qed

text \<open>C7. What an enforcing advisor can do: asking for verification makes the outcome stricter
  or leaves it alone, except in exactly one situation, a wide elevated read of a caller that does
  not accept obligations while a verifier exists, where the answer drops from \<open>hold\<close> to
  \<open>verify\<close>.\<close>

theorem advisor_effect:
  "tr_outcome (decide cfg (i\<lparr>di_advisor_verify := False\<rparr>))
     \<le> tr_outcome (decide cfg (i\<lparr>di_advisor_verify := True\<rparr>))
   \<longleftrightarrow> \<not> (di_policy_allow i \<and> \<not> di_quarantined i \<and> di_engine_decision i \<in> {Allow, Modify}
          \<and> di_band i = Elevated \<and> wide_read cfg (di_descriptor i)
          \<and> \<not> di_accepts_obligations i \<and> di_verification_available i)"
proof (cases "di_policy_allow i \<and> \<not> di_quarantined i")
  case True
  show ?thesis
  proof (cases "di_band i = Elevated \<and> wide_read cfg (di_descriptor i)")
    case restricted: True
    then have r: "fst (risk_outcome (di_band i) (di_descriptor i) cfg) = OAllowRestricted"
      using risk_restricted by blast
    show ?thesis
      using True restricted
      by (cases "di_engine_decision i")
         (auto simp: decide_outcome risk_obligations r [simplified restricted] Let_def allowing_def
            outcome_ord_simps)
  next
    case False
    let ?m = "max (fst (risk_outcome (di_band i) (di_descriptor i) cfg)) (from_engine (di_engine_decision i))"
    show ?thesis
      using True False
      by (cases ?m) (auto simp: decide_outcome risk_obligations Let_def allowing_def less_eq_outcome_def)
  qed
next
  case False
  then show ?thesis by (cases "di_policy_allow i") (auto simp: decide_early)
qed

end
