(* ===== verification/Verify_Engine.thy ===== *)
theory Verify_Engine
  imports Verify_Store Decision_Table
begin

text \<open>
  The verification engine (\<^verbatim>\<open>app/verify/engine.py\<close>): from a \<open>verify\<close> outcome to an allow, a pending
  user confirmation or a hold. The store is any implementation of the protocol, the check of a
  user's token a parameter, and so are the random identifier of a new verification and the
  clock's reading, one per call.
\<close>

record verify_context =
  vc_tenant_id :: string
  vc_agent_id :: string
  vc_user_id :: "string option"
  vc_request_hash :: string
  vc_descriptor :: action_descriptor
  vc_codes :: "string list"
  vc_environment :: environment
  vc_assurance :: string
  vc_channels :: "string list"
  vc_tool_name :: "string option"
  vc_resource :: "string option"
  vc_sql :: "string option"

record resolution =
  rn_outcome :: outcome
  rn_codes :: "string list"
  rn_verification :: "verification option"
  rn_plan :: "string list"

definition resolution_of :: "outcome \<Rightarrow> string list \<Rightarrow> string list \<Rightarrow> resolution" where
  "resolution_of o' codes kinds =
     \<lparr>rn_outcome = o', rn_codes = codes, rn_verification = None, rn_plan = kinds\<rparr>"

text \<open>\<open>UserTokenVerifier\<close>: from token, user and nonce to the claims' subject and \<open>acr\<close>.\<close>

record user_tokens =
  ut_enabled :: bool
  ut_require_nonce :: bool
  ut_verify :: "string \<Rightarrow> string \<Rightarrow> string \<Rightarrow> string + string \<times> json"

record 's verification_engine =
  en_store :: "'s verification_store"
  en_dry_run :: "sql_dry_run option"
  en_user_tokens :: "user_tokens option"
  en_max_rows :: int

definition user_confirmation_enabled :: "'s verification_engine \<Rightarrow> bool" where
  "user_confirmation_enabled en \<longleftrightarrow>
     (case en_user_tokens en of None \<Rightarrow> False | Some ut \<Rightarrow> ut_enabled ut)"

definition available :: "'s verification_engine \<Rightarrow> verify_context \<Rightarrow> verifier_spec list" where
  "available en c =
     (case en_dry_run en of
        None \<Rightarrow> []
      | Some dr \<Rightarrow>
          if nonempty (vc_sql c) \<and> dry_run_applicable dr (vc_descriptor c) (vc_tool_name c) (vc_resource c)
          then [DRY_RUN] else []) @
     (if ''user_confirmation'' \<in> set (vc_channels c) \<and> nonempty (vc_user_id c) \<and> user_confirmation_enabled en
      then [USER_CONFIRMATION] else [])"

definition gap_for :: "verify_context \<Rightarrow> evidence list \<Rightarrow> levels" where
  "gap_for c evs =
     gap (required (vc_descriptor c) (vc_codes c) (vc_environment c))
       (current_levels (vc_assurance c) (vc_descriptor c) (vc_codes c) evs)"

definition plan_for :: "'s verification_engine \<Rightarrow> verify_context \<Rightarrow> evidence list \<Rightarrow> verifier_spec list option" where
  "plan_for en c evs = plan (gap_for c evs) (available en c)"

definition describe_plan :: "'s verification_engine \<Rightarrow> verify_context \<Rightarrow> resolution" where
  "describe_plan en c =
     (case plan_for en c [] of
        None \<Rightarrow> resolution_of OAllow [''VERIFIED''] []
      | Some p \<Rightarrow>
          if needs_human_review p then resolution_of OHold [''VERIFY_NEEDS_HUMAN''] (plan_kinds p)
          else resolution_of OVerify (map (\<lambda>k. ''VERIFY_PLAN_'' @ str_upper k) (plan_kinds p)) (plan_kinds p))"

definition rejected :: "evidence list \<Rightarrow> bool" where
  "rejected evs \<longleftrightarrow> list_ex (\<lambda>e. ev_kind e = ''user_confirmation'' \<and> \<not> ev_passed e) evs"

definition evidence_codes :: "evidence list \<Rightarrow> string list" where
  "evidence_codes evs = fromkeys (map (\<lambda>e. ''EVIDENCE_'' @ str_upper (ev_kind e)) (filter ev_passed evs))"

definition dry_run_evidence :: "verify_context \<Rightarrow> real \<Rightarrow> int \<Rightarrow> evidence" where
  "dry_run_evidence c now rows =
     \<lparr>ev_kind = ''dry_run'', ev_request_hash = vc_request_hash c, ev_passed = True,
      ev_strength = vs_closes DRY_RUN, ev_detail = [(''estimated_rows'', JInt rows)],
      ev_issued_at = now, ev_expires_at = now + EVIDENCE_TTL\<rparr>"

text \<open>The loop over the plan's inline steps: an early answer, or the evidence and codes so far.\<close>

fun run_inline ::
  "'s verification_engine \<Rightarrow> verify_context \<Rightarrow> real \<Rightarrow> verifier_spec list \<Rightarrow> verifier_spec list \<Rightarrow>
   evidence list \<Rightarrow> string list \<Rightarrow> ('s, resolution + evidence list \<times> string list) effect" where
  "run_inline en c now p [] evs codes = return_value (Inr (evs, codes))"
| "run_inline en c now p (step # steps) evs codes =
     (case (en_dry_run en, vc_sql c) of
        (Some dr, Some sql) \<Rightarrow>
          if vs_kind step \<noteq> vs_kind DRY_RUN then run_inline en c now p steps evs codes
          else (case dry_run dr sql (vc_tool_name c) (vc_resource c) of
                  DryRunFailed e \<Rightarrow>
                    return_value (Inl (resolution_of OHold [''DRY_RUN_FAILED''] (plan_kinds p)))
                | DryRunOk None \<Rightarrow>
                    return_value (Inl (resolution_of OHold [''DRY_RUN_TOO_MANY_ROWS''] (plan_kinds p)))
                | DryRunOk (Some rows) \<Rightarrow>
                    if en_max_rows en < rows
                    then return_value (Inl (resolution_of OHold [''DRY_RUN_TOO_MANY_ROWS''] (plan_kinds p)))
                    else and_then
                      (if plan_pending p \<noteq> []
                       then st_add (en_store en) (vc_tenant_id c) (dry_run_evidence c now rows)
                       else return_value ())
                      (\<lambda>_. run_inline en c now p steps (evs @ [dry_run_evidence c now rows])
                              (codes @ [''EVIDENCE_DRY_RUN''])))
      | _ \<Rightarrow> run_inline en c now p steps evs codes)"

definition new_verification :: "verify_context \<Rightarrow> real \<Rightarrow> string \<Rightarrow> verification" where
  "new_verification c now uid =
     \<lparr>ve_id = uid, ve_tenant_id = vc_tenant_id c, ve_request_hash = vc_request_hash c,
      ve_kind = vs_kind USER_CONFIRMATION, ve_agent_id = vc_agent_id c, ve_user_id = vc_user_id c,
      ve_summary = summary_for (vc_agent_id c) (vc_descriptor c), ve_status = Pending,
      ve_created_at = now, ve_expires_at = now + VERIFICATION_TTL\<rparr>"

definition open_verification ::
  "'s verification_engine \<Rightarrow> verify_context \<Rightarrow> real \<Rightarrow> string \<Rightarrow> ('s, verification) effect" where
  "open_verification en c now uid =
     and_then (st_pending (en_store en) (vc_tenant_id c) (vc_request_hash c) now)
       (\<lambda>found. case found of
          Some v \<Rightarrow> return_value v
        | None \<Rightarrow>
            and_then (st_put (en_store en) (new_verification c now uid))
              (\<lambda>_. return_value (new_verification c now uid)))"

text \<open>What \<open>_resolve\<close> does once it has evidence and a plan for the rest.\<close>

definition follow_plan ::
  "'s verification_engine \<Rightarrow> verify_context \<Rightarrow> real \<Rightarrow> string \<Rightarrow> evidence list \<Rightarrow> verifier_spec list \<Rightarrow>
   ('s, resolution) effect" where
  "follow_plan en c now uid evs p =
     (if needs_human_review p
      then return_value (resolution_of OHold [''VERIFY_NEEDS_HUMAN''] (plan_kinds p))
      else and_then (run_inline en c now p (plan_inline p) evs [])
        (\<lambda>r. case r of
           Inl early \<Rightarrow> return_value early
         | Inr (evs', codes) \<Rightarrow>
             if plan_pending p \<noteq> [] then
               and_then (open_verification en c now uid)
                 (\<lambda>v. return_value
                    ((resolution_of OVerify (codes @ [''VERIFY_USER_CONFIRMATION'']) (plan_kinds p))
                       \<lparr>rn_verification := Some v\<rparr>))
             else if gap_for c evs' \<noteq> [] then
               return_value (resolution_of OHold [''VERIFY_INCOMPLETE''] (plan_kinds p))
             else
               and_then (st_take (en_store en) (vc_tenant_id c) (vc_request_hash c) now)
                 (\<lambda>_. return_value (resolution_of OAllow (''VERIFIED'' # codes) (plan_kinds p)))))"

definition resolve_body ::
  "'s verification_engine \<Rightarrow> verify_context \<Rightarrow> real \<Rightarrow> string \<Rightarrow> ('s, resolution) effect" where
  "resolve_body en c now uid =
     and_then (st_evidence (en_store en) (vc_tenant_id c) (vc_request_hash c) now)
       (\<lambda>evs.
          if rejected evs then
            and_then (st_consume (en_store en) (vc_tenant_id c) (vc_request_hash c))
              (\<lambda>_. return_value (resolution_of ODeny [''USER_REJECTED''] []))
          else
            (case plan_for en c evs of
               Some p \<Rightarrow> follow_plan en c now uid evs p
             | None \<Rightarrow>
                 and_then (st_take (en_store en) (vc_tenant_id c) (vc_request_hash c) now)
                   (\<lambda>evs'. case plan_for en c evs' of
                      None \<Rightarrow> return_value (resolution_of OAllow (''VERIFIED'' # evidence_codes evs') [])
                    | Some p \<Rightarrow> follow_plan en c now uid evs' p)))"

definition resolve_verification ::
  "'s verification_engine \<Rightarrow> verify_context \<Rightarrow> real \<Rightarrow> string \<Rightarrow> ('s, resolution) effect" where
  "resolve_verification en c now uid =
     or_else (resolve_body en c now uid)
       (\<lambda>_. return_value (resolution_of OHold [''VERIFY_ERROR''] []))"

definition follow_up ::
  "'s verification_engine \<Rightarrow> verify_context \<Rightarrow> real \<Rightarrow> ('s, resolution option) effect" where
  "follow_up en c now =
     or_else
       (and_then (st_evidence (en_store en) (vc_tenant_id c) (vc_request_hash c) now)
         (\<lambda>evs.
            if rejected evs then
              and_then (st_consume (en_store en) (vc_tenant_id c) (vc_request_hash c))
                (\<lambda>_. return_value (Some (resolution_of ODeny [''USER_REJECTED''] [])))
            else
              and_then (st_pending (en_store en) (vc_tenant_id c) (vc_request_hash c) now)
                (\<lambda>found. case found of
                   Some v \<Rightarrow>
                     return_value (Some ((resolution_of OVerify [''VERIFY_USER_CONFIRMATION''] [])
                       \<lparr>rn_verification := Some v\<rparr>))
                 | None \<Rightarrow>
                     if list_ex ev_passed evs then
                       and_then (st_take (en_store en) (vc_tenant_id c) (vc_request_hash c) now)
                         (\<lambda>taken. return_value
                            (Some (resolution_of OAllow (''VERIFIED'' # evidence_codes taken) [])))
                     else return_value None)))
       (\<lambda>_. return_value (Some (resolution_of OHold [''VERIFY_ERROR''] [])))"

section \<open>The person's answer\<close>

datatype confirm_error =
    VerificationNotFound string
  | VerificationClosed verification_status
  | TokenRejected string

definition confirmation_evidence :: "verification \<Rightarrow> bool \<Rightarrow> string \<times> json \<Rightarrow> real \<Rightarrow> evidence" where
  "confirmation_evidence v approve claims now =
     \<lparr>ev_kind = ''user_confirmation'', ev_request_hash = ve_request_hash v, ev_passed = approve,
      ev_strength = (if approve then vs_closes USER_CONFIRMATION else []),
      ev_detail = [(''sub'', JStr (fst claims)), (''acr'', snd claims)],
      ev_issued_at = now, ev_expires_at = now + EVIDENCE_TTL\<rparr>"

definition answered :: "verification \<Rightarrow> bool \<Rightarrow> verification" where
  "answered v approve = v\<lparr>ve_status := (if approve then Confirmed else Rejected)\<rparr>"

definition own_key_message :: string where
  "own_key_message = ''the agent'' @ [CHR 0x27] @ ''s own key can'' @ [CHR 0x27] @
     ''t confirm its request; use the host app'' @ [CHR 0x27] @ ''s key''"

definition confirm ::
  "'s verification_engine \<Rightarrow> string \<Rightarrow> string \<Rightarrow> string \<Rightarrow> bool \<Rightarrow> string option \<Rightarrow> real \<Rightarrow>
   ('s, confirm_error + verification) effect" where
  "confirm en tenant vid token approve caller_agent now =
     and_then (st_get (en_store en) tenant vid now)
       (\<lambda>found. case found of
          None \<Rightarrow> return_value (Inl (VerificationNotFound vid))
        | Some v \<Rightarrow>
            if ve_status v \<noteq> Pending then return_value (Inl (VerificationClosed (ve_status v)))
            else (case en_user_tokens en of
                    None \<Rightarrow> return_value (Inl (TokenRejected ''user confirmation is not configured on this gateway''))
                  | Some ut \<Rightarrow>
                      if \<not> ut_require_nonce ut \<and> caller_agent = Some (ve_agent_id v)
                      then return_value (Inl (TokenRejected
                             own_key_message))
                      else (case ut_verify ut token (or_empty (ve_user_id v)) (ve_id v) of
                              Inl e \<Rightarrow> return_value (Inl (TokenRejected e))
                            | Inr claims \<Rightarrow>
                                and_then (st_add (en_store en) tenant (confirmation_evidence v approve claims now))
                                  (\<lambda>_. and_then (st_put (en_store en) (answered v approve))
                                         (\<lambda>_. return_value (Inr (answered v approve)))))))"

end
