(* ===== verification/Snapshots.thy ===== *)
theory Snapshots
  imports Sdk_Models
begin

text \<open>
  The guardrail pipeline as data: assignments and snapshot documents
  (\<^verbatim>\<open>guardrail_sdk/documents.py\<close>), plugin manifests
  (\<^verbatim>\<open>guardrail_sdk/manifest.py\<close>), and the gateway's registry, which compiles a
  document into bound guardrails, resolves the ones that apply to a request and holds the
  live snapshot (\<^verbatim>\<open>app/engine/registry.py\<close>).

  A plugin is a function of the security context and the payload to how long it takes (in
  milliseconds) and what it does: return a result, or raise an exception of some class.
\<close>

section \<open>Assignments\<close>

datatype scope_type = ScopeGlobal | ScopeTenant | ScopeAgent

datatype run_mode = Enforce | Shadow

datatype failure_mode = FailClosed | FailOpen

fun mode_value :: "run_mode \<Rightarrow> string" where
  "mode_value Enforce = ''enforce''"
| "mode_value Shadow = ''shadow''"

fun failure_mode_value :: "failure_mode \<Rightarrow> string" where
  "failure_mode_value FailClosed = ''fail_closed''"
| "failure_mode_value FailOpen = ''fail_open''"

fun scope_value :: "scope_type \<Rightarrow> string" where
  "scope_value ScopeGlobal = ''global''"
| "scope_value ScopeTenant = ''tenant''"
| "scope_value ScopeAgent = ''agent''"

record assignment =
  as_id :: string
  as_guardrail_id :: string
  as_guardrail_version :: string
  as_scope_type :: scope_type
  as_scope_id :: "string option"
  as_stages :: "stage list"
  as_order :: int
  as_parallel_group :: "string option"
  as_enabled :: bool
  as_mode :: run_mode
  as_failure_mode :: "failure_mode option"
  as_timeout_ms :: "int option"
  as_config :: jobj

datatype doc_error = FieldError string | DocValueError string

definition assignment_id_char :: "char \<Rightarrow> bool" where
  "assignment_id_char c \<longleftrightarrow>
     (let n = of_char c :: nat in
      (65 \<le> n \<and> n \<le> 90) \<or> (97 \<le> n \<and> n \<le> 122) \<or> (48 \<le> n \<and> n \<le> 57)) \<or>
     c \<in> set ''._:/-''"

text \<open>The field constraints, then \<open>Assignment._scope\<close>.\<close>

definition validate_assignment :: "assignment \<Rightarrow> doc_error + assignment" where
  "validate_assignment a =
     (if \<not> (1 \<le> length (as_id a) \<and> length (as_id a) \<le> 128 \<and> list_all assignment_id_char (as_id a))
      then Inl (FieldError ''id'')
      else if \<not> (case as_timeout_ms a of None \<Rightarrow> True | Some t \<Rightarrow> 0 < t \<and> t \<le> 30000)
      then Inl (FieldError ''timeout_ms'')
      else if as_scope_type a = ScopeGlobal \<and> as_scope_id a \<noteq> None
      then Inl (DocValueError ''global assignments must not set scope_id'')
      else if as_scope_type a \<noteq> ScopeGlobal \<and> (as_scope_id a = None \<or> as_scope_id a = Some [])
      then Inl (DocValueError (scope_value (as_scope_type a) @ '' assignments need scope_id''))
      else if as_scope_type a = ScopeAgent \<and>
              CHR ''/'' \<notin> set (case as_scope_id a of None \<Rightarrow> [] | Some s \<Rightarrow> s)
      then Inl (DocValueError (''agent scope_id must be '' @ quoted ''tenant/agent''))
      else if as_stages a = []
      then Inl (DocValueError ''stages must not be empty'')
      else Inr a)"

definition assignment_tenant :: "assignment \<Rightarrow> string option" where
  "assignment_tenant a =
     (if as_scope_type a = ScopeGlobal \<or> as_scope_id a = None \<or> as_scope_id a = Some [] then None
      else Some (hd (split_char (CHR ''/'') (the (as_scope_id a)))))"

record snapshot_doc =
  sd_version :: string
  sd_environment :: environment
  sd_assignments :: "assignment list"
  sd_published_at :: "real option"
  sd_published_by :: "string option"
  sd_approved_by :: "string option"

text \<open>\<open>SnapshotDoc._unique_ids\<close>, after the assignments themselves validated.\<close>

definition validate_snapshot_doc :: "snapshot_doc \<Rightarrow> doc_error + snapshot_doc" where
  "validate_snapshot_doc d =
     (case filter (\<lambda>a. isl (validate_assignment a)) (sd_assignments d) of
        a # _ \<Rightarrow> Inl (projl (validate_assignment a))
      | [] \<Rightarrow>
          (if length (map as_id (sd_assignments d)) \<noteq> card (set (map as_id (sd_assignments d)))
           then Inl (DocValueError ''assignment ids must be unique'')
           else Inr d))"

lemma validate_snapshot_doc_distinct:
  "validate_snapshot_doc d = Inr d' \<Longrightarrow> d' = d \<and> distinct (map as_id (sd_assignments d))"
  by (auto simp: validate_snapshot_doc_def card_distinct split: list.splits if_splits)

lemma validate_snapshot_doc_assignments:
  "validate_snapshot_doc d = Inr d' \<Longrightarrow> a \<in> set (sd_assignments d) \<Longrightarrow> \<not> isl (validate_assignment a)"
  by (auto simp: validate_snapshot_doc_def filter_empty_conv split: list.splits if_splits)

section \<open>Manifests\<close>

datatype plugin_kind = KLocal | KRemote | KModel

record capabilities =
  cap_emits_modify :: bool
  cap_needs_state :: bool
  cap_needs_raw_payload :: bool
  cap_parallel_safe :: bool
  cap_supports_batch :: bool
  cap_max_payload_kb :: int

record remote_spec =
  rem_endpoint :: string
  rem_auth :: string
  rem_api_key_ref :: "string option"
  rem_timeout_ms :: int

record manifest =
  mf_id :: string
  mf_version :: string
  mf_kind :: plugin_kind
  mf_stages :: "stage list"
  mf_failure_mode :: failure_mode
  mf_decisions_emitted :: "decision list"
  mf_sdk_version :: string
  mf_latency_budget_ms :: int
  mf_capabilities :: capabilities
  mf_entrypoint :: "string option"
  mf_remote :: "remote_spec option"

definition manifest_key :: "manifest \<Rightarrow> string" where
  "manifest_key m = mf_id m @ ''@'' @ mf_version m"

text \<open>Python's \<open>$\<close> also matches before one final newline.\<close>

definition drop_final_newline :: "string \<Rightarrow> string" where
  "drop_final_newline s = (if s \<noteq> [] \<and> last s = CHR 0x0A then butlast s else s)"

definition kebab_char :: "char \<Rightarrow> bool" where
  "kebab_char c \<longleftrightarrow> (let n = of_char c :: nat in (97 \<le> n \<and> n \<le> 122) \<or> (48 \<le> n \<and> n \<le> 57))"

definition kebab_case :: "string \<Rightarrow> bool" where
  "kebab_case s \<longleftrightarrow>
     list_all (\<lambda>p. p \<noteq> [] \<and> list_all kebab_char p) (split_char (CHR ''-'') (drop_final_newline s))"

definition semver :: "string \<Rightarrow> bool" where
  "semver s \<longleftrightarrow>
     (let ps = split_char (CHR ''.'') (drop_final_newline s) in
      length ps = 3 \<and> list_all (\<lambda>p. p \<noteq> [] \<and> list_all is_digit p) ps)"

definition parse_nat :: "string \<Rightarrow> nat option" where
  "parse_nat s =
     (if s \<noteq> [] \<and> list_all is_digit s
      then Some (foldl (\<lambda>n c. 10 * n + (of_char c - 48)) 0 s) else None)"

text \<open>\<open>_parse\<close>: the numbers of a dotted version, padded to three; \<open>None\<close> is the \<open>ValueError\<close> of \<open>int\<close>.\<close>

definition parse_version :: "string \<Rightarrow> nat list option" where
  "parse_version v =
     (let ps = map parse_nat (split_char (CHR ''.'') v) in
      if None \<in> set ps then None
      else Some (map the ps @ replicate (3 - length ps) 0))"

datatype version_op = OpGe | OpLe | OpEq | OpGt | OpLt

fun version_op_holds :: "version_op \<Rightarrow> nat list \<Rightarrow> nat list \<Rightarrow> bool" where
  "version_op_holds OpGe c t = (t \<le> c)"
| "version_op_holds OpLe c t = (c \<le> t)"
| "version_op_holds OpEq c t = (c = t)"
| "version_op_holds OpGt c t = (t < c)"
| "version_op_holds OpLt c t = (c < t)"

definition version_clause :: "string \<Rightarrow> (version_op \<times> string) option" where
  "version_clause s =
     (let (opr, rest) =
        (if prefix ''>='' s then (Some OpGe, drop 2 s)
         else if prefix ''<='' s then (Some OpLe, drop 2 s)
         else if prefix ''=='' s then (Some OpEq, drop 2 s)
         else if prefix ''>'' s then (Some OpGt, drop 1 s)
         else if prefix ''<'' s then (Some OpLt, drop 1 s)
         else (None, s));
        target = dropWhile is_space rest in
      case opr of
        None \<Rightarrow> None
      | Some opr' \<Rightarrow>
          if target \<noteq> [] \<and> list_all (\<lambda>c. is_digit c \<or> c = CHR ''.'') target
          then Some (opr', target) else None)"

text \<open>\<open>sdk_version_satisfies\<close>; \<open>None\<close> is a \<open>ValueError\<close> for a clause or a number that does not parse.\<close>

fun clauses_hold :: "nat list \<Rightarrow> string list \<Rightarrow> bool option" where
  "clauses_hold current [] = Some True"
| "clauses_hold current (c # cs) =
     (case version_clause c of
        None \<Rightarrow> None
      | Some (opr, t) \<Rightarrow>
          (case parse_version t of
             None \<Rightarrow> None
           | Some target \<Rightarrow>
               if version_op_holds opr current target then clauses_hold current cs else Some False))"

definition sdk_version_satisfies :: "string \<Rightarrow> string \<Rightarrow> bool option" where
  "sdk_version_satisfies version spec =
     (case parse_version version of
        None \<Rightarrow> None
      | Some current \<Rightarrow>
          clauses_hold current
            (filter (\<lambda>c. c \<noteq> []) (map str_strip (split_char (CHR '','') spec))))"

definition sdk_version :: string where
  "sdk_version = ''1.2.0''"

text \<open>The field validators of \<open>Manifest\<close>, then \<open>_kind_rules\<close>.\<close>

definition validate_manifest :: "manifest \<Rightarrow> doc_error + manifest" where
  "validate_manifest m =
     (if \<not> kebab_case (mf_id m) then Inl (FieldError ''id'')
      else if \<not> semver (mf_version m) then Inl (FieldError ''version'')
      else if mf_stages m = [] then Inl (FieldError ''stages'')
      else if \<not> 0 < mf_latency_budget_ms m then Inl (FieldError ''latency_budget_ms'')
      else if (case mf_remote m of None \<Rightarrow> False
               | Some r \<Rightarrow> \<not> (0 < rem_timeout_ms r \<and> rem_timeout_ms r \<le> 30000))
      then Inl (FieldError ''remote'')
      else if mf_kind m = KLocal \<and> (mf_entrypoint m = None \<or> mf_entrypoint m = Some [])
      then Inl (DocValueError ''local guardrails must set `entrypoint` (module:Class)'')
      else if mf_kind m \<in> {KRemote, KModel} \<and> mf_remote m = None
      then Inl (DocValueError
        ''remote and model guardrails must set `remote` (endpoint, auth, timeout_ms)'')
      else if Modify \<in> set (mf_decisions_emitted m) \<and> \<not> cap_emits_modify (mf_capabilities m)
      then Inl (DocValueError
        ''decisions_emitted includes modify, so capabilities.emits_modify must be true'')
      else if cap_parallel_safe (mf_capabilities m) \<and> cap_emits_modify (mf_capabilities m)
      then Inl (DocValueError ''a guardrail that emits MODIFY cannot be parallel_safe'')
      else (case sdk_version_satisfies sdk_version (mf_sdk_version m) of
              None \<Rightarrow> Inl (DocValueError ''unsupported version clause'')
            | Some False \<Rightarrow> Inl (DocValueError ''sdk_version does not accept installed SDK'')
            | Some True \<Rightarrow> Inr m))"

lemma validate_manifest_parallel_safe:
  "validate_manifest m = Inr m' \<Longrightarrow> cap_parallel_safe (mf_capabilities m) \<Longrightarrow>
   Modify \<notin> set (mf_decisions_emitted m)"
  by (auto simp: validate_manifest_def split: if_splits)

section \<open>Bound guardrails and the compiled snapshot\<close>

datatype plugin_reply = Returned guardrail_result | Raised string

type_synonym plugin = "security_context \<Rightarrow> payload \<Rightarrow> real \<times> plugin_reply"

record bound_guardrail =
  bg_assignment :: assignment
  bg_manifest :: manifest
  bg_guardrail :: plugin

definition bg_failure_mode :: "bound_guardrail \<Rightarrow> failure_mode" where
  "bg_failure_mode b =
     (case as_failure_mode (bg_assignment b) of
        Some f \<Rightarrow> f | None \<Rightarrow> mf_failure_mode (bg_manifest b))"

definition bg_timeout_ms :: "bound_guardrail \<Rightarrow> int \<Rightarrow> int" where
  "bg_timeout_ms b default_ms =
     (case as_timeout_ms (bg_assignment b) of
        Some t \<Rightarrow> if t \<noteq> 0 then t
                  else (case mf_remote (bg_manifest b) of Some r \<Rightarrow> rem_timeout_ms r | None \<Rightarrow> default_ms)
      | None \<Rightarrow> (case mf_remote (bg_manifest b) of Some r \<Rightarrow> rem_timeout_ms r | None \<Rightarrow> default_ms))"

record compiled_snapshot =
  cs_version :: string
  cs_environment :: environment
  cs_bound :: "bound_guardrail list"

fun scope_priority :: "scope_type \<Rightarrow> nat" where
  "scope_priority ScopeGlobal = 0"
| "scope_priority ScopeTenant = 1"
| "scope_priority ScopeAgent = 2"

text \<open>The three \<open>continue\<close> guards of \<open>resolve\<close>.\<close>

definition applies_to :: "string \<Rightarrow> string \<Rightarrow> stage \<Rightarrow> bound_guardrail \<Rightarrow> bool" where
  "applies_to tenant agent stg b \<longleftrightarrow>
     (let a = bg_assignment b in
      stg \<in> set (as_stages a) \<and> stg \<in> set (mf_stages (bg_manifest b)) \<and>
      \<not> (as_scope_type a = ScopeTenant \<and> as_scope_id a \<noteq> Some tenant) \<and>
      \<not> (as_scope_type a = ScopeAgent \<and> as_scope_id a \<noteq> Some (tenant @ ''/'' @ agent)))"

definition choose_step ::
  "(string \<times> bound_guardrail) list \<Rightarrow> bound_guardrail \<Rightarrow> (string \<times> bound_guardrail) list" where
  "choose_step chosen b =
     (let gid = as_guardrail_id (bg_assignment b) in
      case map_of chosen gid of
        None \<Rightarrow> AList.update gid b chosen
      | Some c \<Rightarrow>
          if scope_priority (as_scope_type (bg_assignment b)) >
             scope_priority (as_scope_type (bg_assignment c))
          then AList.update gid b chosen else chosen)"

definition resolve :: "compiled_snapshot \<Rightarrow> string \<Rightarrow> string \<Rightarrow> stage \<Rightarrow> bound_guardrail list" where
  "resolve snap tenant agent stg =
     (let chosen = foldl choose_step [] (filter (applies_to tenant agent stg) (cs_bound snap));
          active = filter (\<lambda>b. as_enabled (bg_assignment b)) (map snd chosen)
      in sort_key (\<lambda>b. (as_order (bg_assignment b), as_guardrail_id (bg_assignment b))) active)"

end
