(* ===== verification/Advise.thy ===== *)
theory Advise
  imports Snapshots Decision_Table
begin

text \<open>
  Advisors (\<^verbatim>\<open>app/advise/contract.py\<close>, \<^verbatim>\<open>app/advise/panel.py\<close>): typed questions, bounded
  answers, the panel that asks them in the uncertain band and the combination of their answers
  under the caps. A provider is a parameter: for an advisor and a question it replies with an
  answer, an exception or nothing in time.
\<close>

datatype question = Exfiltration | Injection

datatype label = Benign | Suspicious | Malicious

record answer =
  an_label :: label
  an_confidence :: real
  an_verify :: bool

datatype advisor_reply = TimedOut | AskFailed string | Malformed string | Replied answer

fun label_weight :: "label \<Rightarrow> real" where
  "label_weight Benign = 0"
| "label_weight Suspicious = 1/2"
| "label_weight Malicious = 1"

definition points_for :: "answer \<Rightarrow> int \<Rightarrow> int" where
  "points_for a cap =
     max 0 (min cap (py_round (of_int cap * label_weight (an_label a) * an_confidence a)))"

record advisor_spec =
  sp_name :: string
  sp_provider :: string
  sp_mode :: run_mode
  sp_questions :: "question list"
  sp_cap :: int
  sp_timeout_ms :: int
  sp_allow_verify :: bool

record panel_config =
  pc_advisors :: "advisor_spec list"
  pc_total_cap :: int
  pc_bands :: "band list"

text \<open>The fields' bounds and the validators of \<open>AdvisorSpec\<close> and \<open>PanelConfig\<close>.\<close>

definition validate_spec :: "advisor_spec \<Rightarrow> doc_error + advisor_spec" where
  "validate_spec a =
     (if \<not> (0 \<le> sp_cap a \<and> sp_cap a \<le> 20) then Inl (FieldError ''cap'')
      else if \<not> (10 \<le> sp_timeout_ms a \<and> sp_timeout_ms a \<le> 15000) then Inl (FieldError ''timeout_ms'')
      else if sp_questions a = [] then Inl (DocValueError ''an advisor needs at least one question'')
      else Inr (a\<lparr>sp_questions := fromkeys (sp_questions a)\<rparr>))"

definition validate_panel :: "panel_config \<Rightarrow> doc_error + panel_config" where
  "validate_panel c =
     (if \<not> (0 \<le> pc_total_cap c \<and> pc_total_cap c \<le> 40) then Inl (FieldError ''total_cap'')
      else if length (pc_advisors c) \<noteq> card (set (map sp_name (pc_advisors c)))
      then Inl (DocValueError ''advisor names must be unique'')
      else Inr c)"

datatype advisor_status = StAnswered | StTimeout | StError | StInvalid | StSkippedPolicy

record advisor_record =
  ar_advisor :: string
  ar_provider :: string
  ar_mode :: run_mode
  ar_question :: question
  ar_status :: advisor_status
  ar_label :: "label option"
  ar_confidence :: "real option"
  ar_points :: int
  ar_verify :: bool
  ar_detail :: string

record advisory =
  av_points :: int
  av_verify :: bool
  av_shadow_points :: int
  av_shadow_verify :: bool
  av_records :: "advisor_record list"

definition no_advisory :: advisory where
  "no_advisory = \<lparr>av_points = 0, av_verify = False, av_shadow_points = 0, av_shadow_verify = False,
     av_records = []\<rparr>"

text \<open>\<open>hosted_allowed\<close>: the tenant opted in for the request's class and every class the session holds.\<close>

definition sensitive_labels :: "(string \<times> classification) list" where
  "sensitive_labels = [(''holds:PII'', PII), (''holds:CONFIDENTIAL'', CONFIDENTIAL)]"

definition hosted_allowed :: "classification \<Rightarrow> string list \<Rightarrow> classification set \<Rightarrow> bool" where
  "hosted_allowed c labels allowed \<longleftrightarrow>
     set (c # List.map_filter (map_of sensitive_labels) labels) \<subseteq> allowed"

definition silent_record :: "advisor_spec \<Rightarrow> question \<Rightarrow> advisor_status \<Rightarrow> string \<Rightarrow> advisor_record" where
  "silent_record spec q st detail =
     \<lparr>ar_advisor = sp_name spec, ar_provider = sp_provider spec, ar_mode = sp_mode spec,
      ar_question = q, ar_status = st, ar_label = None, ar_confidence = None, ar_points = 0,
      ar_verify = False, ar_detail = detail\<rparr>"

definition ask_advisor :: "advisor_spec \<Rightarrow> question \<Rightarrow> advisor_reply \<Rightarrow> advisor_record" where
  "ask_advisor spec q reply =
     (case reply of
        TimedOut \<Rightarrow> silent_record spec q StTimeout []
      | AskFailed e \<Rightarrow> silent_record spec q StError e
      | Malformed e \<Rightarrow> silent_record spec q StInvalid e
      | Replied a \<Rightarrow>
          if \<not> (0 \<le> an_confidence a \<and> an_confidence a \<le> 1)
          then silent_record spec q StInvalid ''ValidationError''
          else (silent_record spec q StAnswered [])
            \<lparr>ar_label := Some (an_label a),
             ar_confidence := Some (of_int (py_round (an_confidence a * 10000)) / 10000),
             ar_points := points_for a (sp_cap spec),
             ar_verify := (an_verify a \<and> sp_allow_verify spec \<and> an_label a \<noteq> Benign)\<rparr>)"

text \<open>\<open>combine\<close>: per advisor the highest answer, then the sum under the total cap.\<close>

definition best_points :: "run_mode \<Rightarrow> advisor_record list \<Rightarrow> (string \<times> int) list" where
  "best_points mode rs =
     foldl (\<lambda>best r.
        if ar_mode r \<noteq> mode \<or> ar_status r \<noteq> StAnswered then best
        else AList.update (ar_advisor r)
               (max (case map_of best (ar_advisor r) of None \<Rightarrow> 0 | Some p \<Rightarrow> p) (ar_points r)) best)
       [] rs"

definition total_points :: "run_mode \<Rightarrow> int \<Rightarrow> advisor_record list \<Rightarrow> int \<times> bool" where
  "total_points mode cap rs =
     (min cap (sum_list (map snd (best_points mode rs))),
      list_ex (\<lambda>r. ar_mode r = mode \<and> ar_status r = StAnswered \<and> ar_verify r) rs)"

definition combine :: "advisor_record list \<Rightarrow> panel_config \<Rightarrow> advisory" where
  "combine rs cfg =
     (let e = total_points Enforce (pc_total_cap cfg) rs; s = total_points Shadow (pc_total_cap cfg) rs
      in \<lparr>av_points = fst e, av_verify = snd e, av_shadow_points = fst s, av_shadow_verify = snd s,
          av_records = rs\<rparr>)"

definition panel_applies :: "panel_config \<Rightarrow> band \<Rightarrow> bool" where
  "panel_applies cfg b \<longleftrightarrow> pc_advisors cfg \<noteq> [] \<and> b \<in> set (pc_bands cfg)"

definition panel_records ::
  "panel_config \<Rightarrow> (string \<Rightarrow> bool) \<Rightarrow> (string \<Rightarrow> question \<Rightarrow> advisor_reply) \<Rightarrow> classification \<Rightarrow>
   string list \<Rightarrow> classification set \<Rightarrow> advisor_record list" where
  "panel_records cfg hosted ask c labels allowed =
     (let skip = (\<lambda>spec. hosted (sp_name spec) \<and> \<not> hosted_allowed c labels allowed);
          answered = concat (map (\<lambda>spec. if skip spec then []
                       else map (\<lambda>q. ask_advisor spec q (ask (sp_name spec) q)) (sp_questions spec)) (pc_advisors cfg));
          skipped = concat (map (\<lambda>spec. if skip spec
                       then map (\<lambda>q. silent_record spec q StSkippedPolicy []) (sp_questions spec) else [])
                       (pc_advisors cfg))
      in answered @ skipped)"

definition panel_advise ::
  "panel_config \<Rightarrow> (string \<Rightarrow> bool) \<Rightarrow> (string \<Rightarrow> question \<Rightarrow> advisor_reply) \<Rightarrow> band \<Rightarrow> classification \<Rightarrow>
   string list \<Rightarrow> classification set \<Rightarrow> advisory" where
  "panel_advise cfg hosted ask b c labels allowed =
     (if \<not> panel_applies cfg b then no_advisory
      else combine (panel_records cfg hosted ask c labels allowed) cfg)"

section \<open>Caps\<close>

lemma points_for_bounds: "0 \<le> cap \<Longrightarrow> 0 \<le> points_for a cap \<and> points_for a cap \<le> cap"
  by (simp add: points_for_def)

lemma ask_advisor_points:
  "0 \<le> sp_cap spec \<Longrightarrow> 0 \<le> ar_points (ask_advisor spec q reply)
     \<and> ar_points (ask_advisor spec q reply) \<le> sp_cap spec"
  using points_for_bounds
  by (auto simp: ask_advisor_def silent_record_def split: advisor_reply.split)

lemma ask_advisor_simps [simp]:
  "ar_mode (ask_advisor spec q reply) = sp_mode spec" "ar_advisor (ask_advisor spec q reply) = sp_name spec"
  "ar_mode (silent_record spec q st d) = sp_mode spec" "ar_status (silent_record spec q st d) = st"
  by (auto simp: ask_advisor_def silent_record_def split: advisor_reply.split)

text \<open>Only the records of one mode count for it.\<close>

lemma foldl_filter:
  "(\<And>b r. \<not> P r \<Longrightarrow> f b r = b) \<Longrightarrow> foldl f acc (filter P rs) = foldl f acc rs"
  by (induction rs arbitrary: acc) auto

lemma best_points_filter:
  "best_points mode (filter (\<lambda>r. ar_mode r = mode) rs) = best_points mode rs"
  unfolding best_points_def by (rule foldl_filter) simp

lemma total_points_filter:
  "total_points mode cap rs = total_points mode cap (filter (\<lambda>r. ar_mode r = mode) rs)"
  by (auto simp: total_points_def best_points_filter list_ex_iff)

lemma update_nonneg:
  "list_all (\<lambda>(k, p). 0 \<le> p) best \<Longrightarrow> 0 \<le> x \<Longrightarrow> list_all (\<lambda>(k, p). 0 \<le> p) (AList.update k x best)"
  for x :: int
  by (induction best) auto

lemma best_points_nonneg:
  "list_all (\<lambda>(k, p). 0 \<le> p) (best_points mode rs)"
proof -
  let ?f = "\<lambda>best r.
        if ar_mode r \<noteq> mode \<or> ar_status r \<noteq> StAnswered then best
        else AList.update (ar_advisor r)
               (max (case map_of best (ar_advisor r) of None \<Rightarrow> 0 | Some p \<Rightarrow> p) (ar_points r)) best"
  have "list_all (\<lambda>(k, p). 0 \<le> p) best \<Longrightarrow> list_all (\<lambda>(k, p). 0 \<le> p) (foldl ?f best rs)" for best
  proof (induction rs arbitrary: best)
    case Nil
    then show ?case by simp
  next
    case (Cons r rs)
    have "0 \<le> (case map_of best (ar_advisor r) of None \<Rightarrow> 0 | Some p \<Rightarrow> p)"
      using Cons.prems by (auto simp: list_all_iff dest: map_of_SomeD split: option.split)
    then have "list_all (\<lambda>(k, p). 0 \<le> p) (?f best r)"
      using Cons.prems by (simp add: update_nonneg)
    from Cons.IH [OF this] show ?case by simp
  qed
  from this [of "[]"] show ?thesis by (simp add: best_points_def)
qed

lemma total_points_bounds:
  "0 \<le> cap \<Longrightarrow> 0 \<le> fst (total_points mode cap rs) \<and> fst (total_points mode cap rs) \<le> cap"
proof -
  assume "0 \<le> cap"
  moreover have "0 \<le> sum_list (map snd (best_points mode rs))"
    using best_points_nonneg [of mode rs] by (intro sum_list_nonneg) (auto simp: list_all_iff)
  ultimately show ?thesis by (simp add: total_points_def)
qed

lemma panel_records_mode:
  assumes "\<And>spec q. spec \<in> set (pc_advisors cfg) \<Longrightarrow> sp_mode spec = mode \<Longrightarrow>
      ask (sp_name spec) q = ask' (sp_name spec) q"
  shows "filter (\<lambda>r. ar_mode r = mode) (panel_records cfg hosted ask c labels allowed) =
         filter (\<lambda>r. ar_mode r = mode) (panel_records cfg hosted ask' c labels allowed)"
proof -
  let ?P = "\<lambda>r. ar_mode r = mode"
  let ?skip = "\<lambda>spec. hosted (sp_name spec) \<and> \<not> hosted_allowed c labels allowed"
  let ?one = "\<lambda>ask spec. if ?skip spec then []
      else map (\<lambda>q. ask_advisor spec q (ask (sp_name spec) q)) (sp_questions spec)"
  have one: "filter ?P (?one ask spec) = filter ?P (?one ask' spec)" if "spec \<in> set (pc_advisors cfg)" for spec
    using assms [OF that] by (cases "sp_mode spec = mode") (simp_all add: filter_map o_def)
  have "filter ?P (concat (map (?one ask) xs)) = filter ?P (concat (map (?one ask') xs))"
    if "set xs \<subseteq> set (pc_advisors cfg)" for xs
    using that by (induction xs) (simp_all add: one del: if_split)
  from this [of "pc_advisors cfg"] show ?thesis
    unfolding panel_records_def Let_def filter_append by simp
qed

text \<open>Shadow advisors are only recorded: whatever an advisor in shadow mode answers (or fails to),
  the enforced points and the enforced request for verification are those without it, and the
  points stay between zero and the panel's total cap.\<close>

theorem shadow_advisors_only_recorded:
  assumes "validate_panel cfg = Inr cfg'"
    "list_all (\<lambda>spec. sp_mode spec = Enforce \<longrightarrow> ask (sp_name spec) = ask' (sp_name spec)) (pc_advisors cfg)"
  shows "av_points (panel_advise cfg hosted ask b c labels allowed) =
         av_points (panel_advise cfg hosted ask' b c labels allowed)
    \<and> av_verify (panel_advise cfg hosted ask b c labels allowed) =
      av_verify (panel_advise cfg hosted ask' b c labels allowed)
    \<and> 0 \<le> av_points (panel_advise cfg hosted ask b c labels allowed)
    \<and> av_points (panel_advise cfg hosted ask b c labels allowed) \<le> pc_total_cap cfg"
proof -
  have cap: "0 \<le> pc_total_cap cfg" using assms(1) by (auto simp: validate_panel_def split: if_splits)
  have "filter (\<lambda>r. ar_mode r = Enforce) (panel_records cfg hosted ask c labels allowed) =
        filter (\<lambda>r. ar_mode r = Enforce) (panel_records cfg hosted ask' c labels allowed)"
    using assms(2) by (intro panel_records_mode) (auto simp: list_all_iff)
  then have "total_points Enforce cap (panel_records cfg hosted ask c labels allowed) =
        total_points Enforce cap (panel_records cfg hosted ask' c labels allowed)" for cap
    using total_points_filter by metis
  then show ?thesis
    using total_points_bounds [OF cap, of Enforce] cap
    by (simp add: panel_advise_def combine_def no_advisory_def Let_def)
qed

definition ex_spec :: "string \<Rightarrow> run_mode \<Rightarrow> advisor_spec" where
  "ex_spec n m = \<lparr>sp_name = n, sp_provider = ''local'', sp_mode = m, sp_questions = [Exfiltration, Injection],
     sp_cap = 10, sp_timeout_ms = 200, sp_allow_verify = True\<rparr>"

definition ex_panel :: panel_config where
  "ex_panel = \<lparr>pc_advisors = [ex_spec ''a'' Enforce, ex_spec ''b'' Shadow], pc_total_cap = 20,
     pc_bands = [Elevated, High]\<rparr>"

definition ex_ask :: "advisor_reply \<Rightarrow> string \<Rightarrow> question \<Rightarrow> advisor_reply" where
  "ex_ask r n q = (if n = ''a'' then Replied \<lparr>an_label = Malicious, an_confidence = 1, an_verify = True\<rparr> else r)"

theorem shadow_advisors_only_recorded_witness:
  "av_points (panel_advise ex_panel (\<lambda>_. False) (ex_ask TimedOut) High INTERNAL [] {}) = 10
   \<and> av_points (panel_advise ex_panel (\<lambda>_. False)
        (ex_ask (Replied \<lparr>an_label = Malicious, an_confidence = 1, an_verify = True\<rparr>)) High INTERNAL [] {}) = 10"
proof -
  have v: "validate_panel ex_panel = Inr ex_panel"
    by (simp add: validate_panel_def ex_panel_def ex_spec_def)
  have "list_all (\<lambda>spec. sp_mode spec = Enforce \<longrightarrow> ex_ask TimedOut (sp_name spec) =
      ex_ask (Replied \<lparr>an_label = Malicious, an_confidence = 1, an_verify = True\<rparr>) (sp_name spec)) (pc_advisors ex_panel)"
    by (simp add: ex_panel_def ex_spec_def ex_ask_def fun_eq_iff)
  moreover have "av_points (panel_advise ex_panel (\<lambda>_. False) (ex_ask TimedOut) High INTERNAL [] {}) = 10"
    by (simp add: panel_advise_def panel_applies_def ex_panel_def ex_spec_def combine_def Let_def total_points_def
        best_points_def panel_records_def ask_advisor_def silent_record_def ex_ask_def points_for_def)
  ultimately show ?thesis
    using shadow_advisors_only_recorded [OF v, of "ex_ask TimedOut"
        "ex_ask (Replied \<lparr>an_label = Malicious, an_confidence = 1, an_verify = True\<rparr>)"
        "\<lambda>_. False" High INTERNAL "[]" "{}"]
    by simp
qed

end
