(* ===== verification/Context_Build.thy ===== *)
theory Context_Build
  imports Sdk_Models
begin

text \<open>
  The context builder (\<^verbatim>\<open>app/context/catalog.py\<close>, \<^verbatim>\<open>app/context/builder.py\<close>), the principal
  of a request (\<^verbatim>\<open>app/gateway/auth.py\<close>) and the policy client (\<^verbatim>\<open>app/policy/opa.py\<close>). Glob patterns
  are matched as \<open>fnmatch.fnmatchcase\<close> does. The policy engine's HTTP answer is a parameter.
\<close>

record principal =
  pr_key_id :: string
  pr_tenant_id :: string
  pr_key_name :: string
  pr_scopes :: "string list"
  pr_rate_limit_per_minute :: "int option"
  pr_agent_id :: "string option"

definition assurance :: "principal \<Rightarrow> string" where
  "assurance p = (if pr_agent_id p \<noteq> None \<and> pr_agent_id p \<noteq> Some [] then ''A1'' else ''A0'')"

record guard_request =
  gq_agent_id :: string
  gq_action :: string
  gq_resource :: "string option"
  gq_user_id :: "string option"
  gq_session_id :: "string option"
  gq_arguments :: jobj
  gq_data_classification :: classification
  gq_delegation_chain :: "string list"
  gq_tool_metadata :: "jobj option"
  gq_accepts_obligations :: "bool option"
  gq_verification_channels :: "string list option"

section \<open>Glob patterns\<close>

datatype set_item = Single char | Range char char

fun parse_set :: "string \<Rightarrow> set_item list" where
  "parse_set (a # b # c # cs) =
     (if b = CHR ''-'' then Range a c # parse_set cs else Single a # parse_set (b # c # cs))"
| "parse_set [a, b] = [Single a, Single b]"
| "parse_set [a] = [Single a]"
| "parse_set [] = []"

definition in_item :: "char \<Rightarrow> set_item \<Rightarrow> bool" where
  "in_item x i =
     (case i of
        Single a \<Rightarrow> x = a
      | Range a b \<Rightarrow> (of_char a :: nat) \<le> of_char x \<and> (of_char x :: nat) \<le> of_char b)"

datatype glob_item = GAny | GStar | GLit char | GSet bool "set_item list"

text \<open>What follows a \<open>[\<close>: negation, a leading \<open>]\<close>, up to the closing \<open>]\<close>; none: a literal \<open>[\<close>.\<close>

definition scan_set :: "string \<Rightarrow> (bool \<times> string \<times> string) option" where
  "scan_set cs =
     (let neg = (cs \<noteq> [] \<and> hd cs = CHR ''!'');
          body = (if neg then tl cs else cs);
          lead = (if body \<noteq> [] \<and> hd body = CHR '']'' then [CHR '']''] else []);
          rest = (if lead \<noteq> [] then tl body else body);
          inner = takeWhile (\<lambda>c. c \<noteq> CHR '']'') rest;
          after = dropWhile (\<lambda>c. c \<noteq> CHR '']'') rest
      in if after = [] then None else Some (neg, lead @ inner, tl after))"

lemma length_tl_dropWhile: "length (tl (dropWhile P xs)) \<le> length xs"
  using length_dropWhile_le [of P xs] by simp

lemma scan_set_shorter:
  assumes "scan_set cs = Some (neg, inner, rest)"
  shows "length rest < Suc (length cs)"
proof -
  define body where "body = (if cs \<noteq> [] \<and> hd cs = CHR ''!'' then tl cs else cs)"
  define r where "r = (if (if body \<noteq> [] \<and> hd body = CHR '']'' then [CHR '']''] else []) \<noteq> [] then tl body else body)"
  have "length body \<le> length cs" "length r \<le> length body"
    by (simp add: body_def, simp add: r_def)
  moreover have "rest = tl (dropWhile (\<lambda>c. c \<noteq> CHR '']'') r)"
    using assms unfolding scan_set_def Let_def body_def [symmetric] r_def [symmetric]
    by (simp split: if_split_asm)
  ultimately show ?thesis
    using length_tl_dropWhile [of "\<lambda>c. c \<noteq> CHR '']''" r] by simp
qed

function parse_glob :: "string \<Rightarrow> glob_item list" where
  "parse_glob [] = []"
| "parse_glob (c # cs) =
     (if c = CHR ''*'' then GStar # parse_glob cs
      else if c = CHR ''?'' then GAny # parse_glob cs
      else if c = CHR ''['' then
        (case scan_set cs of
           None \<Rightarrow> GLit c # parse_glob cs
         | Some (neg, inner, rest) \<Rightarrow> GSet neg (parse_set inner) # parse_glob rest)
      else GLit c # parse_glob cs)"
  by pat_completeness auto

termination
  by (relation "measure length") (auto dest: scan_set_shorter)

fun glob_match :: "glob_item list \<Rightarrow> string \<Rightarrow> bool" where
  "glob_match [] s \<longleftrightarrow> s = []"
| "glob_match (GStar # ps) s \<longleftrightarrow>
     glob_match ps s \<or> (case s of [] \<Rightarrow> False | _ # s' \<Rightarrow> glob_match (GStar # ps) s')"
| "glob_match (GAny # ps) s \<longleftrightarrow> (case s of [] \<Rightarrow> False | _ # s' \<Rightarrow> glob_match ps s')"
| "glob_match (GLit c # ps) s \<longleftrightarrow> (case s of [] \<Rightarrow> False | x # s' \<Rightarrow> x = c \<and> glob_match ps s')"
| "glob_match (GSet neg items # ps) s \<longleftrightarrow>
     (case s of [] \<Rightarrow> False | x # s' \<Rightarrow> (list_ex (in_item x) items \<noteq> neg) \<and> glob_match ps s')"

definition fnmatchcase :: "string \<Rightarrow> string \<Rightarrow> bool" where
  "fnmatchcase name pattern = glob_match (parse_glob pattern) name"

section \<open>The catalog\<close>

record agent_info =
  ag_agent_id :: string
  ag_base_trust_score :: int
  ag_allowed_tools :: "string list"
  ag_open_findings :: "string list"

record action_rule =
  al_action :: string
  al_resource_pattern :: string
  al_base_risk_score :: int

definition specificity :: "action_rule \<Rightarrow> nat \<times> nat" where
  "specificity r =
     (let wildcard = list_ex (\<lambda>ch. ch \<in> set (al_resource_pattern r)) ''*?['';
          literal = length (hd (split_char (CHR ''*'') (al_resource_pattern r)))
      in (if wildcard then 0 else 1, literal))"

record tenant_catalog =
  tc_agents :: "(string \<times> agent_info) list"
  tc_actions :: "(string \<times> action_rule list) list"
  tc_modifiers :: "((string \<times> string) \<times> int) list"
  tc_advisor_data_classes :: "classification set"
  tc_flagged_tools :: "string list"

definition catalog_agent :: "tenant_catalog \<Rightarrow> string \<Rightarrow> agent_info option" where
  "catalog_agent cat a = map_of (tc_agents cat) a"

definition find_rule :: "tenant_catalog \<Rightarrow> string \<Rightarrow> string option \<Rightarrow> action_rule option" where
  "find_rule cat action resource =
     (let rules = (case map_of (tc_actions cat) action of None \<Rightarrow> [] | Some rs \<Rightarrow> rs);
          name = (case resource of None \<Rightarrow> [] | Some r \<Rightarrow> r);
          candidates = filter (\<lambda>r. fnmatchcase name (al_resource_pattern r)) rules
      in case candidates of [] \<Rightarrow> None | r # rs \<Rightarrow> Some (max_by specificity r rs))"

definition modifier :: "tenant_catalog \<Rightarrow> string \<Rightarrow> string \<Rightarrow> int" where
  "modifier cat kind v = (case map_of (tc_modifiers cat) (kind, v) of None \<Rightarrow> 0 | Some d \<Rightarrow> d)"

section \<open>Building the context\<close>

record built_context =
  bc_context :: security_context
  bc_agent :: "agent_info option"
  bc_action_known :: bool
  bc_advisor_data_classes :: "classification set"
  bc_flagged_tools :: "string list"

definition inherent_risk :: "tenant_catalog \<Rightarrow> environment \<Rightarrow> guard_request \<Rightarrow> int" where
  "inherent_risk cat env req =
     (let risk = (case find_rule cat (gq_action req) (gq_resource req) of
                    None \<Rightarrow> 100
                  | Some r \<Rightarrow> al_base_risk_score r +
                      modifier cat ''classification'' (classification_value (gq_data_classification req)) +
                      modifier cat ''environment'' (environment_value env))
      in max 0 (min 100 risk))"

definition build_context ::
  "tenant_catalog \<Rightarrow> environment \<Rightarrow> principal \<Rightarrow> guard_request \<Rightarrow> string \<Rightarrow> string \<Rightarrow> built_context" where
  "build_context cat env p req request_id trace_id =
     (let agent = catalog_agent cat (gq_agent_id req);
          trust = (case agent of None \<Rightarrow> 0 | Some a \<Rightarrow> ag_base_trust_score a)
      in \<lparr>bc_context =
            \<lparr>ctx_request_id = request_id, ctx_trace_id = trace_id, ctx_tenant_id = pr_tenant_id p,
             ctx_agent_id = gq_agent_id req, ctx_user_id = gq_user_id req, ctx_session_id = gq_session_id req,
             ctx_action = gq_action req, ctx_resource = gq_resource req, ctx_arguments = gq_arguments req,
             ctx_trust_score = trust, ctx_risk_score = inherent_risk cat env req,
             ctx_data_classification = gq_data_classification req, ctx_environment = env,
             ctx_delegation_chain = gq_delegation_chain req, ctx_tool_metadata = gq_tool_metadata req\<rparr>,
          bc_agent = agent,
          bc_action_known = (find_rule cat (gq_action req) (gq_resource req) \<noteq> None),
          bc_advisor_data_classes = tc_advisor_data_classes cat,
          bc_flagged_tools = tc_flagged_tools cat\<rparr>)"

section \<open>The policy client\<close>

record policy_decision =
  po_allow :: bool
  po_reason :: string
  po_obligations :: "string list"
  po_error :: "string option"

text \<open>
  The HTTP exchange ends with an exception (connection, status, body that is not JSON) or with
  the value of \<open>result\<close>. A reason that is not text is printed by Python; \<open>show\<close> is that printing.
  A list of obligations keeps its strings; iterating a string or an object gives its characters
  or keys; anything else cannot be iterated and raises.
\<close>

definition obligations_of :: "json \<Rightarrow> string list option" where
  "obligations_of v =
     (case v of
        JArr xs \<Rightarrow> Some (List.map_filter (\<lambda>x. case x of JStr s \<Rightarrow> Some s | _ \<Rightarrow> None) xs)
      | JStr s \<Rightarrow> Some (map (\<lambda>c. [c]) s)
      | JObj kvs \<Rightarrow> Some (map fst kvs)
      | _ \<Rightarrow> None)"

definition denied :: "string \<Rightarrow> string \<Rightarrow> policy_decision" where
  "denied reason err =
     \<lparr>po_allow = False, po_reason = reason, po_obligations = [], po_error = Some err\<rparr>"

definition opa_decision :: "(json \<Rightarrow> string) \<Rightarrow> string + json \<Rightarrow> string + policy_decision" where
  "opa_decision show reply =
     (case reply of
        Inl e \<Rightarrow> Inr (denied ''policy engine unavailable (fail-closed)'' e)
      | Inr (JObj result) \<Rightarrow>
          (case obj_get result ''allow'' of
             JBool allow \<Rightarrow>
               (let obs = (case map_of result ''obligations'' of None \<Rightarrow> Some [] | Some v \<Rightarrow> obligations_of v);
                    reason = (if truthy (obj_get result ''reason'') then show (obj_get result ''reason'') else [])
                in case obs of
                     None \<Rightarrow> Inl ''TypeError''
                   | Some os \<Rightarrow> Inr \<lparr>po_allow = allow, po_reason = reason,
                                     po_obligations = sorted_list_of_set (set os), po_error = None\<rparr>)
           | _ \<Rightarrow> Inr (denied ''policy engine returned no decision (fail-closed)'' ''no_result''))
      | Inr _ \<Rightarrow> Inr (denied ''policy engine returned no decision (fail-closed)'' ''no_result''))"

section \<open>What the context promises\<close>


end
