(* ===== verification/Contextual.thy ===== *)
theory Contextual
  imports Verify_Engine Advise Context_Build
begin

text \<open>
  Contextual decisions (\<^verbatim>\<open>app/risk/contextual.py\<close>): the identity check, what is prepared before
  the policy, the advisors, the decision table with this session's facts, the verification of
  its outcome and what is recorded afterwards. Sessions live in the memory store, verifications
  in any store of the protocol. The description of the action and the two digests are arguments.
\<close>

datatype risk_mode = RiskOff | RiskShadow | RiskEnforce

text \<open>Python's \<open>repr\<close> of a string.\<close>

definition py_repr :: "string \<Rightarrow> string" where
  "py_repr s =
     (let q = (if CHR 0x27 \<in> set s \<and> CHR 0x22 \<notin> set s then CHR 0x22 else CHR 0x27);
          esc = (\<lambda>c. let n = of_char c :: nat in
                 if c = q \<or> c = CHR 0x5C then [CHR 0x5C, c]
                 else if n = 9 then [CHR 0x5C, CHR ''t'']
                 else if n = 10 then [CHR 0x5C, CHR ''n'']
                 else if n = 13 then [CHR 0x5C, CHR ''r'']
                 else if n < 32 \<or> (127 \<le> n \<and> n \<le> 160) \<or> n = 173
                 then [CHR 0x5C, CHR ''x'', hex_digit (n div 16), hex_digit (n mod 16)]
                 else [c])
      in q # concat (map esc s) @ [q])"

record prepared =
  pp_descriptor :: action_descriptor
  pp_view :: "session_view option"
  pp_assessment :: "assessment option"
  pp_advisory :: "advisory option"

record advisor_panel =
  ap_config :: panel_config
  ap_hosted :: "string \<Rightarrow> bool"
  ap_ask :: "string \<Rightarrow> question \<Rightarrow> advisor_reply"

record 'v contextual =
  cx_has_store :: bool
  cx_configured_mode :: risk_mode
  cx_require_bound_keys :: bool
  cx_cfg :: risk_config
  cx_verifier :: "'v verification_engine option"
  cx_advisors :: "advisor_panel option"

definition cx_mode :: "'v contextual \<Rightarrow> risk_mode" where
  "cx_mode cx = (if cx_has_store cx then cx_configured_mode cx else RiskOff)"

definition enforcing :: "'v contextual \<Rightarrow> bool" where
  "enforcing cx \<longleftrightarrow> cx_mode cx = RiskEnforce"

section \<open>Identity\<close>

definition identity_violation :: "'v contextual \<Rightarrow> principal \<Rightarrow> guard_request \<Rightarrow> (string \<times> string) option" where
  "identity_violation cx p body =
     (case pr_agent_id p of
        Some a \<Rightarrow>
          if gq_agent_id body \<noteq> a
          then Some (''KEY_AGENT_MISMATCH'', ''this API key is bound to agent '' @ py_repr a @ '', not '' @
                       py_repr (gq_agent_id body))
          else None
      | None \<Rightarrow>
          if cx_require_bound_keys cx
          then Some (''UNBOUND_KEY'', ''this gateway requires agent-bound API keys (identity assurance A1); this key is A0'')
          else None)"

section \<open>Flagged tools\<close>

definition norm_name :: "string \<Rightarrow> string" where
  "norm_name v = map (\<lambda>c. if c = CHR ''_'' then CHR ''-'' else c) v"

text \<open>What follows the last of the separators \<open>--\<close>, \<open>/\<close> and \<open>:\<close>, found from the left.\<close>

fun last_part :: "string \<Rightarrow> string \<Rightarrow> string" where
  "last_part acc [] = acc"
| "last_part acc (c # cs) =
     (if c = CHR ''/'' \<or> c = CHR '':'' then last_part [] cs
      else if c = CHR ''-'' \<and> cs \<noteq> [] \<and> hd cs = CHR ''-'' then last_part [] (tl cs)
      else last_part (acc @ [c]) cs)"

definition same_server :: "string \<Rightarrow> string \<Rightarrow> bool" where
  "same_server pfx server =
     (let p = norm_name pfx; s = norm_name server; l = last_part [] p
      in p = s \<or> l = s \<or> l = hd (split_char (CHR ''.'') s))"

text \<open>\<open>f.rpartition("/")\<close>: the part before the last slash (empty without one) and the rest.\<close>

definition rpartition_slash :: "string \<Rightarrow> string \<times> string" where
  "rpartition_slash f =
     (if CHR ''/'' \<in> set f
      then (rev (tl (dropWhile (\<lambda>c. c \<noteq> CHR ''/'') (rev f))), rev (takeWhile (\<lambda>c. c \<noteq> CHR ''/'') (rev f)))
      else ([], f))"

definition flag_matches :: "string \<Rightarrow> string \<Rightarrow> bool" where
  "flag_matches n f =
     (let (server, tool) = rpartition_slash (str_lower f) in
      n = tool \<or> n = str_lower f \<or>
      list_ex (\<lambda>sep. suffix (sep @ tool) n \<and> length (sep @ tool) < length n \<and>
          (server = [] \<or> same_server (take (length n - length (sep @ tool)) n) server))
        [''__'', ''/'', '':'', ''.''])"

definition tool_is_flagged :: "string \<Rightarrow> string list \<Rightarrow> bool" where
  "tool_is_flagged name flagged \<longleftrightarrow> list_ex (flag_matches (str_lower name)) flagged"

definition volume_key :: "action_descriptor \<Rightarrow> string option" where
  "volume_key d =
     (if ad_kind d \<in> {DSql, DHttp, DFile} \<and> nonempty (ad_target d)
      then Some (kind_value (ad_kind d) @ '':'' @ verb_value (ad_verb d) @ '':'' @ the (ad_target d))
      else None)"

section \<open>Before the policy\<close>

definition prepare ::
  "'v contextual \<Rightarrow> real \<Rightarrow> memory_store \<Rightarrow> principal \<Rightarrow> guard_request \<Rightarrow> stage \<Rightarrow> payload \<Rightarrow>
   action_descriptor \<Rightarrow> environment \<Rightarrow> int \<Rightarrow> int \<Rightarrow> string list \<Rightarrow> string list \<Rightarrow> prepared" where
  "prepare cx now sessions p body stg pl d env inherent base_trust findings flagged =
     (if cx_mode cx = RiskOff \<or> \<not> cx_has_store cx
      then \<lparr>pp_descriptor = d, pp_view = None, pp_assessment = None, pp_advisory = None\<rparr>
      else
        (let view = memory_view sessions now (pr_tenant_id p) (gq_agent_id body) (gq_session_id body)
                      (ad_target d) (volume_key d);
             a = assess (cx_cfg cx) now view
                   \<lparr>ai_inherent = inherent, ai_base_trust = base_trust, ai_descriptor = d, ai_stage = stg,
                    ai_environment = env, ai_assurance = assurance p,
                    ai_data_classification = gq_data_classification body,
                    ai_has_session_id = nonempty (gq_session_id body), ai_agent_findings = findings,
                    ai_tool_flagged =
                      (case pl_tool_call pl of None \<Rightarrow> False | Some t \<Rightarrow> tool_is_flagged (tc_name t) flagged)\<rparr>
         in \<lparr>pp_descriptor = d, pp_view = Some view, pp_assessment = Some a, pp_advisory = None\<rparr>))"

section \<open>After the policy and the guardrails\<close>

definition add_advice :: "assessment \<Rightarrow> advisory \<Rightarrow> assessment" where
  "add_advice a ad =
     (if 0 < av_points ad then
        (let score = min 100 (am_score a + av_points ad)
         in \<lparr>am_score = score, am_band = band_for score (am_trust a), am_trust = am_trust a,
             am_confidence = am_confidence a, am_inherent = am_inherent a,
             am_signals = am_signals a @ [sig ''ADVISOR_RISK'' (av_points ad) []]\<rparr>)
      else a)"

definition advise :: "'v contextual \<Rightarrow> prepared \<Rightarrow> guard_request \<Rightarrow> classification set \<Rightarrow> prepared" where
  "advise cx pp body hosted_classes =
     (case (cx_advisors cx, pp_assessment pp, pp_view pp) of
        (Some panel, Some a, Some view) \<Rightarrow>
          if \<not> panel_applies (ap_config panel) (am_band a) then pp
          else
            (let ad = panel_advise (ap_config panel) (ap_hosted panel) (ap_ask panel) (am_band a)
                        (gq_data_classification body) (sorted_list_of_set (sv_labels view)) hosted_classes
             in pp\<lparr>pp_assessment := Some (add_advice a ad), pp_advisory := Some ad\<rparr>)
      | _ \<Rightarrow> pp)"

definition decide_contextual ::
  "'v contextual \<Rightarrow> real \<Rightarrow> prepared \<Rightarrow> bool \<Rightarrow> decision \<Rightarrow> bool \<Rightarrow> table_result option" where
  "decide_contextual cx now pp policy_allow engine_decision accepts =
     (case (pp_assessment pp, pp_view pp) of
        (Some a, Some view) \<Rightarrow>
          Some (decide (cx_cfg cx)
            \<lparr>di_policy_allow = policy_allow, di_engine_decision = engine_decision, di_band = am_band a,
             di_descriptor = pp_descriptor pp, di_quarantined = quarantined view now,
             di_accepts_obligations = accepts, di_verification_available = (cx_verifier cx \<noteq> None),
             di_advisor_verify = (case pp_advisory pp of None \<Rightarrow> False | Some ad \<Rightarrow> av_verify ad)\<rparr>)
      | _ \<Rightarrow> None)"

definition verify_context_of ::
  "(string \<Rightarrow> string) \<Rightarrow> (guard_request \<Rightarrow> string) \<Rightarrow> prepared \<Rightarrow> table_result \<Rightarrow> principal \<Rightarrow> guard_request \<Rightarrow>
   stage \<Rightarrow> payload \<Rightarrow> string \<Rightarrow> environment \<Rightarrow> verify_context" where
  "verify_context_of sha256 request_digest pp table p body stg pl payload_sha256 env =
     \<lparr>vc_tenant_id = pr_tenant_id p, vc_agent_id = gq_agent_id body, vc_user_id = gq_user_id body,
      vc_request_hash = request_hash sha256
        \<lparr>rq_tenant = pr_tenant_id p, rq_agent_id = gq_agent_id body, rq_stage = stage_value stg,
         rq_action = gq_action body, rq_resource = gq_resource body, rq_user_id = gq_user_id body,
         rq_session_id = gq_session_id body, rq_payload_sha256 = payload_sha256,
         rq_request_sha256 = request_digest body\<rparr>,
      vc_descriptor = pp_descriptor pp,
      vc_codes = tr_reason_codes table @ (case pp_assessment pp of None \<Rightarrow> [] | Some a \<Rightarrow> am_codes a),
      vc_environment = env, vc_assurance = assurance p,
      vc_channels = (case gq_verification_channels body of None \<Rightarrow> [] | Some cs \<Rightarrow> cs),
      vc_tool_name = map_option tc_name (pl_tool_call pl), vc_resource = gq_resource body,
      vc_sql = sql_text (map_option tc_arguments (pl_tool_call pl)) (Some (gq_arguments body))\<rparr>"

definition resolved_table :: "table_result \<Rightarrow> resolution \<Rightarrow> table_result" where
  "resolved_table table r =
     \<lparr>tr_outcome = rn_outcome r, tr_reason_codes = fromkeys (tr_reason_codes table @ rn_codes r),
      tr_obligations = []\<rparr>"

definition verify_outcome ::
  "'v contextual \<Rightarrow> real \<Rightarrow> string \<Rightarrow> table_result \<Rightarrow> verify_context \<Rightarrow>
   ('v, table_result \<times> verification option) effect" where
  "verify_outcome cx now uid table c =
     (let follow = allowing (tr_outcome table) \<and> enforcing cx in
      case cx_verifier cx of
        None \<Rightarrow> return_value (table, None)
      | Some en \<Rightarrow>
          if tr_outcome table \<noteq> OVerify \<and> \<not> follow then return_value (table, None)
          else if follow then
            and_then (follow_up en c now)
              (\<lambda>found. case found of
                 None \<Rightarrow> return_value (table, None)
               | Some r \<Rightarrow> return_value (resolved_table table r, rn_verification r))
          else
            and_then (if enforcing cx then resolve_verification en c now uid else return_value (describe_plan en c))
              (\<lambda>r. return_value (resolved_table table r, rn_verification r)))"

section \<open>After the decision\<close>

definition session_update_of ::
  "'v contextual \<Rightarrow> real \<Rightarrow> prepared \<Rightarrow> session_view \<Rightarrow> guard_request \<Rightarrow> stage \<Rightarrow> payload \<Rightarrow> decision \<Rightarrow>
   session_update" where
  "session_update_of cx now pp view body stg pl final =
     (let released = final \<in> {Allow, Modify};
          denied = (final = Block);
          d = pp_descriptor pp;
          is_result = (case pl_tool_call pl of None \<Rightarrow> False | Some t \<Rightarrow> tc_result t \<noteq> JNull);
          untrusted = stg = Retrieval \<or>
            (is_result \<and> (ad_destination d = Some External \<or> ad_kind d \<in> {DHttp, DUnknown})) \<or>
            (case gq_tool_metadata body of None \<Rightarrow> False | Some m \<Rightarrow> obj_get m ''trust'' = JStr ''untrusted'');
          sensitive = gq_data_classification body \<in> {PII, CONFIDENTIAL};
          acts = released \<and> stg = Tool \<and> \<not> is_result;
          denials = sv_denials view + (if denied then 1 else 0)
      in \<lparr>su_denied = denied, su_allowed = released,
          su_labels = (if released \<and> untrusted then {''untrusted_input''} else {}) \<union>
            (if released \<and> sensitive then {''holds:'' @ classification_value (gq_data_classification body)} else {}),
          su_target = (if acts then ad_target d else None),
          su_volume_key = (if acts then volume_key d else None),
          su_rows = (if acts then ad_rows_requested d else None),
          su_quarantine_seconds =
            (if denied \<and> enforcing cx \<and> rc_quarantine_after_denials (cx_cfg cx) \<le> denials
             then rc_quarantine_seconds (cx_cfg cx) else 0),
          su_agent_quarantine_seconds =
            (if denied \<and> enforcing cx \<and>
                rc_agent_quarantine_after_denials (cx_cfg cx) \<le> sv_agent_recent_denials view + 1
             then rc_quarantine_seconds (cx_cfg cx) else 0),
          su_penalty =
            (if denied \<and> rc_penalty_after_denials (cx_cfg cx) \<le> denials \<and> \<not> sv_penalised view
             then Some \<lparr>pen_code = ''REPEATED_DENIALS'', pen_points = rc_denial_penalty_points (cx_cfg cx),
                        pen_half_life_days = rc_denial_penalty_half_life_days (cx_cfg cx), pen_at = now\<rparr>
             else None)\<rparr>)"

definition record_decision ::
  "'v contextual \<Rightarrow> real \<Rightarrow> prepared \<Rightarrow> principal \<Rightarrow> guard_request \<Rightarrow> stage \<Rightarrow> payload \<Rightarrow> decision \<Rightarrow>
   memory_store \<Rightarrow> memory_store" where
  "record_decision cx now pp p body stg pl final sessions =
     (case pp_view pp of
        None \<Rightarrow> sessions
      | Some view \<Rightarrow>
          if \<not> cx_has_store cx then sessions
          else memory_record sessions now (pr_tenant_id p) (gq_agent_id body) (gq_session_id body)
                 (session_update_of cx now pp view body stg pl final))"

end
