(* ===== verification/Registry.thy ===== *)
theory Registry
  imports Snapshots
begin

text \<open>
  The plugin registry (\<^verbatim>\<open>app/engine/registry.py\<close>): what \<open>CompiledSnapshot.resolve\<close>
  chooses, \<open>PluginRegistry.compile\<close> and \<open>SnapshotHolder.apply\<close>. Resolving a class and its
  \<open>setup\<close> run plugin code: \<open>instantiate\<close> is a parameter that returns the plugin or the
  name of the exception it raised.
\<close>

section \<open>What resolve chooses\<close>

definition guardrail_of :: "bound_guardrail \<Rightarrow> string" where
  [model_defs]: "guardrail_of b = as_guardrail_id (bg_assignment b)"

definition priority_of :: "bound_guardrail \<Rightarrow> nat" where
  [model_defs]: "priority_of b = scope_priority (as_scope_type (bg_assignment b))"

text \<open>
  The specification: among the bound guardrails of one id that apply, the first of those
  with the most specific scope.
\<close>

fun first_most_specific :: "bound_guardrail list \<Rightarrow> bound_guardrail option" where
  "first_most_specific [] = None"
| "first_most_specific (b # bs) = Some (max_by priority_of b bs)"

lemma first_most_specific_snoc:
  "first_most_specific (bs @ [b]) =
     (case first_most_specific bs of
        None \<Rightarrow> Some b
      | Some c \<Rightarrow> Some (if priority_of c < priority_of b then b else c))"
proof (cases bs)
  case Nil
  then show ?thesis by simp
next
  case (Cons a as)
  have "max_by priority_of a (as @ [b]) =
        (if priority_of (max_by priority_of a as) < priority_of b then b else max_by priority_of a as)"
    by (induction as arbitrary: a) auto
  with Cons show ?thesis by simp
qed

lemma first_most_specific_in: "first_most_specific bs = Some b \<Longrightarrow> b \<in> set bs"
  using max_by_in [of priority_of] by (cases bs) auto

lemma first_most_specific_ge:
  "first_most_specific bs = Some b \<Longrightarrow> c \<in> set bs \<Longrightarrow> priority_of c \<le> priority_of b"
  using max_by_ge [of c _ _ priority_of] by (cases bs) auto

lemma first_most_specific_None: "first_most_specific bs = None \<longleftrightarrow> bs = []"
  by (cases bs) auto

lemma map_of_choose_step:
  "map_of (choose_step d b) =
     (map_of d)(guardrail_of b :=
       (case map_of d (guardrail_of b) of
          None \<Rightarrow> Some b
        | Some c \<Rightarrow> Some (if priority_of c < priority_of b then b else c)))"
  by (rule ext)
    (auto simp: choose_step_def Let_def guardrail_of_def priority_of_def update_conv'
      split: option.splits)

lemma map_of_choose:
  "map_of (foldl choose_step [] bs) g = first_most_specific (filter (\<lambda>b. guardrail_of b = g) bs)"
  by (induction bs arbitrary: g rule: rev_induct)
    (auto simp: map_of_choose_step first_most_specific_snoc)

lemma distinct_choose: "distinct (map fst (foldl choose_step [] bs))"
  by (induction bs rule: rev_induct)
    (auto simp: choose_step_def Let_def distinct_update split: option.splits)

lemma choose_key: "(g, b) \<in> set (foldl choose_step [] bs) \<Longrightarrow> guardrail_of b = g"
proof -
  assume "(g, b) \<in> set (foldl choose_step [] bs)"
  then have "map_of (foldl choose_step [] bs) g = Some b"
    using distinct_choose by (simp add: map_of_eq_Some_iff)
  then show ?thesis
    by (auto simp: map_of_choose dest: first_most_specific_in)
qed

lemma choose_mem:
  "b \<in> set (map snd (foldl choose_step [] bs)) \<longleftrightarrow>
   first_most_specific (filter (\<lambda>c. guardrail_of c = guardrail_of b) bs) = Some b"
proof
  assume "b \<in> set (map snd (foldl choose_step [] bs))"
  then obtain g where g: "(g, b) \<in> set (foldl choose_step [] bs)" by auto
  then have "map_of (foldl choose_step [] bs) (guardrail_of b) = Some b"
    using distinct_choose choose_key [OF g] by (simp add: map_of_eq_Some_iff)
  then show "first_most_specific (filter (\<lambda>c. guardrail_of c = guardrail_of b) bs) = Some b"
    by (simp add: map_of_choose)
next
  assume "first_most_specific (filter (\<lambda>c. guardrail_of c = guardrail_of b) bs) = Some b"
  then have "map_of (foldl choose_step [] bs) (guardrail_of b) = Some b"
    by (simp add: map_of_choose)
  then show "b \<in> set (map snd (foldl choose_step [] bs))"
    using map_of_SomeD by force
qed

lemma distinct_guardrails_choose:
  "distinct (map guardrail_of (map snd (foldl choose_step [] bs)))"
proof -
  have "map guardrail_of (map snd (foldl choose_step [] bs)) = map fst (foldl choose_step [] bs)"
    using choose_key by (auto intro!: map_cong)
  then show ?thesis using distinct_choose by metis
qed

lemma resolve_mem:
  "b \<in> set (resolve snap tenant agent stg) \<longleftrightarrow>
     as_enabled (bg_assignment b) \<and>
     first_most_specific
       (filter (\<lambda>c. guardrail_of c = guardrail_of b)
         (filter (applies_to tenant agent stg) (cs_bound snap))) = Some b"
  using choose_mem [of b "filter (applies_to tenant agent stg) (cs_bound snap)"]
  by (auto simp: resolve_def Let_def)

lemma resolve_distinct: "distinct (map guardrail_of (resolve snap tenant agent stg))"
proof -
  let ?bs = "map snd (foldl choose_step [] (filter (applies_to tenant agent stg) (cs_bound snap)))"
  have "mset (map guardrail_of (resolve snap tenant agent stg)) =
        mset (map guardrail_of (filter (\<lambda>b. as_enabled (bg_assignment b)) ?bs))"
    by (simp add: resolve_def Let_def mset_map)
  moreover have "distinct (map guardrail_of (filter (\<lambda>b. as_enabled (bg_assignment b)) ?bs))"
    using distinct_guardrails_choose by (rule distinct_map_filter)
  ultimately show ?thesis by (metis mset_eq_imp_distinct_iff)
qed

lemma resolve_sorted:
  "sorted (map (\<lambda>b. (as_order (bg_assignment b), guardrail_of b)) (resolve snap tenant agent stg))"
  by (simp add: resolve_def Let_def guardrail_of_def)

lemma first_most_specific_split:
  assumes "list_all (\<lambda>c. priority_of c < priority_of b) xs"
    and "list_all (\<lambda>c. priority_of c \<le> priority_of b) ys"
  shows "first_most_specific (xs @ b # ys) = Some b"
  using assms(2)
proof (induction ys rule: rev_induct)
  case Nil
  have "first_most_specific xs = Some c \<Longrightarrow> priority_of c < priority_of b" for c
    using assms(1) first_most_specific_in [of xs c] by (auto simp: list_all_iff)
  then show ?case by (auto simp: first_most_specific_snoc split: option.split)
next
  case (snoc y ys)
  then show ?case using first_most_specific_snoc [of "xs @ b # ys" y] by simp
qed

lemma first_most_specific_filter_iff:
  "first_most_specific (filter P bs) = Some b \<longleftrightarrow>
     (\<exists>xs ys. bs = xs @ b # ys \<and> P b \<and>
        list_all (\<lambda>c. priority_of c < priority_of b) (filter P xs) \<and>
        list_all (\<lambda>c. priority_of c \<le> priority_of b) (filter P ys))"
proof
  assume "first_most_specific (filter P bs) = Some b"
  then show "\<exists>xs ys. bs = xs @ b # ys \<and> P b \<and>
        list_all (\<lambda>c. priority_of c < priority_of b) (filter P xs) \<and>
        list_all (\<lambda>c. priority_of c \<le> priority_of b) (filter P ys)"
  proof (induction bs rule: rev_induct)
    case Nil
    then show ?case by simp
  next
    case (snoc y bs)
    show ?case
    proof (cases "first_most_specific (filter P bs) = Some b")
      case True
      then obtain xs ys where "bs = xs @ b # ys" "P b"
        "list_all (\<lambda>c. priority_of c < priority_of b) (filter P xs)"
        "list_all (\<lambda>c. priority_of c \<le> priority_of b) (filter P ys)"
        using snoc.IH by blast
      moreover have "P y \<Longrightarrow> priority_of y \<le> priority_of b"
        using snoc.prems first_most_specific_ge [of "filter P (bs @ [y])" b y] by auto
      ultimately show ?thesis
        by (intro exI [of _ xs] exI [of _ "ys @ [y]"]) auto
    next
      case False
      with snoc.prems have yb: "P y" "y = b"
        by (auto simp: first_most_specific_snoc split: if_splits option.splits)
      have "c \<in> set (filter P bs) \<Longrightarrow> priority_of c < priority_of b" for c
        using snoc.prems False yb first_most_specific_ge [of "filter P bs" _ c]
        by (fastforce simp: first_most_specific_snoc first_most_specific_None filter_empty_conv
            split: if_splits option.splits)
      with yb show ?thesis
        by (intro exI [of _ bs] exI [of _ "[]"]) (auto simp: list_all_iff)
    qed
  qed
next
  assume "\<exists>xs ys. bs = xs @ b # ys \<and> P b \<and>
        list_all (\<lambda>c. priority_of c < priority_of b) (filter P xs) \<and>
        list_all (\<lambda>c. priority_of c \<le> priority_of b) (filter P ys)"
  then show "first_most_specific (filter P bs) = Some b"
    using first_most_specific_split by auto
qed

text \<open>C1. \<open>CompiledSnapshot.resolve\<close> returns exactly the enabled guardrails that win their
  id: a bound guardrail is in the result iff it is enabled, it applies to the tenant, agent
  and stage, every earlier applicable one of the same id has a less specific scope and no
  later one a more specific scope. Every id occurs at most once and the result is sorted by
  order and then id. So a disabled assignment at a narrower scope switches the guardrail off.
\<close>

theorem resolve_correct:
  "(b \<in> set (resolve snap tenant agent stg) \<longleftrightarrow>
      as_enabled (bg_assignment b) \<and>
      (\<exists>before after.
         filter (applies_to tenant agent stg) (cs_bound snap) = before @ b # after \<and>
         list_all (\<lambda>c. priority_of c < priority_of b)
           (filter (\<lambda>c. guardrail_of c = guardrail_of b) before) \<and>
         list_all (\<lambda>c. priority_of c \<le> priority_of b)
           (filter (\<lambda>c. guardrail_of c = guardrail_of b) after))) \<and>
   distinct (map guardrail_of (resolve snap tenant agent stg)) \<and>
   sorted (map (\<lambda>b. (as_order (bg_assignment b), guardrail_of b)) (resolve snap tenant agent stg))"
  unfolding resolve_mem first_most_specific_filter_iff
  using resolve_distinct resolve_sorted by auto

section \<open>Compiling a document\<close>

datatype compile_error =
    WrongEnvironment environment environment
  | NotInstalled string string
  | StageUnsupported string "stage list"
  | NotParallelSafe string
  | SetupFailed string string

fun compile_assignments ::
  "(string \<Rightarrow> manifest option) \<Rightarrow> (manifest \<Rightarrow> jobj \<Rightarrow> string + plugin) \<Rightarrow>
   assignment list \<Rightarrow> compile_error + bound_guardrail list" where
  "compile_assignments manifests instantiate [] = Inr []"
| "compile_assignments manifests instantiate (a # as) =
     (let key = as_guardrail_id a @ ''@'' @ as_guardrail_version a in
      case manifests key of
        None \<Rightarrow> Inl (NotInstalled (as_id a) key)
      | Some m \<Rightarrow>
          (let bad = filter (\<lambda>s. s \<notin> set (mf_stages m)) (as_stages a) in
           if bad \<noteq> [] then Inl (StageUnsupported (as_id a) bad)
           else if as_parallel_group a \<noteq> None \<and> as_parallel_group a \<noteq> Some [] \<and>
                   \<not> cap_parallel_safe (mf_capabilities m)
           then Inl (NotParallelSafe (as_id a))
           else (case instantiate m (as_config a) of
                   Inl e \<Rightarrow> Inl (SetupFailed (as_id a) e)
                 | Inr g \<Rightarrow>
                     result_bind (compile_assignments manifests instantiate as)
                       (\<lambda>bs. Inr (\<lparr>bg_assignment = a, bg_manifest = m, bg_guardrail = g\<rparr> # bs)))))"

definition compile_snapshot_doc ::
  "(string \<Rightarrow> manifest option) \<Rightarrow> (manifest \<Rightarrow> jobj \<Rightarrow> string + plugin) \<Rightarrow>
   snapshot_doc \<Rightarrow> environment \<Rightarrow> compile_error + compiled_snapshot" where
  "compile_snapshot_doc manifests instantiate doc env =
     (if sd_environment doc \<noteq> env then Inl (WrongEnvironment (sd_environment doc) env)
      else result_bind (compile_assignments manifests instantiate (sd_assignments doc))
        (\<lambda>bs. Inr \<lparr>cs_version = sd_version doc, cs_environment = sd_environment doc, cs_bound = bs\<rparr>))"

definition bound_ok :: "(string \<Rightarrow> manifest option) \<Rightarrow> bound_guardrail \<Rightarrow> bool" where
  "bound_ok manifests b \<longleftrightarrow>
     manifests (as_guardrail_id (bg_assignment b) @ ''@'' @ as_guardrail_version (bg_assignment b)) =
       Some (bg_manifest b) \<and>
     set (as_stages (bg_assignment b)) \<subseteq> set (mf_stages (bg_manifest b)) \<and>
     (as_parallel_group (bg_assignment b) = None \<or> as_parallel_group (bg_assignment b) = Some [] \<or>
      cap_parallel_safe (mf_capabilities (bg_manifest b)))"

lemma compile_assignments_Cons:
  "compile_assignments manifests instantiate (a # as) = Inr bs \<longleftrightarrow>
     (\<exists>b cs. bs = b # cs \<and> bg_assignment b = a \<and> bound_ok manifests b \<and>
        instantiate (bg_manifest b) (as_config a) = Inr (bg_guardrail b) \<and>
        compile_assignments manifests instantiate as = Inr cs)"
proof
  assume "compile_assignments manifests instantiate (a # as) = Inr bs"
  then show "\<exists>b cs. bs = b # cs \<and> bg_assignment b = a \<and> bound_ok manifests b \<and>
        instantiate (bg_manifest b) (as_config a) = Inr (bg_guardrail b) \<and>
        compile_assignments manifests instantiate as = Inr cs"
    by (fastforce simp: Let_def result_bind_Inr_iff filter_empty_conv bound_ok_def
        split: option.splits if_splits sum.splits)
next
  assume "\<exists>b cs. bs = b # cs \<and> bg_assignment b = a \<and> bound_ok manifests b \<and>
        instantiate (bg_manifest b) (as_config a) = Inr (bg_guardrail b) \<and>
        compile_assignments manifests instantiate as = Inr cs"
  then show "compile_assignments manifests instantiate (a # as) = Inr bs"
    by (auto simp: Let_def filter_empty_conv bound_ok_def)
qed

declare compile_assignments.simps(2) [simp del]

lemma compile_assignments_bound:
  "compile_assignments manifests instantiate as = Inr bs \<Longrightarrow>
   map bg_assignment bs = as \<and> list_all (bound_ok manifests) bs"
  by (induction as arbitrary: bs) (auto simp: compile_assignments_Cons)

section \<open>The live snapshot\<close>

record snapshot_holder =
  sh_environment :: environment
  sh_current :: "compiled_snapshot option"
  sh_last_error :: "(string \<times> compile_error) option"

definition holder_apply ::
  "(string \<Rightarrow> manifest option) \<Rightarrow> (manifest \<Rightarrow> jobj \<Rightarrow> string + plugin) \<Rightarrow>
   snapshot_doc \<Rightarrow> snapshot_holder \<Rightarrow> bool \<times> snapshot_holder" where
  "holder_apply manifests instantiate doc h =
     (if (case sh_current h of None \<Rightarrow> False | Some c \<Rightarrow> cs_version c = sd_version doc)
      then (True, h)
      else (case compile_snapshot_doc manifests instantiate doc (sh_environment h) of
              Inl e \<Rightarrow> (False, h\<lparr>sh_last_error := Some (sd_version doc, e)\<rparr>)
            | Inr new \<Rightarrow> (True, h\<lparr>sh_current := Some new, sh_last_error := None\<rparr>)))"

fun holder_run ::
  "(string \<Rightarrow> manifest option) \<Rightarrow> (manifest \<Rightarrow> jobj \<Rightarrow> string + plugin) \<Rightarrow>
   snapshot_doc list \<Rightarrow> snapshot_holder \<Rightarrow> snapshot_holder" where
  "holder_run manifests instantiate [] h = h"
| "holder_run manifests instantiate (d # ds) h =
     holder_run manifests instantiate ds (snd (holder_apply manifests instantiate d h))"

text \<open>
  What every live snapshot satisfies: it is for the gateway's environment, each guardrail is
  installed and supports the stages it is assigned to, and what runs in parallel may.
\<close>

definition snapshot_ok :: "(string \<Rightarrow> manifest option) \<Rightarrow> environment \<Rightarrow> compiled_snapshot \<Rightarrow> bool" where
  "snapshot_ok manifests env c \<longleftrightarrow>
     cs_environment c = env \<and> list_all (bound_ok manifests) (cs_bound c)"

definition holder_inv :: "(string \<Rightarrow> manifest option) \<Rightarrow> snapshot_holder \<Rightarrow> bool" where
  "holder_inv manifests h \<longleftrightarrow>
     (case sh_current h of None \<Rightarrow> True | Some c \<Rightarrow> snapshot_ok manifests (sh_environment h) c)"

lemma compile_snapshot_ok:
  "compile_snapshot_doc manifests instantiate doc env = Inr c \<Longrightarrow> snapshot_ok manifests env c"
  by (auto simp: compile_snapshot_doc_def snapshot_ok_def result_bind_Inr_iff split: if_splits
      dest: compile_assignments_bound)

lemma holder_apply_inv [inv_intros]:
  "holder_inv manifests h \<Longrightarrow> holder_inv manifests (snd (holder_apply manifests instantiate doc h))"
  by (auto simp: holder_apply_def holder_inv_def split: if_splits option.splits sum.splits
      dest: compile_snapshot_ok)

lemma holder_apply_env [simp]:
  "sh_environment (snd (holder_apply manifests instantiate doc h)) = sh_environment h"
  by (auto simp: holder_apply_def split: sum.splits option.splits)

lemma holder_run_inv:
  "holder_inv manifests h \<Longrightarrow> holder_inv manifests (holder_run manifests instantiate ds h)"
  by (induction ds arbitrary: h) (auto intro: inv_intros)

lemma holder_apply_keeps:
  "sh_current h \<noteq> None \<Longrightarrow> sh_current (snd (holder_apply manifests instantiate doc h)) \<noteq> None"
  by (auto simp: holder_apply_def split: sum.splits option.splits)

lemma holder_run_keeps:
  "sh_current h \<noteq> None \<Longrightarrow> sh_current (holder_run manifests instantiate ds h) \<noteq> None"
  using holder_apply_keeps by (induction ds arbitrary: h) auto

definition initial_holder :: "environment \<Rightarrow> snapshot_holder" where
  "initial_holder env = \<lparr>sh_environment = env, sh_current = None, sh_last_error = None\<rparr>"

lemma holder_run_snoc:
  "holder_run manifests instantiate (ds @ [d]) h =
     snd (holder_apply manifests instantiate d (holder_run manifests instantiate ds h))"
  by (induction ds arbitrary: h) simp_all

lemma holder_run_env [simp]:
  "sh_environment (holder_run manifests instantiate ds h) = sh_environment h"
  by (induction ds arbitrary: h) simp_all

lemma initial_holder_simps [simp]:
  "sh_environment (initial_holder env) = env" "sh_current (initial_holder env) = None"
  "holder_inv manifests (initial_holder env)"
  by (simp_all add: initial_holder_def holder_inv_def)

text \<open>The documents of a run that compile on this gateway.\<close>

definition good_docs ::
  "(string \<Rightarrow> manifest option) \<Rightarrow> (manifest \<Rightarrow> jobj \<Rightarrow> string + plugin) \<Rightarrow> environment \<Rightarrow>
   snapshot_doc list \<Rightarrow> snapshot_doc list" where
  "good_docs manifests instantiate env =
     filter (\<lambda>d. \<not> isl (compile_snapshot_doc manifests instantiate d env))"

lemma compile_version:
  "compile_snapshot_doc manifests instantiate d env = Inr c \<Longrightarrow> cs_version c = sd_version d"
  by (auto simp: compile_snapshot_doc_def result_bind_Inr_iff split: if_splits)

text \<open>However many documents the control plane pushes, the gateway serves the last one that
  compiled: a snapshot that is rejected never replaces a good one, and once a snapshot is
  live there always is one. Documents with one version are the same document, as the
  control plane publishes them.
\<close>

theorem holder_serves_last_good:
  assumes versions: "\<forall>d \<in> set ds. \<forall>e \<in> set ds. sd_version d = sd_version e \<longrightarrow> d = e"
  shows "sh_current (holder_run manifests instantiate ds (initial_holder env)) =
     (if good_docs manifests instantiate env ds = [] then None
      else Some (projr (compile_snapshot_doc manifests instantiate
             (last (good_docs manifests instantiate env ds)) env)))"
  using versions
proof (induction ds rule: rev_induct)
  case Nil
  then show ?case by (simp add: good_docs_def)
next
  case (snoc d ds)
  let ?h = "holder_run manifests instantiate ds (initial_holder env)"
  let ?comp = "\<lambda>d. compile_snapshot_doc manifests instantiate d env"
  have IH: "sh_current ?h = (if good_docs manifests instantiate env ds = [] then None
      else Some (projr (?comp (last (good_docs manifests instantiate env ds)))))"
    using snoc.prems by (intro snoc.IH) auto
  show ?case
  proof (cases "case sh_current ?h of None \<Rightarrow> False | Some c \<Rightarrow> cs_version c = sd_version d")
    case True
    then obtain c where c: "sh_current ?h = Some c" "cs_version c = sd_version d"
      by (auto split: option.splits)
    let ?l = "last (good_docs manifests instantiate env ds)"
    have ne: "good_docs manifests instantiate env ds \<noteq> []" and cl: "c = projr (?comp ?l)"
      using IH c by (auto split: if_splits)
    have l: "?l \<in> set (good_docs manifests instantiate env ds)"
      using ne by simp
    then have lset: "?l \<in> set ds" and lok: "?comp ?l = Inr c"
      using cl by (cases "?comp ?l"; simp add: good_docs_def)+
    have "?l = d" using snoc.prems lset c(2) compile_version [OF lok] by simp
    with True IH ne lok show ?thesis
      by (simp add: holder_run_snoc holder_apply_def good_docs_def)
  next
    case False
    show ?thesis
    proof (cases "?comp d")
      case (Inl e)
      with False IH show ?thesis
        by (simp add: holder_run_snoc holder_apply_def good_docs_def)
    next
      case (Inr c)
      with False show ?thesis
        by (simp add: holder_run_snoc holder_apply_def good_docs_def)
    qed
  qed
qed

definition ex_doc :: "string \<Rightarrow> assignment list \<Rightarrow> snapshot_doc" where
  "ex_doc v as = \<lparr>sd_version = v, sd_environment = Production, sd_assignments = as,
     sd_published_at = None, sd_published_by = None, sd_approved_by = None\<rparr>"

definition ex_broken :: assignment where
  "ex_broken = \<lparr>as_id = ''a1'', as_guardrail_id = ''gone'', as_guardrail_version = ''1.0.0'',
     as_scope_type = ScopeGlobal, as_scope_id = None, as_stages = [Input], as_order = 100,
     as_parallel_group = None, as_enabled = True, as_mode = Enforce, as_failure_mode = None,
     as_timeout_ms = None, as_config = []\<rparr>"

theorem holder_serves_last_good_witness:
  "sh_current (holder_run (\<lambda>_. None) (\<lambda>_ _. Inl []) [ex_doc ''v1'' [], ex_doc ''v2'' [ex_broken]]
     (initial_holder Production)) =
   Some \<lparr>cs_version = ''v1'', cs_environment = Production, cs_bound = []\<rparr>"
proof -
  let ?ds = "[ex_doc ''v1'' [], ex_doc ''v2'' [ex_broken]]"
  let ?m = "(\<lambda>_. None) :: string \<Rightarrow> manifest option"
  let ?i = "(\<lambda>_ _. Inl []) :: manifest \<Rightarrow> jobj \<Rightarrow> string + plugin"
  have v1: "compile_snapshot_doc ?m ?i (ex_doc ''v1'' []) Production =
      Inr \<lparr>cs_version = ''v1'', cs_environment = Production, cs_bound = []\<rparr>"
    by (simp add: compile_snapshot_doc_def ex_doc_def)
  have v2: "isl (compile_snapshot_doc ?m ?i (ex_doc ''v2'' [ex_broken]) Production)"
    by (simp add: compile_snapshot_doc_def ex_doc_def compile_assignments.simps Let_def)
  have "\<forall>d \<in> set ?ds. \<forall>e \<in> set ?ds. sd_version d = sd_version e \<longrightarrow> d = e"
    by (simp add: ex_doc_def)
  from holder_serves_last_good [OF this, of ?m ?i Production] show ?thesis
    by (simp add: good_docs_def v1 v2)
qed

end
