(* ===== verification/Pipeline.thy ===== *)
theory Pipeline
  imports Registry
begin

text \<open>
  The guardrail engine (\<^verbatim>\<open>app/engine/pipeline.py\<close>): one call of a plugin with its
  time-out and failure policy, the grouping of parallel guardrails, and \<open>run\<close>, which
  chains modifications, stops at a block or an escalation and aggregates one decision.
  A guardrail that needs longer than its time-out is cut off there, as \<open>asyncio.wait_for\<close>
  does; the clock's readings are the durations the plugins report.
\<close>

section \<open>One call\<close>

record stage_outcome =
  so_decision :: decision
  so_reason :: string
  so_risk_score :: int
  so_payload :: "payload option"
  so_results :: "guardrail_outcome list"

definition round2 :: "real \<Rightarrow> real" where
  "round2 x = of_int (py_round (x * 100)) / 100"

text \<open>The \<open>try\<close> block of \<open>_call\<close>: the error it ends with, if any.\<close>

definition call_error ::
  "bound_guardrail \<Rightarrow> payload \<Rightarrow> int \<Rightarrow> real \<Rightarrow> plugin_reply \<Rightarrow> string option" where
  "call_error b pl timeout elapsed reply =
     (if of_int timeout < elapsed then Some ''timeout''
      else (case reply of
              Raised e \<Rightarrow> Some (if e = ''TimeoutError'' then ''timeout'' else e)
            | Returned r \<Rightarrow>
                (if gr_decision r \<notin> set (mf_decisions_emitted (bg_manifest b))
                 then Some (''undeclared decision '' @ decision_value (gr_decision r))
                 else if gr_decision r = Modify then
                   (case gr_modified_payload r of
                      None \<Rightarrow> Some ''AttributeError''
                    | Some q \<Rightarrow>
                        if \<not> same_shape_as pl q then Some ''MODIFY changed the payload shape''
                        else None)
                 else None)))"

definition failed_result :: "bound_guardrail \<Rightarrow> string \<Rightarrow> guardrail_result" where
  "failed_result b err =
     (let closed = (bg_failure_mode b = FailClosed) in
      \<lparr>gr_decision = (if closed then Block else Allow),
       gr_reason = ''guardrail '' @ mf_id (bg_manifest b) @ '' failed ('' @ err @ ''); '' @
                   failure_mode_value (bg_failure_mode b),
       gr_risk_score = (if closed then 100 else 0),
       gr_modified_payload = None, gr_findings = [], gr_metadata = [], gr_latency_ms = 0\<rparr>)"

definition call_guardrail ::
  "int \<Rightarrow> security_context \<Rightarrow> payload \<Rightarrow> bound_guardrail \<Rightarrow> guardrail_outcome \<times> guardrail_result" where
  "call_guardrail default_timeout ctx pl b =
     (let timeout = bg_timeout_ms b default_timeout;
          (elapsed, reply) = bg_guardrail b ctx pl;
          err = call_error b pl timeout elapsed reply;
          latency = min elapsed (of_int timeout);
          base = (case err of
                    Some e \<Rightarrow> failed_result b e
                  | None \<Rightarrow> (case reply of Returned r \<Rightarrow> r | Raised e \<Rightarrow> failed_result b e));
          result = base\<lparr>gr_latency_ms := round2 latency\<rparr>
      in (\<lparr>go_guardrail_id = mf_id (bg_manifest b), go_version = mf_version (bg_manifest b),
           go_decision = gr_decision result, go_reason = gr_reason result,
           go_risk_score = gr_risk_score result, go_latency_ms = gr_latency_ms result,
           go_mode = mode_value (as_mode (bg_assignment b)), go_error = err,
           go_findings = gr_findings result\<rparr>, result))"

section \<open>Groups\<close>

definition parallel_group :: "bound_guardrail \<Rightarrow> string option" where
  "parallel_group b = as_parallel_group (bg_assignment b)"

definition add_to_groups :: "bound_guardrail list list \<Rightarrow> bound_guardrail \<Rightarrow> bound_guardrail list list" where
  "add_to_groups gs b =
     (if parallel_group b \<noteq> None \<and> parallel_group b \<noteq> Some [] \<and> gs \<noteq> [] \<and>
         parallel_group (hd (last gs)) = parallel_group b
      then butlast gs @ [last gs @ [b]]
      else gs @ [[b]])"

definition groups :: "bound_guardrail list \<Rightarrow> bound_guardrail list list" where
  "groups bs = foldl add_to_groups [] bs"

section \<open>A stage\<close>

record run_state =
  rs_current :: payload
  rs_outcomes :: "guardrail_outcome list"
  rs_decisions :: "decision list"
  rs_risk :: int
  rs_reasons :: "(decision \<times> string) list"
  rs_stop :: bool

text \<open>The body of the inner loop, for one guardrail of a group.\<close>

definition record_result ::
  "run_state \<Rightarrow> bound_guardrail \<times> guardrail_outcome \<times> guardrail_result \<Rightarrow> run_state" where
  "record_result st x =
     (case x of (b, out, r) \<Rightarrow>
        let st = st\<lparr>rs_outcomes := rs_outcomes st @ [out]\<rparr> in
        if as_mode (bg_assignment b) = Shadow then st
        else
          let st = st\<lparr>rs_decisions := rs_decisions st @ [gr_decision r],
                      rs_risk := max (rs_risk st) (gr_risk_score r),
                      rs_reasons :=
                        (if gr_decision r \<in> fst ` set (rs_reasons st) then rs_reasons st
                         else rs_reasons st @
                           [(gr_decision r, mf_id (bg_manifest b) @ '': '' @ gr_reason r)])\<rparr>;
              st = (case gr_modified_payload r of
                      Some q \<Rightarrow> if gr_decision r = Modify then st\<lparr>rs_current := q\<rparr> else st
                    | None \<Rightarrow> st)
          in if gr_decision r = Block \<or> gr_decision r = Escalate then st\<lparr>rs_stop := True\<rparr> else st)"

definition run_group ::
  "int \<Rightarrow> security_context \<Rightarrow> run_state \<Rightarrow> bound_guardrail list \<Rightarrow> run_state" where
  "run_group default_timeout ctx st grp =
     foldl record_result st
       (map (\<lambda>b. (b, call_guardrail default_timeout ctx (rs_current st) b)) grp)"

fun run_groups ::
  "int \<Rightarrow> security_context \<Rightarrow> bound_guardrail list list \<Rightarrow> run_state \<Rightarrow> run_state" where
  "run_groups default_timeout ctx [] st = st"
| "run_groups default_timeout ctx (g # gs) st =
     (let st' = run_group default_timeout ctx st g in
      if rs_stop st' then st' else run_groups default_timeout ctx gs st')"

definition start_state :: "payload \<Rightarrow> run_state" where
  "start_state pl = \<lparr>rs_current = pl, rs_outcomes = [], rs_decisions = [], rs_risk = 0,
                     rs_reasons = [], rs_stop = False\<rparr>"

record engine_config =
  ec_default_timeout_ms :: int
  ec_escalate_as_block :: bool

definition missing_obligations :: "bound_guardrail list \<Rightarrow> string list \<Rightarrow> string list" where
  "missing_obligations bound obligations =
     filter (\<lambda>ob. ob \<notin> set (map (\<lambda>b. mf_id (bg_manifest b))
                      (filter (\<lambda>b. as_mode (bg_assignment b) = Enforce) bound))) obligations"

definition engine_run ::
  "engine_config \<Rightarrow> compiled_snapshot \<Rightarrow> stage \<Rightarrow> security_context \<Rightarrow> payload \<Rightarrow> string list \<Rightarrow>
   stage_outcome" where
  "engine_run cfg snap stg ctx pl obligations =
     (let bound = resolve snap (ctx_tenant_id ctx) (ctx_agent_id ctx) stg;
          missing = missing_obligations bound obligations in
      if missing \<noteq> [] then
        \<lparr>so_decision = Block,
         so_reason = ''policy requires '' @ join '', '' missing @ '' at stage '' @ stage_value stg @
                     '' but it is not enforced (fail-closed)'',
         so_risk_score = 100, so_payload = None, so_results = []\<rparr>
      else
        (let st = run_groups (ec_default_timeout_ms cfg) ctx (groups bound) (start_state pl);
             final = strongest_decision (rs_decisions st);
             reason = (if bound = [] then ''no guardrails assigned for stage '' @ stage_value stg
                       else if final = Allow then ''all guardrails allowed the request''
                       else the (map_of (rs_reasons st) final));
             as_block = (final = Escalate \<and> ec_escalate_as_block cfg);
             final' = (if as_block then Block else final);
             reason' = (if as_block
               then reason @ '' (escalation required, but this gateway has no review queue (CONFIG_SOURCE=file): blocking)''
               else reason)
         in \<lparr>so_decision = final', so_reason = reason', so_risk_score = rs_risk st,
             so_payload = (if final' = Block then None else Some (rs_current st)),
             so_results = rs_outcomes st\<rparr>))"

end
