(* ===== verification/Flow.thy ===== *)
theory Flow
  imports Contextual Pipeline
begin

text \<open>
  One guard evaluation (\<^verbatim>\<open>app/gateway/flow.py\<close>), with the hold for review
  (\<^verbatim>\<open>app/engine/escalation.py\<close>): normalisation, context, identity, preparation, policy, guardrails,
  advisors, decision table, verification, review queue, session record, response and audit event.
  What the gateway calls outside (policy engine, review queue, digests, Unicode tables) are
  fields of \<open>services\<close>; one clock reading and one fresh identifier serve a whole evaluation, and
  measured latencies are left out.
\<close>

section \<open>Normalisation\<close>

text \<open>\<open>_STRIP_RE\<close> on code points below 256 (its other ranges are above), after \<open>NFKC\<close>.\<close>

definition stripped_char :: "char \<Rightarrow> bool" where
  "stripped_char c \<longleftrightarrow>
     (let n = of_char c :: nat in n \<le> 8 \<or> n = 11 \<or> n = 12 \<or> (14 \<le> n \<and> n \<le> 31) \<or> (127 \<le> n \<and> n \<le> 159))"

definition normalize_text :: "(string \<Rightarrow> string) \<Rightarrow> string \<Rightarrow> string" where
  "normalize_text nfkc s = filter (\<lambda>c. \<not> stripped_char c) (nfkc s)"

fun normalize_any :: "(string \<Rightarrow> string) \<Rightarrow> json \<Rightarrow> json" where
  "normalize_any nfkc (JStr s) = JStr (normalize_text nfkc s)"
| "normalize_any nfkc (JArr xs) = JArr (map (normalize_any nfkc) xs)"
| "normalize_any nfkc (JObj kvs) = JObj (map (\<lambda>(k, v). (k, normalize_any nfkc v)) kvs)"
| "normalize_any nfkc v = v"

definition normalize_payload :: "(string \<Rightarrow> string) \<Rightarrow> payload \<Rightarrow> string + payload" where
  "normalize_payload nfkc p =
     validate_payload (p\<lparr>
       pl_text := map_option (normalize_text nfkc) (pl_text p),
       pl_messages := map_option (map (\<lambda>m. m\<lparr>msg_content := normalize_text nfkc (msg_content m)\<rparr>)) (pl_messages p),
       pl_chunks := map_option (map (\<lambda>c. c\<lparr>chunk_text := normalize_text nfkc (chunk_text c)\<rparr>)) (pl_chunks p),
       pl_tool_call := map_option (\<lambda>t. t\<lparr>
         tc_arguments := map (\<lambda>(k, v). (k, normalize_any nfkc v)) (tc_arguments t),
         tc_result := normalize_any nfkc (tc_result t)\<rparr>) (pl_tool_call p)\<rparr>)"

section \<open>What the policy sees\<close>

record policy_input =
  pi_stage :: stage
  pi_context :: security_context
  pi_agent_known :: bool
  pi_allowed_tools :: "string list"
  pi_action_known :: bool
  pi_tool_name :: "string option"
  pi_assurance :: string
  pi_key_agent_id :: "string option"
  pi_descriptor :: "action_descriptor option"
  pi_session :: "(string list \<times> nat \<times> nat \<times> bool option) option"
  pi_risk_v2 :: "(int \<times> band \<times> int \<times> string list) option"

definition policy_input_of ::
  "built_context \<Rightarrow> stage \<Rightarrow> string option \<Rightarrow> principal \<Rightarrow> prepared option \<Rightarrow> policy_input" where
  "policy_input_of b stg tool_name p prep =
     \<lparr>pi_stage = stg, pi_context = (bc_context b)\<lparr>ctx_arguments := []\<rparr>,
      pi_agent_known = (bc_agent b \<noteq> None),
      pi_allowed_tools = (case bc_agent b of None \<Rightarrow> [] | Some a \<Rightarrow> ag_allowed_tools a),
      pi_action_known = bc_action_known b, pi_tool_name = tool_name,
      pi_assurance = assurance p, pi_key_agent_id = pr_agent_id p,
      pi_descriptor = map_option pp_descriptor prep,
      pi_session =
        (case prep of None \<Rightarrow> None | Some pp \<Rightarrow>
           map_option (\<lambda>v. (sorted_list_of_set (sv_labels v), sv_steps v, sv_denials v, sv_first_seen_target v))
             (pp_view pp)),
      pi_risk_v2 =
        (case prep of None \<Rightarrow> None | Some pp \<Rightarrow>
           map_option (\<lambda>a. (am_score a, am_band a, am_trust a, am_codes a)) (pp_assessment pp))\<rparr>"

section \<open>Holding for review\<close>

record review_request =
  rv_tenant_id :: string
  rv_environment :: environment
  rv_request_id :: string
  rv_stage :: stage
  rv_agent_id :: string
  rv_guardrail_id :: string
  rv_reason :: string
  rv_risk_score :: int
  rv_payload :: payload
  rv_preview :: string

text \<open>\<open>json.dumps\<close> of a tool call is a parameter of the preview.\<close>

definition preview_of :: "(tool_call \<Rightarrow> string) \<Rightarrow> payload \<Rightarrow> string" where
  "preview_of dump p =
     take 500
       (case pl_text p of
          Some t \<Rightarrow> t
        | None \<Rightarrow>
            if pl_messages p \<noteq> None \<and> pl_messages p \<noteq> Some [] then msg_content (last (the (pl_messages p)))
            else if pl_chunks p \<noteq> None \<and> pl_chunks p \<noteq> Some []
            then join '' | '' (map chunk_text (the (pl_chunks p)))
            else (case pl_tool_call p of Some t \<Rightarrow> dump t | None \<Rightarrow> []))"

text \<open>The control plane's answer to a filed review: an \<open>httpx.HTTPError\<close>, or the escalation's id.\<close>

type_synonym review_queue = "review_request \<Rightarrow> string + string"

definition blocked :: "stage_outcome \<Rightarrow> string \<Rightarrow> stage_outcome" where
  "blocked out reason =
     \<lparr>so_decision = Block, so_reason = reason, so_risk_score = so_risk_score out, so_payload = None,
      so_results = so_results out\<rparr>"

definition hold_for_review ::
  "review_queue option \<Rightarrow> (tool_call \<Rightarrow> string) \<Rightarrow> security_context \<Rightarrow> stage \<Rightarrow> stage_outcome \<Rightarrow> string option \<Rightarrow>
   stage_outcome \<times> string option" where
  "hold_for_review queue dump ctx stg out source =
     (case (queue, so_payload out) of
        (Some create_review, Some pl) \<Rightarrow>
          (let deciding = List.find (\<lambda>r. go_decision r = Escalate \<and> go_mode r = ''enforce'') (so_results out)
           in case create_review
                \<lparr>rv_tenant_id = ctx_tenant_id ctx, rv_environment = ctx_environment ctx,
                 rv_request_id = ctx_request_id ctx, rv_stage = stg, rv_agent_id = ctx_agent_id ctx,
                 rv_guardrail_id =
                   (case deciding of Some r \<Rightarrow> go_guardrail_id r
                    | None \<Rightarrow> if nonempty source then the source else ''unknown''),
                 rv_reason = so_reason out, rv_risk_score = so_risk_score out, rv_payload = pl,
                 rv_preview = preview_of dump pl\<rparr> of
                Inl e \<Rightarrow> (blocked out (so_reason out @ '' (review queue unavailable: '' @ e @ ''; blocking)''), None)
              | Inr escalation_id \<Rightarrow> (out, Some escalation_id))
      | _ \<Rightarrow> (blocked out (so_reason out @ '' (no review queue; blocking)''), None))"

section \<open>Applying the table\<close>

definition apply_table ::
  "table_result \<Rightarrow> stage_outcome \<Rightarrow> nat \<Rightarrow> prepared \<Rightarrow> stage_outcome \<times> nat" where
  "apply_table table out status pp =
     (let legacy = tr_legacy table;
          codes = join '', '' (tr_reason_codes table);
          risk = (case pp_assessment pp of Some a \<Rightarrow> am_score a | None \<Rightarrow> so_risk_score out);
          band_text = (case pp_assessment pp of Some a \<Rightarrow> band_value (am_band a) | None \<Rightarrow> ''?'')
      in if legacy = so_decision out \<or> (legacy = Allow \<and> so_decision out = Modify) then (out, status)
         else if legacy = Block then
           (\<lparr>so_decision = Block, so_reason = ''denied by decision table ('' @ codes @ '')'',
             so_risk_score = risk, so_payload = None, so_results = so_results out\<rparr>, 403)
         else if legacy = Escalate \<and> tr_outcome table = OVerify then
           (\<lparr>so_decision = Escalate, so_reason = ''user confirmation required ('' @ codes @ '')'',
             so_risk_score = risk, so_payload = None, so_results = so_results out\<rparr>, 202)
         else if legacy = Escalate then
           (\<lparr>so_decision = Escalate,
             so_reason = ''held for review: risk '' @ band_text @ '' ('' @ codes @ '')'',
             so_risk_score = risk, so_payload = so_payload out, so_results = so_results out\<rparr>, status)
         else (out, status))"

fun legacy_outcome_name :: "decision \<Rightarrow> outcome" where
  "legacy_outcome_name Allow = OAllow"
| "legacy_outcome_name Modify = OModify"
| "legacy_outcome_name Escalate = OHold"
| "legacy_outcome_name Block = ODeny"

definition final_outcome_name :: "table_result \<Rightarrow> decision \<Rightarrow> outcome" where
  "final_outcome_name table final =
     (if tr_legacy table = final \<or> (tr_outcome table \<in> {OAllow, OAllowRestricted} \<and> final = Modify)
      then tr_outcome table else legacy_outcome_name final)"

definition risk_held :: "table_result option \<Rightarrow> 'v contextual option \<Rightarrow> bool" where
  "risk_held table cx \<longleftrightarrow>
     (case (table, cx) of
        (Some t, Some c) \<Rightarrow> enforcing c \<and> tr_outcome t \<in> {OHold, OVerify} \<and>
          ''GUARDRAIL_ESCALATE'' \<notin> set (tr_reason_codes t)
      | _ \<Rightarrow> False)"

section \<open>The evaluation\<close>

record 'v services =
  svc_snapshot :: "compiled_snapshot option"
  svc_engine :: engine_config
  svc_environment :: environment
  svc_catalog :: "string \<Rightarrow> tenant_catalog"
  svc_policy :: "policy_input \<Rightarrow> policy_decision"
  svc_queue :: "review_queue option"
  svc_contextual :: "'v contextual option"
  svc_describe :: "stage \<Rightarrow> guard_request \<Rightarrow> tool_call option \<Rightarrow> action_descriptor"
  svc_nfkc :: "string \<Rightarrow> string"
  svc_sha256 :: "string \<Rightarrow> string"
  svc_payload_digest :: "payload \<Rightarrow> string"
  svc_request_digest :: "guard_request \<Rightarrow> string"
  svc_dump_tool_call :: "tool_call \<Rightarrow> string"

record audit_event =
  au_tenant_id :: string
  au_request_id :: string
  au_stage :: stage
  au_agent_id :: string
  au_decision :: decision
  au_reason :: string
  au_risk_score :: int
  au_policy_allow :: bool
  au_policy_reason :: string
  au_results :: "guardrail_outcome list"
  au_payload_sha256 :: string
  au_snapshot_version :: string
  au_outcome :: outcome
  au_reason_codes :: "string list"
  au_descriptor :: "action_descriptor option"
  au_advisors :: "advisory option"
  au_assurance :: string

record guard_response =
  gp_decision :: decision
  gp_reason :: string
  gp_risk_score :: int
  gp_trust_score :: int
  gp_payload :: "payload option"
  gp_policy :: policy_decision
  gp_results :: "guardrail_outcome list"
  gp_snapshot_version :: string
  gp_escalation_id :: "string option"
  gp_outcome :: outcome
  gp_reason_codes :: "string list"
  gp_obligations :: "(string \<times> int) list"
  gp_risk :: "assessment option"
  gp_would_outcome :: outcome
  gp_verification :: "verification option"

record 'v gateway_state =
  gs_sessions :: memory_store
  gs_verifications :: 'v
  gs_audit :: "audit_event list"

record guard_error =
  ge_status :: nat
  ge_message :: string

text \<open>Identity, preparation, policy, guardrails and advisors: what the table decides on.\<close>

record evaluation =
  el_violation :: "(string \<times> string) option"
  el_prepared :: "prepared option"
  el_policy :: policy_decision
  el_outcome :: stage_outcome
  el_status :: nat

definition withheld :: "string \<Rightarrow> int \<Rightarrow> stage_outcome" where
  "withheld reason risk =
     \<lparr>so_decision = Block, so_reason = reason, so_risk_score = risk, so_payload = None, so_results = []\<rparr>"

definition evaluate ::
  "'v services \<Rightarrow> compiled_snapshot \<Rightarrow> real \<Rightarrow> memory_store \<Rightarrow> principal \<Rightarrow> stage \<Rightarrow> guard_request \<Rightarrow> payload \<Rightarrow>
   built_context \<Rightarrow> evaluation" where
  "evaluate svc snap now sessions p stg body pl built =
     (let ctx = bc_context built;
          violation = (case svc_contextual svc of None \<Rightarrow> None | Some cx \<Rightarrow> identity_violation cx p body)
      in case violation of
           Some v \<Rightarrow>
             \<lparr>el_violation = violation, el_prepared = None,
              el_policy = \<lparr>po_allow = False, po_reason = snd v, po_obligations = [], po_error = None\<rparr>,
              el_outcome = withheld (''identity check failed: '' @ snd v) (ctx_risk_score ctx),
              el_status = 403\<rparr>
         | None \<Rightarrow>
             (let prep = map_option (\<lambda>cx.
                    prepare cx now sessions p body stg pl (svc_describe svc stg body (pl_tool_call pl))
                      (ctx_environment ctx) (ctx_risk_score ctx) (ctx_trust_score ctx)
                      (case bc_agent built of None \<Rightarrow> [] | Some a \<Rightarrow> ag_open_findings a)
                      (bc_flagged_tools built)) (svc_contextual svc);
                  policy = svc_policy svc
                    (policy_input_of built stg (map_option tc_name (pl_tool_call pl)) p prep)
              in if \<not> po_allow policy then
                   \<lparr>el_violation = None, el_prepared = prep, el_policy = policy,
                    el_outcome = withheld (''policy denied: '' @ po_reason policy) (ctx_risk_score ctx),
                    el_status = 403\<rparr>
                 else
                   (let out = engine_run (svc_engine svc) snap stg ctx pl (po_obligations policy);
                        prep' = (case (svc_contextual svc, prep) of
                                   (Some cx, Some pp) \<Rightarrow>
                                     if so_decision out \<noteq> Block
                                     then Some (advise cx pp body (bc_advisor_data_classes built)) else prep
                                 | _ \<Rightarrow> prep)
                    in \<lparr>el_violation = None, el_prepared = prep', el_policy = policy, el_outcome = out,
                        el_status = 200\<rparr>)))"

text \<open>The decision table and its verification, applied when enforcing.\<close>

definition table_step ::
  "'v services \<Rightarrow> real \<Rightarrow> string \<Rightarrow> principal \<Rightarrow> stage \<Rightarrow> guard_request \<Rightarrow> payload \<Rightarrow> environment \<Rightarrow> evaluation \<Rightarrow>
   ('v, table_result option \<times> verification option \<times> stage_outcome \<times> nat) effect" where
  "table_step svc now uid p stg body pl env el =
     (case (el_violation el, svc_contextual svc, el_prepared el) of
        (None, Some cx, Some pp) \<Rightarrow>
          (case decide_contextual cx now pp (po_allow (el_policy el)) (so_decision (el_outcome el))
                  (gq_accepts_obligations body = Some True) of
             None \<Rightarrow> return_value (None, None, el_outcome el, el_status el)
           | Some table0 \<Rightarrow>
               and_then
                 (verify_outcome cx now uid table0
                    (verify_context_of (svc_sha256 svc) (svc_request_digest svc) pp table0 p body stg pl
                       (svc_payload_digest svc pl) env))
                 (\<lambda>(table, verification).
                    if enforcing cx then
                      (let (out, status) = apply_table table (el_outcome el) (el_status el) pp
                       in return_value (Some table, verification, out,
                            if verification \<noteq> None then 202 else status))
                    else return_value (Some table, verification, el_outcome el, el_status el)))
      | _ \<Rightarrow> return_value (None, None, el_outcome el, el_status el))"

definition hold_step ::
  "'v services \<Rightarrow> security_context \<Rightarrow> stage \<Rightarrow> table_result option \<Rightarrow> verification option \<Rightarrow> stage_outcome \<Rightarrow> nat \<Rightarrow>
   stage_outcome \<times> string option \<times> nat" where
  "hold_step svc ctx stg table verification out status =
     (if so_decision out = Escalate \<and> verification = None then
        (let held = risk_held table (svc_contextual svc);
             (out', esc) = hold_for_review (svc_queue svc) (svc_dump_tool_call svc) ctx stg out
                             (if held then Some ''gateway-risk'' else None)
         in (out', esc, if nonempty esc then 202 else if held then 403 else 200))
      else (out, None, status))"

text \<open>Shadow and off modes report the guardrails' own decision.\<close>

definition respond ::
  "'v services \<Rightarrow> compiled_snapshot \<Rightarrow> built_context \<Rightarrow> evaluation \<Rightarrow> table_result option \<Rightarrow> verification option \<Rightarrow>
   stage_outcome \<Rightarrow> string option \<Rightarrow> guard_response" where
  "respond svc snap built el table verification out esc =
     (let released = (if so_decision out \<in> {Allow, Modify} then so_payload out else None);
          a = (case el_prepared el of None \<Rightarrow> None | Some pp \<Rightarrow> pp_assessment pp);
          codes = (case a of None \<Rightarrow> [] | Some x \<Rightarrow> am_codes x);
          enforced = (case (table, svc_contextual svc) of
                        (Some t, Some cx) \<Rightarrow> if enforcing cx then Some t else None | _ \<Rightarrow> None);
          (name, reason_codes) =
            (case el_violation el of
               Some v \<Rightarrow> (ODeny, [fst v])
             | None \<Rightarrow>
                 (case enforced of
                    Some t \<Rightarrow> (final_outcome_name t (so_decision out), fromkeys (tr_reason_codes t @ codes))
                  | None \<Rightarrow> (legacy_outcome_name (so_decision out), codes)))
      in \<lparr>gp_decision = so_decision out, gp_reason = so_reason out,
          gp_risk_score = max (ctx_risk_score (bc_context built)) (so_risk_score out),
          gp_trust_score = ctx_trust_score (bc_context built), gp_payload = released,
          gp_policy = el_policy el, gp_results = so_results out, gp_snapshot_version = cs_version snap,
          gp_escalation_id = esc, gp_outcome = name, gp_reason_codes = reason_codes,
          gp_obligations = (case enforced of Some t \<Rightarrow> if released \<noteq> None then tr_obligations t else []
                            | None \<Rightarrow> []),
          gp_risk = a,
          gp_would_outcome = (case table of Some t \<Rightarrow> tr_outcome t | None \<Rightarrow> name),
          gp_verification = verification\<rparr>)"

definition audit_event_of ::
  "'v services \<Rightarrow> principal \<Rightarrow> stage \<Rightarrow> payload \<Rightarrow> built_context \<Rightarrow> evaluation \<Rightarrow> guard_response \<Rightarrow> audit_event" where
  "audit_event_of svc p stg pl built el r =
     \<lparr>au_tenant_id = ctx_tenant_id (bc_context built), au_request_id = ctx_request_id (bc_context built),
      au_stage = stg, au_agent_id = ctx_agent_id (bc_context built), au_decision = gp_decision r,
      au_reason = gp_reason r @
        (if nonempty (gp_escalation_id r) then '' [escalation '' @ the (gp_escalation_id r) @ '']'' else []) @
        (case gp_verification r of None \<Rightarrow> [] | Some v \<Rightarrow> '' [verification '' @ ve_id v @ '']''),
      au_risk_score = gp_risk_score r, au_policy_allow = po_allow (gp_policy r),
      au_policy_reason = po_reason (gp_policy r), au_results = gp_results r,
      au_payload_sha256 = svc_payload_digest svc pl, au_snapshot_version = gp_snapshot_version r,
      au_outcome = gp_outcome r, au_reason_codes = gp_reason_codes r,
      au_descriptor = map_option pp_descriptor (el_prepared el),
      au_advisors = (case el_prepared el of None \<Rightarrow> None | Some pp \<Rightarrow>
        (case pp_advisory pp of None \<Rightarrow> None | Some ad \<Rightarrow> if av_records ad \<noteq> [] then Some ad else None)),
      au_assurance = assurance p\<rparr>"

definition run_stage ::
  "'v services \<Rightarrow> real \<Rightarrow> string \<Rightarrow> principal \<Rightarrow> stage \<Rightarrow> guard_request \<Rightarrow> payload \<Rightarrow> string \<Rightarrow> string \<Rightarrow>
   'v gateway_state \<Rightarrow> (guard_error + nat \<times> guard_response) \<times> 'v gateway_state" where
  "run_stage svc now uid p stg body pl0 request_id trace_id gs =
     (case svc_snapshot svc of
        None \<Rightarrow>
          (Inl \<lparr>ge_status = 503, ge_message = ''No guardrail snapshot loaded; refusing to process (fail-closed)''\<rparr>, gs)
      | Some snap \<Rightarrow>
          (case result_bind (validate_payload (pl0\<lparr>pl_stage := stg\<rparr>)) (normalize_payload (svc_nfkc svc)) of
             Inl e \<Rightarrow> (Inl \<lparr>ge_status = 422, ge_message = e\<rparr>, gs)
           | Inr pl \<Rightarrow>
               (let built = build_context (svc_catalog svc (pr_tenant_id p)) (svc_environment svc) p body
                              request_id trace_id;
                    ctx = bc_context built;
                    el = evaluate svc snap now (gs_sessions gs) p stg body pl built
                in case table_step svc now uid p stg body pl (ctx_environment ctx) el (gs_verifications gs) of
                     (Inl e, vs) \<Rightarrow> (Inl \<lparr>ge_status = 500, ge_message = e\<rparr>, gs\<lparr>gs_verifications := vs\<rparr>)
                   | (Inr (table, verification, out, status), vs) \<Rightarrow>
                       (let (out', esc, status') = hold_step svc ctx stg table verification out status;
                            sessions = (case (svc_contextual svc, el_prepared el) of
                               (Some cx, Some pp) \<Rightarrow>
                                 record_decision cx now pp p body stg pl (so_decision out') (gs_sessions gs)
                             | _ \<Rightarrow> gs_sessions gs);
                            r = respond svc snap built el table verification out' esc
                        in (Inr (status', r),
                            \<lparr>gs_sessions = sessions, gs_verifications = vs,
                             gs_audit = gs_audit gs @ [audit_event_of svc p stg pl built el r]\<rparr>)))))"

end
