(* ===== verification/Pipeline_Props.thy ===== *)
theory Pipeline_Props
  imports Pipeline
begin

text \<open>
  What the guardrail engine guarantees: the decision is the strongest enforced one, nothing
  is released unless every applicable guardrail ran and let it pass, a modification keeps the
  payload's shape, and a guardrail in shadow mode never influences the outcome.
\<close>

section \<open>One call\<close>

lemma call_outcome:
  fixes d ctx pl b
  defines "x \<equiv> call_guardrail d ctx pl b"
  shows "go_decision (fst x) = gr_decision (snd x)"
    and "go_risk_score (fst x) = gr_risk_score (snd x)"
    and "go_guardrail_id (fst x) = mf_id (bg_manifest b)"
    and "go_mode (fst x) = mode_value (as_mode (bg_assignment b))"
  by (simp_all add: x_def call_guardrail_def Let_def split: prod.split)

lemma call_failed:
  "go_error (fst (call_guardrail d ctx pl b)) \<noteq> None \<Longrightarrow>
   gr_decision (snd (call_guardrail d ctx pl b)) = (if bg_failure_mode b = FailClosed then Block else Allow)"
  by (auto simp: call_guardrail_def failed_result_def Let_def split: prod.splits option.splits)

lemma call_modify_shape:
  "gr_decision (snd (call_guardrail d ctx pl b)) = Modify \<Longrightarrow>
   \<exists>q. gr_modified_payload (snd (call_guardrail d ctx pl b)) = Some q \<and> same_shape_as pl q"
  by (auto simp: call_guardrail_def call_error_def failed_result_def Let_def
      split: prod.splits option.splits plugin_reply.splits if_splits)

lemma call_declared:
  "go_error (fst (call_guardrail d ctx pl b)) = None \<Longrightarrow>
   gr_decision (snd (call_guardrail d ctx pl b)) \<in> set (mf_decisions_emitted (bg_manifest b))"
  by (auto simp: call_guardrail_def call_error_def Let_def
      split: prod.splits plugin_reply.splits if_splits option.splits)

text \<open>What a recorded outcome says about the guardrail that made it.\<close>

definition outcome_of :: "bound_guardrail \<Rightarrow> guardrail_outcome \<Rightarrow> bool" where
  "outcome_of b out \<longleftrightarrow>
     go_guardrail_id out = mf_id (bg_manifest b) \<and>
     go_mode out = mode_value (as_mode (bg_assignment b)) \<and>
     (if go_error out = None then go_decision out \<in> set (mf_decisions_emitted (bg_manifest b))
      else go_decision out = (if bg_failure_mode b = FailClosed then Block else Allow))"

lemma call_outcome_of: "outcome_of b (fst (call_guardrail d ctx pl b))"
  using call_failed [of d ctx pl b] call_declared [of d ctx pl b]
  by (auto simp: outcome_of_def call_outcome)

definition enforced_outcomes :: "guardrail_outcome list \<Rightarrow> guardrail_outcome list" where
  "enforced_outcomes = filter (\<lambda>out. go_mode out = ''enforce'')"

lemma mode_value_enforce [simp]: "mode_value m = ''enforce'' \<longleftrightarrow> m = Enforce"
  by (cases m) simp_all

section \<open>The invariant of the loop\<close>

definition run_inv :: "payload \<Rightarrow> bound_guardrail list \<Rightarrow> run_state \<Rightarrow> bool" where
  "run_inv pl done st \<longleftrightarrow>
     same_shape_as pl (rs_current st) \<and>
     list_all2 outcome_of done (rs_outcomes st) \<and>
     rs_decisions st = map go_decision (enforced_outcomes (rs_outcomes st)) \<and>
     rs_risk st = Max (insert 0 (set (map go_risk_score (enforced_outcomes (rs_outcomes st))))) \<and>
     fst ` set (rs_reasons st) = set (rs_decisions st) \<and>
     rs_stop st = (Block \<in> set (rs_decisions st) \<or> Escalate \<in> set (rs_decisions st))"

lemma run_inv_start: "run_inv pl [] (start_state pl)"
  by (simp add: run_inv_def start_state_def enforced_outcomes_def)

lemma record_result_simps [state_simps]:
  "rs_outcomes (record_result st (b, out, r)) = rs_outcomes st @ [out]"
  "rs_decisions (record_result st (b, out, r)) =
     (if as_mode (bg_assignment b) = Shadow then rs_decisions st else rs_decisions st @ [gr_decision r])"
  "rs_risk (record_result st (b, out, r)) =
     (if as_mode (bg_assignment b) = Shadow then rs_risk st else max (rs_risk st) (gr_risk_score r))"
  "rs_stop (record_result st (b, out, r)) =
     (rs_stop st \<or> (as_mode (bg_assignment b) \<noteq> Shadow \<and> (gr_decision r = Block \<or> gr_decision r = Escalate)))"
  "rs_current (record_result st (b, out, r)) =
     (if as_mode (bg_assignment b) = Shadow \<or> gr_decision r \<noteq> Modify then rs_current st
      else (case gr_modified_payload r of None \<Rightarrow> rs_current st | Some q \<Rightarrow> q))"
  "rs_reasons (record_result st (b, out, r)) =
     (if as_mode (bg_assignment b) = Shadow \<or> gr_decision r \<in> fst ` set (rs_reasons st) then rs_reasons st
      else rs_reasons st @ [(gr_decision r, mf_id (bg_manifest b) @ '': '' @ gr_reason r)])"
  by (simp_all add: record_result_def Let_def split: option.split)

lemma Max_insert0_snoc:
  "finite A \<Longrightarrow> Max (insert 0 (insert z A)) = max (Max (insert 0 A)) (z::int)"
  using Max_insert [of "insert 0 A" z] by (simp add: insert_commute [of z 0] max.commute)

lemma run_inv_record:
  assumes inv: "run_inv pl done st" and cur: "same_shape_as pl cur"
    and x: "x = call_guardrail d ctx cur b"
  shows "run_inv pl (done @ [b]) (record_result st (b, x))"
proof -
  obtain out r where xr: "x = (out, r)" by (cases x)
  have out: "outcome_of b out" "go_decision out = gr_decision r" "go_risk_score out = gr_risk_score r"
      "go_mode out = mode_value (as_mode (bg_assignment b))"
    using call_outcome_of [of b d ctx cur] call_outcome [of d ctx cur b]
    unfolding x [symmetric] xr by simp_all
  have modi: "\<exists>q. gr_modified_payload r = Some q \<and> same_shape_as pl q" if "gr_decision r = Modify"
    using call_modify_shape [of d ctx cur b] that same_shape_trans [OF cur]
    unfolding x [symmetric] xr by auto
  have enf: "enforced_outcomes (rs_outcomes st @ [out]) = enforced_outcomes (rs_outcomes st) @
       (if as_mode (bg_assignment b) = Shadow then [] else [out])"
    using out(4) by (cases "as_mode (bg_assignment b)") (simp_all add: enforced_outcomes_def)
  have shape: "same_shape_as pl (rs_current (record_result st (b, x)))"
    using inv modi by (auto simp: xr state_simps run_inv_def split: option.split)
  have risk: "Max (insert 0 (set (map go_risk_score (enforced_outcomes (rs_outcomes st) @ [out])))) =
      max (rs_risk st) (gr_risk_score r)"
    using inv out(3) Max_insert0_snoc [of "set (map go_risk_score (enforced_outcomes (rs_outcomes st)))"]
    by (simp add: run_inv_def)
  show ?thesis
    unfolding run_inv_def
  proof (intro conjI)
    show "rs_risk (record_result st (b, x)) =
        Max (insert 0 (set (map go_risk_score (enforced_outcomes (rs_outcomes (record_result st (b, x)))))))"
      using inv risk by (simp add: xr state_simps enf run_inv_def)
  qed (use inv out shape in \<open>auto simp: xr state_simps enf run_inv_def list_all2_appendI\<close>)
qed

lemma run_inv_group_aux:
  assumes "run_inv pl done st" and "same_shape_as pl cur"
  shows "run_inv pl (done @ grp)
           (foldl record_result st (map (\<lambda>b. (b, call_guardrail d ctx cur b)) grp))"
  using assms
proof (induction grp arbitrary: st "done")
  case Nil
  then show ?case by simp
next
  case (Cons b grp)
  have "run_inv pl (done @ [b]) (record_result st (b, call_guardrail d ctx cur b))"
    using Cons.prems by (intro run_inv_record) auto
  from Cons.IH [OF this Cons.prems(2)] show ?case by simp
qed

lemma run_inv_group: "run_inv pl done st \<Longrightarrow> run_inv pl (done @ grp) (run_group d ctx st grp)"
  unfolding run_group_def by (rule run_inv_group_aux) (auto simp: run_inv_def)

lemma run_inv_groups:
  assumes "run_inv pl done st" "\<not> rs_stop st"
  shows "\<exists>ran left. gs = ran @ left \<and> run_inv pl (done @ concat ran) (run_groups d ctx gs st) \<and>
           (rs_stop (run_groups d ctx gs st) \<or> left = [])"
  using assms
proof (induction gs arbitrary: st "done")
  case Nil
  then show ?case by (intro exI [of _ "[]"]) simp
next
  case (Cons g gs)
  let ?st = "run_group d ctx st g"
  have inv: "run_inv pl (done @ g) ?st" by (rule run_inv_group) fact
  show ?case
  proof (cases "rs_stop ?st")
    case True
    with inv show ?thesis by (intro exI [of _ "[g]"] exI [of _ gs]) (simp add: Let_def)
  next
    case False
    from Cons.IH [OF inv this] obtain ran left where
      "gs = ran @ left" "run_inv pl ((done @ g) @ concat ran) (run_groups d ctx gs ?st)"
      "rs_stop (run_groups d ctx gs ?st) \<or> left = []" by blast
    with False show ?thesis
      by (intro exI [of _ "g # ran"] exI [of _ left]) (simp add: Let_def)
  qed
qed

lemma concat_add_to_groups [simp]: "concat (add_to_groups gs b) = concat gs @ [b]"
proof (cases "gs = []")
  case False
  then have "concat gs = concat (butlast gs) @ last gs"
    by (metis append_butlast_last_id concat_append concat.simps append_Nil2)
  with False show ?thesis by (simp add: add_to_groups_def)
qed (simp add: add_to_groups_def)

lemma concat_groups [simp]: "concat (groups bs) = bs"
  by (induction bs rule: rev_induct) (simp_all add: groups_def)

text \<open>The state a stage ends with: what ran is a prefix of the resolved guardrails.\<close>

lemma run_stage_inv:
  obtains ran left where "bound = ran @ left"
    and "run_inv pl ran (run_groups d ctx (groups bound) (start_state pl))"
    and "rs_stop (run_groups d ctx (groups bound) (start_state pl)) \<or> left = []"
proof -
  have "\<not> rs_stop (start_state pl)" by (simp add: start_state_def)
  from run_inv_groups [OF run_inv_start this, of "groups bound" d ctx]
  obtain r l where "groups bound = r @ l" "run_inv pl (concat r) (run_groups d ctx (groups bound) (start_state pl))"
    "rs_stop (run_groups d ctx (groups bound) (start_state pl)) \<or> l = []"
    unfolding append_Nil by blast
  moreover from this(1) have "bound = concat r @ concat l"
    by (metis concat_append concat_groups)
  ultimately show ?thesis using that [of "concat r" "concat l"] by auto
qed

section \<open>The decision of a stage\<close>

lemma deciding_reason_defined:
  assumes "run_inv pl done st" "strongest_decision (rs_decisions st) \<noteq> Allow"
  shows "\<exists>r. map_of (rs_reasons st) (strongest_decision (rs_decisions st)) = Some r"
proof -
  have "rs_decisions st \<noteq> []" using assms(2) by auto
  then have "strongest_decision (rs_decisions st) \<in> fst ` set (rs_reasons st)"
    using assms(1) strongest_decision_in [of "rs_decisions st"] by (simp add: run_inv_def)
  then show ?thesis by (metis map_of_eq_None_iff not_None_eq)
qed


lemma engine_payload_shape:
  assumes "so_decision (engine_run cfg snap stg ctx pl obligations) \<in> {Allow, Modify}"
  shows "\<exists>q. so_payload (engine_run cfg snap stg ctx pl obligations) = Some q \<and> same_shape_as pl q"
proof -
  let ?bound = "resolve snap (ctx_tenant_id ctx) (ctx_agent_id ctx) stg"
  obtain ran left where
    "run_inv pl ran (run_groups (ec_default_timeout_ms cfg) ctx (groups ?bound) (start_state pl))"
    by (rule run_stage_inv)
  then show ?thesis
    using assms by (auto simp: engine_run_def Let_def run_inv_def split: if_splits)
qed

text \<open>C2. Nothing slips through: when the engine allows or modifies, every guardrail that applies
  to the request ran, in order, every enforced one let it pass, no enforced fail-closed one
  failed, every obligation of the policy is an enforced guardrail, and the payload that is
  released has the shape of the one that came in.
\<close>

theorem engine_release_safe:
  assumes "so_decision (engine_run cfg snap stg ctx pl obligations) \<in> {Allow, Modify}"
  shows "list_all2 (\<lambda>b out. outcome_of b out \<and>
             (as_mode (bg_assignment b) = Enforce \<longrightarrow>
                go_decision out \<in> {Allow, Modify} \<and>
                (bg_failure_mode b = FailClosed \<longrightarrow> go_error out = None)))
           (resolve snap (ctx_tenant_id ctx) (ctx_agent_id ctx) stg)
           (so_results (engine_run cfg snap stg ctx pl obligations)) \<and>
         missing_obligations (resolve snap (ctx_tenant_id ctx) (ctx_agent_id ctx) stg) obligations = [] \<and>
         (\<exists>q. so_payload (engine_run cfg snap stg ctx pl obligations) = Some q \<and> same_shape_as pl q)"
proof -
  let ?bound = "resolve snap (ctx_tenant_id ctx) (ctx_agent_id ctx) stg"
  let ?st = "run_groups (ec_default_timeout_ms cfg) ctx (groups ?bound) (start_state pl)"
  obtain ran left where split: "?bound = ran @ left" and inv: "run_inv pl ran ?st"
    and stop: "rs_stop ?st \<or> left = []" by (rule run_stage_inv)
  have missing: "missing_obligations ?bound obligations = []"
    using assms by (auto simp: engine_run_def Let_def split: if_splits)
  then have res: "so_results (engine_run cfg snap stg ctx pl obligations) = rs_outcomes ?st"
    and pay: "so_payload (engine_run cfg snap stg ctx pl obligations) = Some (rs_current ?st)"
    and d: "strongest_decision (rs_decisions ?st) \<in> {Allow, Modify}"
    using assms by (auto simp: engine_run_def Let_def split: if_splits)
  have weak: "e \<in> {Allow, Modify}" if "e \<in> set (rs_decisions ?st)" for e
    using strongest_decision_ge [OF that] d by (cases e) (auto simp: less_eq_decision_def)
  then have "left = []" using stop inv by (auto simp: run_inv_def)
  then have "list_all2 outcome_of ?bound (rs_outcomes ?st)"
    using inv split by (simp add: run_inv_def)
  moreover have "go_decision out \<in> {Allow, Modify}"
    if "out \<in> set (rs_outcomes ?st)" "go_mode out = ''enforce''" for out
    using inv weak that by (auto simp: run_inv_def enforced_outcomes_def)
  ultimately have "list_all2 (\<lambda>b out. outcome_of b out \<and>
             (as_mode (bg_assignment b) = Enforce \<longrightarrow>
                go_decision out \<in> {Allow, Modify} \<and>
                (bg_failure_mode b = FailClosed \<longrightarrow> go_error out = None))) ?bound (rs_outcomes ?st)"
  proof (elim list.rel_mono_strong)
    fix b out
    assume "out \<in> set (rs_outcomes ?st)" and o: "outcome_of b out"
      and ev: "\<And>out. out \<in> set (rs_outcomes ?st) \<Longrightarrow> go_mode out = ''enforce'' \<Longrightarrow>
                 go_decision out \<in> {Allow, Modify}"
    then have "as_mode (bg_assignment b) = Enforce \<Longrightarrow> go_decision out \<in> {Allow, Modify}"
      by (intro ev) (simp_all add: outcome_of_def)
    with o show "outcome_of b out \<and> (as_mode (bg_assignment b) = Enforce \<longrightarrow>
                go_decision out \<in> {Allow, Modify} \<and>
                (bg_failure_mode b = FailClosed \<longrightarrow> go_error out = None))"
      by (auto simp: outcome_of_def split: if_splits)
  qed
  with missing res pay inv show ?thesis by (simp add: run_inv_def)
qed

section \<open>Shadow mode\<close>

text \<open>\<open>swap_shadow f b\<close> replaces the plugin of a shadow assignment by any other.\<close>

definition swap_shadow :: "(bound_guardrail \<Rightarrow> plugin) \<Rightarrow> bound_guardrail \<Rightarrow> bound_guardrail" where
  "swap_shadow f b =
     (if as_mode (bg_assignment b) = Shadow then b\<lparr>bg_guardrail := f b\<rparr> else b)"

lemma swap_shadow_simps [simp]:
  "bg_assignment (swap_shadow f b) = bg_assignment b"
  "bg_manifest (swap_shadow f b) = bg_manifest b"
  by (simp_all add: swap_shadow_def)

lemma map_of_map_snd: "map_of (map (\<lambda>(k, v). (k, h v)) al) k = map_option h (map_of al k)"
  by (induction al) auto

lemma update_map_snd:
  "AList.update k (h v) (map (\<lambda>(k, v). (k, h v)) al) = map (\<lambda>(k, v). (k, h v)) (AList.update k v al)"
  by (induction al) auto

lemma choose_step_swap:
  "choose_step (map (\<lambda>(k, v). (k, swap_shadow f v)) d) (swap_shadow f b) =
     map (\<lambda>(k, v). (k, swap_shadow f v)) (choose_step d b)"
  by (simp add: choose_step_def Let_def map_of_map_snd update_map_snd split: option.split)

lemma choose_swap:
  "foldl choose_step (map (\<lambda>(k, v). (k, swap_shadow f v)) d) (map (swap_shadow f) bs) =
     map (\<lambda>(k, v). (k, swap_shadow f v)) (foldl choose_step d bs)"
  by (induction bs arbitrary: d) (simp_all add: choose_step_swap)

lemma sort_key_map: "sort_key k (map h xs) = map h (sort_key (\<lambda>x. k (h x)) xs)"
proof -
  have ins: "insort_key k (h x) (map h ys) = map h (insort_key (\<lambda>x. k (h x)) x ys)" for x ys
    by (induction ys) auto
  show ?thesis by (induction xs) (auto simp: ins)
qed

lemma resolve_swap:
  "resolve (snap\<lparr>cs_bound := map (swap_shadow f) (cs_bound snap)\<rparr>) t a stg =
     map (swap_shadow f) (resolve snap t a stg)"
proof -
  have flt: "filter (applies_to t a stg) (map (swap_shadow f) bs) = map (swap_shadow f) (filter (applies_to t a stg) bs)" for bs
    by (induction bs) (simp_all add: applies_to_def Let_def)
  have act: "filter (\<lambda>b. as_enabled (bg_assignment b)) (map (swap_shadow f) bs) =
      map (swap_shadow f) (filter (\<lambda>b. as_enabled (bg_assignment b)) bs)" for bs
    by (induction bs) simp_all
  have snd: "map snd (map (\<lambda>(k, v). (k, swap_shadow f v)) d) = map (swap_shadow f) (map snd d)" for d :: "(string \<times> bound_guardrail) list"
    by (induction d) auto
  show ?thesis
    using choose_swap [of f "[]"] by (simp add: resolve_def Let_def flt snd act sort_key_map del: map_map)
qed

lemma add_to_groups_swap:
  "list_all (\<lambda>g. g \<noteq> []) gs \<Longrightarrow>
   add_to_groups (map (map (swap_shadow f)) gs) (swap_shadow f b) =
     map (map (swap_shadow f)) (add_to_groups gs b)"
proof (cases "gs = []")
  case False
  assume "list_all (\<lambda>g. g \<noteq> []) gs"
  with False have "last gs \<noteq> []" by (simp add: list_all_iff)
  with False show ?thesis
    by (simp add: add_to_groups_def parallel_group_def last_map hd_map map_butlast)
qed (simp add: add_to_groups_def parallel_group_def)

lemma groups_nonempty: "list_all (\<lambda>g. g \<noteq> []) (groups bs)"
  by (induction bs rule: rev_induct)
    (auto simp: groups_def add_to_groups_def list_all_iff dest: in_set_butlastD)

lemma groups_swap: "groups (map (swap_shadow f) bs) = map (map (swap_shadow f)) (groups bs)"
proof (induction bs rule: rev_induct)
  case (snoc b bs)
  then show ?case using add_to_groups_swap [OF groups_nonempty [of bs]] by (simp add: groups_def)
qed (simp add: groups_def)

text \<open>Two states of the loop that differ in what was recorded for the audit only.\<close>

definition same_effect :: "run_state \<Rightarrow> run_state \<Rightarrow> bool" where
  "same_effect s t \<longleftrightarrow>
     rs_current s = rs_current t \<and> rs_decisions s = rs_decisions t \<and> rs_risk s = rs_risk t \<and>
     rs_reasons s = rs_reasons t \<and> rs_stop s = rs_stop t"

lemma record_swap:
  "same_effect s t \<Longrightarrow>
   same_effect (record_result s (b, call_guardrail d ctx cur b))
     (record_result t (swap_shadow f b, call_guardrail d ctx cur (swap_shadow f b)))"
proof (cases "as_mode (bg_assignment b)")
  case Shadow
  assume "same_effect s t"
  moreover obtain out r where "call_guardrail d ctx cur b = (out, r)" by fastforce
  moreover obtain out' r' where "call_guardrail d ctx cur (swap_shadow f b) = (out', r')" by fastforce
  ultimately show ?thesis using Shadow by (simp add: same_effect_def state_simps)
next
  case Enforce
  then have "swap_shadow f b = b" by (simp add: swap_shadow_def)
  moreover assume "same_effect s t"
  moreover obtain out r where "call_guardrail d ctx cur b = (out, r)" by fastforce
  ultimately show ?thesis by (simp add: same_effect_def state_simps split: option.split)
qed

lemma record_all_swap:
  "same_effect s t \<Longrightarrow>
   same_effect (foldl record_result s (map (\<lambda>b. (b, call_guardrail d ctx cur b)) g))
     (foldl record_result t (map (\<lambda>b. (b, call_guardrail d ctx cur b)) (map (swap_shadow f) g)))"
proof (induction g arbitrary: s t)
  case (Cons b g)
  from Cons.IH [OF record_swap [OF Cons.prems]] show ?case
    by (simp only: list.map foldl_Cons)
qed (simp only: list.map foldl_Nil)

lemma run_group_swap:
  assumes "same_effect s t"
  shows "same_effect (run_group d ctx s g) (run_group d ctx t (map (swap_shadow f) g))"
proof -
  have cur: "rs_current t = rs_current s" using assms by (simp add: same_effect_def)
  show ?thesis unfolding run_group_def cur by (rule record_all_swap) fact
qed

lemma run_groups_swap:
  "same_effect s t \<Longrightarrow>
   same_effect (run_groups d ctx gs s) (run_groups d ctx (map (map (swap_shadow f)) gs) t)"
proof (induction gs arbitrary: s t)
  case (Cons g gs)
  have g: "same_effect (run_group d ctx s g) (run_group d ctx t (map (swap_shadow f) g))"
    by (rule run_group_swap) fact
  then have "rs_stop (run_group d ctx t (map (swap_shadow f) g)) = rs_stop (run_group d ctx s g)"
    by (simp add: same_effect_def)
  with g Cons.IH [OF g] show ?case by (simp add: Let_def)
qed simp

text \<open>C4. Shadow mode observes only: whatever the plugins of the shadow assignments do (answer
  anything, raise, time out), the decision, its reason, the risk score and the payload of
  the stage are the same.
\<close>

theorem shadow_never_interferes:
  "(let out = engine_run cfg snap stg ctx pl obligations;
        out' = engine_run cfg (snap\<lparr>cs_bound := map (swap_shadow f) (cs_bound snap)\<rparr>) stg ctx pl obligations
    in so_decision out' = so_decision out \<and> so_reason out' = so_reason out \<and>
       so_risk_score out' = so_risk_score out \<and> so_payload out' = so_payload out)"
proof -
  let ?bound = "resolve snap (ctx_tenant_id ctx) (ctx_agent_id ctx) stg"
  have miss: "missing_obligations (map (swap_shadow f) ?bound) obligations = missing_obligations ?bound obligations"
    by (simp add: missing_obligations_def filter_map o_def)
  let ?s = "run_groups (ec_default_timeout_ms cfg) ctx (groups ?bound) (start_state pl)"
  let ?t = "run_groups (ec_default_timeout_ms cfg) ctx (groups (map (swap_shadow f) ?bound)) (start_state pl)"
  have "same_effect ?s ?t"
    unfolding groups_swap by (rule run_groups_swap) (simp add: same_effect_def)
  then have eqs: "rs_current ?t = rs_current ?s" "rs_decisions ?t = rs_decisions ?s"
      "rs_risk ?t = rs_risk ?s" "rs_reasons ?t = rs_reasons ?s"
    by (simp_all add: same_effect_def)
  show ?thesis
    using eqs by (cases "?bound = []") (simp_all add: engine_run_def Let_def resolve_swap miss)
qed

section \<open>An example\<close>

text \<open>One enforced guardrail that redacts, one in shadow that raises, on a small request.\<close>

definition ex_payload :: payload where
  "ex_payload = \<lparr>pl_stage = Input, pl_text = Some ''my card is 4111'', pl_messages = None,
     pl_chunks = None, pl_tool_call = None, pl_extensions = []\<rparr>"

definition ex_ctx :: security_context where
  "ex_ctx = \<lparr>ctx_request_id = ''r1'', ctx_trace_id = ''t1'', ctx_tenant_id = ''demo'',
     ctx_agent_id = ''bot'', ctx_user_id = None, ctx_session_id = None, ctx_action = ''llm.chat'',
     ctx_resource = None, ctx_arguments = [], ctx_trust_score = 70, ctx_risk_score = 20,
     ctx_data_classification = INTERNAL, ctx_environment = Dev, ctx_delegation_chain = [],
     ctx_tool_metadata = None\<rparr>"

definition ex_assignment :: "string \<Rightarrow> run_mode \<Rightarrow> assignment" where
  "ex_assignment gid m = \<lparr>as_id = gid, as_guardrail_id = gid, as_guardrail_version = ''1.0.0'',
     as_scope_type = ScopeGlobal, as_scope_id = None, as_stages = [Input], as_order = 100,
     as_parallel_group = None, as_enabled = True, as_mode = m, as_failure_mode = None,
     as_timeout_ms = None, as_config = []\<rparr>"

definition ex_manifest :: "string \<Rightarrow> manifest" where
  "ex_manifest gid = \<lparr>mf_id = gid, mf_version = ''1.0.0'', mf_kind = KLocal, mf_stages = [Input],
     mf_failure_mode = FailClosed, mf_decisions_emitted = [Allow, Modify, Block],
     mf_sdk_version = ''>=1.0,<2.0'', mf_latency_budget_ms = 300,
     mf_capabilities = \<lparr>cap_emits_modify = True, cap_needs_state = False, cap_needs_raw_payload = False,
       cap_parallel_safe = False, cap_supports_batch = False, cap_max_payload_kb = 1024\<rparr>,
     mf_entrypoint = Some ''m:C'', mf_remote = None\<rparr>"

definition ex_redact :: plugin where
  "ex_redact ctx pl =
     (12, Returned \<lparr>gr_decision = Modify, gr_reason = ''redacted'', gr_risk_score = 40,
        gr_modified_payload = Some (pl\<lparr>pl_text := Some ''my card is [CARD]''\<rparr>),
        gr_findings = [], gr_metadata = [], gr_latency_ms = 0\<rparr>)"

definition ex_raise :: plugin where
  "ex_raise ctx pl = (1, Raised ''ValueError'')"

definition ex_snapshot :: compiled_snapshot where
  "ex_snapshot = \<lparr>cs_version = ''v1'', cs_environment = Dev, cs_bound =
     [\<lparr>bg_assignment = ex_assignment ''pii'' Enforce, bg_manifest = ex_manifest ''pii'', bg_guardrail = ex_redact\<rparr>,
      \<lparr>bg_assignment = ex_assignment ''topics'' Shadow, bg_manifest = ex_manifest ''topics'', bg_guardrail = ex_raise\<rparr>]\<rparr>"

definition ex_engine :: engine_config where
  "ex_engine = \<lparr>ec_default_timeout_ms = 1000, ec_escalate_as_block = False\<rparr>"

lemmas ex_defs = ex_payload_def ex_ctx_def ex_assignment_def ex_manifest_def ex_redact_def
  ex_raise_def ex_snapshot_def ex_engine_def

lemma ex_resolve:
  "resolve ex_snapshot ''demo'' ''bot'' Input = cs_bound ex_snapshot"
  by (simp add: ex_defs resolve_def applies_to_def choose_step_def Let_def less_eq_prod_def)

lemma ex_run_decision:
  "so_decision (engine_run ex_engine ex_snapshot Input ex_ctx ex_payload [''pii'']) = Modify"
proof -
  have miss: "missing_obligations (cs_bound ex_snapshot) [''pii''] = []"
    by (auto simp: missing_obligations_def ex_defs image_iff)
  have ctx: "ctx_tenant_id ex_ctx = ''demo''" "ctx_agent_id ex_ctx = ''bot''"
    by (simp_all add: ex_ctx_def)
  show ?thesis
    unfolding engine_run_def ctx ex_resolve Let_def miss
    by (simp add: ex_defs groups_def add_to_groups_def parallel_group_def
        start_state_def run_group_def call_guardrail_def call_error_def bg_timeout_ms_def
        record_result_def failed_result_def bg_failure_mode_def same_shape_as_def Let_def)
qed

theorem engine_release_safe_witness:
  "so_decision (engine_run ex_engine ex_snapshot Input ex_ctx ex_payload [''pii'']) = Modify \<and>
   (\<exists>q. so_payload (engine_run ex_engine ex_snapshot Input ex_ctx ex_payload [''pii'']) = Some q \<and>
        same_shape_as ex_payload q)"
  using engine_release_safe [of ex_engine ex_snapshot Input ex_ctx ex_payload "[''pii'']"] ex_run_decision
  by simp

end
