(* ===== verification/Risk_Props.thy ===== *)
theory Risk_Props
  imports Decision_Table
begin

text \<open>
  What risk v2 promises: signals only add, so the score lies between the inherent score and 100;
  a worse history never lowers score or band; trust stays below the approved base and recovers
  with time; and a critical score is never answered with an allowing outcome.
\<close>

section \<open>Sums of signals\<close>

definition points :: "signal list \<Rightarrow> int" where
  "points ss = sum_list (map sg_points ss)"

lemma points_append [simp]: "points (xs @ ys) = points xs + points ys"
  by (simp add: points_def)

lemma points_Nil [simp]: "points [] = 0"
  by (simp add: points_def)

lemma points_sig [simp]: "points [sig c p d] = p"
  by (simp add: points_def sig_def)

text \<open>The weights of a configuration, none negative (as in the defaults).\<close>

definition config_nonneg :: "risk_config \<Rightarrow> bool" where
  "config_nonneg cfg \<longleftrightarrow>
     0 \<le> rc_new_resource cfg \<and> 0 \<le> rc_volume_cap cfg \<and> 0 \<le> rc_volume_no_baseline cfg \<and>
     0 \<le> rc_unbounded_read cfg \<and> 0 \<le> rc_sensitive_then_external cfg \<and> 0 \<le> rc_tainted_session cfg \<and>
     0 \<le> rc_low_assurance_production cfg \<and> 0 \<le> rc_new_session cfg \<and> 0 \<le> rc_repeated_denials_cap cfg \<and>
     0 \<le> rc_destructive_verb cfg \<and> 0 \<le> rc_unknown_tool cfg \<and> 0 \<le> rc_multiple_statements cfg \<and>
     0 \<le> rc_confidence_penalty cfg \<and> 0 \<le> rc_agent_finding cfg \<and> 0 \<le> rc_tool_definition_changed cfg"

lemma config_nonneg_default: "config_nonneg default_risk_config"
  by (simp add: config_nonneg_def default_risk_config_def)

lemma confidence100_bounds: "0 \<le> confidence100 cfg d v stg h \<and> confidence100 cfg d v stg h \<le> 100"
  by (simp add: confidence100_def)

lemma confidence_penalty_nonneg:
  assumes "0 \<le> rc_confidence_penalty cfg" "c \<le> 100"
  shows "0 \<le> confidence_penalty cfg c"
proof -
  have "0 \<le> (of_int (rc_confidence_penalty cfg) :: real) * (1 - of_int c / 100)"
    using assms by (intro mult_nonneg_nonneg) simp_all
  then show ?thesis unfolding confidence_penalty_def by (intro py_round_ge) simp
qed

lemma points_confidence [simp]: "points (confidence_signal cfg c) = confidence_penalty cfg c"
  by (simp add: confidence_signal_def)

lemma volume_points_nonneg:
  assumes "0 \<le> rc_volume_cap cfg" "0 \<le> rc_volume_no_baseline cfg"
  shows "0 \<le> points (volume_signal cfg d v)"
proof -
  have "0 \<le> py_round (8 * log 2 r)" if "2 \<le> r" for r :: real
    using that by (intro py_round_ge) simp
  with assms show ?thesis
    by (auto simp: volume_signal_def Let_def split: option.split)
qed

lemmas signal_defs = new_resource_signal_def unbounded_signal_def exfiltration_signal_def
  taint_signal_def assurance_signal_def session_signal_def denials_signal_def verb_signals_def
  inventory_signals_def

lemma assess_points:
  "points (assess_signals cfg v i) =
     points (new_resource_signal cfg (ai_descriptor i) v (ai_stage i)) +
     points (volume_signal cfg (ai_descriptor i) v) + points (unbounded_signal cfg (ai_descriptor i)) +
     points (exfiltration_signal cfg (ai_descriptor i) v (ai_data_classification i)) +
     points (taint_signal cfg v (ai_stage i)) +
     points (assurance_signal cfg (ai_assurance i) (ai_environment i)) +
     points (session_signal cfg v (ai_has_session_id i)) + points (denials_signal cfg v) +
     points (verb_signals cfg (ai_descriptor i) (ai_stage i)) +
     points (inventory_signals cfg (ai_agent_findings i) (ai_stage i) (ai_tool_flagged i)) +
     confidence_penalty cfg (confidence100 cfg (ai_descriptor i) v (ai_stage i) (ai_has_session_id i))"
  by (simp add: assess_signals_def Let_def)

lemma signal_points_nonneg:
  assumes "config_nonneg cfg"
  shows "0 \<le> points (new_resource_signal cfg d v stg)" "0 \<le> points (unbounded_signal cfg d)"
    "0 \<le> points (exfiltration_signal cfg d v c)" "0 \<le> points (taint_signal cfg v stg)"
    "0 \<le> points (assurance_signal cfg a e)" "0 \<le> points (session_signal cfg v h)"
    "0 \<le> points (denials_signal cfg v)" "0 \<le> points (verb_signals cfg d stg)"
    "0 \<le> points (inventory_signals cfg fs stg t)"
  using assms by (simp_all add: signal_defs config_nonneg_def Let_def)

lemma assess_points_nonneg:
  assumes "config_nonneg cfg"
  shows "0 \<le> points (assess_signals cfg v i)"
proof -
  have "0 \<le> points (volume_signal cfg (ai_descriptor i) v)"
    using assms by (intro volume_points_nonneg) (simp_all add: config_nonneg_def)
  moreover have "0 \<le> confidence_penalty cfg (confidence100 cfg (ai_descriptor i) v (ai_stage i) (ai_has_session_id i))"
    using assms confidence100_bounds by (intro confidence_penalty_nonneg) (simp_all add: config_nonneg_def)
  ultimately show ?thesis
    using signal_points_nonneg [OF assms] unfolding assess_points by (simp add: add_nonneg_nonneg)
qed

lemma am_score_eq:
  "am_score (assess cfg now v i) = max 0 (min 100 (ai_inherent i + points (assess_signals cfg v i)))"
  by (simp add: assess_def Let_def points_def)

lemma am_band_eq:
  "am_band (assess cfg now v i) = band_for (am_score (assess cfg now v i)) (am_trust (assess cfg now v i))"
  "am_trust (assess cfg now v i) = current_trust (ai_base_trust i) v now"
  by (simp_all add: assess_def Let_def)

section \<open>Bands\<close>

lemma band_for_mono:
  assumes "s \<le> s'" "t' \<le> t"
  shows "band_for s t \<le> band_for s' t'"
proof -
  have "(1/5) * (of_int t' :: real) \<le> (1/5) * of_int t" "(of_int s :: real) \<le> of_int s'"
    using assms by simp_all
  then show ?thesis
    using assms by (auto simp: band_for_def less_eq_band_def min_def)
qed

lemma band_for_critical: "80 \<le> s \<Longrightarrow> band_for s t = Critical"
  by (simp add: band_for_def)

section \<open>Trust\<close>

definition penalty_ok :: "real \<Rightarrow> penalty \<Rightarrow> bool" where
  "penalty_ok now p \<longleftrightarrow> 0 \<le> pen_points p \<and> 0 < pen_half_life_days p \<and> pen_at p \<le> now"

lemma penalty_remaining_bounds:
  "0 \<le> pen_points p \<Longrightarrow> 0 \<le> penalty_remaining p now"
  by (simp add: penalty_remaining_def Let_def)

lemma penalty_fades:
  assumes "penalty_ok now p" "now \<le> later"
  shows "penalty_remaining p later \<le> penalty_remaining p now"
proof -
  have "max 0 (now - pen_at p) / 86400 / pen_half_life_days p
        \<le> max 0 (later - pen_at p) / 86400 / pen_half_life_days p"
    using assms by (intro divide_right_mono) (auto simp: penalty_ok_def)
  then have "2 powr (- (max 0 (later - pen_at p) / 86400) / pen_half_life_days p)
        \<le> 2 powr (- (max 0 (now - pen_at p) / 86400) / pen_half_life_days p)"
    by (intro powr_mono) simp_all
  then show ?thesis
    using assms unfolding penalty_remaining_def Let_def penalty_ok_def
    by (intro mult_left_mono) auto
qed

lemma penalty_half_life:
  assumes "pen_half_life_days p = h" "h > 0" "now = pen_at p + 86400 * h"
  shows "penalty_remaining p now = of_int (pen_points p) / 2"
  using assms by (simp add: penalty_remaining_def Let_def powr_minus_divide)

lemma current_trust_mono:
  "sum_list (map (\<lambda>p. penalty_remaining p later) (sv_penalties w))
     \<le> sum_list (map (\<lambda>p. penalty_remaining p now) (sv_penalties v))
   \<Longrightarrow> current_trust base v now \<le> current_trust base w later"
  unfolding current_trust_def Let_def
  by (intro max.mono min.mono py_round_mono order_refl) simp

section \<open>History\<close>

text \<open>The same session, with more taint, more denials and more penalties.\<close>

definition history_worse :: "session_view \<Rightarrow> session_view \<Rightarrow> bool" where
  "history_worse v w \<longleftrightarrow>
     sv_available w = sv_available v \<and> sv_has_session w = sv_has_session v \<and>
     sv_age_seconds w = sv_age_seconds v \<and> sv_first_seen_target w = sv_first_seen_target v \<and>
     sv_volume_p95 w = sv_volume_p95 v \<and> sv_volume_samples w = sv_volume_samples v \<and>
     sv_labels v \<subseteq> sv_labels w \<and> sv_denials v \<le> sv_denials w \<and>
     sv_agent_recent_denials v \<le> sv_agent_recent_denials w \<and>
     take (length (sv_penalties v)) (sv_penalties w) = sv_penalties v \<and>
     list_all (\<lambda>p. 0 \<le> pen_points p) (drop (length (sv_penalties v)) (sv_penalties w))"

lemma denials_points_mono:
  assumes "0 \<le> rc_repeated_denials_cap cfg" "sv_denials v \<le> sv_denials w"
    "sv_agent_recent_denials v \<le> sv_agent_recent_denials w"
  shows "points (denials_signal cfg v) \<le> points (denials_signal cfg w)"
proof -
  have p: "points (denials_signal cfg u) =
      (if max (sv_denials u) (sv_agent_recent_denials u) = 0 then 0
       else min (rc_repeated_denials_cap cfg) (10 * int (max (sv_denials u) (sv_agent_recent_denials u))))" for u
    by (simp add: denials_signal_def Let_def Suc_le_eq)
  have m: "max (sv_denials v) (sv_agent_recent_denials v) \<le> max (sv_denials w) (sv_agent_recent_denials w)"
    using assms by (auto simp: max_def)
  show ?thesis unfolding p using assms(1) m by (auto simp: min_def)
qed

lemma label_points_mono:
  assumes "config_nonneg cfg" "sv_labels v \<subseteq> sv_labels w"
  shows "points (exfiltration_signal cfg d v c) \<le> points (exfiltration_signal cfg d w c)"
    "points (taint_signal cfg v stg) \<le> points (taint_signal cfg w stg)"
  using assms by (auto simp: exfiltration_signal_def taint_signal_def holds_sensitive_def config_nonneg_def)

lemma assess_points_mono:
  assumes c: "config_nonneg cfg" and h: "history_worse v w"
  shows "points (assess_signals cfg v i) \<le> points (assess_signals cfg w i)"
proof -
  have "points (denials_signal cfg v) \<le> points (denials_signal cfg w)"
    using c h by (intro denials_points_mono) (simp_all add: config_nonneg_def history_worse_def)
  moreover have "has_baseline cfg w = has_baseline cfg v"
    using h by (simp add: has_baseline_def history_worse_def)
  moreover from this have "volume_signal cfg d w = volume_signal cfg d v" for d
    using h by (simp add: volume_signal_def history_worse_def split: option.split)
  moreover have "new_resource_signal cfg d w stg = new_resource_signal cfg d v stg"
      "session_signal cfg w b = session_signal cfg v b" for d stg b
    using h by (simp_all add: new_resource_signal_def session_signal_def history_worse_def)
  moreover have "sv_available w = sv_available v" using h by (simp add: history_worse_def)
  moreover note label_points_mono [OF c, of v w]
  ultimately show ?thesis
    using h unfolding assess_points confidence100_def
    by (intro add_mono) (simp_all add: history_worse_def)
qed

lemma history_trust:
  assumes "history_worse v w"
  shows "current_trust base w now \<le> current_trust base v now"
proof -
  let ?r = "\<lambda>ps. sum_list (map (\<lambda>p. penalty_remaining p now) ps)"
  let ?extra = "drop (length (sv_penalties v)) (sv_penalties w)"
  have eq: "sv_penalties w = sv_penalties v @ ?extra"
    using assms append_take_drop_id [of "length (sv_penalties v)" "sv_penalties w"]
    by (simp add: history_worse_def)
  have "0 \<le> ?r ?extra"
    using assms by (intro sum_list_nonneg)
      (auto simp: history_worse_def list_all_iff intro!: penalty_remaining_bounds)
  moreover have "?r (sv_penalties w) = ?r (sv_penalties v) + ?r ?extra"
    using arg_cong [OF eq, of ?r] by simp
  ultimately have "?r (sv_penalties v) \<le> ?r (sv_penalties w)" by linarith
  then show ?thesis
    by (rule current_trust_mono)
qed


text \<open>C11. Trust never exceeds the approved base, never falls below zero, and comes back: with
  time alone (no further penalties) it does not fall, and each penalty has lost half of its
  points after its half-life.\<close>

theorem trust_recovers:
  assumes "list_all (penalty_ok now) (sv_penalties v)" "now \<le> later" "0 \<le> base"
  shows "0 \<le> current_trust base v now \<and> current_trust base v now \<le> current_trust base v later
    \<and> current_trust base v later \<le> base
    \<and> list_all (\<lambda>p. penalty_remaining p (pen_at p + 86400 * pen_half_life_days p)
                     = of_int (pen_points p) / 2) (sv_penalties v)"
proof -
  have "sum_list (map (\<lambda>p. penalty_remaining p later) (sv_penalties v))
        \<le> sum_list (map (\<lambda>p. penalty_remaining p now) (sv_penalties v))"
    using assms by (intro sum_list_mono penalty_fades) (auto simp: list_all_iff)
  from current_trust_mono [OF this]
  have "current_trust base v now \<le> current_trust base v later" .
  moreover have "list_all (\<lambda>p. penalty_remaining p (pen_at p + 86400 * pen_half_life_days p)
                     = of_int (pen_points p) / 2) (sv_penalties v)"
    using assms(1) penalty_half_life by (auto simp: list_all_iff penalty_ok_def)
  ultimately show ?thesis using assms(3) by (simp add: current_trust_def Let_def)
qed

text \<open>Nothing at or above 80 is waved through: whatever the trust, the guardrails, the advisors
  and the capabilities of the caller, such a request is held, quarantined or denied.\<close>

theorem critical_never_allowed:
  assumes "80 \<le> am_score (assess cfg now v i)" "di_band di = am_band (assess cfg now v i)"
  shows "OHold \<le> tr_outcome (decide cfg di) \<and> tr_legacy (decide cfg di) \<in> {Escalate, Block}"
proof -
  have b: "di_band di = Critical"
    using assms band_for_critical by (simp add: am_band_eq)
  have hold: "OHold \<le> tr_outcome (decide cfg di)"
  proof (cases "di_policy_allow di \<and> \<not> di_quarantined di")
    case True
    then show ?thesis
      using decide_ge_risk [of di cfg] by (simp add: b risk_outcome_def)
  next
    case False
    then show ?thesis
      by (cases "di_policy_allow di") (simp_all add: decide_early less_eq_outcome_def)
  qed
  then show ?thesis
    by (cases "tr_outcome (decide cfg di)") (simp_all add: less_eq_outcome_def tr_legacy_def to_legacy_def)
qed

section \<open>Witnesses\<close>

definition ex_view :: "string set \<Rightarrow> nat \<Rightarrow> penalty list \<Rightarrow> session_view" where
  "ex_view labels denials pens = \<lparr>sv_available = True, sv_has_session = True, sv_age_seconds = 1000,
     sv_steps = 4, sv_denials = denials, sv_labels = labels, sv_quarantined_until = 0,
     sv_first_seen_target = Some False, sv_volume_p95 = None, sv_volume_samples = 0,
     sv_penalties = pens, sv_penalised = False, sv_agent_recent_denials = 0,
     sv_agent_quarantined_until = 0\<rparr>"

definition ex_penalty :: penalty where
  "ex_penalty = \<lparr>pen_code = ''REPEATED_DENIALS'', pen_points = 10, pen_half_life_days = 7, pen_at = 0\<rparr>"

definition ex_input :: "int \<Rightarrow> assess_input" where
  "ex_input inherent = \<lparr>ai_inherent = inherent, ai_base_trust = 60,
     ai_descriptor = plain_descriptor DFile VRead (Some ''/reports/q3''), ai_stage = Tool,
     ai_environment = Dev, ai_assurance = ''A1'', ai_data_classification = INTERNAL,
     ai_has_session_id = True, ai_agent_findings = [], ai_tool_flagged = False\<rparr>"

lemmas ex_risk_defs = ex_view_def ex_input_def default_risk_config_def assess_signals_def
  signal_defs volume_signal_def confidence_signal_def confidence100_def confidence_penalty_def
  plain_descriptor_def ad_parsed_def

lemma ex_scores:
  "am_score (assess default_risk_config 0 (ex_view {} 0 []) (ex_input 40)) = 40"
  "am_score (assess default_risk_config 0 (ex_view {''untrusted_input''} 3 []) (ex_input 40)) = 75"
  "am_score (assess default_risk_config 0 (ex_view {''untrusted_input''} 3 []) (ex_input 50)) = 85"
  by (simp_all add: am_score_eq ex_risk_defs points_def sig_def)


theorem trust_recovers_witness:
  "current_trust 60 (ex_view {} 0 [ex_penalty]) 0 \<le> current_trust 60 (ex_view {} 0 [ex_penalty]) 604800
   \<and> current_trust 60 (ex_view {} 0 [ex_penalty]) 0 = 50
   \<and> current_trust 60 (ex_view {} 0 [ex_penalty]) 604800 = 55"
proof -
  have "list_all (penalty_ok 0) (sv_penalties (ex_view {} 0 [ex_penalty]))"
    by (simp add: ex_view_def ex_penalty_def penalty_ok_def)
  from trust_recovers [OF this, of 604800 60]
  have "current_trust 60 (ex_view {} 0 [ex_penalty]) 0
        \<le> current_trust 60 (ex_view {} 0 [ex_penalty]) 604800"
    by simp
  moreover have "current_trust 60 (ex_view {} 0 [ex_penalty]) 0 = 50"
    by (simp add: current_trust_def ex_view_def ex_penalty_def penalty_remaining_def)
  moreover have "current_trust 60 (ex_view {} 0 [ex_penalty]) 604800 = 55"
    by (simp add: current_trust_def ex_view_def ex_penalty_def penalty_remaining_def powr_minus_divide)
  ultimately show ?thesis by blast
qed

definition ex_decide_input :: "band \<Rightarrow> decide_input" where
  "ex_decide_input b = \<lparr>di_policy_allow = True, di_engine_decision = Allow, di_band = b,
     di_descriptor = plain_descriptor DFile VRead (Some ''/reports/q3''), di_quarantined = False,
     di_accepts_obligations = True, di_verification_available = True, di_advisor_verify = False\<rparr>"

theorem critical_never_allowed_witness:
  "OHold \<le> tr_outcome (decide default_risk_config (ex_decide_input Critical))
   \<and> tr_outcome (decide default_risk_config (ex_decide_input Critical)) = OHold"
proof -
  let ?a = "assess default_risk_config 0 (ex_view {''untrusted_input''} 3 []) (ex_input 50)"
  have s: "80 \<le> am_score ?a" by (simp add: ex_scores)
  then have "di_band (ex_decide_input Critical) = am_band ?a"
    by (simp add: am_band_eq band_for_critical ex_decide_input_def)
  from critical_never_allowed [OF s this]
  show ?thesis
    by (simp add: decide_def ex_decide_input_def risk_outcome_def Let_def strongest_of_pair
        outcome_ord_simps allowing_def)
qed

end
