(* ===== verification/Verify_Props.thy ===== *)
theory Verify_Props
  imports Verify_Engine
begin

text \<open>
  What the verification engine promises over any store that keeps the contract, and over the
  memory store by interpretation: an allow rests on evidence that closes the gap and is spent with
  it, a rejection denies, and what needs a person's authorization was confirmed by one.
\<close>

section \<open>Over any store of the contract\<close>

text \<open>Evidence the engine makes itself: a dry run of this request, just now, that passed.\<close>

definition fresh_dry_run :: "'s verification_engine \<Rightarrow> verify_context \<Rightarrow> real \<Rightarrow> evidence \<Rightarrow> bool" where
  "fresh_dry_run en c now e \<longleftrightarrow>
     (case (en_dry_run en, vc_sql c) of
        (Some dr, Some sql) \<Rightarrow>
          (case dry_run dr sql (vc_tool_name c) (vc_resource c) of
             DryRunOk (Some rows) \<Rightarrow> rows \<le> en_max_rows en \<and> e = dry_run_evidence c now rows
           | _ \<Rightarrow> False)
      | _ \<Rightarrow> False)"

lemma fresh_dry_run_strength: "fresh_dry_run en c now e \<Longrightarrow> ev_strength e = [(Resource, 2), (Effect, 1)]"
  by (auto simp: fresh_dry_run_def dry_run_evidence_def DRY_RUN_def split: option.splits dry_run_result.splits)

lemma fresh_dry_run_hash: "fresh_dry_run en c now e \<Longrightarrow> ev_request_hash e = vc_request_hash c"
  by (auto simp: fresh_dry_run_def dry_run_evidence_def split: option.splits dry_run_result.splits)

text \<open>For any store at all: a dry run either answers early with a hold, or extends the evidence.\<close>

lemma run_inline_result:
  "run_inline en c now p steps evs codes s = (Inr r, s') \<Longrightarrow>
   case r of
     Inl early \<Rightarrow> rn_outcome early = OHold
   | Inr (evs', codes') \<Rightarrow> \<forall>e \<in> set evs'. e \<in> set evs \<or> fresh_dry_run en c now e"
proof (induction steps arbitrary: evs codes s)
  case Nil
  then show ?case by auto
next
  case (Cons step steps)
  show ?case
  proof (cases "en_dry_run en")
    case None
    with Cons show ?thesis by simp
  next
    case dr: (Some dr)
    show ?thesis
    proof (cases "vc_sql c")
      case None
      with dr Cons show ?thesis by simp
    next
      case sql: (Some sql)
      show ?thesis
      proof (cases "vs_kind step \<noteq> vs_kind DRY_RUN")
        case True
        with dr sql Cons show ?thesis by simp
      next
        case False
        show ?thesis
        proof (cases "dry_run dr sql (vc_tool_name c) (vc_resource c)")
          case (DryRunFailed e)
          with dr sql False Cons.prems show ?thesis by (auto simp: resolution_of_def)
        next
          case (DryRunOk o')
          show ?thesis
          proof (cases "case o' of None \<Rightarrow> True | Some rows \<Rightarrow> en_max_rows en < rows")
            case True
            with dr sql False DryRunOk Cons.prems show ?thesis
              by (auto simp: resolution_of_def split: option.splits if_splits)
          next
            case ok: False
            then obtain rows where rows: "o' = Some rows" "rows \<le> en_max_rows en" by (auto split: option.splits)
            let ?e = "dry_run_evidence c now rows"
            from dr sql False DryRunOk rows Cons.prems obtain s1 where
              "run_inline en c now p steps (evs @ [?e]) (codes @ [''EVIDENCE_DRY_RUN'']) s1 = (Inr r, s')"
              by (auto simp: and_then_Inr split: if_splits)
            from Cons.IH [OF this] show ?thesis
              using dr sql DryRunOk rows by (auto simp: fresh_dry_run_def split: sum.splits prod.splits)
          qed
        qed
      qed
    qed
  qed
qed

lemma follow_plan_allow:
  assumes "follow_plan en c now uid evs p s = (Inr r, s')" "rn_outcome r = OAllow"
  obtains evs' s1 taken where "gap_for c evs' = []" "\<forall>e \<in> set evs'. e \<in> set evs \<or> fresh_dry_run en c now e"
    "st_take (en_store en) (vc_tenant_id c) (vc_request_hash c) now s1 = (Inr taken, s')"
    "plan_pending p = []"
proof -
  have h: "\<not> needs_human_review p"
    using assms by (auto simp: follow_plan_def resolution_of_def)
  then obtain q s1 where q: "run_inline en c now p (plan_inline p) evs [] s = (Inr q, s1)"
    and rest: "(case q of
           Inl early \<Rightarrow> return_value early
         | Inr (evs', codes) \<Rightarrow>
             if plan_pending p \<noteq> [] then
               and_then (open_verification en c now uid)
                 (\<lambda>v. return_value
                    ((resolution_of OVerify (codes @ [''VERIFY_USER_CONFIRMATION'']) (plan_kinds p))
                       \<lparr>rn_verification := Some v\<rparr>))
             else if gap_for c evs' \<noteq> [] then
               return_value (resolution_of OHold [''VERIFY_INCOMPLETE''] (plan_kinds p))
             else
               and_then (st_take (en_store en) (vc_tenant_id c) (vc_request_hash c) now)
                 (\<lambda>_. return_value (resolution_of OAllow (''VERIFIED'' # codes) (plan_kinds p)))) s1 = (Inr r, s')"
    using assms(1) by (auto simp: follow_plan_def and_then_Inr)
  from run_inline_result [OF q] have q': "case q of
     Inl early \<Rightarrow> rn_outcome early = OHold
   | Inr (evs', codes') \<Rightarrow> \<forall>e \<in> set evs'. e \<in> set evs \<or> fresh_dry_run en c now e" .
  show ?thesis
  proof (cases q)
    case (Inl early)
    with q' rest assms(2) show ?thesis by simp
  next
    case (Inr ec)
    obtain evs' codes where ec: "ec = (evs', codes)" by (cases ec)
    have "plan_pending p = [] \<and> gap_for c evs' = []"
      using rest assms(2) by (auto simp: Inr ec and_then_Inr resolution_of_def split: if_splits)
    with rest q' that [of evs' s1] show ?thesis by (auto simp: Inr ec and_then_Inr)
  qed
qed

text \<open>An allow rests on evidence read from the store or just made, and on a take that succeeded.\<close>

lemma resolve_allow_general:
  assumes "resolve_body en c now uid s = (Inr r, s')" "rn_outcome r = OAllow"
  obtains evs s0 evs' s1 taken where
    "st_evidence (en_store en) (vc_tenant_id c) (vc_request_hash c) now s = (Inr evs, s0)"
    "\<not> rejected evs" "gap_for c evs' = []"
    "st_take (en_store en) (vc_tenant_id c) (vc_request_hash c) now s1 = (Inr taken, s')"
    "(\<forall>e \<in> set evs'. e \<in> set evs \<or> fresh_dry_run en c now e) \<or>
     (\<exists>s2 taken'. st_take (en_store en) (vc_tenant_id c) (vc_request_hash c) now s0 = (Inr taken', s2) \<and>
        (\<forall>e \<in> set evs'. e \<in> set taken' \<or> fresh_dry_run en c now e))"
proof -
  let ?t = "vc_tenant_id c" and ?h = "vc_request_hash c"
  obtain evs s0 where ev: "st_evidence (en_store en) ?t ?h now s = (Inr evs, s0)"
    and rest: "(if rejected evs then
            and_then (st_consume (en_store en) ?t ?h)
              (\<lambda>_. return_value (resolution_of ODeny [''USER_REJECTED''] []))
          else
            (case plan_for en c evs of
               Some p \<Rightarrow> follow_plan en c now uid evs p
             | None \<Rightarrow>
                 and_then (st_take (en_store en) ?t ?h now)
                   (\<lambda>evs'. case plan_for en c evs' of
                      None \<Rightarrow> return_value (resolution_of OAllow (''VERIFIED'' # evidence_codes evs') [])
                    | Some p \<Rightarrow> follow_plan en c now uid evs' p))) s0 = (Inr r, s')"
    using assms(1) by (auto simp: resolve_body_def and_then_Inr)
  have rej: "\<not> rejected evs"
    using rest assms(2) by (auto simp: and_then_Inr resolution_of_def split: if_splits)
  have none: "plan_for en c es = None \<Longrightarrow> gap_for c es = []" for es
    using plan_cheapest [of "gap_for c es" "available en c"] by (simp add: plan_for_def)
  show ?thesis
  proof (cases "plan_for en c evs")
    case (Some p)
    with rest rej have "follow_plan en c now uid evs p s0 = (Inr r, s')" by simp
    from follow_plan_allow [OF this assms(2)] show ?thesis
      using that [OF ev rej] by metis
  next
    case None
    with rest rej obtain taken s2 where tk: "st_take (en_store en) ?t ?h now s0 = (Inr taken, s2)"
      and rest2: "(case plan_for en c taken of
                      None \<Rightarrow> return_value (resolution_of OAllow (''VERIFIED'' # evidence_codes taken) [])
                    | Some p \<Rightarrow> follow_plan en c now uid taken p) s2 = (Inr r, s')"
      by (auto simp: and_then_Inr)
    show ?thesis
    proof (cases "plan_for en c taken")
      case None
      with rest2 have "s' = s2" by simp
      with that [OF ev rej none [OF None], of s0 taken] tk show ?thesis by blast
    next
      case (Some p)
      with rest2 have "follow_plan en c now uid taken p s2 = (Inr r, s')" by simp
      from follow_plan_allow [OF this assms(2)] show ?thesis
        using that [OF ev rej] tk by metis
    qed
  qed
qed

lemma resolve_verification_allow:
  assumes "resolve_verification en c now uid s = (Inr r, s')" "rn_outcome r = OAllow"
  shows "resolve_body en c now uid s = (Inr r, s')"
  using assms by (auto simp: resolve_verification_def or_else_def resolution_of_def
      split: prod.splits sum.splits)

section \<open>How the engine changes a store\<close>

text \<open>An effect that does not raise, keeps an invariant and relates its states by a preorder.\<close>

definition keeps :: "('s \<Rightarrow> 's \<Rightarrow> bool) \<Rightarrow> ('s \<Rightarrow> bool) \<Rightarrow> ('s, 'a) effect \<Rightarrow> bool" where
  "keeps R I m \<longleftrightarrow> (\<forall>s. I s \<longrightarrow> (\<exists>x. fst (m s) = Inr x) \<and> I (snd (m s)) \<and> R s (snd (m s)))"

lemma keepsD:
  assumes "keeps R I m" "I s"
  obtains x s' where "m s = (Inr x, s')" "I s'" "R s s'"
  using assms unfolding keeps_def by (metis prod.collapse)

lemma keeps_return [intro]: "reflp R \<Longrightarrow> keeps R I (return_value x)"
  by (simp add: keeps_def reflpD)

lemma keeps_pair: "reflp R \<Longrightarrow> keeps R I (Pair (Inr x))"
  by (simp add: keeps_def reflpD)

lemma keeps_and_then [intro]:
  assumes "transp R" "keeps R I m" "\<And>x. keeps R I (f x)"
  shows "keeps R I (and_then m f)"
  unfolding keeps_def
proof (intro allI impI)
  fix s assume "I s"
  with assms(2) obtain x s1 where m: "m s = (Inr x, s1)" "I s1" "R s s1" by (rule keepsD)
  from assms(3) m(2) obtain y s2 where f: "f x s1 = (Inr y, s2)" "I s2" "R s1 s2" by (rule keepsD)
  have "R s s2" using assms(1) m(3) f(3) by (rule transpD)
  with m f show "(\<exists>x. fst (and_then m f s) = Inr x) \<and> I (snd (and_then m f s)) \<and> R s (snd (and_then m f s))"
    by (simp add: and_then_def m(1))
qed

lemma keeps_or_else: "keeps R I m \<Longrightarrow> keeps R I (or_else m h)"
  unfolding keeps_def by (metis or_else_value prod.collapse)

text \<open>What one call may add: dry-run evidence and a new verification for this very request.\<close>

definition grows ::
  "('s \<Rightarrow> string \<Rightarrow> string \<Rightarrow> evidence list) \<Rightarrow> ('s \<Rightarrow> string \<Rightarrow> string \<Rightarrow> verification option) \<Rightarrow>
   (string \<Rightarrow> evidence set) \<Rightarrow> verification set \<Rightarrow> 's \<Rightarrow> 's \<Rightarrow> bool" where
  "grows stored recorded E V s s' \<longleftrightarrow>
     (\<forall>t h. set (stored s' t h) \<subseteq> set (stored s t h) \<union> E t) \<and>
     (\<forall>t i v. recorded s' t i = Some v \<longrightarrow> recorded s t i = Some v \<or> v \<in> V)"

lemma grows_refl: "reflp (grows stored recorded E V)"
  by (auto simp: grows_def reflp_def)

lemma grows_trans: "transp (grows stored recorded E V)"
  unfolding transp_def grows_def by blast

lemma keeps_mono:
  "keeps R I m \<Longrightarrow> (\<And>s s'. R s s' \<Longrightarrow> Q s s') \<Longrightarrow> keeps Q I m"
  by (auto simp: keeps_def)

definition made_by :: "'s verification_engine \<Rightarrow> verify_context \<Rightarrow> real \<Rightarrow> string \<Rightarrow> evidence set" where
  "made_by en c now t = {e. t = vc_tenant_id c \<and> fresh_dry_run en c now e}"

context verification_memory begin

abbreviation growth where "growth \<equiv> grows stored recorded"

lemma keeps_st_evidence: "keeps (growth E V) inv (st_evidence ops t h now)"
  using reflpD [OF grows_refl] by (auto simp: keeps_def evidence_eq)

lemma keeps_st_get: "keeps (growth E V) inv (st_get ops t h now)"
  using reflpD [OF grows_refl] by (auto simp: keeps_def get_eq)

lemma keeps_st_pending: "keeps (growth E V) inv (st_pending ops t h now)"
  unfolding keeps_def using pending_from reflpD [OF grows_refl] by (metis fst_conv snd_conv)

lemma keeps_st_consume: "keeps (growth E V) inv (st_consume ops t h)"
  by (auto simp: keeps_def grows_def consume_ok inv_consume stored_consume recorded_consume)

lemma keeps_st_take: "keeps (growth E V) inv (st_take ops t h now)"
  by (auto simp: keeps_def grows_def take_eq inv_take stored_take recorded_take)

lemma keeps_st_add:
  assumes "e \<in> E t"
  shows "keeps (growth E V) inv (st_add ops t e)"
  unfolding keeps_def
proof (intro allI impI conjI)
  fix s assume s: "inv s"
  show "\<exists>x. fst (st_add ops t e s) = Inr x" by (simp add: add_ok)
  show "inv (snd (st_add ops t e s))" using s by (rule inv_add)
  have "set (stored (snd (st_add ops t e s)) u h) \<subseteq> set (stored s u h) \<union> E u" for u h
    using stored_add [OF s, of t e u h] assms by (auto split: if_splits)
  then show "growth E V s (snd (st_add ops t e s))"
    by (simp add: grows_def recorded_add)
qed

lemma keeps_st_put:
  assumes "v \<in> V"
  shows "keeps (growth E V) inv (st_put ops v)"
  unfolding keeps_def
proof (intro allI impI conjI)
  fix s assume s: "inv s"
  show "\<exists>x. fst (st_put ops v s) = Inr x" by (simp add: put_ok)
  show "inv (snd (st_put ops v s))" using s by (rule inv_put)
  have "recorded s t i = Some w \<or> w \<in> V" if "recorded (snd (st_put ops v s)) t i = Some w" for t i w
    using recorded_put [OF s, of v t i] that assms by (auto split: if_splits)
  then show "growth E V s (snd (st_put ops v s))"
    by (simp add: grows_def stored_put)
qed

lemmas keeps_ops = keeps_st_evidence keeps_st_get keeps_st_pending keeps_st_consume keeps_st_take
  keeps_st_add keeps_st_put keeps_and_then [OF grows_trans] keeps_return [OF grows_refl] keeps_pair [OF grows_refl]

lemma keeps_run_inline:
  assumes "en_store en = ops"
  shows "keeps (growth (made_by en c now) V) inv (run_inline en c now p steps evs codes)"
proof (induction steps arbitrary: evs codes)
  case Nil
  then show ?case by (simp add: keeps_ops)
next
  case (Cons step steps)
  have made: "dry_run_evidence c now rows \<in> made_by en c now (vc_tenant_id c)"
    if "en_dry_run en = Some dr" "vc_sql c = Some sql" "rows \<le> en_max_rows en"
      "dry_run dr sql (vc_tool_name c) (vc_resource c) = DryRunOk (Some rows)" for dr sql rows
    using that by (simp add: made_by_def fresh_dry_run_def)
  show ?case
    using Cons.IH made
    by (auto simp: assms split: option.split dry_run_result.split intro!: keeps_ops)
qed

lemma keeps_open_verification:
  assumes "en_store en = ops" "new_verification c now uid \<in> V"
  shows "keeps (growth E V) inv (open_verification en c now uid)"
  using assms(2) by (auto simp: open_verification_def assms(1) split: option.split intro!: keeps_ops)

lemma keeps_follow_plan:
  assumes "en_store en = ops"
  shows "keeps (growth (made_by en c now) {new_verification c now uid}) inv (follow_plan en c now uid evs p)"
  by (auto simp: follow_plan_def assms split: sum.split prod.split
      intro!: keeps_ops keeps_run_inline keeps_open_verification)

lemma keeps_resolve:
  assumes "en_store en = ops"
  shows "keeps (growth (made_by en c now) {new_verification c now uid}) inv (resolve_verification en c now uid)"
  unfolding resolve_verification_def resolve_body_def
  by (intro keeps_or_else) (auto simp: assms split: option.split intro!: keeps_ops keeps_follow_plan)

lemma keeps_follow_up:
  assumes "en_store en = ops"
  shows "keeps (growth (\<lambda>_. {}) {}) inv (follow_up en c now)"
  unfolding follow_up_def
  by (intro keeps_or_else) (auto simp: assms split: option.split intro!: keeps_ops)

text \<open>An allow rests on unexpired stored evidence of this request or a dry run just made, closes the
  gap, does not overrule a rejection, and leaves nothing to use again.\<close>

lemma resolve_allow:
  assumes "en_store en = ops" "inv s" "resolve_verification en c now uid s = (Inr r, s')" "rn_outcome r = OAllow"
  obtains evs where "gap_for c evs = []"
    "\<forall>e \<in> set evs. e \<in> set (unexpired now (stored s (vc_tenant_id c) (vc_request_hash c))) \<or> fresh_dry_run en c now e"
    "\<not> rejected (unexpired now (stored s (vc_tenant_id c) (vc_request_hash c)))"
    "stored s' (vc_tenant_id c) (vc_request_hash c) = []"
proof -
  let ?t = "vc_tenant_id c" and ?h = "vc_request_hash c"
  from resolve_allow_general [OF resolve_verification_allow [OF assms(3,4)] assms(4)]
  obtain evs s0 evs' s1 taken where
    ev: "st_evidence (en_store en) ?t ?h now s = (Inr evs, s0)" and rej: "\<not> rejected evs"
    and g: "gap_for c evs' = []" and tk: "st_take (en_store en) ?t ?h now s1 = (Inr taken, s')"
    and from': "(\<forall>e \<in> set evs'. e \<in> set evs \<or> fresh_dry_run en c now e) \<or>
       (\<exists>s2 taken'. st_take (en_store en) ?t ?h now s0 = (Inr taken', s2) \<and>
          (\<forall>e \<in> set evs'. e \<in> set taken' \<or> fresh_dry_run en c now e))" .
  have evs: "evs = unexpired now (stored s ?t ?h)" "s0 = s"
    using ev by (auto simp: assms(1) evidence_eq)
  have "taken' = evs" if "st_take (en_store en) ?t ?h now s0 = (Inr taken', s2)" for taken' s2
    using take_eq [of ?t ?h now s] that by (simp add: assms(1) evs)
  with from' have from'': "\<forall>e \<in> set evs'. e \<in> set evs \<or> fresh_dry_run en c now e" by blast
  moreover have "stored s' ?t ?h = []"
    using stored_take [of ?t ?h now s1 ?t ?h] tk by (simp add: assms(1))
  ultimately show ?thesis using that [OF g] rej by (simp add: evs)
qed

end

section \<open>Confirmations\<close>

text \<open>What an accepted answer needs: a pending, unexpired record, an agent that does not answer for
  itself, and a token that is valid for the record's user and identifier.\<close>

definition answer_accepted ::
  "'s verification_engine \<Rightarrow> string \<Rightarrow> string option \<Rightarrow> real \<Rightarrow> verification \<Rightarrow> string \<times> json \<Rightarrow> bool" where
  "answer_accepted en token caller now v claims \<longleftrightarrow>
     ve_status v = Pending \<and> now < ve_expires_at v \<and>
     (case en_user_tokens en of
        None \<Rightarrow> False
      | Some ut \<Rightarrow> (ut_require_nonce ut \<or> caller \<noteq> Some (ve_agent_id v)) \<and>
          ut_verify ut token (or_empty (ve_user_id v)) (ve_id v) = Inr claims)"

lemma as_of_pending_iff: "ve_status (as_of now v) = Pending \<longleftrightarrow> ve_status v = Pending \<and> now < ve_expires_at v"
  by (auto simp: as_of_def)

context verification_memory begin

lemma confirm_result:
  assumes en: "en_store en = ops" and "inv s"
  obtains e where "confirm en tenant vid token approve caller now s = (Inr (Inl e), s)"
  | v claims s' where "confirm en tenant vid token approve caller now s = (Inr (Inr (answered v approve)), s')"
      "recorded s tenant vid = Some v" "answer_accepted en token caller now v claims" "inv s'"
      "growth (\<lambda>t. if t = tenant then {confirmation_evidence v approve claims now} else {}) {answered v approve} s s'"
proof (cases "map_option (as_of now) (recorded s tenant vid)")
  case None
  then have "confirm en tenant vid token approve caller now s = (Inr (Inl (VerificationNotFound vid)), s)"
    by (simp add: confirm_def and_then_def en get_eq)
  then show ?thesis by (rule that(1))
next
  case (Some w)
  then obtain v where v: "recorded s tenant vid = Some v" "w = as_of now v" by auto
  show ?thesis
  proof (cases "ve_status w = Pending")
    case False
    then have "confirm en tenant vid token approve caller now s = (Inr (Inl (VerificationClosed (ve_status w))), s)"
      by (simp add: confirm_def and_then_def en get_eq v)
    then show ?thesis by (rule that(1))
  next
    case True
    then have w: "w = v" using v as_of_pending [of now v] by simp
    have p: "ve_status v = Pending" "now < ve_expires_at v"
      using True v as_of_pending_iff by auto
    have base: "confirm en tenant vid token approve caller now s =
        (case en_user_tokens en of
                    None \<Rightarrow> return_value (Inl (TokenRejected ''user confirmation is not configured on this gateway''))
                  | Some ut \<Rightarrow>
                      if \<not> ut_require_nonce ut \<and> caller = Some (ve_agent_id v)
                      then return_value (Inl (TokenRejected own_key_message))
                      else (case ut_verify ut token (or_empty (ve_user_id v)) (ve_id v) of
                              Inl e \<Rightarrow> return_value (Inl (TokenRejected e))
                            | Inr claims \<Rightarrow>
                                 and_then (st_add ops tenant (confirmation_evidence v approve claims now))
                                   (\<lambda>_. and_then (st_put ops (answered v approve))
                                          (\<lambda>_. return_value (Inr (answered v approve)))))) s"
      using v w p True unfolding confirm_def en and_then_def [of "st_get ops tenant vid now"]
      by (simp add: get_eq)
    show ?thesis
    proof (cases "\<exists>claims. answer_accepted en token caller now v claims")
      case True
      then obtain claims where acc: "answer_accepted en token caller now v claims" ..
      let ?m = "and_then (st_add ops tenant (confirmation_evidence v approve claims now))
                  (\<lambda>_. and_then (st_put ops (answered v approve))
                         (\<lambda>_. return_value (Inr (answered v approve) :: confirm_error + verification)))"
      let ?E = "\<lambda>t. if t = tenant then {confirmation_evidence v approve claims now} else {}"
      have m: "confirm en tenant vid token approve caller now s = ?m s"
        using acc unfolding base answer_accepted_def by (auto split: option.splits)
      have "keeps (growth ?E {answered v approve}) inv ?m"
        by (intro keeps_ops) simp_all
      then obtain x s' where x: "?m s = (Inr x, s')" "inv s'" "growth ?E {answered v approve} s s'"
        using assms(2) by (rule keepsD)
      have "x = Inr (answered v approve)"
        using x(1) by (auto simp: and_then_Inr)
      with x m that(2) [OF _ v(1) acc, of s'] show ?thesis by simp
    next
      case False
      then have "\<exists>e. confirm en tenant vid token approve caller now s = (Inr (Inl e), s)"
        using p unfolding base answer_accepted_def by (auto split: option.splits sum.splits)
      then show ?thesis using that(1) by blast
    qed
  qed
qed

end

section \<open>Histories\<close>

text \<open>A history of calls on one gateway, each with the clock's reading, and what they answered.\<close>

datatype verify_event =
    Resolve verify_context real string
  | FollowUp verify_context real
  | Confirm string string string bool "string option" real

datatype verify_reply =
    Resolved resolution
  | FollowedUp "resolution option"
  | Answered "confirm_error + verification"
  | Failed string

definition reply_of :: "('a \<Rightarrow> verify_reply) \<Rightarrow> (string + 'a) \<times> 's \<Rightarrow> verify_reply \<times> 's" where
  "reply_of f r = ((case fst r of Inl e \<Rightarrow> Failed e | Inr x \<Rightarrow> f x), snd r)"

fun verify_step :: "'s verification_engine \<Rightarrow> verify_event \<Rightarrow> 's \<Rightarrow> verify_reply \<times> 's" where
  "verify_step en (Resolve c now uid) s = reply_of Resolved (resolve_verification en c now uid s)"
| "verify_step en (FollowUp c now) s = reply_of FollowedUp (follow_up en c now s)"
| "verify_step en (Confirm tenant vid token approve caller now) s =
     reply_of Answered (confirm en tenant vid token approve caller now s)"

fun verify_run ::
  "'s verification_engine \<Rightarrow> verify_event list \<Rightarrow> (verify_event \<times> verify_reply) list \<times> 's \<Rightarrow>
   (verify_event \<times> verify_reply) list \<times> 's" where
  "verify_run en [] ls = ls"
| "verify_run en (ev # evs) (hist, s) =
     (let (r, s') = verify_step en ev s in verify_run en evs (hist @ [(ev, r)], s'))"

text \<open>The history holds an approval, by the request's own user, of exactly this request.\<close>

definition approved ::
  "'s verification_engine \<Rightarrow> (verify_event \<times> verify_reply) list \<Rightarrow> string \<Rightarrow> string \<Rightarrow> real \<Rightarrow> bool" where
  "approved en hist tenant rh tm \<longleftrightarrow>
     (\<exists>vid token caller v claims.
        (Confirm tenant vid token True caller tm, Answered (Inr (answered v True))) \<in> set hist \<and>
        ve_tenant_id v = tenant \<and> ve_id v = vid \<and> ve_request_hash v = rh \<and>
        answer_accepted en token caller tm v claims)"

definition authorizing :: "evidence \<Rightarrow> bool" where
  "authorizing e \<longleftrightarrow> ev_passed e \<and> (\<exists>l. 0 < l \<and> (Authorization, l) \<in> set (ev_strength e))"

definition provenance ::
  "('s \<Rightarrow> string \<Rightarrow> string \<Rightarrow> evidence list) \<Rightarrow> 's verification_engine \<Rightarrow>
   (verify_event \<times> verify_reply) list \<Rightarrow> 's \<Rightarrow> bool" where
  "provenance stored en hist s \<longleftrightarrow>
     (\<forall>t h e. e \<in> set (stored s t h) \<longrightarrow> authorizing e \<longrightarrow>
        (\<exists>tm. approved en hist t h tm \<and> ev_expires_at e = tm + EVIDENCE_TTL))"

lemma approved_mono: "approved en hist t h tm \<Longrightarrow> approved en (hist @ rest') t h tm"
  unfolding approved_def by (metis Un_iff set_append)

lemma fresh_not_authorizing: "fresh_dry_run en c now e \<Longrightarrow> \<not> authorizing e"
  by (auto simp: authorizing_def dest: fresh_dry_run_strength)

lemma provenance_grow:
  assumes "provenance stored en hist s"
    "\<And>t h e. e \<in> set (stored s' t h) \<Longrightarrow> e \<in> set (stored s t h) \<or> \<not> authorizing e"
  shows "provenance stored en (hist @ rest') s'"
  using assms approved_mono unfolding provenance_def by metis

context verification_memory begin

lemma verify_step_provenance:
  assumes en: "en_store en = ops" and s: "inv s" and p: "provenance stored en hist s"
    and st: "verify_step en ev s = (r, s')"
  shows "inv s' \<and> provenance stored en (hist @ [(ev, r)]) s'"
proof (cases ev)
  case (Resolve c now uid)
  from keeps_resolve [OF en] s obtain x s1 where
    x: "resolve_verification en c now uid s = (Inr x, s1)" "inv s1"
       "growth (made_by en c now) {new_verification c now uid} s s1" by (rule keepsD)
  have "e \<in> set (stored s t h) \<or> \<not> authorizing e" if "e \<in> set (stored s1 t h)" for t h e
    using x(3) that fresh_not_authorizing by (fastforce simp: grows_def made_by_def)
  from provenance_grow [OF p this] x st Resolve show ?thesis by (auto simp: reply_of_def)
next
  case (FollowUp c now)
  from keeps_follow_up [OF en] s obtain x s1 where
    x: "follow_up en c now s = (Inr x, s1)" "inv s1" "growth (\<lambda>_. {}) {} s s1" by (rule keepsD)
  have "e \<in> set (stored s t h) \<or> \<not> authorizing e" if "e \<in> set (stored s1 t h)" for t h e
    using x(3) that by (fastforce simp: grows_def)
  from provenance_grow [OF p this] x st FollowUp show ?thesis by (auto simp: reply_of_def)
next
  case (Confirm tenant vid token approve caller now)
  show ?thesis
  proof (rule confirm_result [OF en s, of tenant vid token approve caller now])
    fix e assume "confirm en tenant vid token approve caller now s = (Inr (Inl e), s)"
    with st Confirm s provenance_grow [OF p, of s] show ?thesis by (auto simp: reply_of_def)
  next
    fix v claims s1
    assume x: "confirm en tenant vid token approve caller now s = (Inr (Inr (answered v approve)), s1)"
      and rec: "recorded s tenant vid = Some v" and acc: "answer_accepted en token caller now v claims"
      and s1: "inv s1"
      and gr: "growth (\<lambda>t. if t = tenant then {confirmation_evidence v approve claims now} else {})
                 {answered v approve} s s1"
    let ?hist = "hist @ [(ev, r)]"
    have r: "r = Answered (Inr (answered v approve))" "s' = s1" using st Confirm x by (auto simp: reply_of_def)
    have own: "ve_tenant_id v = tenant" "ve_id v = vid" using recorded_own [OF s rec] by auto
    have "\<exists>tm. approved en ?hist t h tm \<and> ev_expires_at e = tm + EVIDENCE_TTL"
      if e: "e \<in> set (stored s1 t h)" "authorizing e" for t h e
    proof (cases "e \<in> set (stored s t h)")
      case True
      then show ?thesis using p e(2) approved_mono unfolding provenance_def by metis
    next
      case False
      then have te: "t = tenant" "e = confirmation_evidence v approve claims now"
        using gr e(1) by (auto simp: grows_def split: if_splits)
      then have "approve" using e(2) by (auto simp: authorizing_def confirmation_evidence_def)
      moreover have "ve_request_hash v = h"
        using stored_own [OF s1 e(1)] te by (simp add: confirmation_evidence_def)
      ultimately have "approved en ?hist t h now"
        using acc own te unfolding approved_def r Confirm
        by (intro exI [of _ vid] exI [of _ token] exI [of _ caller] exI [of _ v] exI [of _ claims]) simp
      then show ?thesis using te by (auto simp: confirmation_evidence_def)
    qed
    then have "provenance stored en ?hist s1" by (auto simp: provenance_def)
    with s1 r show ?thesis by simp
  qed
qed

lemma verify_run_provenance:
  assumes "en_store en = ops"
  shows "inv s \<Longrightarrow> provenance stored en hist s \<Longrightarrow> verify_run en evs (hist, s) = (hist', s') \<Longrightarrow>
    inv s' \<and> provenance stored en hist' s'"
proof (induction evs arbitrary: hist s)
  case Nil
  then show ?case by simp
next
  case (Cons ev evs)
  obtain r s1 where st: "verify_step en ev s = (r, s1)" by fastforce
  from verify_step_provenance [OF assms Cons.prems(1,2) st]
  show ?case using Cons.IH [of s1 "hist @ [(ev, r)]"] Cons.prems(3) by (simp add: st)
qed

lemma allow_was_approved:
  assumes "en_store en = ops" "inv s" "provenance stored en hist s"
    "resolve_verification en c now uid s = (Inr r, s')" "rn_outcome r = OAllow"
    "0 < level_of (required (vc_descriptor c) (vc_codes c) (vc_environment c)) Authorization"
  shows "\<exists>tm. approved en hist (vc_tenant_id c) (vc_request_hash c) tm \<and> now < tm + EVIDENCE_TTL"
proof -
  let ?need = "required (vc_descriptor c) (vc_codes c) (vc_environment c)"
  from resolve_allow [OF assms(1,2,4,5)] obtain evs where g: "gap_for c evs = []"
    and src: "\<forall>e \<in> set evs. e \<in> set (unexpired now (stored s (vc_tenant_id c) (vc_request_hash c))) \<or> fresh_dry_run en c now e"
    by blast
  let ?cur = "current_levels (vc_assurance c) (vc_descriptor c) (vc_codes c) evs"
  from assms(6) obtain l where l: "map_of ?need Authorization = Some l" "0 < l"
    by (auto simp: level_of_def split: option.splits)
  have "l \<le> level_of ?cur Authorization"
    using g map_of_SomeD [OF l(1)] by (auto simp: gap_for_def gap_Nil list_all_iff)
  with l(2) have "level_of (base_levels (vc_assurance c) (vc_descriptor c) (vc_codes c)) Authorization
      < level_of ?cur Authorization" "0 < level_of ?cur Authorization" by simp_all
  from current_level_evidence [OF this(1)] this(2) obtain e where
    e: "e \<in> set evs" "authorizing e" by (metis authorizing_def)
  with src fresh_not_authorizing have "e \<in> set (unexpired now (stored s (vc_tenant_id c) (vc_request_hash c)))"
    by blast
  then have "e \<in> set (stored s (vc_tenant_id c) (vc_request_hash c))" "now < ev_expires_at e"
    by (auto simp: unexpired_def)
  with assms(3) e(2) show ?thesis unfolding provenance_def by fastforce
qed

end

section \<open>The memory store\<close>

lemma mem_inv_empty [simp]: "mem_inv (empty_verifications n)"
  by (simp add: mem_inv_def empty_verifications_def)

lemma provenance_empty [simp]: "provenance mem_stored en [] (empty_verifications n)"
  by (simp add: provenance_def mem_stored_def empty_verifications_def)

text \<open>C15. What needs a person was approved by that person: if, after any history of calls on an empty
  store, a \<open>verify\<close> outcome resolves to an allow for an action that needs authorization, the
  history holds a confirmation of exactly this request, in time, with a token that the token
  verifier accepted for the request's own user, for a record that was pending and unexpired.\<close>

theorem authorization_was_confirmed:
  assumes "en_store en = memory_verification_store"
    "verify_run en events ([], empty_verifications n) = (hist, s)"
    "resolve_verification en c now uid s = (Inr r, s')" "rn_outcome r = OAllow"
    "0 < level_of (required (vc_descriptor c) (vc_codes c) (vc_environment c)) Authorization"
  shows "\<exists>tm. approved en hist (vc_tenant_id c) (vc_request_hash c) tm \<and> now < tm + EVIDENCE_TTL"
proof -
  have "mem_inv s \<and> provenance mem_stored en hist s"
    by (rule mem.verify_run_provenance [OF assms(1) _ _ assms(2)]) simp_all
  with mem.allow_was_approved [OF assms(1) _ _ assms(3-5)] show ?thesis by blast
qed

text \<open>C16. An allow is earned and paid for: it rests on unexpired evidence stored for this request or a
  dry run that has just passed, these close every dimension the action needs, no rejection is
  on record, and no evidence for the request is left for a second use.\<close>

theorem allow_closes_gap_once:
  assumes "en_store en = memory_verification_store" "mem_inv s"
    "resolve_verification en c now uid s = (Inr r, s')" "rn_outcome r = OAllow"
  shows "\<exists>evs. list_all (\<lambda>(x, l). l \<le> level_of (current_levels (vc_assurance c) (vc_descriptor c) (vc_codes c) evs) x)
             (required (vc_descriptor c) (vc_codes c) (vc_environment c))
      \<and> set evs \<subseteq> set (unexpired now (mem_stored s (vc_tenant_id c) (vc_request_hash c)))
                   \<union> Collect (fresh_dry_run en c now)
      \<and> \<not> rejected (unexpired now (mem_stored s (vc_tenant_id c) (vc_request_hash c)))
      \<and> mem_stored s' (vc_tenant_id c) (vc_request_hash c) = []"
proof -
  from mem.resolve_allow [OF assms] obtain evs where "gap_for c evs = []"
    "\<forall>e \<in> set evs. e \<in> set (unexpired now (mem_stored s (vc_tenant_id c) (vc_request_hash c))) \<or> fresh_dry_run en c now e"
    "\<not> rejected (unexpired now (mem_stored s (vc_tenant_id c) (vc_request_hash c)))"
    "mem_stored s' (vc_tenant_id c) (vc_request_hash c) = []" .
  then show ?thesis
    by (intro exI [of _ evs]) (auto simp: gap_for_def gap_Nil)
qed

text \<open>A person's no is final for the request it answers: while the rejection has not expired,
  resolving the request and following it up both deny, and both spend the rejection.\<close>

theorem rejection_denies:
  assumes "en_store en = memory_verification_store"
    "rejected (unexpired now (mem_stored s (vc_tenant_id c) (vc_request_hash c)))"
  shows "fst (resolve_verification en c now uid s) = Inr (resolution_of ODeny [''USER_REJECTED''] [])
    \<and> fst (follow_up en c now s) = Inr (Some (resolution_of ODeny [''USER_REJECTED''] []))
    \<and> mem_stored (snd (resolve_verification en c now uid s)) (vc_tenant_id c) (vc_request_hash c) = []
    \<and> mem_stored (snd (follow_up en c now s)) (vc_tenant_id c) (vc_request_hash c) = []"
  using assms
  by (simp add: resolve_verification_def resolve_body_def follow_up_def or_else_def and_then_def
      mem_evidence_def mem_results mem_consume_def mem_stored_delete)

text \<open>C17. No allow on evidence that could not be consumed, whatever the store: when the store's
  atomic read-and-delete fails, resolving never allows (it holds, asks or denies).\<close>

theorem no_allow_without_consuming:
  assumes "\<And>s'. isl (fst (st_take (en_store en) (vc_tenant_id c) (vc_request_hash c) now s'))"
    "resolve_verification en c now uid s = (Inr r, s1)"
  shows "rn_outcome r \<noteq> OAllow"
proof
  assume a: "rn_outcome r = OAllow"
  from resolve_allow_general [OF resolve_verification_allow [OF assms(2) a] a]
  obtain s2 taken where
    "st_take (en_store en) (vc_tenant_id c) (vc_request_hash c) now s2 = (Inr taken, s1)" by metis
  with assms(1) [of s2] show False by simp
qed

section \<open>Witnesses\<close>

definition ex_tokens :: user_tokens where
  "ex_tokens = \<lparr>ut_enabled = True, ut_require_nonce = False,
     ut_verify = (\<lambda>token user nonce. if token = ''ok'' then Inr (user, JNull) else Inl ''invalid token'')\<rparr>"

definition ex_verifier :: "memory_verifications verification_engine" where
  "ex_verifier = \<lparr>en_store = memory_verification_store, en_dry_run = None,
     en_user_tokens = Some ex_tokens, en_max_rows = 10000\<rparr>"

definition ex_vctx :: verify_context where
  "ex_vctx = \<lparr>vc_tenant_id = ''acme'', vc_agent_id = ''bot'', vc_user_id = Some ''ann'',
     vc_request_hash = ''h1'', vc_descriptor = plain_descriptor DUnknown VUnknown None,
     vc_codes = [], vc_environment = Dev, vc_assurance = ''A1'',
     vc_channels = [''user_confirmation''], vc_tool_name = None, vc_resource = None, vc_sql = None\<rparr>"

definition ex_events :: "bool \<Rightarrow> verify_event list" where
  "ex_events approve = [Resolve ex_vctx 0 ''v1'', Confirm ''acme'' ''v1'' ''ok'' approve (Some ''host'') 10]"

text \<open>After one round of asking and answering.\<close>

definition ex_asked :: "bool \<Rightarrow> memory_verifications" where
  "ex_asked approve = snd (verify_run ex_verifier (ex_events approve) ([], empty_verifications 10))"

lemma ex_verifier_store [simp]: "en_store ex_verifier = memory_verification_store"
  by (simp add: ex_verifier_def)

lemma ex_allowed:
  "resolve_verification ex_verifier ex_vctx 20 ''v2'' (ex_asked True) =
     (Inr (resolution_of OAllow [''VERIFIED'', ''EVIDENCE_USER_CONFIRMATION''] []),
      (ex_asked True)\<lparr>mv_ev := []\<rparr>)"
  by code_simp

lemma ex_rejected:
  "rejected (unexpired 20 (mem_stored (ex_asked False) ''acme'' ''h1''))"
  by code_simp

lemma ex_required:
  "0 < level_of (required (vc_descriptor ex_vctx) (vc_codes ex_vctx) (vc_environment ex_vctx)) Authorization"
  by code_simp

lemma ex_asked_inv: "mem_inv (ex_asked True)"
  by code_simp

lemma ex_vctx_simps [simp]: "vc_tenant_id ex_vctx = ''acme''" "vc_request_hash ex_vctx = ''h1''"
  by (simp_all add: ex_vctx_def)

theorem authorization_was_confirmed_witness:
  "\<exists>tm. approved ex_verifier (fst (verify_run ex_verifier (ex_events True) ([], empty_verifications 10)))
      ''acme'' ''h1'' tm \<and> 20 < tm + EVIDENCE_TTL"
proof -
  have run: "verify_run ex_verifier (ex_events True) ([], empty_verifications 10) =
      (fst (verify_run ex_verifier (ex_events True) ([], empty_verifications 10)), ex_asked True)"
    by (simp add: ex_asked_def)
  show ?thesis
    using authorization_was_confirmed [OF ex_verifier_store run ex_allowed _ ex_required]
    by (simp add: resolution_of_def)
qed

theorem allow_closes_gap_once_witness:
  "mem_stored (ex_asked True) ''acme'' ''h1'' \<noteq> [] \<and>
   mem_stored ((ex_asked True)\<lparr>mv_ev := []\<rparr>) ''acme'' ''h1'' = []"
proof -
  have "mem_stored (ex_asked True) ''acme'' ''h1'' \<noteq> []" by code_simp
  with allow_closes_gap_once [OF ex_verifier_store ex_asked_inv ex_allowed]
  show ?thesis by (auto simp: resolution_of_def)
qed

theorem rejection_denies_witness:
  "fst (resolve_verification ex_verifier ex_vctx 20 ''v2'' (ex_asked False)) =
     Inr (resolution_of ODeny [''USER_REJECTED''] [])"
  using rejection_denies [of ex_verifier 20 "ex_asked False" ex_vctx "''v2''"] ex_rejected by simp

definition ex_failing_verifier :: "memory_verifications verification_engine" where
  "ex_failing_verifier = ex_verifier\<lparr>en_store :=
     memory_verification_store\<lparr>st_take := (\<lambda>_ _ _. raise_error ''ConnectionError'')\<rparr>\<rparr>"

lemma ex_failing:
  "resolve_verification ex_failing_verifier ex_vctx 20 ''v2'' (ex_asked True) =
     (Inr (resolution_of OHold [''VERIFY_ERROR''] []), ex_asked True)"
  by code_simp

theorem no_allow_without_consuming_witness:
  "rn_outcome (resolution_of OHold [''VERIFY_ERROR''] []) \<noteq> OAllow
   \<and> fst (resolve_verification ex_failing_verifier ex_vctx 20 ''v2'' (ex_asked True)) =
       Inr (resolution_of OHold [''VERIFY_ERROR''] [])"
proof -
  have "isl (fst (st_take (en_store ex_failing_verifier) (vc_tenant_id ex_vctx) (vc_request_hash ex_vctx) 20 s))"
    for s by (simp add: ex_failing_verifier_def)
  from no_allow_without_consuming [OF this ex_failing] ex_failing show ?thesis by simp
qed

end
