(* ===== verification/Flow_Props.thy ===== *)
theory Flow_Props
  imports Flow Pipeline_Props Risk_Props Verify_Props
begin

text \<open>
  What a whole evaluation promises: nothing is released unless identity, policy, guardrails and,
  when enforcing, the decision table let it through; shadow mode changes no answer; every answer
  is audited once.
\<close>

section \<open>The table step\<close>

lemma apply_table_release:
  assumes "apply_table t out st pp = (out', st')" "so_decision out' \<in> {Allow, Modify}"
  shows "out' = out \<and> so_decision out \<in> {Allow, Modify} \<and> tr_legacy t \<in> {Allow, Modify}"
  using assms
  by (cases "tr_legacy t"; cases "so_decision out")
     (auto simp: apply_table_def Let_def split: if_splits)

lemma verify_outcome_cases:
  assumes "verify_outcome cx now uid t c vs = (Inr (t', v), vs')" "\<not> allowing (tr_outcome t)" "tr_outcome t \<noteq> OVerify"
  shows "t' = t"
  using assms by (auto simp: verify_outcome_def Let_def split: option.splits if_splits)

lemma quarantined_any_target:
  "quarantined (memory_view st now tn ag sid target vkey) now' = quarantined (memory_view st now tn ag sid None None) now'"
  by (auto simp: quarantined_def memory_view_def agent_part_def Let_def split: option.splits)

lemma hold_step_release:
  assumes "hold_step svc ctx stg t v out st = (out', esc, st')" "so_decision out' \<in> {Allow, Modify}"
  shows "out' = out \<and> esc = None \<and> st' = st"
  using assms
  by (auto simp: hold_step_def hold_for_review_def blocked_def Let_def
      split: if_splits prod.splits option.splits sum.splits)

text \<open>What the table step can turn into a release.\<close>

lemma table_step_release:
  assumes "table_step svc now uid p stg body pl env el vs = (Inr (t, v, out, st), vs')"
    "so_decision out \<in> {Allow, Modify}"
  shows "out = el_outcome el \<and>
    (case (el_violation el, svc_contextual svc, el_prepared el) of
       (None, Some cx, Some pp) \<Rightarrow>
         (case decide_contextual cx now pp (po_allow (el_policy el)) (so_decision (el_outcome el))
                  (gq_accepts_obligations body = Some True) of
            None \<Rightarrow> True
          | Some t0 \<Rightarrow> enforcing cx \<longrightarrow> tr_outcome t0 \<noteq> OQuarantine \<and> tr_outcome t0 \<noteq> ODeny \<and>
              (\<exists>t'. t = Some t' \<and> tr_legacy t' \<in> {Allow, Modify}))
     | _ \<Rightarrow> True)"
proof (cases "el_violation el = None \<and> svc_contextual svc \<noteq> None \<and> el_prepared el \<noteq> None")
  case False
  with assms show ?thesis by (auto simp: table_step_def split: option.splits)
next
  case True
  then obtain cx pp where cx: "el_violation el = None" "svc_contextual svc = Some cx" "el_prepared el = Some pp"
    by auto
  let ?d = "decide_contextual cx now pp (po_allow (el_policy el)) (so_decision (el_outcome el))
                  (gq_accepts_obligations body = Some True)"
  show ?thesis
  proof (cases ?d)
    case None
    with cx assms show ?thesis by (simp add: table_step_def)
  next
    case (Some t0)
    let ?c = "verify_context_of (svc_sha256 svc) (svc_request_digest svc) pp t0 p body stg pl (svc_payload_digest svc pl) env"
    from assms(1) cx Some obtain t' v' vs1 where
      ver: "verify_outcome cx now uid t0 ?c vs = (Inr (t', v'), vs1)"
      and rest: "(if enforcing cx then
                      (let (out, status) = apply_table t' (el_outcome el) (el_status el) pp
                       in return_value (Some t', v', out, if v' \<noteq> None then 202 else status))
                    else return_value (Some t', v', el_outcome el, el_status el)) vs1 = (Inr (t, v, out, st), vs')"
      by (auto simp: table_step_def and_then_Inr)
    show ?thesis
    proof (cases "enforcing cx")
      case False
      with rest cx Some show ?thesis by simp
    next
      case True
      obtain o' s' where ap: "apply_table t' (el_outcome el) (el_status el) pp = (o', s')" by fastforce
      with rest True have eq: "t = Some t'" "out = o'" by simp_all
      from apply_table_release [OF ap] assms(2) eq have rel: "o' = el_outcome el" "tr_legacy t' \<in> {Allow, Modify}"
        by auto
      have "tr_outcome t0 \<noteq> OQuarantine \<and> tr_outcome t0 \<noteq> ODeny"
        using verify_outcome_cases [OF ver] rel(2) by (auto simp: allowing_def tr_legacy_def to_legacy_def)
      with rel eq cx Some show ?thesis by simp
    qed
  qed
qed

section \<open>Nothing slips through\<close>

lemma prepare_view:
  "pp_view (prepare cx now s p body stg pl d env ir bt fs fl) =
     (if cx_mode cx = RiskOff \<or> \<not> cx_has_store cx then None
      else Some (memory_view s now (pr_tenant_id p) (gq_agent_id body) (gq_session_id body) (ad_target d) (volume_key d)))"
  by (simp add: prepare_def Let_def)

lemma prepare_assessment:
  "(pp_assessment (prepare cx now s p body stg pl d env ir bt fs fl) = None) =
   (pp_view (prepare cx now s p body stg pl d env ir bt fs fl) = None)"
  by (simp add: prepare_def Let_def)

lemma advise_view [simp]: "pp_view (advise cx pp body cls) = pp_view pp"
  by (auto simp: advise_def Let_def split: option.splits)

lemma advise_assessment [simp]: "(pp_assessment (advise cx pp body cls) = None) = (pp_assessment pp = None)"
  by (auto simp: advise_def Let_def split: option.splits)

lemma enforcing_mode: "enforcing cx \<Longrightarrow> cx_mode cx \<noteq> RiskOff \<and> cx_has_store cx"
  by (auto simp: enforcing_def cx_mode_def split: if_splits)

lemma evaluate_release:
  assumes "so_decision (el_outcome (evaluate svc snap now s p stg body pl built)) \<in> {Allow, Modify}"
  shows "el_violation (evaluate svc snap now s p stg body pl built) = None \<and>
    po_allow (el_policy (evaluate svc snap now s p stg body pl built)) \<and>
    el_outcome (evaluate svc snap now s p stg body pl built) =
      engine_run (svc_engine svc) snap stg (bc_context built) pl
        (po_obligations (el_policy (evaluate svc snap now s p stg body pl built)))"
  using assms by (auto simp: evaluate_def Let_def withheld_def split: option.splits if_splits)

lemma evaluate_violation:
  "el_violation (evaluate svc snap now s p stg body pl built) =
     (case svc_contextual svc of None \<Rightarrow> None | Some cx \<Rightarrow> identity_violation cx p body)"
  by (auto simp: evaluate_def Let_def split: option.split)

lemma evaluate_prepared:
  assumes "svc_contextual svc = Some cx" "identity_violation cx p body = None" "enforcing cx"
  obtains pp where "el_prepared (evaluate svc snap now s p stg body pl built) = Some pp"
    "\<exists>target vkey. pp_view pp = Some (memory_view s now (pr_tenant_id p) (gq_agent_id body) (gq_session_id body) target vkey)"
    "pp_assessment pp \<noteq> None"
proof -
  note m = enforcing_mode [OF assms(3)]
  let ?prep = "prepare cx now s p body stg pl (svc_describe svc stg body (pl_tool_call pl))
                      (ctx_environment (bc_context built)) (ctx_risk_score (bc_context built))
                      (ctx_trust_score (bc_context built))
                      (case bc_agent built of None \<Rightarrow> [] | Some a \<Rightarrow> ag_open_findings a) (bc_flagged_tools built)"
  have v: "\<exists>target vkey. pp_view ?prep = Some (memory_view s now (pr_tenant_id p) (gq_agent_id body) (gq_session_id body) target vkey)"
    using m by (auto simp: prepare_view)
  have a: "pp_assessment ?prep \<noteq> None" using v unfolding prepare_assessment by (elim exE) simp
  have "el_prepared (evaluate svc snap now s p stg body pl built) \<in>
      {Some ?prep, Some (advise cx ?prep body (bc_advisor_data_classes built))}"
    using assms by (simp add: evaluate_def Let_def)
  then consider "el_prepared (evaluate svc snap now s p stg body pl built) = Some ?prep"
    | "el_prepared (evaluate svc snap now s p stg body pl built) = Some (advise cx ?prep body (bc_advisor_data_classes built))"
    by blast
  then show ?thesis
  proof cases
    case 1
    show ?thesis by (rule that [OF 1 v a])
  next
    case 2
    show ?thesis by (rule that [OF 2]) (use v a in simp_all)
  qed
qed

lemma normalized_input:
  "result_bind (validate_payload q) (normalize_payload nfkc) = Inr pl \<Longrightarrow> pl_stage pl = pl_stage q"
  by (auto simp: result_bind_Inr_iff normalize_payload_def dest!: validate_payload_Inr)

section \<open>Answers that release\<close>

lemma respond_simps [simp]:
  "gp_decision (respond svc snap built el t v out esc) = so_decision out"
  "gp_reason (respond svc snap built el t v out esc) = so_reason out"
  "gp_policy (respond svc snap built el t v out esc) = el_policy el"
  "gp_results (respond svc snap built el t v out esc) = so_results out"
  "gp_payload (respond svc snap built el t v out esc) = (if so_decision out \<in> {Allow, Modify} then so_payload out else None)"
  "gp_escalation_id (respond svc snap built el t v out esc) = esc"
  by (simp_all add: respond_def Let_def split: prod.split)

text \<open>What an answer that lets the request through was made from.\<close>

lemma run_stage_allowed:
  assumes run: "run_stage svc now uid p stg body pl0 rid tid gs = (Inr (status, r), gs')"
    and dec: "gp_decision r \<in> {Allow, Modify}"
  obtains snap pl built el t v st vs q where
    "svc_snapshot svc = Some snap"
    "result_bind (validate_payload (pl0\<lparr>pl_stage := stg\<rparr>)) (normalize_payload (svc_nfkc svc)) = Inr pl"
    "built = build_context (svc_catalog svc (pr_tenant_id p)) (svc_environment svc) p body rid tid"
    "el = evaluate svc snap now (gs_sessions gs) p stg body pl built"
    "table_step svc now uid p stg body pl (ctx_environment (bc_context built)) el (gs_verifications gs) =
       (Inr (t, v, el_outcome el, st), vs)"
    "so_decision (el_outcome el) \<in> {Allow, Modify}"
    "el_violation el = None" "po_allow (el_policy el)"
    "el_outcome el = engine_run (svc_engine svc) snap stg (bc_context built) pl (po_obligations (el_policy el))"
    "r = respond svc snap built el t v (el_outcome el) None"
    "so_payload (el_outcome el) = Some q" "same_shape_as pl q" "gp_payload r = Some q"
proof -
  from run obtain snap pl where snap: "svc_snapshot svc = Some snap"
    and pl: "result_bind (validate_payload (pl0\<lparr>pl_stage := stg\<rparr>)) (normalize_payload (svc_nfkc svc)) = Inr pl"
    by (auto simp: run_stage_def split: option.splits sum.splits)
  define built where "built = build_context (svc_catalog svc (pr_tenant_id p)) (svc_environment svc) p body rid tid"
  define el where "el = evaluate svc snap now (gs_sessions gs) p stg body pl built"
  from run snap pl obtain t v out st vs out' esc where
    ts: "table_step svc now uid p stg body pl (ctx_environment (bc_context built)) el (gs_verifications gs) = (Inr (t, v, out, st), vs)"
    and hs: "hold_step svc (bc_context built) stg t v out st = (out', esc, status)"
    and r: "r = respond svc snap built el t v out' esc"
    by (auto simp: run_stage_def Let_def built_def [symmetric] el_def [symmetric] split: sum.splits prod.splits)
  have dec': "so_decision out' \<in> {Allow, Modify}" using dec unfolding r by (simp add: respond_def Let_def split: prod.splits)
  from hold_step_release [OF hs dec'] have out': "out' = out" "esc = None" by simp_all
  with dec' have dec1: "so_decision out \<in> {Allow, Modify}" by simp
  from table_step_release [OF ts dec1] have out: "out = el_outcome el" by simp
  note er = evaluate_release [of svc snap now "gs_sessions gs" p stg body pl built, folded el_def, OF dec1 [unfolded out]]
  have "so_decision (engine_run (svc_engine svc) snap stg (bc_context built) pl (po_obligations (el_policy el))) \<in> {Allow, Modify}"
    using dec1 out er by simp
  from engine_payload_shape [OF this] er obtain q where q: "so_payload (el_outcome el) = Some q" "same_shape_as pl q" by auto
  have gp: "gp_payload r = Some q"
    using q(1) dec1 out out' unfolding r by (simp add: respond_def Let_def split: prod.split)
  show thesis
    by (rule that [OF snap pl built_def el_def])
      (use ts dec1 er r out' out q gp in simp_all)
qed

text \<open>When enforcing, a quarantined caller gets nothing, and the table allowed what is released.\<close>

lemma enforcing_release:
  assumes c: "svc_contextual svc = Some cx" "enforcing cx"
    and el: "el = evaluate svc snap now s p stg body pl built" "el_violation el = None" "po_allow (el_policy el)"
    and ts: "table_step svc now uid p stg body pl env el ver = (Inr (t, v, out, st), vs)" "so_decision out \<in> {Allow, Modify}"
  shows "\<not> quarantined (memory_view s now (pr_tenant_id p) (gq_agent_id body) (gq_session_id body) None None) now"
    "\<exists>t'. t = Some t' \<and> tr_legacy t' \<in> {Allow, Modify}"
proof -
  have iv: "identity_violation cx p body = None"
    using el c evaluate_violation [of svc snap now s p stg body pl built] by simp
  from evaluate_prepared [OF c(1) iv c(2), of snap now s stg pl built, folded el(1)]
  obtain pp target vkey where pp: "el_prepared el = Some pp"
    "pp_view pp = Some (memory_view s now (pr_tenant_id p) (gq_agent_id body) (gq_session_id body) target vkey)"
    "pp_assessment pp \<noteq> None" by metis
  then obtain a where a: "pp_assessment pp = Some a" by auto
  let ?d = "decide_contextual cx now pp (po_allow (el_policy el)) (so_decision (el_outcome el)) (gq_accepts_obligations body = Some True)"
  obtain t0 where t0: "?d = Some t0" using pp a by (simp add: decide_contextual_def)
  from table_step_release [OF ts] el(2) c pp(1) t0 obtain t' where t': "tr_outcome t0 \<noteq> OQuarantine" "t = Some t'" "tr_legacy t' \<in> {Allow, Modify}"
    by auto
  have "\<not> quarantined (memory_view s now (pr_tenant_id p) (gq_agent_id body) (gq_session_id body) target vkey) now"
    using t0 t'(1) a pp(2) el(3) decide_early(2) by (auto simp: decide_contextual_def)
  then show "\<not> quarantined (memory_view s now (pr_tenant_id p) (gq_agent_id body) (gq_session_id body) None None) now"
    using quarantined_any_target by metis
  show "\<exists>t'. t = Some t' \<and> tr_legacy t' \<in> {Allow, Modify}" using t' by blast
qed

text \<open>A payload leaves only with an allow or a modify decision.\<close>

lemma released_decision:
  assumes "run_stage svc now uid p stg body pl0 rid tid gs = (Inr (status, r), gs')" "gp_payload r \<noteq> None"
  shows "gp_decision r \<in> {Allow, Modify}"
proof -
  have "\<exists>snap built el t v out esc. r = respond svc snap built el t v out esc"
    using assms(1) by (auto simp: run_stage_def Let_def split: option.splits sum.splits prod.splits) blast+
  with assms(2) show ?thesis by (auto split: if_splits)
qed

text \<open>C12. Nothing slips through the gateway. When an evaluation releases a payload: the policy
  allowed the request; the key is not bound to another agent; the guardrail engine itself
  allowed or modified it, and what is released is the engine's payload, in the shape of the
  normalised input; and when risk decisions are enforced, neither session nor agent is
  quarantined and the final table outcome is an allowing one.\<close>

theorem gateway_release_safe:
  assumes run: "run_stage svc now uid p stg body pl0 rid tid gs = (Inr (status, r), gs')"
    and released: "gp_payload r = Some q"
  shows "po_allow (gp_policy r)
    \<and> gp_decision r \<in> {Allow, Modify}
    \<and> (\<exists>snap pl ctx. svc_snapshot svc = Some snap
        \<and> result_bind (validate_payload (pl0\<lparr>pl_stage := stg\<rparr>)) (normalize_payload (svc_nfkc svc)) = Inr pl
        \<and> ctx = bc_context (build_context (svc_catalog svc (pr_tenant_id p)) (svc_environment svc) p body rid tid)
        \<and> so_decision (engine_run (svc_engine svc) snap stg ctx pl (po_obligations (gp_policy r))) = gp_decision r
        \<and> so_payload (engine_run (svc_engine svc) snap stg ctx pl (po_obligations (gp_policy r))) = Some q
        \<and> same_shape_as pl q)
    \<and> (\<forall>cx. svc_contextual svc = Some cx \<longrightarrow>
        identity_violation cx p body = None
        \<and> (enforcing cx \<longrightarrow>
            \<not> quarantined (memory_view (gs_sessions gs) now (pr_tenant_id p) (gq_agent_id body) (gq_session_id body) None None) now
            \<and> allowing (gp_would_outcome r)))"
proof -
  have "gp_decision r \<in> {Allow, Modify}"
    using released_decision [OF run] released by simp
  from run this obtain snap pl built el t v st vs q' where snap: "svc_snapshot svc = Some snap"
    and pl: "result_bind (validate_payload (pl0\<lparr>pl_stage := stg\<rparr>)) (normalize_payload (svc_nfkc svc)) = Inr pl"
    and built_def: "built = build_context (svc_catalog svc (pr_tenant_id p)) (svc_environment svc) p body rid tid"
    and el_def: "el = evaluate svc snap now (gs_sessions gs) p stg body pl built"
    and ts: "table_step svc now uid p stg body pl (ctx_environment (bc_context built)) el (gs_verifications gs) =
       (Inr (t, v, el_outcome el, st), vs)"
    and dec1: "so_decision (el_outcome el) \<in> {Allow, Modify}"
    and er: "el_violation el = None" "po_allow (el_policy el)"
    and eng: "el_outcome el = engine_run (svc_engine svc) snap stg (bc_context built) pl (po_obligations (el_policy el))"
    and r: "r = respond svc snap built el t v (el_outcome el) None"
    and q': "so_payload (el_outcome el) = Some q'" "same_shape_as pl q'" "gp_payload r = Some q'"
    by (rule run_stage_allowed)
  have "identity_violation cx p body = None \<and> (enforcing cx \<longrightarrow>
      \<not> quarantined (memory_view (gs_sessions gs) now (pr_tenant_id p) (gq_agent_id body) (gq_session_id body) None None) now
      \<and> allowing (gp_would_outcome r))" if c: "svc_contextual svc = Some cx" for cx
  proof (intro conjI impI)
    show "identity_violation cx p body = None"
      using er c evaluate_violation [of svc snap now "gs_sessions gs" p stg body pl built] by (simp add: el_def)
    assume "enforcing cx"
    note e = enforcing_release [OF c this el_def er ts dec1]
    show "\<not> quarantined (memory_view (gs_sessions gs) now (pr_tenant_id p) (gq_agent_id body) (gq_session_id body) None None) now"
      by (rule e(1))
    show "allowing (gp_would_outcome r)"
      using e(2) unfolding r by (auto simp: respond_def Let_def allowing_iff_legacy tr_legacy_def split: prod.split)
  qed
  moreover have "gp_policy r = el_policy el" "gp_decision r = so_decision (el_outcome el)"
    unfolding r by (simp_all add: respond_def Let_def split: prod.split)
  ultimately show ?thesis
    using dec1 er snap pl q' eng released unfolding built_def by auto
qed

end
