(* ===== verification/Flow_Answers.thy ===== *)
theory Flow_Answers
  imports Flow_Props
begin

text \<open>
  What an answer of the gateway looks like: each is audited exactly once, a refusal before the
  evaluation records nothing, and switching risk decisions from off to shadow changes no answer.
  The last section runs the whole gateway on a small request.
\<close>

section \<open>Audited once\<close>

lemma respond_obligations:
  "gp_obligations (respond svc snap built el t v out esc) \<noteq> [] \<Longrightarrow>
   gp_payload (respond svc snap built el t v out esc) \<noteq> None"
  by (simp add: respond_def Let_def split: prod.splits option.splits if_splits)

lemma audit_event_simps [simp]:
  "au_decision (audit_event_of svc p stg pl built el r) = gp_decision r"
  "au_outcome (audit_event_of svc p stg pl built el r) = gp_outcome r"
  "au_results (audit_event_of svc p stg pl built el r) = gp_results r"
  "au_policy_allow (audit_event_of svc p stg pl built el r) = po_allow (gp_policy r)"
  "au_reason_codes (audit_event_of svc p stg pl built el r) = gp_reason_codes r"
  "au_stage (audit_event_of svc p stg pl built el r) = stg"
  "au_tenant_id (audit_event_of svc p stg pl built el r) = ctx_tenant_id (bc_context built)"
  "au_request_id (audit_event_of svc p stg pl built el r) = ctx_request_id (bc_context built)"
  "au_agent_id (audit_event_of svc p stg pl built el r) = ctx_agent_id (bc_context built)"
  by (simp_all add: audit_event_of_def)

lemma build_context_ids [simp]:
  "ctx_tenant_id (bc_context (build_context cat env p body rid tid)) = pr_tenant_id p"
  "ctx_request_id (bc_context (build_context cat env p body rid tid)) = rid"
  "ctx_agent_id (bc_context (build_context cat env p body rid tid)) = gq_agent_id body"
  by (simp_all add: build_context_def Let_def)

text \<open>The two ways an evaluation ends.\<close>

lemma run_stage_refused:
  assumes "run_stage svc now uid p stg body pl0 rid tid gs = (Inl e, gs')"
  shows "ge_status e \<in> {422, 500, 503} \<and> gs_audit gs' = gs_audit gs \<and> gs_sessions gs' = gs_sessions gs"
  using assms
  by (auto simp: run_stage_def Let_def split: option.splits sum.splits prod.splits)

lemma run_stage_answered:
  assumes "run_stage svc now uid p stg body pl0 rid tid gs = (Inr (status, r), gs')"
  obtains snap pl el t v out st vs out' esc where
    "svc_snapshot svc = Some snap"
    "result_bind (validate_payload (pl0\<lparr>pl_stage := stg\<rparr>)) (normalize_payload (svc_nfkc svc)) = Inr pl"
    "el = evaluate svc snap now (gs_sessions gs) p stg body pl
       (build_context (svc_catalog svc (pr_tenant_id p)) (svc_environment svc) p body rid tid)"
    "r = respond svc snap (build_context (svc_catalog svc (pr_tenant_id p)) (svc_environment svc) p body rid tid)
           el t v out' esc"
    "gs_audit gs' = gs_audit gs @ [audit_event_of svc p stg pl
       (build_context (svc_catalog svc (pr_tenant_id p)) (svc_environment svc) p body rid tid) el r]"
proof -
  from assms obtain snap pl where s: "svc_snapshot svc = Some snap"
    and n: "result_bind (validate_payload (pl0\<lparr>pl_stage := stg\<rparr>)) (normalize_payload (svc_nfkc svc)) = Inr pl"
    by (auto simp: run_stage_def split: option.splits sum.splits)
  define built where "built = build_context (svc_catalog svc (pr_tenant_id p)) (svc_environment svc) p body rid tid"
  define el where "el = evaluate svc snap now (gs_sessions gs) p stg body pl built"
  obtain x vs where ts: "table_step svc now uid p stg body pl (ctx_environment (bc_context built)) el (gs_verifications gs) = (x, vs)"
    by fastforce
  from assms s n ts obtain t v out st where x: "x = Inr (t, v, out, st)"
    by (cases x) (auto simp: run_stage_def Let_def built_def [symmetric] el_def [symmetric])
  obtain out' esc st' where hs: "hold_step svc (bc_context built) stg t v out st = (out', esc, st')"
    using prod_cases3 by blast
  have eq: "run_stage svc now uid p stg body pl0 rid tid gs =
      (Inr (st', respond svc snap built el t v out' esc),
       \<lparr>gs_sessions = (case (svc_contextual svc, el_prepared el) of
           (Some cx, Some pp) \<Rightarrow> record_decision cx now pp p body stg pl (so_decision out') (gs_sessions gs)
         | _ \<Rightarrow> gs_sessions gs),
        gs_verifications = vs,
        gs_audit = gs_audit gs @ [audit_event_of svc p stg pl built el (respond svc snap built el t v out' esc)]\<rparr>)"
    by (simp add: run_stage_def Let_def s n built_def [symmetric] el_def [symmetric] ts x hs)
  have r: "r = respond svc snap built el t v out' esc" using assms eq by simp
  have "gs_audit gs' = gs_audit gs @ [audit_event_of svc p stg pl built el r]"
    using assms eq by auto
  with that [OF s n el_def [unfolded built_def]] r show ?thesis by (simp add: built_def)
qed

text \<open>C13. Every answer of the gateway is audited exactly once, with the decision, outcome, policy and
  guardrail results that the caller got, under the caller's own tenant; only an allow or modify
  decision carries a payload and only then obligations; a request refused before it was decided
  (no snapshot, invalid payload, failing verification store) records neither audit event nor
  session history.\<close>

theorem every_answer_audited_once:
  "case run_stage svc now uid p stg body pl0 rid tid gs of
     (Inl e, gs') \<Rightarrow> ge_status e \<in> {422, 500, 503} \<and> gs_audit gs' = gs_audit gs \<and> gs_sessions gs' = gs_sessions gs
   | (Inr (st, r), gs') \<Rightarrow>
       (\<exists>ev. gs_audit gs' = gs_audit gs @ [ev] \<and> au_tenant_id ev = pr_tenant_id p \<and> au_request_id ev = rid
          \<and> au_agent_id ev = gq_agent_id body \<and> au_stage ev = stg
          \<and> au_decision ev = gp_decision r \<and> au_outcome ev = gp_outcome r \<and> au_results ev = gp_results r
          \<and> au_policy_allow ev = po_allow (gp_policy r) \<and> au_reason_codes ev = gp_reason_codes r)
       \<and> (gp_payload r = None \<or> gp_decision r \<in> {Allow, Modify})
       \<and> (gp_obligations r = [] \<or> (\<exists>q. gp_payload r = Some q))"
proof (cases "run_stage svc now uid p stg body pl0 rid tid gs")
  case (Pair x gs')
  show ?thesis
  proof (cases x)
    case (Inl e)
    with Pair run_stage_refused show ?thesis by (simp, blast)
  next
    case (Inr y)
    obtain st r where y: "y = (st, r)" by fastforce
    from Pair Inr y have run: "run_stage svc now uid p stg body pl0 rid tid gs = (Inr (st, r), gs')" by simp
    show ?thesis
    proof (rule run_stage_answered [OF run])
      fix snap pl el t v out' esc
      let ?b = "build_context (svc_catalog svc (pr_tenant_id p)) (svc_environment svc) p body rid tid"
      assume r: "r = respond svc snap ?b el t v out' esc"
        and au: "gs_audit gs' = gs_audit gs @ [audit_event_of svc p stg pl ?b el r]"
      have "gp_payload r = None \<or> gp_decision r \<in> {Allow, Modify}" unfolding r by simp
      moreover have "gp_obligations r = [] \<or> (\<exists>q. gp_payload r = Some q)"
        unfolding r using respond_obligations by blast
      ultimately show ?thesis unfolding run prod.case sum.case
        by (intro conjI exI [of _ "audit_event_of svc p stg pl ?b el r"]) (simp_all add: au)
    qed
  qed
qed

section \<open>Shadow mode\<close>

text \<open>What the caller of a stage acts on; the reported risk and reason codes are left out.\<close>

definition visible_answer ::
  "guard_error + nat \<times> guard_response \<Rightarrow>
   guard_error + nat \<times> decision \<times> string \<times> payload option \<times> policy_decision \<times> guardrail_outcome list \<times>
     outcome \<times> (string \<times> int) list \<times> string option" where
  "visible_answer r =
     map_sum (\<lambda>e. e) (\<lambda>(st, g). (st, gp_decision g, gp_reason g, gp_payload g, gp_policy g, gp_results g,
       gp_outcome g, gp_obligations g, gp_escalation_id g)) r"

definition with_mode :: "risk_mode \<Rightarrow> 'v services \<Rightarrow> 'v services" where
  "with_mode m svc = svc\<lparr>svc_contextual := map_option (\<lambda>cx. cx\<lparr>cx_configured_mode := m\<rparr>) (svc_contextual svc)\<rparr>"

lemma with_mode_simps [simp]:
  "svc_snapshot (with_mode m svc) = svc_snapshot svc" "svc_engine (with_mode m svc) = svc_engine svc"
  "svc_environment (with_mode m svc) = svc_environment svc" "svc_catalog (with_mode m svc) = svc_catalog svc"
  "svc_policy (with_mode m svc) = svc_policy svc" "svc_queue (with_mode m svc) = svc_queue svc"
  "svc_describe (with_mode m svc) = svc_describe svc" "svc_nfkc (with_mode m svc) = svc_nfkc svc"
  "svc_sha256 (with_mode m svc) = svc_sha256 svc" "svc_payload_digest (with_mode m svc) = svc_payload_digest svc"
  "svc_request_digest (with_mode m svc) = svc_request_digest svc"
  "svc_dump_tool_call (with_mode m svc) = svc_dump_tool_call svc"
  "svc_contextual (with_mode m svc) = map_option (\<lambda>cx. cx\<lparr>cx_configured_mode := m\<rparr>) (svc_contextual svc)"
  by (simp_all add: with_mode_def)

lemma enforcing_not [simp]:
  "m \<noteq> RiskEnforce \<Longrightarrow> \<not> enforcing (cx\<lparr>cx_configured_mode := m\<rparr>)"
  by (simp add: enforcing_def cx_mode_def)

lemma identity_violation_mode [simp]:
  "identity_violation (cx\<lparr>cx_configured_mode := m\<rparr>) p body = identity_violation cx p body"
  by (simp add: identity_violation_def)

lemma prepare_descriptor [simp]:
  "pp_descriptor (prepare cx now s p body stg pl d env ir bt fs fl) = d"
  by (simp add: prepare_def Let_def)

definition ignores_risk :: "(policy_input \<Rightarrow> policy_decision) \<Rightarrow> bool" where
  "ignores_risk policy \<longleftrightarrow> (\<forall>i. policy i = policy (i\<lparr>pi_session := None, pi_risk_v2 := None\<rparr>))"

lemma ignores_riskD:
  assumes "ignores_risk policy" "map_option pp_descriptor x = map_option pp_descriptor y"
  shows "policy (policy_input_of b stg tn p x) = policy (policy_input_of b stg tn p y)"
proof -
  have "(policy_input_of b stg tn p x)\<lparr>pi_session := None, pi_risk_v2 := None\<rparr> =
        (policy_input_of b stg tn p y)\<lparr>pi_session := None, pi_risk_v2 := None\<rparr>"
    using assms(2) by (simp add: policy_input_of_def)
  then show ?thesis using assms(1) by (metis ignores_risk_def)
qed

lemma evaluate_mode:
  assumes "ignores_risk (svc_policy svc)"
  shows "el_violation (evaluate (with_mode m svc) snap now s p stg body pl built) =
         el_violation (evaluate (with_mode m' svc) snap now s p stg body pl built)"
    and "el_policy (evaluate (with_mode m svc) snap now s p stg body pl built) =
         el_policy (evaluate (with_mode m' svc) snap now s p stg body pl built)"
    and "el_outcome (evaluate (with_mode m svc) snap now s p stg body pl built) =
         el_outcome (evaluate (with_mode m' svc) snap now s p stg body pl built)"
    and "el_status (evaluate (with_mode m svc) snap now s p stg body pl built) =
         el_status (evaluate (with_mode m' svc) snap now s p stg body pl built)"
proof -
  let ?prep = "\<lambda>m. map_option (\<lambda>cx. prepare (cx\<lparr>cx_configured_mode := m\<rparr>) now s p body stg pl
      (svc_describe svc stg body (pl_tool_call pl))
      (ctx_environment (bc_context built)) (ctx_risk_score (bc_context built)) (ctx_trust_score (bc_context built))
      (case bc_agent built of None \<Rightarrow> [] | Some a \<Rightarrow> ag_open_findings a) (bc_flagged_tools built)) (svc_contextual svc)"
  have pol: "svc_policy svc (policy_input_of built stg (map_option tc_name (pl_tool_call pl)) p (?prep m)) =
      svc_policy svc (policy_input_of built stg (map_option tc_name (pl_tool_call pl)) p (?prep m'))"
    by (rule ignores_riskD [OF assms]) (simp add: option.map_comp o_def)
  show "el_violation (evaluate (with_mode m svc) snap now s p stg body pl built) =
         el_violation (evaluate (with_mode m' svc) snap now s p stg body pl built)"
    "el_policy (evaluate (with_mode m svc) snap now s p stg body pl built) =
         el_policy (evaluate (with_mode m' svc) snap now s p stg body pl built)"
    "el_outcome (evaluate (with_mode m svc) snap now s p stg body pl built) =
         el_outcome (evaluate (with_mode m' svc) snap now s p stg body pl built)"
    "el_status (evaluate (with_mode m svc) snap now s p stg body pl built) =
         el_status (evaluate (with_mode m' svc) snap now s p stg body pl built)"
    using pol by (cases "svc_contextual svc"; simp add: evaluate_def Let_def split: option.split)+
qed

lemma verify_outcome_shadow:
  "\<not> enforcing cx \<Longrightarrow> \<exists>t'. verify_outcome cx now uid t c vs = (Inr (t', None), vs)"
  by (auto simp: verify_outcome_def describe_plan_def resolution_of_def and_then_value Let_def split: option.split)

lemma table_step_shadow:
  assumes "\<And>cx. svc_contextual svc = Some cx \<Longrightarrow> \<not> enforcing cx"
  shows "\<exists>t. table_step svc now uid p stg body pl env el vs = (Inr (t, None, el_outcome el, el_status el), vs)"
proof (cases "el_violation el = None \<and> svc_contextual svc \<noteq> None \<and> el_prepared el \<noteq> None")
  case False
  then show ?thesis by (auto simp: table_step_def split: option.split)
next
  case True
  then obtain cx pp where cx: "el_violation el = None" "svc_contextual svc = Some cx" "el_prepared el = Some pp"
    by auto
  let ?d = "decide_contextual cx now pp (po_allow (el_policy el)) (so_decision (el_outcome el))
      (gq_accepts_obligations body = Some True)"
  show ?thesis
  proof (cases ?d)
    case None
    with cx show ?thesis by (simp add: table_step_def)
  next
    case (Some t0)
    obtain t' where "verify_outcome cx now uid t0 (verify_context_of (svc_sha256 svc) (svc_request_digest svc) pp t0 p body
        stg pl (svc_payload_digest svc pl) env) vs = (Inr (t', None), vs)"
      using verify_outcome_shadow [OF assms [OF cx(2)]] by blast
    with cx Some assms [OF cx(2)] show ?thesis by (simp add: table_step_def and_then_def)
  qed
qed

lemma hold_step_shadow:
  assumes "\<And>cx. svc_contextual svc = Some cx \<Longrightarrow> \<not> enforcing cx"
    "\<And>cx. svc_contextual svc' = Some cx \<Longrightarrow> \<not> enforcing cx"
    "svc_queue svc' = svc_queue svc" "svc_dump_tool_call svc' = svc_dump_tool_call svc"
  shows "hold_step svc' ctx stg t' v out st = hold_step svc ctx stg t v out st"
  using assms by (auto simp: hold_step_def risk_held_def Let_def split: option.split)

text \<open>An answer when nothing is enforced.\<close>

lemma run_stage_shadow:
  assumes "\<And>cx. svc_contextual svc = Some cx \<Longrightarrow> \<not> enforcing cx"
  shows "visible_answer (fst (run_stage svc now uid p stg body pl0 rid tid gs)) =
     (case svc_snapshot svc of
        None \<Rightarrow> Inl \<lparr>ge_status = 503, ge_message = ''No guardrail snapshot loaded; refusing to process (fail-closed)''\<rparr>
      | Some snap \<Rightarrow>
          (case result_bind (validate_payload (pl0\<lparr>pl_stage := stg\<rparr>)) (normalize_payload (svc_nfkc svc)) of
             Inl e \<Rightarrow> Inl \<lparr>ge_status = 422, ge_message = e\<rparr>
           | Inr pl \<Rightarrow>
               (let built = build_context (svc_catalog svc (pr_tenant_id p)) (svc_environment svc) p body rid tid;
                    el = evaluate svc snap now (gs_sessions gs) p stg body pl built;
                    (out, esc, st) = hold_step svc (bc_context built) stg None None (el_outcome el) (el_status el)
                in Inr (st, so_decision out, so_reason out,
                     if so_decision out \<in> {Allow, Modify} then so_payload out else None,
                     el_policy el, so_results out,
                     if el_violation el = None then legacy_outcome_name (so_decision out) else ODeny, [], esc))))"
proof (cases "svc_snapshot svc")
  case None
  then show ?thesis by (simp add: run_stage_def visible_answer_def)
next
  case s: (Some snap)
  show ?thesis
  proof (cases "result_bind (validate_payload (pl0\<lparr>pl_stage := stg\<rparr>)) (normalize_payload (svc_nfkc svc))")
    case (Inl e)
    with s show ?thesis by (simp add: run_stage_def visible_answer_def)
  next
    case n: (Inr pl)
    define built where "built = build_context (svc_catalog svc (pr_tenant_id p)) (svc_environment svc) p body rid tid"
    define el where "el = evaluate svc snap now (gs_sessions gs) p stg body pl built"
    obtain t where ts: "table_step svc now uid p stg body pl (ctx_environment (bc_context built)) el (gs_verifications gs)
        = (Inr (t, None, el_outcome el, el_status el), gs_verifications gs)"
      using table_step_shadow [OF assms] by blast
    obtain out esc st where hs: "hold_step svc (bc_context built) stg None None (el_outcome el) (el_status el) = (out, esc, st)"
      using prod_cases3 by blast
    have hs': "hold_step svc (bc_context built) stg t None (el_outcome el) (el_status el) = (out, esc, st)"
      using hold_step_shadow [OF assms assms refl refl] hs by metis
    have run: "fst (run_stage svc now uid p stg body pl0 rid tid gs) = Inr (st, respond svc snap built el t None out esc)"
      by (simp add: run_stage_def Let_def s n built_def [symmetric] el_def [symmetric] ts hs')
    have "gp_outcome (respond svc snap built el t None out esc) =
        (if el_violation el = None then legacy_outcome_name (so_decision out) else ODeny)"
      "gp_obligations (respond svc snap built el t None out esc) = []"
      using assms by (auto simp: respond_def Let_def split: option.split prod.split)
    then show ?thesis
      by (simp add: run visible_answer_def s n built_def [symmetric] el_def [symmetric] hs Let_def)
  qed
qed


section \<open>The whole gateway on a small request\<close>

text \<open>The logarithm of the volume signal has no code equation; evaluation stops there if it is needed.\<close>

lemma ln_code [code]: "ln (x::real) = Code.abort (STR ''ln'') (\<lambda>_. ln x)"
  by simp

definition ex_catalog :: tenant_catalog where
  "ex_catalog = \<lparr>tc_agents = [(''bot'', \<lparr>ag_agent_id = ''bot'', ag_base_trust_score = 70, ag_allowed_tools = [], ag_open_findings = []\<rparr>)],
     tc_actions = [(''llm.chat'', [\<lparr>al_action = ''llm.chat'', al_resource_pattern = ''*'', al_base_risk_score = 20\<rparr>])],
     tc_modifiers = [], tc_advisor_data_classes = {}, tc_flagged_tools = []\<rparr>"

definition ex_principal :: principal where
  "ex_principal = \<lparr>pr_key_id = ''k1'', pr_tenant_id = ''demo'', pr_key_name = ''key'', pr_scopes = [''guard''],
     pr_rate_limit_per_minute = None, pr_agent_id = Some ''bot''\<rparr>"

definition ex_guard_request :: guard_request where
  "ex_guard_request = \<lparr>gq_agent_id = ''bot'', gq_action = ''llm.chat'', gq_resource = None, gq_user_id = None,
     gq_session_id = Some ''s1'', gq_arguments = [], gq_data_classification = INTERNAL, gq_delegation_chain = [],
     gq_tool_metadata = None, gq_accepts_obligations = None, gq_verification_channels = None\<rparr>"

definition ex_contextual :: "memory_verifications contextual" where
  "ex_contextual = \<lparr>cx_has_store = True, cx_configured_mode = RiskEnforce, cx_require_bound_keys = True,
     cx_cfg = default_risk_config, cx_verifier = None, cx_advisors = None\<rparr>"

definition ex_services :: "memory_verifications services" where
  "ex_services = \<lparr>svc_snapshot = Some ex_snapshot, svc_engine = ex_engine, svc_environment = Dev,
     svc_catalog = (\<lambda>_. ex_catalog),
     svc_policy = (\<lambda>i. \<lparr>po_allow = True, po_reason = ''ok'', po_obligations = [''pii''], po_error = None\<rparr>),
     svc_queue = None, svc_contextual = Some ex_contextual,
     svc_describe = (\<lambda>stg body t. plain_descriptor DMessage VRead None),
     svc_nfkc = (\<lambda>s. s), svc_sha256 = (\<lambda>s. s), svc_payload_digest = (\<lambda>_. ''d''), svc_request_digest = (\<lambda>_. ''q''),
     svc_dump_tool_call = tc_name\<rparr>"

definition ex_state :: "memory_verifications gateway_state" where
  "ex_state = \<lparr>gs_sessions = empty_store 100, gs_verifications = empty_verifications 10, gs_audit = []\<rparr>"

definition ex_answer :: "risk_mode \<Rightarrow> guard_error + nat \<times> guard_response" where
  "ex_answer m = fst (run_stage (with_mode m ex_services) 0 ''u1'' ex_principal Input ex_guard_request ex_payload ''r1'' ''t1'' ex_state)"

lemma ex_run_value:
  "case fst (run_stage ex_services 0 ''u1'' ex_principal Input ex_guard_request ex_payload ''r1'' ''t1'' ex_state) of
     Inl e \<Rightarrow> False
   | Inr (st, r) \<Rightarrow> st = 200 \<and> gp_payload r = Some (ex_payload\<lparr>pl_text := Some ''my card is [CARD]''\<rparr>)"
  by code_simp

lemma ex_released:
  "run_stage ex_services 0 ''u1'' ex_principal Input ex_guard_request ex_payload ''r1'' ''t1'' ex_state =
     (Inr (200, the_answer), gs') \<Longrightarrow> gp_payload the_answer = Some (ex_payload\<lparr>pl_text := Some ''my card is [CARD]''\<rparr>)"
  using ex_run_value by simp

lemma ex_runs:
  "\<exists>r gs'. run_stage ex_services 0 ''u1'' ex_principal Input ex_guard_request ex_payload ''r1'' ''t1'' ex_state = (Inr (200, r), gs')"
  using ex_run_value
  by (cases "run_stage ex_services 0 ''u1'' ex_principal Input ex_guard_request ex_payload ''r1'' ''t1'' ex_state")
     (auto split: sum.splits)

theorem gateway_release_safe_witness:
  "\<exists>r gs'. run_stage ex_services 0 ''u1'' ex_principal Input ex_guard_request ex_payload ''r1'' ''t1'' ex_state = (Inr (200, r), gs')
     \<and> gp_decision r \<in> {Allow, Modify} \<and> allowing (gp_would_outcome r)"
proof -
  obtain r gs' where run: "run_stage ex_services 0 ''u1'' ex_principal Input ex_guard_request ex_payload ''r1'' ''t1'' ex_state = (Inr (200, r), gs')"
    using ex_runs by blast
  have "svc_contextual ex_services = Some ex_contextual" "enforcing ex_contextual"
    by (simp_all add: ex_services_def ex_contextual_def enforcing_def cx_mode_def)
  with gateway_release_safe [OF run ex_released [OF run]] run show ?thesis by auto
qed


end
