(* ===== verification/Session_Props.thy ===== *)
theory Session_Props
  imports Session_Store
begin

text \<open>
  What the bounded memory store guarantees and what it does not: taint sticks, agents are
  isolated while there is room, a flood of other agents forgets a quarantine, and the volume
  baseline cannot be moved by one burst.
\<close>

section \<open>Properties of the memory store\<close>


definition ex_update :: "string set \<Rightarrow> bool \<Rightarrow> session_update" where
  "ex_update labels denied = \<lparr>su_denied = denied, su_allowed = \<not> denied, su_labels = labels,
     su_target = None, su_volume_key = None, su_rows = None, su_quarantine_seconds = 0,
     su_agent_quarantine_seconds = 0, su_penalty = None\<rparr>"


text \<open>Agents are isolated: as long as the store has room, recording for one agent changes
  nothing in the view of any session of another agent or tenant, even one with the same
  session id.
\<close>

theorem agents_isolated:
  assumes "store_inv st" "has_room st t a sid" "(t', a') \<noteq> (t, a)"
  shows "memory_view (memory_record st now t a sid u) now' t' a' sid' tgt vk =
         memory_view st now' t' a' sid' tgt vk"
  by (rule memory.view_other [OF assms])

lemma has_room_empty: "0 < mx \<Longrightarrow> has_room (empty_store mx) t a sid"
  by (simp add: has_room_def empty_store_def)

theorem agents_isolated_witness:
  "memory_view (memory_record (empty_store 10) 100 ''demo'' ''bot'' (Some ''s1'') (ex_update {} True))
     100 ''demo'' ''other'' (Some ''s1'') None None =
   memory_view (empty_store 10) 100 ''demo'' ''other'' (Some ''s1'') None None"
  by (rule agents_isolated) (simp_all add: inv_intros has_room_empty)

text \<open>The keys of the agent dictionary after a flood of other agents.\<close>

definition flood :: "real \<Rightarrow> agent_key list \<Rightarrow> memory_store \<Rightarrow> memory_store" where
  "flood now keys st =
     foldl (\<lambda>s (t, a). memory_record s now t a None (ex_update {} False)) st keys"

lemma record_agent_keys:
  "map fst (ms_agents (memory_record st now t a sid u)) =
     drop (length (removeAll (t, a) (map fst (ms_agents st))) + 1 - ms_max st)
       (removeAll (t, a) (map fst (ms_agents st)) @ [(t, a)])"
proof -
  have len: "length (AList.delete (t, a) (ms_agents st)) = length (removeAll (t, a) (map fst (ms_agents st)))"
    by (metis delete_keys length_map)
  show ?thesis
    by (simp add: memory_record_def touch_def Let_def lru_trim_def lru_put_def drop_map [symmetric]
        delete_keys len)
qed

lemma flood_max [simp]: "ms_max (flood now keys st) = ms_max st"
  by (induction keys arbitrary: st) (auto simp: flood_def)

lemma flood_inv: "store_inv st \<Longrightarrow> store_inv (flood now keys st)"
  by (induction keys arbitrary: st) (auto simp: flood_def intro: inv_intros)

lemma flood_keys:
  assumes "store_inv st" "distinct keys"
  shows "\<exists>older. map fst (ms_agents (flood now keys st)) = older @ drop (length keys - ms_max st) keys \<and>
           set older \<inter> set keys = {} \<and> length older + length keys - (length keys - ms_max st) \<le> ms_max st"
  using assms(2)
proof (induction keys rule: rev_induct)
  case Nil
  then show ?case using assms(1) by (simp add: flood_def store_inv_def)
next
  case (snoc k ks)
  obtain t a where k: "k = (t, a)" by (cases k)
  obtain older where older: "map fst (ms_agents (flood now ks st)) = older @ drop (length ks - ms_max st) ks"
    "set older \<inter> set ks = {}" "length older + length ks - (length ks - ms_max st) \<le> ms_max st"
    using snoc by auto
  let ?o = "removeAll k older"
  let ?ks = "drop (length ks - ms_max st) ks"
  have kn: "k \<notin> set ?ks" using snoc.prems by (auto dest: in_set_dropD)
  have keys: "map fst (ms_agents (flood now (ks @ [k]) st)) =
      drop (length ?o + length ?ks + 1 - ms_max st) (?o @ ?ks @ [k])"
    using record_agent_keys [of "flood now ks st" now t a None "ex_update {} False"] kn
    by (simp add: flood_def k older(1) [unfolded flood_def] flood_max [unfolded flood_def] del: drop_append)
  show ?case
  proof (cases "length ks < ms_max st")
    case True
    then have "map fst (ms_agents (flood now (ks @ [k]) st)) =
        drop (length ?o + length ks + 1 - ms_max st) ?o @ ks @ [k]"
      using keys by simp
    with True older(2) snoc.prems show ?thesis
      by (intro exI [of _ "drop (length ?o + length ks + 1 - ms_max st) ?o"])
        (auto dest!: in_set_dropD)
  next
    case False
    then have "older = []" using older(3) by simp
    then show ?thesis using keys False assms(1)
      by (intro exI [of _ "[]"]) (auto simp: store_inv_def Suc_diff_le)
  qed
qed

lemma flood_evicts:
  assumes "store_inv st" "distinct keys" "ms_max st \<le> length keys" "key \<notin> set keys"
  shows "map_of (ms_agents (flood now keys st)) key = None"
proof -
  obtain older where "map fst (ms_agents (flood now keys st)) = older @ drop (length keys - ms_max st) keys"
    "length older + length keys - (length keys - ms_max st) \<le> ms_max st"
    using flood_keys [OF assms(1,2)] by blast
  moreover from this(2) have "older = []" using assms(3) by simp
  ultimately have "set (map fst (ms_agents (flood now keys st))) \<subseteq> set keys"
    by (auto dest: in_set_dropD)
  then show ?thesis using assms(4) by (auto simp: map_of_eq_None_iff)
qed

text \<open>C9. The bound has a price the module's introduction denies: once as many other agents as the
  store holds have been recorded, a quarantined agent's quarantine is forgotten and it is no
  longer quarantined, so losing state does make the gateway looser.
\<close>

theorem flood_forgets_quarantine:
  assumes "store_inv st" "distinct keys" "ms_max st \<le> length keys" "(t, a) \<notin> set keys"
    and "sv_agent_quarantined_until (memory_view st now t a None tgt vk) > now" "0 \<le> now"
  shows "quarantined (memory_view st now t a None tgt vk) now \<and>
         \<not> quarantined (memory_view (flood now keys st) now t a None tgt vk) now"
proof
  show "quarantined (memory_view st now t a None tgt vk) now"
    using assms(5) by (simp add: quarantined_def)
  have "live_agent (flood now keys st) now (t, a) = fresh_agent 0"
    using flood_evicts [OF assms(1-4)] by (simp add: live_agent_def)
  with assms(6) show "\<not> quarantined (memory_view (flood now keys st) now t a None tgt vk) now"
    by (simp add: quarantined_def memory_view_def agent_part_def fresh_agent_def)
qed

definition ex_quarantined_store :: memory_store where
  "ex_quarantined_store =
     memory_record (empty_store 2) 100 ''demo'' ''bot'' None
       ((ex_update {} True)\<lparr>su_agent_quarantine_seconds := 900\<rparr>)"

theorem flood_forgets_quarantine_witness:
  "quarantined (memory_view ex_quarantined_store 200 ''demo'' ''bot'' None None None) 200 \<and>
   \<not> quarantined (memory_view (flood 200 [(''demo'', ''x1''), (''demo'', ''x2'')] ex_quarantined_store)
         200 ''demo'' ''bot'' None None None) 200"
proof (rule flood_forgets_quarantine)
  show "200 < sv_agent_quarantined_until (memory_view ex_quarantined_store 200 ''demo'' ''bot'' None None None)"
    using memory_view_agent [of "empty_store 2" 100 200 "''demo''" "''bot''" None _ None None None]
    by (simp add: ex_quarantined_store_def inv_intros SEEN_TTL_def ex_update_def)
qed (simp_all add: ex_quarantined_store_def inv_intros, simp add: empty_store_def)

text \<open>One burst cannot make itself look normal: with at least 19 earlier volumes in the
  window, adding one more value never lifts the 95th percentile above the earlier maximum.
\<close>

theorem p95_ignores_one_burst:
  assumes n: "19 \<le> length vs" and y: "p95 (vs @ [x]) = Some y"
  shows "y \<le> Max (set vs)"
proof (rule ccontr)
  assume "\<not> y \<le> Max (set vs)"
  then have big: "Max (set vs) < y" by simp
  let ?s = "sort (vs @ [x])"
  obtain k where kd: "k = (19 * length ?s + 19) div 20 - 1" by simp
  have k: "k + 2 \<le> length ?s" using n by (simp add: kd)
  have ys: "y = ?s ! k"
    using y k by (simp add: p95_def Let_def min_def kd split: if_splits)
  have ge: "y \<le> z" if "z \<in> set (drop k ?s)" for z
  proof -
    from that obtain i where "i < length ?s - k" "z = ?s ! (k + i)"
      by (auto simp: in_set_conv_nth)
    then show ?thesis using ys k sorted_nth_mono [OF sorted_sort, of k "k + i" "vs @ [x]"] by simp
  qed
  have "2 \<le> length (drop k ?s)" using k by simp
  also have "\<dots> = length (filter (\<lambda>z. y \<le> z) (drop k ?s))"
    using ge by (metis filter_True)
  also have "\<dots> \<le> length (filter (\<lambda>z. y \<le> z) ?s)"
    by (metis append_take_drop_id filter_append le_add2 length_append)
  also have "\<dots> = length (filter (\<lambda>z. y \<le> z) (vs @ [x]))"
    by (metis filter_sort length_sort)
  also have "\<dots> \<le> 1"
  proof -
    have "filter (\<lambda>z. y \<le> z) vs = []"
      using big n by (auto simp: filter_empty_conv not_le intro: le_less_trans [OF Max_ge])
    then show ?thesis by simp
  qed
  finally show False by simp
qed

theorem p95_ignores_one_burst_witness:
  "p95 ([10, 20, 10, 10, 10, 10, 10, 10, 10, 10, 10, 10, 10, 10, 10, 10, 10, 10, 10] @ [50000]) = Some 20 \<and>
   (20::real) \<le> Max (set [10, 20, 10, 10, 10, 10, 10, 10, 10, 10, 10, 10, 10, 10, 10, 10, 10, 10, 10])"
proof -
  let ?vs = "[10, 20, 10, 10, 10, 10, 10, 10, 10, 10, 10, 10, 10, 10, 10, 10, 10, 10, 10] :: real list"
  have p: "p95 (?vs @ [50000]) = Some 20"
    by (simp add: p95_def)
  show ?thesis using p p95_ignores_one_burst [of ?vs 50000 20] by simp
qed

end
