(* ===== verification/Json_Object.thy ===== *)
theory Json_Object
  imports Json_Text
begin

text \<open>
  Canonical JSON of flat objects: \<open>json.dumps\<close> with compact separators, sorted keys and
  \<open>ensure_ascii=False\<close>, for values that are strings, integers or \<open>None\<close>. The printed text
  determines every value, which is what a digest of it relies on.
\<close>

datatype cell = CNull | CInt int | CStr string

definition json_escape_raw :: "char \<Rightarrow> string" where
  "json_escape_raw c =
     (let n = of_char c :: nat in if 32 \<le> n \<and> n \<noteq> 34 \<and> n \<noteq> 92 then [c] else json_escape c)"

definition json_raw_string :: "string \<Rightarrow> string" where
  "json_raw_string s = CHR 0x22 # concat (map json_escape_raw s) @ [CHR 0x22]"

fun cell_text :: "cell \<Rightarrow> string" where
  "cell_text CNull = ''null''"
| "cell_text (CInt i) = str_int i"
| "cell_text (CStr s) = json_raw_string s"

definition pair_text :: "string \<times> cell \<Rightarrow> string" where
  "pair_text kv = json_raw_string (fst kv) @ '':'' @ cell_text (snd kv)"

definition object_text :: "(string \<times> cell) list \<Rightarrow> string" where
  "object_text kvs = CHR 0x7B # join '','' (map pair_text kvs) @ [CHR 0x7D]"

section \<open>Decimal numbers\<close>

definition digit_value :: "char \<Rightarrow> nat" where
  "digit_value c = of_char c - 48"

definition digits_value :: "string \<Rightarrow> nat" where
  "digits_value s = foldl (\<lambda>acc c. acc * 10 + digit_value c) 0 s"

lemma digit_value_char [simp]: "n < 10 \<Longrightarrow> digit_value (char_of (48 + n)) = n"
  by (simp add: digit_value_def)

lemma digits_value_nat_digits [simp]: "digits_value (nat_digits n) = n"
proof (induction n rule: nat_digits.induct)
  case (1 n)
  show ?case
  proof (cases "n < 10")
    case True
    then show ?thesis by (simp add: nat_digits.simps [of n] digits_value_def)
  next
    case False
    with 1 show ?thesis
      by (simp add: nat_digits.simps [of n] digits_value_def)
  qed
qed

lemma nat_digits_digit: "c \<in> set (nat_digits n) \<Longrightarrow> is_digit c"
proof (induction n rule: nat_digits.induct)
  case (1 n)
  then show ?case
    by (auto simp: nat_digits.simps [of n] is_digit_def split: if_splits)
qed

lemma nat_digits_not_Nil [simp]: "nat_digits n \<noteq> []"
  by (simp add: nat_digits.simps [of n])

lemma nat_digits_inject [simp]: "nat_digits m = nat_digits n \<longleftrightarrow> m = n"
  by (metis digits_value_nat_digits)

lemma minus_not_digit: "is_digit c \<Longrightarrow> c \<noteq> CHR ''-''"
  by (auto simp: is_digit_def)

lemma str_int_inject [simp]: "str_int i = str_int j \<longleftrightarrow> i = j"
proof
  assume eq: "str_int i = str_int j"
  have hd: "hd (nat_digits n) \<noteq> CHR ''-''" for n
    using nat_digits_digit [of "hd (nat_digits n)" n] minus_not_digit by simp
  show "i = j"
  proof (cases "i < 0 \<longleftrightarrow> j < 0")
    case True
    with eq show ?thesis by (auto simp: str_int_def eq_nat_nat_iff split: if_splits)
  next
    case False
    with eq hd show ?thesis by (auto simp: str_int_def split: if_splits) (metis list.sel(1))+
  qed
qed simp

definition number_char :: "char \<Rightarrow> bool" where
  "number_char c \<longleftrightarrow> is_digit c \<or> c = CHR ''-''"

lemma str_int_chars: "c \<in> set (str_int i) \<Longrightarrow> number_char c"
  using nat_digits_digit by (auto simp: str_int_def number_char_def split: if_splits)

lemma str_int_not_Nil [simp]: "str_int i \<noteq> []"
  by (simp add: str_int_def)

section \<open>The text determines the values\<close>

lemma scan_escape_raw:
  "scan_string (json_escape_raw c @ rest) = (c # fst (scan_string rest), snd (scan_string rest))"
proof (cases "json_escape_raw c = json_escape c")
  case True
  then show ?thesis by (simp add: scan_escape)
next
  case False
  then have "32 \<le> (of_char c :: nat)" "(of_char c :: nat) \<noteq> 34" "(of_char c :: nat) \<noteq> 92"
    "json_escape_raw c = [c]"
    by (auto simp: json_escape_raw_def Let_def split: if_splits)
  moreover from this have "c \<noteq> CHR 0x22" "c \<noteq> CHR 0x5C" by auto
  ultimately show ?thesis by (simp split: prod.split)
qed

lemma scan_raw_body: "scan_string (concat (map json_escape_raw s) @ CHR 0x22 # rest) = (s, rest)"
  by (induction s) (simp_all add: scan_escape_raw)

lemma raw_string_append_inject:
  "json_raw_string a @ x = json_raw_string b @ y \<longleftrightarrow> a = b \<and> x = y"
proof
  assume "json_raw_string a @ x = json_raw_string b @ y"
  then have "scan_string (concat (map json_escape_raw a) @ CHR 0x22 # x)
           = scan_string (concat (map json_escape_raw b) @ CHR 0x22 # y)"
    by (simp add: json_raw_string_def)
  then show "a = b \<and> x = y" by (simp add: scan_raw_body)
qed simp

text \<open>What may follow a value inside an object.\<close>

definition ends_value :: "string \<Rightarrow> bool" where
  "ends_value x \<longleftrightarrow> x = [] \<or> hd x = CHR '','' \<or> hd x = CHR 0x7D"

lemma ends_value_not_number: "ends_value x \<Longrightarrow> takeWhile number_char x = []"
  by (cases x) (auto simp: ends_value_def number_char_def is_digit_def)

lemma str_int_append_inject:
  assumes "str_int i @ x = str_int j @ y" "ends_value x" "ends_value y"
  shows "i = j \<and> x = y"
proof -
  have t: "takeWhile number_char (str_int k @ z) = str_int k" if "ends_value z" for k z
    using str_int_chars [of _ k] ends_value_not_number [OF that]
    by (simp add: takeWhile_append2)
  have "str_int i = str_int j" using t [OF assms(2), of i] t [OF assms(3), of j] assms(1) by simp
  with assms(1) show ?thesis by simp
qed

lemma str_int_hd: "number_char (hd (str_int i))"
  using str_int_chars [of "hd (str_int i)" i] by simp

lemma cell_text_append_inject:
  assumes eq: "cell_text v @ x = cell_text w @ y" and ends: "ends_value x" "ends_value y"
  shows "v = w \<and> x = y"
proof -
  have h: "hd (cell_text u @ z) = hd (cell_text u)" for u z
    by (cases u) (simp_all add: json_raw_string_def)
  have kinds: "hd (cell_text CNull) = CHR ''n''" "hd (cell_text (CStr s)) = CHR 0x22"
    "number_char (hd (cell_text (CInt i)))" for s i
    by (simp_all add: json_raw_string_def str_int_hd)
  have nn: "\<not> number_char (CHR ''n'')" "\<not> number_char (CHR 0x22)"
    by (simp_all add: number_char_def is_digit_def)
  have "hd (cell_text v) = hd (cell_text w)" using eq h by metis
  then have same: "hd (cell_text v) = hd (cell_text w)" .
  have neq: "CHR ''n'' \<noteq> CHR 0x22" by simp
  show ?thesis
  proof (cases v)
    case CNull
    with same kinds nn have "w = CNull" by (metis cell.exhaust neq)
    with CNull eq show ?thesis by simp
  next
    case (CInt i)
    with same kinds nn obtain j where "w = CInt j" by (metis cell.exhaust)
    with CInt eq ends str_int_append_inject show ?thesis by simp
  next
    case (CStr s)
    with same kinds nn obtain t where "w = CStr t" by (metis cell.exhaust neq)
    with CStr eq show ?thesis by (simp add: raw_string_append_inject)
  qed
qed

lemma join_Cons: "join sep (s # ss) = (if ss = [] then s else s @ sep @ join sep ss)"
  by (cases ss) simp_all

lemma join_pairs_inject:
  "map fst xs = map fst ys \<Longrightarrow>
   join '','' (map pair_text xs) @ CHR 0x7D # u = join '','' (map pair_text ys) @ CHR 0x7D # v \<Longrightarrow> xs = ys"
proof (induction xs arbitrary: ys)
  case Nil
  then show ?case by simp
next
  case (Cons x xs)
  then obtain y ys' where ys: "ys = y # ys'" "fst x = fst y" "map fst xs = map fst ys'" by auto
  let ?rest = "\<lambda>zs u. (if zs = [] then CHR 0x7D # u else '','' @ join '','' (map pair_text zs) @ CHR 0x7D # u)"
  have j: "join '','' (map pair_text (z # zs)) @ CHR 0x7D # u =
      json_raw_string (fst z) @ '':'' @ cell_text (snd z) @ ?rest zs u" for z zs u
    by (simp add: join_Cons pair_text_def)
  have e: "ends_value (?rest zs u)" for zs u by (simp add: ends_value_def)
  from Cons.prems(2) have "cell_text (snd x) @ ?rest xs u = cell_text (snd y) @ ?rest ys' v"
    unfolding ys(1) j raw_string_append_inject by simp
  from cell_text_append_inject [OF this e e] have s: "snd x = snd y" and r: "?rest xs u = ?rest ys' v" by blast+
  have "xs = ys'"
  proof (cases "xs = []")
    case True
    with ys(3) show ?thesis by simp
  next
    case False
    with ys(3) have "ys' \<noteq> []" by auto
    with False r Cons.IH [OF ys(3)] show ?thesis by simp
  qed
  with s ys show ?case by (simp add: prod_eq_iff)
qed

lemma object_text_inject:
  "map fst xs = map fst ys \<Longrightarrow> object_text xs = object_text ys \<longleftrightarrow> xs = ys"
  using join_pairs_inject [of xs ys "[]" "[]"] by (auto simp: object_text_def)

end
