(* ===== verification/Audit_Chain.thy ===== *)
theory Audit_Chain
  imports Json_Object
begin

text \<open>
  The hash chains of the audit log (\<^verbatim>\<open>app/audit/chain.py\<close>): how an event is stamped and how
  rows are checked. SHA-256 of a text is a parameter. A row has one field per column the digest
  covers, in the normal form \<open>_norm\<close> gives it; every other column (user, action, resource,
  policy and guardrail results, reason codes, ...) is in \<open>ar_rest\<close>. A row without a chain has an
  empty \<open>ar_chain_id\<close>.
\<close>

record audit_row =
  ar_id :: string
  ar_created_at :: string
  ar_tenant_id :: string
  ar_request_id :: string
  ar_stage :: string
  ar_agent_id :: string
  ar_decision :: string
  ar_outcome :: "string option"
  ar_reason :: string
  ar_risk_score :: int
  ar_payload_sha256 :: string
  ar_snapshot_version :: string
  ar_chain_id :: string
  ar_chain_seq :: int
  ar_prev_hash :: string
  ar_record_hash :: string
  ar_rest :: jobj

definition GENESIS :: string where
  "GENESIS = replicate 64 (CHR ''0'')"

definition cell_of :: "string option \<Rightarrow> cell" where
  "cell_of v = (case v of None \<Rightarrow> CNull | Some s \<Rightarrow> CStr s)"

text \<open>\<open>CHAIN_FIELDS\<close>, in the sorted order of the canonical text.\<close>

definition chain_cells :: "audit_row \<Rightarrow> (string \<times> cell) list" where
  "chain_cells r =
     [(''agent_id'', CStr (ar_agent_id r)), (''chain_id'', CStr (ar_chain_id r)),
      (''chain_seq'', CInt (ar_chain_seq r)), (''created_at'', CStr (ar_created_at r)),
      (''decision'', CStr (ar_decision r)), (''id'', CStr (ar_id r)), (''outcome'', cell_of (ar_outcome r)),
      (''payload_sha256'', CStr (ar_payload_sha256 r)), (''prev_hash'', CStr (ar_prev_hash r)),
      (''reason'', CStr (ar_reason r)), (''request_id'', CStr (ar_request_id r)),
      (''risk_score'', CInt (ar_risk_score r)), (''snapshot_version'', CStr (ar_snapshot_version r)),
      (''stage'', CStr (ar_stage r)), (''tenant_id'', CStr (ar_tenant_id r))]"

definition record_text :: "audit_row \<Rightarrow> string" where
  "record_text r = object_text (chain_cells r)"

definition record_digest :: "(string \<Rightarrow> string) \<Rightarrow> audit_row \<Rightarrow> string" where
  "record_digest sha256 r = sha256 (record_text r)"

section \<open>Stamping\<close>

record audit_chain =
  ch_id :: string
  ch_heads :: "(string \<times> (int \<times> string)) list"

definition chain_head :: "audit_chain \<Rightarrow> string \<Rightarrow> int \<times> string" where
  "chain_head ch tenant = (case map_of (ch_heads ch) tenant of None \<Rightarrow> (0, GENESIS) | Some h \<Rightarrow> h)"

definition stamp :: "(string \<Rightarrow> string) \<Rightarrow> audit_chain \<Rightarrow> audit_row \<Rightarrow> audit_row \<times> audit_chain" where
  "stamp sha256 ch e =
     (let (seq, prev) = chain_head ch (ar_tenant_id e);
          e1 = e\<lparr>ar_chain_id := ch_id ch, ar_chain_seq := seq + 1, ar_prev_hash := prev\<rparr>;
          e2 = e1\<lparr>ar_record_hash := record_digest sha256 e1\<rparr>
      in (e2, ch\<lparr>ch_heads := AList.update (ar_tenant_id e) (seq + 1, ar_record_hash e2) (ch_heads ch)\<rparr>))"

fun stamp_all :: "(string \<Rightarrow> string) \<Rightarrow> audit_chain \<Rightarrow> audit_row list \<Rightarrow> audit_row list" where
  "stamp_all sha256 ch [] = []"
| "stamp_all sha256 ch (e # es) = (let (r, ch') = stamp sha256 ch e in r # stamp_all sha256 ch' es)"

definition new_chain :: "string \<Rightarrow> audit_chain" where
  "new_chain cid = \<lparr>ch_id = cid, ch_heads = []\<rparr>"

section \<open>Checking\<close>

record chain_report =
  cr_chains :: nat
  cr_records :: nat
  cr_problems :: "string list"

record chain_verifier =
  cv_report :: chain_report
  cv_key :: "(string \<times> string) option"
  cv_prev_hash :: "string option"
  cv_prev_seq :: "int option"

definition new_verifier :: chain_verifier where
  "new_verifier = \<lparr>cv_report = \<lparr>cr_chains = 0, cr_records = 0, cr_problems = []\<rparr>, cv_key = None,
     cv_prev_hash = None, cv_prev_seq = None\<rparr>"

definition chain_key :: "audit_row \<Rightarrow> string \<times> string" where
  "chain_key r = (ar_chain_id r, ar_tenant_id r)"

definition link_problem :: "string \<Rightarrow> string option \<Rightarrow> int option \<Rightarrow> audit_row \<Rightarrow> string list" where
  "link_problem pos prev_hash prev_seq r =
     (case prev_seq of
        None \<Rightarrow> if ar_chain_seq r = 1 \<and> ar_prev_hash r \<noteq> GENESIS
                 then [pos @ '': first record does not start the chain''] else []
      | Some s \<Rightarrow>
          if ar_chain_seq r \<noteq> s + 1
          then [pos @ '': '' @ str_int (ar_chain_seq r - s - 1) @ '' record(s) missing before this one'']
          else if Some (ar_prev_hash r) \<noteq> prev_hash then [pos @ '': link to previous record broken'']
          else [])"

definition add_row :: "(string \<Rightarrow> string) \<Rightarrow> chain_verifier \<Rightarrow> audit_row \<Rightarrow> chain_verifier" where
  "add_row sha256 v r =
     (if ar_chain_id r = [] then v
      else
        (let changed = (cv_key v \<noteq> Some (chain_key r));
             prev_hash = (if changed then None else cv_prev_hash v);
             prev_seq = (if changed then None else cv_prev_seq v);
             pos = ''chain '' @ take 12 (ar_chain_id r) @ '' tenant '' @ ar_tenant_id r @
                     '' seq '' @ str_int (ar_chain_seq r);
             edited = (if record_digest sha256 r \<noteq> ar_record_hash r
                       then [pos @ '': record changed (hash mismatch)''] else []);
             rep = cv_report v
         in \<lparr>cv_report =
               \<lparr>cr_chains = cr_chains rep + (if changed then 1 else 0), cr_records = cr_records rep + 1,
                cr_problems = cr_problems rep @ edited @ link_problem pos prev_hash prev_seq r\<rparr>,
             cv_key = Some (chain_key r), cv_prev_hash = Some (ar_record_hash r),
             cv_prev_seq = Some (ar_chain_seq r)\<rparr>))"

definition row_order :: "audit_row \<Rightarrow> string \<times> string \<times> int" where
  "row_order r = (ar_chain_id r, ar_tenant_id r, ar_chain_seq r)"

definition verify_chain :: "(string \<Rightarrow> string) \<Rightarrow> audit_row list \<Rightarrow> chain_report" where
  "verify_chain sha256 rows =
     cv_report (foldl (add_row sha256) new_verifier
       (sort_key row_order (filter (\<lambda>r. ar_chain_id r \<noteq> []) rows)))"

section \<open>What an intact log is\<close>

text \<open>
  Independent of any order: every record has the digest of its own fields, no two records share a
  place in a chain, each record but the newest is followed by the one that names its hash, and a
  chain whose first remaining record is number one starts from \<open>GENESIS\<close>.
\<close>

definition chain_intact :: "(string \<Rightarrow> string) \<Rightarrow> audit_row list \<Rightarrow> bool" where
  "chain_intact sha256 rows \<longleftrightarrow>
     (\<forall>r \<in> set rows. record_digest sha256 r = ar_record_hash r) \<and>
     distinct (map row_order rows) \<and>
     (\<forall>r \<in> set rows. \<forall>q \<in> set rows. chain_key r = chain_key q \<and> ar_chain_seq r < ar_chain_seq q \<longrightarrow>
        (\<exists>n \<in> set rows. chain_key n = chain_key r \<and> ar_chain_seq n = ar_chain_seq r + 1 \<and>
           ar_prev_hash n = ar_record_hash r)) \<and>
     (\<forall>r \<in> set rows. ar_chain_seq r = 1 \<and>
        (\<forall>q \<in> set rows. chain_key q = chain_key r \<longrightarrow> ar_chain_seq r \<le> ar_chain_seq q) \<longrightarrow>
        ar_prev_hash r = GENESIS)"

end
