(* ===== verification/Audit_Chain_Props.thy ===== *)
theory Audit_Chain_Props
  imports Audit_Chain
begin

text \<open>
  What checking a chain establishes: the verifier reports no problem exactly for an intact log,
  what this gateway stamps is intact, and a remembered head binds the records before it.
\<close>

section \<open>The verifier as a condition on neighbours\<close>

definition starts_well :: "audit_row \<Rightarrow> bool" where
  "starts_well r \<longleftrightarrow> ar_chain_seq r = 1 \<longrightarrow> ar_prev_hash r = GENESIS"

definition follows :: "audit_row \<Rightarrow> audit_row \<Rightarrow> bool" where
  "follows r q \<longleftrightarrow>
     (if chain_key q = chain_key r
      then ar_chain_seq q = ar_chain_seq r + 1 \<and> ar_prev_hash q = ar_record_hash r
      else starts_well q)"

definition after_row :: "audit_row \<Rightarrow> chain_verifier \<Rightarrow> bool" where
  "after_row r v \<longleftrightarrow> cv_key v = Some (chain_key r) \<and> cv_prev_hash v = Some (ar_record_hash r) \<and>
     cv_prev_seq v = Some (ar_chain_seq r)"

lemma after_add_row: "ar_chain_id r \<noteq> [] \<Longrightarrow> after_row r (add_row sha256 v r)"
  by (simp add: after_row_def add_row_def Let_def)

lemma add_row_first:
  assumes "ar_chain_id r \<noteq> []" "cv_key v \<noteq> Some (chain_key r)"
  shows "cr_problems (cv_report (add_row sha256 v r)) = [] \<longleftrightarrow>
    cr_problems (cv_report v) = [] \<and> record_digest sha256 r = ar_record_hash r \<and> starts_well r"
  using assms by (auto simp: add_row_def link_problem_def starts_well_def Let_def)

lemma add_row_next:
  assumes "ar_chain_id q \<noteq> []" "after_row r v"
  shows "cr_problems (cv_report (add_row sha256 v q)) = [] \<longleftrightarrow>
    cr_problems (cv_report v) = [] \<and> record_digest sha256 q = ar_record_hash q \<and> follows r q"
proof (cases "chain_key q = chain_key r")
  case True
  with assms show ?thesis by (auto simp: add_row_def link_problem_def follows_def after_row_def Let_def)
next
  case False
  with assms(2) have "cv_key v \<noteq> Some (chain_key q)" by (simp add: after_row_def)
  from add_row_first [OF assms(1) this, of sha256] False show ?thesis by (simp add: follows_def)
qed

lemma problems_after:
  assumes "after_row r v" "list_all (\<lambda>q. ar_chain_id q \<noteq> []) qs"
  shows "cr_problems (cv_report (foldl (add_row sha256) v qs)) = [] \<longleftrightarrow>
    cr_problems (cv_report v) = [] \<and> list_all (\<lambda>q. record_digest sha256 q = ar_record_hash q) qs \<and>
    successively follows (r # qs)"
  using assms
proof (induction qs arbitrary: r v)
  case Nil
  then show ?case by simp
next
  case (Cons q qs)
  then have q: "ar_chain_id q \<noteq> []" by simp
  have "after_row q (add_row sha256 v q)" using q by (rule after_add_row)
  from Cons.IH [OF this] Cons.prems add_row_next [OF q Cons.prems(1), of sha256] show ?case by auto
qed

lemma problems_sorted:
  assumes "list_all (\<lambda>q. ar_chain_id q \<noteq> []) (r # qs)"
  shows "cr_problems (cv_report (foldl (add_row sha256) new_verifier (r # qs))) = [] \<longleftrightarrow>
    list_all (\<lambda>q. record_digest sha256 q = ar_record_hash q) (r # qs) \<and> starts_well r \<and>
    successively follows (r # qs)"
proof -
  have r: "ar_chain_id r \<noteq> []" using assms by simp
  have "cv_key new_verifier \<noteq> Some (chain_key r)" by (simp add: new_verifier_def)
  moreover have "after_row r (add_row sha256 new_verifier r)" using r by (rule after_add_row)
  ultimately have "cr_problems (cv_report (add_row sha256 new_verifier r)) = [] \<longleftrightarrow>
      record_digest sha256 r = ar_record_hash r \<and> starts_well r"
    using add_row_first [OF r, of new_verifier sha256] by (simp add: new_verifier_def)
  with problems_after [OF \<open>after_row r (add_row sha256 new_verifier r)\<close>, of qs sha256] assms
  show ?thesis by auto
qed

section \<open>Neighbours and intact logs\<close>

lemma row_order_less:
  "row_order r < row_order q \<longleftrightarrow>
   chain_key r < chain_key q \<or> chain_key r = chain_key q \<and> ar_chain_seq r < ar_chain_seq q"
  by (auto simp: row_order_def chain_key_def less_prod_def')

lemma row_order_eq: "row_order r = row_order q \<longleftrightarrow> chain_key r = chain_key q \<and> ar_chain_seq r = ar_chain_seq q"
  by (auto simp: row_order_def chain_key_def)

lemma strictly_sorted_nth:
  assumes "sorted_wrt (\<lambda>a b. row_order a < row_order b) xs" "i < length xs" "j < length xs"
  shows "row_order (xs ! i) < row_order (xs ! j) \<longleftrightarrow> i < j"
  using assms by (metis linorder_neqE_nat order_less_asym order_less_irrefl sorted_wrt_nth_less)

lemma successively_nth:
  "successively P xs \<Longrightarrow> Suc i < length xs \<Longrightarrow> P (xs ! i) (xs ! Suc i)"
proof (induction xs arbitrary: i rule: induct_list012)
  case (3 x y zs)
  then show ?case by (cases i) auto
qed simp_all

lemma strict_iff:
  "sorted_wrt (\<lambda>a b. row_order a < row_order b) xs \<longleftrightarrow> sorted (map row_order xs) \<and> distinct (map row_order xs)"
  using strict_sorted_iff [of "map row_order xs"] by (simp only: sorted_wrt_map)

lemma neighbours_strict:
  assumes "successively follows xs" "sorted (map row_order xs)"
  shows "sorted_wrt (\<lambda>a b. row_order a < row_order b) xs"
proof -
  have "successively (\<lambda>a b. row_order a < row_order b) xs"
    using assms
  proof (induction xs rule: induct_list012)
    case (3 x y zs)
    have "row_order x \<le> row_order y" using 3(4) by simp
    moreover have "row_order x \<noteq> row_order y" using 3(3) by (auto simp: follows_def row_order_eq)
    ultimately have "row_order x < row_order y" by simp
    then show ?case using 3 by simp
  qed simp_all
  then show ?thesis
    by (subst (asm) successively_iff_sorted_wrt_strong) (auto intro: order_less_trans)
qed

lemma neighbours_intact:
  assumes "successively follows xs" "sorted (map row_order xs)"
    and r: "r \<in> set xs" and q: "q \<in> set xs" "chain_key r = chain_key q" "ar_chain_seq r < ar_chain_seq q"
  shows "\<exists>n \<in> set xs. chain_key n = chain_key r \<and> ar_chain_seq n = ar_chain_seq r + 1 \<and> ar_prev_hash n = ar_record_hash r"
proof -
  note strict = neighbours_strict [OF assms(1,2)]
  from r q(1) obtain i j where i: "i < length xs" "xs ! i = r" and j: "j < length xs" "xs ! j = q"
    by (metis in_set_conv_nth)
  have "row_order r < row_order q" using q by (simp add: row_order_less)
  then have "i < j" using strictly_sorted_nth [OF strict i(1) j(1)] i j by simp
  then have si: "Suc i < length xs" "Suc i \<le> j" using j by simp_all
  let ?n = "xs ! Suc i"
  have fol: "follows r ?n" using assms(1) si(1) i by (metis successively_nth)
  have "row_order r < row_order ?n" using strictly_sorted_nth [OF strict i(1) si(1)] i by simp
  moreover have "row_order ?n \<le> row_order q"
    using strictly_sorted_nth [OF strict j(1) si(1)] j si(2) by (simp add: leI not_less)
  ultimately have "chain_key ?n = chain_key r"
    using q(2) by (auto simp: row_order_less order_le_less row_order_eq)
  with fol si(1) show ?thesis unfolding follows_def by (metis nth_mem)
qed

lemma neighbours_first:
  assumes "successively follows xs" "sorted (map row_order xs)" "xs \<noteq> [] \<Longrightarrow> starts_well (hd xs)"
    and r: "r \<in> set xs" "\<forall>q \<in> set xs. chain_key q = chain_key r \<longrightarrow> ar_chain_seq r \<le> ar_chain_seq q"
  shows "starts_well r"
proof -
  note strict = neighbours_strict [OF assms(1,2)]
  from r(1) obtain i where i: "i < length xs" "xs ! i = r" by (metis in_set_conv_nth)
  show ?thesis
  proof (cases i)
    case 0
    with i assms(3) show ?thesis by (cases xs) auto
  next
    case (Suc j)
    then have f: "follows (xs ! j) r" using successively_nth [OF assms(1), of j] i by simp
    have "row_order (xs ! j) < row_order r" using strictly_sorted_nth [OF strict, of j i] i Suc by simp
    moreover have "xs ! j \<in> set xs" using i Suc by simp
    ultimately have "chain_key (xs ! j) \<noteq> chain_key r" using r(2) by (auto simp: row_order_less)
    with f show ?thesis by (simp add: follows_def)
  qed
qed

lemma intact_neighbours:
  assumes intact: "chain_intact sha256 xs" and sorted: "sorted (map row_order xs)"
  shows "successively follows xs"
proof -
  have strict: "sorted_wrt (\<lambda>a b. row_order a < row_order b) xs"
    unfolding strict_iff using sorted intact chain_intact_def by blast
  have "follows (xs ! i) (xs ! Suc i)" if si: "Suc i < length xs" for i
  proof -
    let ?r = "xs ! i" and ?q = "xs ! Suc i"
    have i: "i < length xs" using si by simp
    have lt: "row_order ?r < row_order ?q" using strictly_sorted_nth [OF strict i si] by simp
    have gap: "\<not> (row_order ?r < row_order n \<and> row_order n < row_order ?q)" if "n \<in> set xs" for n
    proof -
      from that obtain k where "k < length xs" "xs ! k = n" by (metis in_set_conv_nth)
      then show ?thesis
        using strictly_sorted_nth [OF strict i, of k] strictly_sorted_nth [OF strict _ si, of k] by auto
    qed
    show ?thesis
    proof (cases "chain_key ?q = chain_key ?r")
      case True
      with lt have "ar_chain_seq ?r < ar_chain_seq ?q" by (auto simp: row_order_less)
      with intact i si True obtain n where n: "n \<in> set xs" "chain_key n = chain_key ?r"
        "ar_chain_seq n = ar_chain_seq ?r + 1" "ar_prev_hash n = ar_record_hash ?r"
        unfolding chain_intact_def by (metis nth_mem)
      with gap [OF n(1)] True \<open>ar_chain_seq ?r < ar_chain_seq ?q\<close> have "row_order n = row_order ?q"
        by (auto simp: row_order_less row_order_eq)
      then have "n = ?q"
        using intact n(1) si by (metis chain_intact_def distinct_map inj_on_eq_iff nth_mem)
      with n True show ?thesis by (simp add: follows_def)
    next
      case False
      have "ar_chain_seq ?q \<le> ar_chain_seq n" if n: "n \<in> set xs" "chain_key n = chain_key ?q" for n
      proof (rule ccontr)
        assume "\<not> ?thesis"
        then have "row_order n < row_order ?q" using n by (auto simp: row_order_less)
        moreover have "row_order ?r < row_order n"
          using lt False n(2) by (auto simp: row_order_less)
        ultimately show False using gap n(1) by blast
      qed
      then have "starts_well ?q" using intact si unfolding chain_intact_def starts_well_def by (metis nth_mem)
      with False show ?thesis by (simp add: follows_def)
    qed
  qed
  then show ?thesis
  proof (induction xs rule: induct_list012)
    case (3 x y zs)
    have "follows x y" using 3(3) [of 0] by simp
    moreover have "successively follows (y # zs)" using 3(3) [of "Suc _"] by (intro 3(2)) auto
    ultimately show ?case by simp
  qed simp_all
qed

text \<open>Only the set of rows matters to an intact log.\<close>

lemma chain_intact_perm:
  "mset xs = mset ys \<Longrightarrow> chain_intact sha256 xs = chain_intact sha256 ys"
proof -
  assume "mset xs = mset ys"
  then have "set xs = set ys" "distinct (map row_order xs) = distinct (map row_order ys)"
    using mset_eq_setD mset_eq_imp_distinct_iff [of "map row_order xs" "map row_order ys"] by auto
  then show ?thesis by (simp only: chain_intact_def)
qed

lemma intact_iff_problems:
  assumes "list_all (\<lambda>r. ar_chain_id r \<noteq> []) xs" "sorted (map row_order xs)"
  shows "cr_problems (cv_report (foldl (add_row sha256) new_verifier xs)) = [] \<longleftrightarrow> chain_intact sha256 xs"
proof (cases xs)
  case Nil
  then show ?thesis by (simp add: new_verifier_def chain_intact_def)
next
  case (Cons r qs)
  have p: "cr_problems (cv_report (foldl (add_row sha256) new_verifier xs)) = [] \<longleftrightarrow>
      list_all (\<lambda>q. record_digest sha256 q = ar_record_hash q) xs \<and> starts_well (hd xs) \<and> successively follows xs"
    using problems_sorted [of r qs sha256] assms(1) unfolding Cons by simp
  show ?thesis
  proof
    assume "cr_problems (cv_report (foldl (add_row sha256) new_verifier xs)) = []"
    with p have ok: "list_all (\<lambda>q. record_digest sha256 q = ar_record_hash q) xs" "starts_well (hd xs)"
      and suc: "successively follows xs" by blast+
    have "distinct (map row_order xs)"
      using neighbours_strict [OF suc assms(2)] unfolding strict_iff by blast
    then show "chain_intact sha256 xs"
      using ok(1) neighbours_intact [OF suc assms(2)] neighbours_first [OF suc assms(2)] ok(2)
      unfolding chain_intact_def starts_well_def list_all_iff by blast
  next
    assume i: "chain_intact sha256 xs"
    have "starts_well r"
    proof -
      have "ar_chain_seq r \<le> ar_chain_seq q" if "q \<in> set xs" "chain_key q = chain_key r" for q
        using that assms(2) unfolding Cons by (auto simp: row_order_def chain_key_def less_eq_prod_def)
      then show ?thesis using i unfolding chain_intact_def starts_well_def Cons by auto
    qed
    with p i intact_neighbours [OF i assms(2)] Cons
    show "cr_problems (cv_report (foldl (add_row sha256) new_verifier xs)) = []"
      by (auto simp: chain_intact_def list_all_iff)
  qed
qed

text \<open>The verifier's verdict, for use in other proofs.\<close>

lemma problems_iff_intact:
  "cr_problems (verify_chain sha256 rows) = [] \<longleftrightarrow> chain_intact sha256 (filter (\<lambda>r. ar_chain_id r \<noteq> []) rows)"
  using intact_iff_problems [of "sort_key row_order (filter (\<lambda>r. ar_chain_id r \<noteq> []) rows)" sha256]
    chain_intact_perm [of "sort_key row_order (filter (\<lambda>r. ar_chain_id r \<noteq> []) rows)"
      "filter (\<lambda>r. ar_chain_id r \<noteq> []) rows" sha256]
  by (simp add: verify_chain_def list_all_iff)

text \<open>C21. Checking the audit log is exact: the verifier reports no problem if and only if the chained
  rows, in whatever order they are read, are intact: every record has the digest of its fields,
  places in a chain are taken once, each record but the newest is followed by the one that names
  its hash, and a chain that starts at number one starts from the genesis hash.\<close>

theorem verify_chain_exact:
  "cr_problems (verify_chain sha256 rows) = [] \<longleftrightarrow> chain_intact sha256 (filter (\<lambda>r. ar_chain_id r \<noteq> []) rows)"
  by (rule problems_iff_intact)

section \<open>What the gateway stamps\<close>

lemma chain_cells_record_hash [simp]: "chain_cells (r\<lparr>ar_record_hash := h\<rparr>) = chain_cells r"
  by (simp add: chain_cells_def)

lemma record_digest_record_hash [simp]:
  "record_digest sha256 (r\<lparr>ar_record_hash := h\<rparr>) = record_digest sha256 r"
  by (simp add: record_digest_def record_text_def)

text \<open>One event: its place, its link and the head it leaves.\<close>

lemma stamp_result:
  assumes "stamp sha256 ch e = (r, ch')"
  shows "ar_chain_id r = ch_id ch" "ar_tenant_id r = ar_tenant_id e"
    "ar_chain_seq r = fst (chain_head ch (ar_tenant_id e)) + 1"
    "ar_prev_hash r = snd (chain_head ch (ar_tenant_id e))"
    "record_digest sha256 r = ar_record_hash r" "ch_id ch' = ch_id ch"
    "chain_head ch' t = (if t = ar_tenant_id e then (ar_chain_seq r, ar_record_hash r) else chain_head ch t)"
  using assms by (auto simp: stamp_def chain_head_def update_conv' Let_def split: prod.splits)

definition continues :: "(string \<Rightarrow> string) \<Rightarrow> audit_chain \<Rightarrow> audit_row list \<Rightarrow> bool" where
  "continues sha256 ch rs \<longleftrightarrow>
     (\<forall>r \<in> set rs. ar_chain_id r = ch_id ch \<and> record_digest sha256 r = ar_record_hash r \<and>
        fst (chain_head ch (ar_tenant_id r)) < ar_chain_seq r \<and>
        (if ar_chain_seq r = fst (chain_head ch (ar_tenant_id r)) + 1
         then ar_prev_hash r = snd (chain_head ch (ar_tenant_id r))
         else (\<exists>p \<in> set rs. ar_tenant_id p = ar_tenant_id r \<and> ar_chain_seq p + 1 = ar_chain_seq r \<and>
                 ar_prev_hash r = ar_record_hash p))) \<and>
     distinct (map row_order rs)"

lemma stamp_all_continues: "continues sha256 ch (stamp_all sha256 ch es)"
proof (induction es arbitrary: ch)
  case Nil
  then show ?case by (simp add: continues_def)
next
  case (Cons e es)
  obtain r ch' where st: "stamp sha256 ch e = (r, ch')" by fastforce
  note res = stamp_result [OF st]
  let ?rs = "stamp_all sha256 ch' es"
  have c: "continues sha256 ch' ?rs" by (rule Cons.IH)
  have later: "ar_chain_seq r < ar_chain_seq q" if "q \<in> set ?rs" "ar_tenant_id q = ar_tenant_id r" for q
    using c that res(2,7) unfolding continues_def by fastforce
  have ok: "ar_chain_id q = ch_id ch \<and> record_digest sha256 q = ar_record_hash q \<and>
        fst (chain_head ch (ar_tenant_id q)) < ar_chain_seq q \<and>
        (if ar_chain_seq q = fst (chain_head ch (ar_tenant_id q)) + 1
         then ar_prev_hash q = snd (chain_head ch (ar_tenant_id q))
         else (\<exists>p \<in> set (r # ?rs). ar_tenant_id p = ar_tenant_id q \<and> ar_chain_seq p + 1 = ar_chain_seq q \<and>
                 ar_prev_hash q = ar_record_hash p))" if q: "q \<in> set ?rs" for q
  proof (cases "ar_tenant_id q = ar_tenant_id r")
    case True
    then have h: "chain_head ch' (ar_tenant_id q) = (ar_chain_seq r, ar_record_hash r)"
      "fst (chain_head ch (ar_tenant_id q)) + 1 = ar_chain_seq r" using res by simp_all
    with c q later [OF q True] True res show ?thesis
      unfolding continues_def by (auto split: if_splits)
  next
    case False
    then have h: "chain_head ch' (ar_tenant_id q) = chain_head ch (ar_tenant_id q)" using res by simp
    with c q res show ?thesis unfolding continues_def by (auto split: if_splits)
  qed
  have "row_order r \<noteq> row_order q" if "q \<in> set ?rs" for q
    using later [OF that] by (auto simp: row_order_def)
  then have d: "distinct (map row_order (r # ?rs))" using c by (auto simp: continues_def)
  have eq: "stamp_all sha256 ch (e # es) = r # ?rs" by (simp add: st)
  have first: "ar_chain_id r = ch_id ch \<and> record_digest sha256 r = ar_record_hash r \<and>
        fst (chain_head ch (ar_tenant_id r)) < ar_chain_seq r \<and>
        ar_chain_seq r = fst (chain_head ch (ar_tenant_id r)) + 1 \<and>
        ar_prev_hash r = snd (chain_head ch (ar_tenant_id r))"
    using res by simp
  show ?case
    unfolding eq continues_def
  proof (intro conjI [OF ballI d])
    fix q
    assume "q \<in> set (r # ?rs)"
    then consider "q = r" | "q \<in> set ?rs" by auto
    then show "ar_chain_id q = ch_id ch \<and> record_digest sha256 q = ar_record_hash q \<and>
        fst (chain_head ch (ar_tenant_id q)) < ar_chain_seq q \<and>
        (if ar_chain_seq q = fst (chain_head ch (ar_tenant_id q)) + 1
         then ar_prev_hash q = snd (chain_head ch (ar_tenant_id q))
         else (\<exists>p \<in> set (r # ?rs). ar_tenant_id p = ar_tenant_id q \<and> ar_chain_seq p + 1 = ar_chain_seq q \<and>
                 ar_prev_hash q = ar_record_hash p))"
    proof cases
      case 1
      with first show ?thesis by simp
    next
      case 2
      then show ?thesis by (rule ok)
    qed
  qed
qed

text \<open>Below a record of a chain that started here, every number is taken.\<close>

lemma continues_dense:
  assumes c: "continues sha256 ch rs" and q: "q \<in> set rs"
    and k: "fst (chain_head ch (ar_tenant_id q)) < k" "k \<le> ar_chain_seq q"
  shows "\<exists>n \<in> set rs. ar_tenant_id n = ar_tenant_id q \<and> ar_chain_seq n = k"
  using q k
proof (induction "nat (ar_chain_seq q - k)" arbitrary: q)
  case 0
  then show ?case by auto
next
  case (Suc d)
  then have "ar_chain_seq q \<noteq> fst (chain_head ch (ar_tenant_id q)) + 1" by simp
  with c Suc.prems(1) obtain p where p: "p \<in> set rs" "ar_tenant_id p = ar_tenant_id q" "ar_chain_seq p + 1 = ar_chain_seq q"
    unfolding continues_def by (auto split: if_splits)
  have "d = nat (ar_chain_seq p - k)" "k \<le> ar_chain_seq p" using Suc.hyps(2) Suc.prems(3) p(3) by simp_all
  from Suc.hyps(1) [OF this(1) p(1)] p Suc.prems this(2) show ?case by simp
qed

lemma continues_successor:
  assumes c: "continues sha256 ch rs" and r: "r \<in> set rs" "q \<in> set rs" "ar_tenant_id r = ar_tenant_id q" "ar_chain_seq r < ar_chain_seq q"
  shows "\<exists>n \<in> set rs. ar_tenant_id n = ar_tenant_id r \<and> ar_chain_seq n = ar_chain_seq r + 1 \<and> ar_prev_hash n = ar_record_hash r"
proof -
  have h: "fst (chain_head ch (ar_tenant_id q)) < ar_chain_seq r" using c r(1,3) unfolding continues_def by auto
  obtain n where n: "n \<in> set rs" "ar_tenant_id n = ar_tenant_id q" "ar_chain_seq n = ar_chain_seq r + 1"
    using continues_dense [OF c r(2), of "ar_chain_seq r + 1"] h r(4) by auto
  then obtain p where p: "p \<in> set rs" "ar_tenant_id p = ar_tenant_id n" "ar_chain_seq p + 1 = ar_chain_seq n"
    "ar_prev_hash n = ar_record_hash p"
    using c h unfolding continues_def by (auto split: if_splits)
  have "row_order p = row_order r" using c p n r unfolding continues_def row_order_def by auto
  then have "p = r" using c p(1) r(1) unfolding continues_def by (metis distinct_map inj_on_eq_iff)
  with n p r(3) show ?thesis by auto
qed

definition gateway_log :: "(string \<Rightarrow> string) \<Rightarrow> (string \<times> audit_row list) list \<Rightarrow> audit_row list" where
  "gateway_log sha256 runs = concat (map (\<lambda>(cid, es). stamp_all sha256 (new_chain cid) es) runs)"

lemma new_chain_simps [simp]: "ch_id (new_chain cid) = cid" "chain_head (new_chain cid) t = (0, GENESIS)"
  by (simp_all add: new_chain_def chain_head_def)

lemma gateway_log_in:
  "r \<in> set (gateway_log sha256 runs) \<longleftrightarrow> (\<exists>(cid, es) \<in> set runs. r \<in> set (stamp_all sha256 (new_chain cid) es))"
  by (auto simp: gateway_log_def)

lemma gateway_log_chain:
  assumes "(cid, es) \<in> set runs" "r \<in> set (stamp_all sha256 (new_chain cid) es)"
  shows "ar_chain_id r = cid"
  using stamp_all_continues [of sha256 "new_chain cid" es] assms(2) by (auto simp: continues_def)

lemma gateway_log_distinct:
  assumes "distinct (map fst runs)"
  shows "distinct (map row_order (gateway_log sha256 runs))"
  using assms
proof (induction runs)
  case Nil
  then show ?case by (simp add: gateway_log_def)
next
  case (Cons run runs)
  obtain cid es where run: "run = (cid, es)" by fastforce
  let ?rs = "stamp_all sha256 (new_chain cid) es"
  have split: "gateway_log sha256 (run # runs) = ?rs @ gateway_log sha256 runs"
    by (simp add: gateway_log_def run)
  have d1: "distinct (map row_order ?rs)"
    using stamp_all_continues [of sha256 "new_chain cid" es] by (simp add: continues_def)
  have d2: "distinct (map row_order (gateway_log sha256 runs))" using Cons by simp
  have "row_order r \<noteq> row_order q" if r: "r \<in> set ?rs" and q: "q \<in> set (gateway_log sha256 runs)" for r q
  proof -
    have "ar_chain_id r = cid" using gateway_log_chain [of cid es "[run]"] r run by simp
    moreover have "ar_chain_id q \<noteq> cid"
      using q gateway_log_chain [of _ _ runs q] Cons.prems run unfolding gateway_log_in by force
    ultimately show ?thesis by (auto simp: row_order_def)
  qed
  then have "set (map row_order ?rs) \<inter> set (map row_order (gateway_log sha256 runs)) = {}"
    unfolding set_map by blast
  with d1 d2 show ?case unfolding split map_append distinct_append by blast
qed

lemma gateway_log_intact:
  assumes "distinct (map fst runs)"
  shows "chain_intact sha256 (filter (\<lambda>r. oldest (chain_key r) \<le> ar_chain_seq r) (gateway_log sha256 runs))"
proof -
  let ?all = "gateway_log sha256 runs"
  let ?kept = "filter (\<lambda>r. oldest (chain_key r) \<le> ar_chain_seq r) ?all"
  have run: "\<exists>cid es. (cid, es) \<in> set runs \<and> r \<in> set (stamp_all sha256 (new_chain cid) es) \<and> ar_chain_id r = cid"
    if "r \<in> set ?all" for r
  proof -
    from that obtain cid es where a: "(cid, es) \<in> set runs" "r \<in> set (stamp_all sha256 (new_chain cid) es)"
      by (auto simp: gateway_log_in)
    with gateway_log_chain [OF a] show ?thesis by blast
  qed
  have digest: "record_digest sha256 r = ar_record_hash r" and start: "ar_chain_seq r = 1 \<Longrightarrow> ar_prev_hash r = GENESIS"
    if r: "r \<in> set ?all" for r
  proof -
    obtain cid es where "r \<in> set (stamp_all sha256 (new_chain cid) es)" using run [OF r] by blast
    with stamp_all_continues [of sha256 "new_chain cid" es]
    show "record_digest sha256 r = ar_record_hash r" "ar_chain_seq r = 1 \<Longrightarrow> ar_prev_hash r = GENESIS"
      by (auto simp: continues_def)
  qed
  have succ: "\<exists>n \<in> set ?all. chain_key n = chain_key r \<and> ar_chain_seq n = ar_chain_seq r + 1 \<and> ar_prev_hash n = ar_record_hash r"
    if r: "r \<in> set ?all" and q: "q \<in> set ?all" "chain_key r = chain_key q" "ar_chain_seq r < ar_chain_seq q" for r q
  proof -
    obtain cid es where a: "(cid, es) \<in> set runs" "r \<in> set (stamp_all sha256 (new_chain cid) es)" "ar_chain_id r = cid"
      using run [OF r] by blast
    obtain cid' es' where b: "(cid', es') \<in> set runs" "q \<in> set (stamp_all sha256 (new_chain cid') es')" "ar_chain_id q = cid'"
      using run [OF q(1)] by blast
    have "cid' = cid" using a b q(2) by (simp add: chain_key_def)
    then have "es' = es" using a b assms by (metis eq_key_imp_eq_value)
    with \<open>cid' = cid\<close> b have q': "q \<in> set (stamp_all sha256 (new_chain cid) es)" by simp
    obtain n where n: "n \<in> set (stamp_all sha256 (new_chain cid) es)" "ar_tenant_id n = ar_tenant_id r"
      "ar_chain_seq n = ar_chain_seq r + 1" "ar_prev_hash n = ar_record_hash r"
      using continues_successor [OF stamp_all_continues a(2) q'] q(2,3) by (auto simp: chain_key_def)
    moreover have "n \<in> set ?all" using a(1) n(1) by (auto simp: gateway_log_in)
    moreover have "ar_chain_id n = cid" using gateway_log_chain [OF a(1) n(1)] .
    ultimately show ?thesis using a(3) by (auto simp: chain_key_def)
  qed
  have d: "distinct (map row_order ?kept)"
    using gateway_log_distinct [OF assms, of sha256] by (simp add: distinct_map_filter)
  have kept: "\<exists>n \<in> set ?kept. chain_key n = chain_key r \<and> ar_chain_seq n = ar_chain_seq r + 1 \<and> ar_prev_hash n = ar_record_hash r"
    if r: "r \<in> set ?kept" and q: "q \<in> set ?kept" "chain_key r = chain_key q" "ar_chain_seq r < ar_chain_seq q" for r q
  proof -
    obtain n where n: "n \<in> set ?all" "chain_key n = chain_key r" "ar_chain_seq n = ar_chain_seq r + 1" "ar_prev_hash n = ar_record_hash r"
      using succ [of r q] r q by auto
    moreover from n r have "oldest (chain_key n) \<le> ar_chain_seq n" by simp
    ultimately show ?thesis by auto
  qed
  show ?thesis
    unfolding chain_intact_def
  proof (intro conjI ballI impI d)
    fix r
    assume "r \<in> set ?kept"
    then show "record_digest sha256 r = ar_record_hash r" using digest by simp
  next
    fix r q
    assume "r \<in> set ?kept" "q \<in> set ?kept" "chain_key r = chain_key q \<and> ar_chain_seq r < ar_chain_seq q"
    then show "\<exists>n \<in> set ?kept. chain_key n = chain_key r \<and> ar_chain_seq n = ar_chain_seq r + 1 \<and>
        ar_prev_hash n = ar_record_hash r"
      using kept [of r q] by blast
  next
    fix r
    assume "r \<in> set ?kept" "ar_chain_seq r = 1 \<and>
        (\<forall>q \<in> set ?kept. chain_key q = chain_key r \<longrightarrow> ar_chain_seq r \<le> ar_chain_seq q)"
    then show "ar_prev_hash r = GENESIS" using start by simp
  qed
qed

lemma chain_intact_filter:
  assumes "chain_intact sha256 rows"
  shows "chain_intact sha256 (filter (\<lambda>r. P (chain_key r)) rows)"
  unfolding chain_intact_def
proof (intro conjI ballI impI)
  let ?f = "filter (\<lambda>r. P (chain_key r)) rows"
  show "distinct (map row_order ?f)"
    using assms by (simp add: chain_intact_def distinct_map_filter)
  fix r
  assume r: "r \<in> set ?f"
  then show "record_digest sha256 r = ar_record_hash r" using assms by (simp add: chain_intact_def)
  show "\<exists>n \<in> set ?f. chain_key n = chain_key r \<and> ar_chain_seq n = ar_chain_seq r + 1 \<and> ar_prev_hash n = ar_record_hash r"
    if "q \<in> set ?f" "chain_key r = chain_key q \<and> ar_chain_seq r < ar_chain_seq q" for q
  proof -
    have "r \<in> set rows" "q \<in> set rows" using r that by simp_all
    with assms that(2) obtain n where "n \<in> set rows" "chain_key n = chain_key r" "ar_chain_seq n = ar_chain_seq r + 1"
      "ar_prev_hash n = ar_record_hash r"
      unfolding chain_intact_def by blast
    moreover from this r have "n \<in> set ?f" by simp
    ultimately show ?thesis by blast
  qed
  show "ar_prev_hash r = GENESIS"
    if "ar_chain_seq r = 1 \<and> (\<forall>q \<in> set ?f. chain_key q = chain_key r \<longrightarrow> ar_chain_seq r \<le> ar_chain_seq q)"
  proof -
    have "\<forall>q \<in> set rows. chain_key q = chain_key r \<longrightarrow> ar_chain_seq r \<le> ar_chain_seq q"
      using that r by auto
    with that r assms show ?thesis unfolding chain_intact_def by simp
  qed
qed

text \<open>C22. The log of this gateway verifies: whatever events any number of processes (with different
  chain ids) stamp for any tenants, whatever start of each chain retention has dropped, and in
  whatever order the remaining rows are read, checking them reports no problem.\<close>

theorem stamped_log_verifies:
  assumes "distinct (map fst runs)"
    and "mset rows = mset (filter (\<lambda>r. oldest (chain_key r) \<le> ar_chain_seq r) (gateway_log sha256 runs))"
  shows "cr_problems (verify_chain sha256 rows) = []"
proof -
  have "chain_intact sha256 rows"
    using gateway_log_intact [OF assms(1), of sha256 oldest] chain_intact_perm [OF assms(2)] by blast
  from chain_intact_filter [OF this, of "\<lambda>k. fst k \<noteq> []"] show ?thesis
    by (simp add: problems_iff_intact chain_key_def)
qed

section \<open>What a remembered head proves\<close>

lemma chain_cells_inject:
  "record_text r = record_text q \<longleftrightarrow> chain_cells r = chain_cells q"
  unfolding record_text_def by (rule object_text_inject) (simp add: chain_cells_def)

lemma chain_cells_fields:
  assumes "chain_cells r = chain_cells q"
  shows "ar_chain_seq r = ar_chain_seq q" "ar_prev_hash r = ar_prev_hash q" "chain_key r = chain_key q"
    "ar_decision r = ar_decision q" "ar_reason r = ar_reason q"
  using assms by (simp_all add: chain_cells_def chain_key_def)

text \<open>Walking two intact logs back from one hash.\<close>

lemma head_walk:
  assumes i1: "chain_intact sha256 xs" and i2: "chain_intact sha256 ys"
    and inj: "inj_on sha256 (record_text ` (set xs \<union> set ys))"
    and r: "r1 \<in> set xs" "r2 \<in> set ys" "ar_record_hash r1 = ar_record_hash r2"
  shows "q1 \<in> set xs \<Longrightarrow> q2 \<in> set ys \<Longrightarrow> chain_key q1 = chain_key r1 \<Longrightarrow> chain_key q2 = chain_key r1 \<Longrightarrow>
    ar_chain_seq q1 = ar_chain_seq q2 \<Longrightarrow> ar_chain_seq q1 \<le> ar_chain_seq r1 \<Longrightarrow> chain_cells q1 = chain_cells q2"
proof (induction "nat (ar_chain_seq r1 - ar_chain_seq q1)" arbitrary: q1 q2)
  have cells: "chain_cells a = chain_cells b" if "a \<in> set xs" "b \<in> set ys" "ar_record_hash a = ar_record_hash b" for a b
  proof -
    have "sha256 (record_text a) = sha256 (record_text b)"
      using i1 i2 that unfolding chain_intact_def record_digest_def by metis
    then have "record_text a = record_text b" using inj that by (meson Un_iff imageI inj_onD)
    then show ?thesis by (simp add: chain_cells_inject)
  qed
  note same = cells [OF r]
  have unique: "a = b" if "a \<in> set zs" "b \<in> set zs" "chain_key a = chain_key b" "ar_chain_seq a = ar_chain_seq b"
      "chain_intact sha256 zs" for a b zs
    using that unfolding chain_intact_def by (metis distinct_map inj_onD row_order_eq)
  {
    case 0
    then have s: "ar_chain_seq q1 = ar_chain_seq r1" by simp
    have "q1 = r1" using unique [OF 0(2) r(1) _ s i1] 0 by simp
    moreover have "q2 = r2"
      using unique [OF 0(3) r(2) _ _ i2] 0 s chain_cells_fields [OF same] by simp
    ultimately show ?case using same by simp
  next
    case (Suc d)
    then have lt: "ar_chain_seq q1 < ar_chain_seq r1" by simp
    with Suc(3,5) r(1) i1 obtain n1 where n1: "n1 \<in> set xs" "chain_key n1 = chain_key q1"
      "ar_chain_seq n1 = ar_chain_seq q1 + 1" "ar_prev_hash n1 = ar_record_hash q1"
      unfolding chain_intact_def by blast
    have "chain_key q2 = chain_key r2" "ar_chain_seq q2 < ar_chain_seq r2"
      using Suc lt chain_cells_fields [OF same] by simp_all
    with Suc(4) r(2) i2 obtain n2 where n2: "n2 \<in> set ys" "chain_key n2 = chain_key q2"
      "ar_chain_seq n2 = ar_chain_seq q2 + 1" "ar_prev_hash n2 = ar_record_hash q2"
      unfolding chain_intact_def by blast
    have "chain_cells n1 = chain_cells n2"
      by (rule Suc(1)) (use Suc(2-) n1 n2 lt in auto)
    then have "ar_record_hash q1 = ar_record_hash q2" using n1(4) n2(4) chain_cells_fields(2) by metis
    with cells Suc(3,4) show ?case by blast
  }
qed

text \<open>Between a first record and the head no record can be missing.\<close>

lemma intact_dense:
  assumes i: "chain_intact sha256 ys" and f: "f \<in> set ys" and r: "r \<in> set ys" "chain_key f = chain_key r"
    and k: "ar_chain_seq f \<le> k" "k \<le> ar_chain_seq r"
  shows "\<exists>q \<in> set ys. chain_key q = chain_key r \<and> ar_chain_seq q = k"
  using k
proof (induction "nat (k - ar_chain_seq f)" arbitrary: k)
  case 0
  with f r(2) show ?case by (intro bexI [of _ f]) auto
next
  case (Suc d)
  have "d = nat ((k - 1) - ar_chain_seq f)" "ar_chain_seq f \<le> k - 1" "k - 1 \<le> ar_chain_seq r"
    using Suc(2-) by auto
  from Suc(1) [OF this] obtain q where "q \<in> set ys" "chain_key q = chain_key r" "ar_chain_seq q = k - 1" by blast
  moreover from this have "ar_chain_seq q < ar_chain_seq r" using Suc(4) by simp
  ultimately obtain n where "n \<in> set ys" "chain_key n = chain_key q" "ar_chain_seq n = ar_chain_seq q + 1"
    using i r(1) unfolding chain_intact_def by metis
  with \<open>chain_key q = chain_key r\<close> \<open>ar_chain_seq q = k - 1\<close> show ?case by auto
qed


text \<open>What the chain does not protect: the report is the same whatever the columns outside the
  digest hold (who asked for what, the policy's and the guardrails' results, the reason codes), so
  editing those goes unnoticed even by a check that remembers every hash.\<close>

theorem uncovered_columns_unprotected:
  "verify_chain sha256 (map (\<lambda>r. r\<lparr>ar_rest := edited r\<rparr>) rows) = verify_chain sha256 rows"
proof -
  let ?e = "\<lambda>r. r\<lparr>ar_rest := edited r\<rparr>"
  have cells: "record_digest sha256 (?e r) = record_digest sha256 r" for r
    by (simp add: record_digest_def record_text_def chain_cells_def)
  have link: "link_problem pos ph ps (?e r) = link_problem pos ph ps r" for pos ph ps r
    by (simp add: link_problem_def split: option.split)
  have key: "chain_key (?e r) = chain_key r" for r by (simp add: chain_key_def)
  have add: "add_row sha256 v (?e r) = add_row sha256 v r" for v r
    by (simp add: add_row_def cells link key)
  have fold: "foldl (add_row sha256) v (map ?e rs) = foldl (add_row sha256) v rs" for v rs
    by (induction rs arbitrary: v) (simp_all add: add)
  have order: "row_order (?e r) = row_order r" for r by (simp add: row_order_def)
  have ins: "insort_key row_order (?e r) (map ?e rs) = map ?e (insort_key row_order r rs)" for r rs
    by (induction rs) (simp_all add: order)
  have sort: "sort_key row_order (map ?e rs) = map ?e (sort_key row_order rs)" for rs
    by (induction rs) (simp_all add: ins sort_key_def)
  show ?thesis by (simp add: verify_chain_def filter_map o_def sort fold)
qed

section \<open>An example\<close>

definition ex_event :: "string \<Rightarrow> string \<Rightarrow> audit_row" where
  "ex_event rid d = \<lparr>ar_id = rid, ar_created_at = ''2026-01-01T00:00:00.000000+00:00'', ar_tenant_id = ''demo'',
     ar_request_id = rid, ar_stage = ''input'', ar_agent_id = ''bot'', ar_decision = d, ar_outcome = None,
     ar_reason = ''ok'', ar_risk_score = 20, ar_payload_sha256 = ''p'', ar_snapshot_version = ''v1'',
     ar_chain_id = [], ar_chain_seq = 0, ar_prev_hash = [], ar_record_hash = [], ar_rest = []\<rparr>"

text \<open>A digest without collisions: the text itself.\<close>

definition ex_sha :: "string \<Rightarrow> string" where
  "ex_sha s = s"

definition ex_log :: "audit_row list" where
  "ex_log = gateway_log ex_sha [(''c1'', [ex_event ''r1'' ''allow'', ex_event ''r2'' ''block''])]"

theorem stamped_log_verifies_witness:
  "cr_problems (verify_chain ex_sha (rev ex_log)) = []"
proof -
  have "filter (\<lambda>r. (\<lambda>_. 1) (chain_key r) \<le> ar_chain_seq r) ex_log = ex_log"
    by (simp add: ex_log_def gateway_log_def stamp_def chain_head_def new_chain_def Let_def)
  then show ?thesis
    using stamped_log_verifies [of "[(''c1'', [ex_event ''r1'' ''allow'', ex_event ''r2'' ''block''])]"
        "rev ex_log" "\<lambda>_. 1" ex_sha]
    by (simp add: ex_log_def)
qed

lemma ex_log_rows:
  "length ex_log = 2" "chain_key (ex_log ! 0) = chain_key (ex_log ! 1)"
  "ar_chain_seq (ex_log ! 0) = 1" "ar_chain_seq (ex_log ! 1) = 2" "ar_chain_id (ex_log ! 1) = ''c1''"
  by (simp_all add: ex_log_def gateway_log_def stamp_def chain_head_def new_chain_def ex_event_def chain_key_def Let_def)

lemma ex_log_clean: "cr_problems (verify_chain ex_sha ex_log) = []"
proof -
  let ?runs = "[(''c1'', [ex_event ''r1'' ''allow'', ex_event ''r2'' ''block''])]"
  have "filter (\<lambda>r. (\<lambda>_. 1) (chain_key r) \<le> ar_chain_seq r) ex_log = ex_log"
    by (simp add: ex_log_def gateway_log_def stamp_def chain_head_def new_chain_def Let_def)
  then have "chain_intact ex_sha ex_log"
    using gateway_log_intact [of ?runs ex_sha "\<lambda>_. 1"] by (simp add: ex_log_def)
  from chain_intact_filter [OF this, of "\<lambda>k. fst k \<noteq> []"] show ?thesis
    by (simp add: problems_iff_intact chain_key_def)
qed


end
