(* ===== verification/Audit_Writer.thy ===== *)
theory Audit_Writer
  imports Audit_Chain
begin

text \<open>
  The background writer of audit events (\<^verbatim>\<open>app/audit/writer.py\<close>) and its disk spool
  (\<^verbatim>\<open>app/audit/spool.py\<close>). The event loop interleaves the methods between their \<open>await\<close>s, so each
  step below is one uninterrupted piece of them. What the environment decides is an argument: the
  clock and the file system at an append, whether an insert is committed, whether a spool file can
  be read. The bytes a file takes are a parameter.
\<close>

section \<open>The spool\<close>

record spool_file =
  sf_ns :: int
  sf_uid :: string
  sf_events :: "audit_row list"

record audit_spool =
  sp_max_bytes :: nat
  sp_size :: nat
  sp_last_ns :: int
  sp_files :: "spool_file list"
  sp_bad :: "spool_file list"

record disk =
  dk_now_ns :: int
  dk_uid :: string
  dk_writable :: bool

definition spool_files :: "audit_spool \<Rightarrow> spool_file list" where
  "spool_files sp = sort_key (\<lambda>f. (sf_ns f, sf_uid f)) (sp_files sp)"

definition spool_append ::
  "(audit_row list \<Rightarrow> nat) \<Rightarrow> disk \<Rightarrow> audit_row list \<Rightarrow> audit_spool \<Rightarrow> bool \<times> audit_spool" where
  "spool_append bytes dk events sp =
     (if events = [] then (True, sp)
      else if sp_max_bytes sp < sp_size sp + bytes events then (False, sp)
      else
        (let ns = max (dk_now_ns dk) (sp_last_ns sp + 1);
             named = sp\<lparr>sp_last_ns := ns\<rparr>
         in if \<not> dk_writable dk then (False, named)
            else (True, named\<lparr>sp_files := sp_files sp @ [\<lparr>sf_ns = ns, sf_uid = dk_uid dk, sf_events = events\<rparr>],
                              sp_size := sp_size sp + bytes events\<rparr>)))"

definition spool_remove :: "(audit_row list \<Rightarrow> nat) \<Rightarrow> spool_file \<Rightarrow> audit_spool \<Rightarrow> audit_spool" where
  "spool_remove bytes f sp =
     sp\<lparr>sp_files := filter (\<lambda>g. g \<noteq> f) (sp_files sp), sp_size := sp_size sp - bytes (sf_events f)\<rparr>"

definition spool_quarantine :: "(audit_row list \<Rightarrow> nat) \<Rightarrow> spool_file \<Rightarrow> audit_spool \<Rightarrow> audit_spool" where
  "spool_quarantine bytes f sp = (spool_remove bytes f sp)\<lparr>sp_bad := sp_bad sp @ [f]\<rparr>"

section \<open>The writer\<close>

record audit_writer =
  aw_chain :: "audit_chain option"
  aw_queue_size :: nat
  aw_batch_size :: nat
  aw_outbox_on :: bool
  aw_spool :: "audit_spool option"
  aw_queue :: "audit_row list"
  aw_inflight :: "audit_row list"
  aw_overflow :: "audit_row list"
  aw_dropped :: "audit_row list"
  aw_table :: "audit_row list"
  aw_outbox :: "string list"
  aw_heads :: "((string \<times> string) \<times> (int \<times> string)) list"

definition overflow_max :: "audit_writer \<Rightarrow> nat" where
  "overflow_max w = max 1000 (aw_queue_size w)"

definition drop_events :: "audit_row list \<Rightarrow> audit_writer \<Rightarrow> audit_writer" where
  "drop_events es w = w\<lparr>aw_dropped := aw_dropped w @ es\<rparr>"

text \<open>An \<open>asyncio.Queue\<close> of size 0 is unbounded.\<close>

definition queue_full :: "audit_writer \<Rightarrow> bool" where
  "queue_full w \<longleftrightarrow> 0 < aw_queue_size w \<and> aw_queue_size w \<le> length (aw_queue w)"

definition enqueue :: "audit_row \<Rightarrow> audit_writer \<Rightarrow> audit_writer" where
  "enqueue e w =
     (if \<not> queue_full w then w\<lparr>aw_queue := aw_queue w @ [e]\<rparr>
      else if aw_spool w \<noteq> None \<and> length (aw_overflow w) < overflow_max w
      then w\<lparr>aw_overflow := aw_overflow w @ [e]\<rparr>
      else drop_events [e] w)"

definition stamped :: "(string \<Rightarrow> string) \<Rightarrow> audit_row \<Rightarrow> audit_writer \<Rightarrow> audit_row \<times> audit_writer" where
  "stamped sha256 e w =
     (case aw_chain w of
        None \<Rightarrow> (e, w)
      | Some ch \<Rightarrow> (let (e', ch') = stamp sha256 ch e in (e', w\<lparr>aw_chain := Some ch'\<rparr>)))"

definition submit :: "(string \<Rightarrow> string) \<Rightarrow> audit_row \<Rightarrow> audit_writer \<Rightarrow> audit_writer" where
  "submit sha256 e w = (let (e', w') = stamped sha256 e w in enqueue e' w')"

definition spill :: "(audit_row list \<Rightarrow> nat) \<Rightarrow> disk \<Rightarrow> audit_row list \<Rightarrow> audit_writer \<Rightarrow> audit_writer" where
  "spill bytes dk events w =
     (if events = [] then w
      else
        (case aw_spool w of
           None \<Rightarrow> drop_events events w
         | Some sp \<Rightarrow>
             (let (kept, sp') = spool_append bytes dk events sp;
                  w' = w\<lparr>aw_spool := Some sp'\<rparr>
              in if kept then w' else drop_events events w')))"

definition flush_overflow :: "(audit_row list \<Rightarrow> nat) \<Rightarrow> disk \<Rightarrow> audit_writer \<Rightarrow> audit_writer" where
  "flush_overflow bytes dk w = spill bytes dk (aw_overflow w) (w\<lparr>aw_overflow := []\<rparr>)"

text \<open>The insert of a batch, when it commits: \<open>ON CONFLICT DO NOTHING\<close> in both tables.\<close>

definition insert_new :: "audit_row list \<Rightarrow> audit_row \<Rightarrow> audit_row list" where
  "insert_new tbl e = (if ar_id e \<in> ar_id ` set tbl then tbl else tbl @ [e])"

definition insert_id :: "string list \<Rightarrow> audit_row \<Rightarrow> string list" where
  "insert_id ids e = (if ar_id e \<in> set ids then ids else ids @ [ar_id e])"

definition note_head ::
  "((string \<times> string) \<times> (int \<times> string)) list \<Rightarrow> audit_row \<Rightarrow> ((string \<times> string) \<times> (int \<times> string)) list" where
  "note_head heads e =
     (if ar_chain_id e \<noteq> [] \<and> ar_record_hash e \<noteq> [] \<and>
         (case map_of heads (chain_key e) of None \<Rightarrow> 0 | Some h \<Rightarrow> fst h) < ar_chain_seq e
      then AList.update (chain_key e) (ar_chain_seq e, ar_record_hash e) heads else heads)"

definition write_batch :: "audit_row list \<Rightarrow> audit_writer \<Rightarrow> audit_writer" where
  "write_batch batch w =
     w\<lparr>aw_table := foldl insert_new (aw_table w) batch,
       aw_outbox := (if aw_outbox_on w then foldl insert_id (aw_outbox w) batch else aw_outbox w),
       aw_heads := foldl note_head (aw_heads w) batch\<rparr>"

text \<open>\<open>_take_batch\<close>: what is in flight is topped up with what arrives before the deadline.\<close>

definition take_batch :: "nat \<Rightarrow> audit_writer \<Rightarrow> audit_writer" where
  "take_batch arrived w =
     (let n = min arrived (aw_batch_size w - length (aw_inflight w))
      in w\<lparr>aw_inflight := aw_inflight w @ take n (aw_queue w), aw_queue := drop n (aw_queue w)\<rparr>)"

text \<open>One turn of \<open>_run\<close> after the batch is taken: three attempts, then the spool.\<close>

definition write_inflight ::
  "(audit_row list \<Rightarrow> nat) \<Rightarrow> bool list \<Rightarrow> disk \<Rightarrow> audit_writer \<Rightarrow> audit_writer" where
  "write_inflight bytes commits dk w =
     (let batch = aw_inflight w;
          w' = (if list_ex (\<lambda>ok. ok) (take 3 commits) then write_batch batch w else spill bytes dk batch w)
      in w'\<lparr>aw_inflight := []\<rparr>)"

text \<open>\<open>range(0, len(xs), n)\<close>: batches of \<open>n\<close>; a batch size of zero raises before anything is done.\<close>

function batches :: "nat \<Rightarrow> 'a list \<Rightarrow> 'a list list" where
  "batches n xs = (if n = 0 \<or> xs = [] then [] else take n xs # batches n (drop n xs))"
  by pat_completeness auto

termination
  by (relation "measure (\<lambda>(n, xs). length xs)") auto

declare batches.simps [simp del]

text \<open>The batches of one file until an insert fails; whether all were committed.\<close>

fun write_until_failure :: "bool list \<Rightarrow> audit_row list list \<Rightarrow> audit_writer \<Rightarrow> bool \<times> audit_writer" where
  "write_until_failure commits [] w = (True, w)"
| "write_until_failure commits (b # bs) w =
     (case commits of
        True # rest \<Rightarrow> write_until_failure rest bs (write_batch b w)
      | _ \<Rightarrow> (False, w))"

definition with_spool :: "(audit_spool \<Rightarrow> audit_spool) \<Rightarrow> audit_writer \<Rightarrow> audit_writer" where
  "with_spool f w = w\<lparr>aw_spool := map_option f (aw_spool w)\<rparr>"

text \<open>The files of \<open>replay_spool\<close>, oldest first: unreadable ones are set aside, the first failing
  insert ends the replay, a written file is removed.\<close>

fun replay_files ::
  "(audit_row list \<Rightarrow> nat) \<Rightarrow> (spool_file \<Rightarrow> bool) \<Rightarrow> (spool_file \<Rightarrow> bool list) \<Rightarrow> spool_file list \<Rightarrow>
   audit_writer \<Rightarrow> audit_writer" where
  "replay_files bytes readable commits [] w = w"
| "replay_files bytes readable commits (f # fs) w =
     (if \<not> readable f then replay_files bytes readable commits fs (with_spool (spool_quarantine bytes f) w)
      else
        (case write_until_failure (commits f) (batches (aw_batch_size w) (sf_events f)) w of
           (False, w') \<Rightarrow> w'
         | (True, w') \<Rightarrow> replay_files bytes readable commits fs (with_spool (spool_remove bytes f) w')))"

definition replay_spool ::
  "(audit_row list \<Rightarrow> nat) \<Rightarrow> (spool_file \<Rightarrow> bool) \<Rightarrow> (spool_file \<Rightarrow> bool list) \<Rightarrow> audit_writer \<Rightarrow> audit_writer" where
  "replay_spool bytes readable commits w =
     (case aw_spool w of None \<Rightarrow> w | Some sp \<Rightarrow> replay_files bytes readable commits (spool_files sp) w)"

text \<open>At shutdown: every batch is written in time or spooled.\<close>

definition safe_write ::
  "(audit_row list \<Rightarrow> nat) \<Rightarrow> (audit_row list \<Rightarrow> bool) \<Rightarrow> disk \<Rightarrow> audit_row list \<Rightarrow> audit_writer \<Rightarrow> audit_writer" where
  "safe_write bytes commits dk b w = (if commits b then write_batch b w else spill bytes dk b w)"

definition drain ::
  "(audit_row list \<Rightarrow> nat) \<Rightarrow> (audit_row list \<Rightarrow> bool) \<Rightarrow> disk \<Rightarrow> audit_writer \<Rightarrow> audit_writer" where
  "drain bytes commits dk w =
     (let pending = aw_inflight w @ aw_overflow w @ aw_queue w
      in fold (safe_write bytes commits dk) (batches (aw_batch_size w) pending)
           (w\<lparr>aw_inflight := [], aw_overflow := [], aw_queue := []\<rparr>))"

section \<open>Runs\<close>

datatype writer_move =
    Submit audit_row
  | TakeBatch nat
  | WriteInflight "bool list" disk
  | FlushOverflow disk
  | Replay "spool_file \<Rightarrow> bool" "spool_file \<Rightarrow> bool list"
  | Drain "audit_row list \<Rightarrow> bool" disk

fun writer_step :: "(string \<Rightarrow> string) \<Rightarrow> (audit_row list \<Rightarrow> nat) \<Rightarrow> writer_move \<Rightarrow> audit_writer \<Rightarrow> audit_writer" where
  "writer_step sha256 bytes (Submit e) w = submit sha256 e w"
| "writer_step sha256 bytes (TakeBatch n) w = take_batch n w"
| "writer_step sha256 bytes (WriteInflight commits dk) w = write_inflight bytes commits dk w"
| "writer_step sha256 bytes (FlushOverflow dk) w = flush_overflow bytes dk w"
| "writer_step sha256 bytes (Replay readable commits) w = replay_spool bytes readable commits w"
| "writer_step sha256 bytes (Drain commits dk) w = drain bytes commits dk w"

definition writer_run ::
  "(string \<Rightarrow> string) \<Rightarrow> (audit_row list \<Rightarrow> nat) \<Rightarrow> writer_move list \<Rightarrow> audit_writer \<Rightarrow> audit_writer" where
  "writer_run sha256 bytes steps w = fold (writer_step sha256 bytes) steps w"

definition new_writer :: "audit_chain option \<Rightarrow> nat \<Rightarrow> nat \<Rightarrow> bool \<Rightarrow> audit_spool option \<Rightarrow> audit_writer" where
  "new_writer ch qsize bsize outbox sp =
     \<lparr>aw_chain = ch, aw_queue_size = qsize, aw_batch_size = bsize, aw_outbox_on = outbox, aw_spool = sp,
      aw_queue = [], aw_inflight = [], aw_overflow = [], aw_dropped = [], aw_table = [], aw_outbox = [],
      aw_heads = []\<rparr>"

end
