(* ===== verification/Audit_Writer_Props.thy ===== *)
theory Audit_Writer_Props
  imports Audit_Writer
begin

text \<open>
  What the audit writer guarantees: an event handed to it is never silently lost, the table holds
  it at most once, the exported heads are committed records, and a shutdown with a working
  database delivers everything that was not counted as dropped.
\<close>

section \<open>Batches\<close>

lemma batches_Nil [simp]: "batches n [] = []"
  by (simp add: batches.simps)

lemma concat_batches: "0 < n \<Longrightarrow> concat (batches n xs) = xs"
proof (induction n xs rule: batches.induct)
  case (1 n xs)
  then show ?case by (cases "xs = []") (simp_all add: batches.simps [of n xs])
qed

lemma length_batches: "length (batches n xs) \<le> length xs"
proof (induction n xs rule: batches.induct)
  case (1 n xs)
  show ?case
  proof (cases "n = 0 \<or> xs = []")
    case True
    then show ?thesis by (simp add: batches.simps [of n xs])
  next
    case False
    with 1 have "length (batches n (drop n xs)) \<le> length xs - n" by simp
    moreover from False have "0 < length xs" "0 < n" by auto
    ultimately have "Suc (length (batches n (drop n xs))) \<le> length xs" by linarith
    with False show ?thesis by (simp add: batches.simps [of n xs])
  qed
qed

section \<open>Inserting\<close>

lemma ids_insert_all [simp]:
  "ar_id ` set (foldl insert_new tbl es) = ar_id ` set tbl \<union> ar_id ` set es"
  by (induction es arbitrary: tbl) (auto simp: insert_new_def)

lemma insert_all_subset: "set tbl \<subseteq> set (foldl insert_new tbl es) \<and> set (foldl insert_new tbl es) \<subseteq> set tbl \<union> set es"
proof (induction es arbitrary: tbl)
  case (Cons e es)
  from Cons.IH [of "insert_new tbl e"] show ?case by (auto simp: insert_new_def split: if_splits)
qed simp

lemma distinct_insert_all: "distinct (map ar_id tbl) \<Longrightarrow> distinct (map ar_id (foldl insert_new tbl es))"
  by (induction es arbitrary: tbl) (simp_all add: insert_new_def)

lemma ids_outbox_all [simp]: "set (foldl insert_id ids es) = set ids \<union> ar_id ` set es"
  by (induction es arbitrary: ids) (auto simp: insert_id_def)

lemma distinct_outbox_all: "distinct ids \<Longrightarrow> distinct (foldl insert_id ids es)"
  by (induction es arbitrary: ids) (simp_all add: insert_id_def)

section \<open>Where an event can be\<close>

definition spooled :: "audit_writer \<Rightarrow> spool_file list" where
  "spooled w = (case aw_spool w of None \<Rightarrow> [] | Some sp \<Rightarrow> sp_files sp)"

definition set_aside :: "audit_writer \<Rightarrow> spool_file list" where
  "set_aside w = (case aw_spool w of None \<Rightarrow> [] | Some sp \<Rightarrow> sp_bad sp)"

definition waiting :: "audit_writer \<Rightarrow> audit_row list" where
  "waiting w = aw_inflight w @ aw_overflow w @ aw_queue w @ concat (map sf_events (spooled w))"

definition accounted :: "audit_writer \<Rightarrow> audit_row \<Rightarrow> bool" where
  "accounted w e \<longleftrightarrow> e \<in> set (waiting w) \<or> ar_id e \<in> ar_id ` set (aw_table w) \<or> e \<in> set (aw_dropped w) \<or>
     e \<in> set (concat (map sf_events (set_aside w)))"

text \<open>The events of a run, as they were stamped.\<close>

fun submitted ::
  "(string \<Rightarrow> string) \<Rightarrow> (audit_row list \<Rightarrow> nat) \<Rightarrow> writer_move list \<Rightarrow> audit_writer \<Rightarrow> audit_row list" where
  "submitted sha256 bytes [] w = []"
| "submitted sha256 bytes (s # ss) w =
     (case s of Submit e \<Rightarrow> [fst (stamped sha256 e w)] | _ \<Rightarrow> []) @
     submitted sha256 bytes ss (writer_step sha256 bytes s w)"

lemma accounted_spill:
  assumes "accounted w e \<or> e \<in> set es"
  shows "accounted (spill bytes dk es w) e"
proof (cases "es = [] \<or> aw_spool w = None")
  case True
  with assms show ?thesis
    by (auto simp: accounted_def waiting_def spooled_def set_aside_def spill_def drop_events_def)
next
  case False
  then obtain sp where sp: "aw_spool w = Some sp" "es \<noteq> []" by auto
  obtain kept sp' where ap: "spool_append bytes dk es sp = (kept, sp')" by fastforce
  then have "sp_bad sp' = sp_bad sp"
    "concat (map sf_events (sp_files sp')) = concat (map sf_events (sp_files sp)) @ (if kept then es else [])"
    using sp(2) by (auto simp: spool_append_def Let_def split: if_splits)
  with assms sp ap show ?thesis
    by (cases kept) (auto simp: accounted_def waiting_def spooled_def set_aside_def spill_def drop_events_def
        simp del: set_concat map_append concat_append)
qed

lemma accounted_write:
  assumes "accounted w e \<or> e \<in> set es"
  shows "accounted (write_batch es w) e"
  using assms by (auto simp: accounted_def waiting_def spooled_def set_aside_def write_batch_def)

lemma accounted_enqueue: "accounted w e \<or> e = x \<Longrightarrow> accounted (enqueue x w) e"
  by (auto simp: accounted_def waiting_def spooled_def set_aside_def enqueue_def drop_events_def simp del: set_concat)

lemma accounted_submit:
  assumes "accounted w e \<or> e = fst (stamped sha256 x w)"
  shows "accounted (submit sha256 x w) e"
proof -
  obtain x' w' where st: "stamped sha256 x w = (x', w')" by fastforce
  then have "w' = w\<lparr>aw_chain := aw_chain w'\<rparr>"
    by (cases "aw_chain w") (auto simp: stamped_def split: prod.splits)
  then obtain c where "w' = w\<lparr>aw_chain := c\<rparr>" by blast
  then have "accounted w' e = accounted w e"
    by (simp add: accounted_def waiting_def spooled_def set_aside_def)
  with assms st accounted_enqueue show ?thesis by (auto simp: submit_def)
qed

lemma accounted_take: "accounted w e \<Longrightarrow> accounted (take_batch n w) e"
proof -
  have "set xs = set (take k xs) \<union> set (drop k xs)" for k and xs :: "audit_row list"
    by (metis append_take_drop_id set_append)
  then show "accounted w e \<Longrightarrow> accounted (take_batch n w) e"
    unfolding accounted_def waiting_def spooled_def set_aside_def take_batch_def Let_def by auto
qed

lemma accounted_write_inflight: "accounted w e \<Longrightarrow> accounted (write_inflight bytes commits dk w) e"
proof -
  assume a: "accounted w e"
  let ?w = "w\<lparr>aw_inflight := []\<rparr>"
  have "accounted ?w e \<or> e \<in> set (aw_inflight w)"
    using a by (auto simp: accounted_def waiting_def spooled_def set_aside_def)
  moreover have "write_inflight bytes commits dk w =
      (if list_ex (\<lambda>ok. ok) (take 3 commits) then write_batch (aw_inflight w) ?w else spill bytes dk (aw_inflight w) ?w)"
    by (simp add: write_inflight_def write_batch_def spill_def drop_events_def Let_def split: option.split prod.split)
  ultimately show ?thesis using accounted_write accounted_spill by metis
qed

lemma accounted_flush: "accounted w e \<Longrightarrow> accounted (flush_overflow bytes dk w) e"
  unfolding flush_overflow_def
  by (rule accounted_spill) (auto simp: accounted_def waiting_def spooled_def set_aside_def)

section \<open>Replay\<close>

lemma write_until_failure_result:
  "write_until_failure commits bs w = (ok, w') \<Longrightarrow>
   aw_spool w' = aw_spool w \<and> aw_batch_size w' = aw_batch_size w \<and> (accounted w e \<longrightarrow> accounted w' e) \<and>
   (ok \<longrightarrow> ar_id ` set (concat bs) \<subseteq> ar_id ` set (aw_table w')) \<and>
   ar_id ` set (aw_table w) \<subseteq> ar_id ` set (aw_table w')"
proof (induction commits bs w rule: write_until_failure.induct)
  case (2 commits b bs w)
  show ?case
  proof (cases "\<exists>rest. commits = True # rest")
    case True
    then obtain rest where r: "commits = True # rest" by blast
    with 2 have ih: "aw_spool w' = aw_spool (write_batch b w) \<and> aw_batch_size w' = aw_batch_size (write_batch b w) \<and>
        (accounted (write_batch b w) e \<longrightarrow> accounted w' e) \<and>
        (ok \<longrightarrow> ar_id ` set (concat bs) \<subseteq> ar_id ` set (aw_table w')) \<and>
        ar_id ` set (aw_table (write_batch b w)) \<subseteq> ar_id ` set (aw_table w')"
      by simp
    moreover have "ar_id ` set (aw_table (write_batch b w)) = ar_id ` set (aw_table w) \<union> ar_id ` set b"
      "aw_spool (write_batch b w) = aw_spool w" "aw_batch_size (write_batch b w) = aw_batch_size w"
      by (simp_all add: write_batch_def)
    moreover have "accounted w e \<Longrightarrow> accounted (write_batch b w) e" using accounted_write by blast
    moreover have "ar_id ` set (concat (b # bs)) = ar_id ` set b \<union> ar_id ` set (concat bs)" by auto
    ultimately show ?thesis by (simp only: Un_subset_iff) blast
  next
    case False
    with 2 show ?thesis by (auto split: list.splits bool.splits)
  qed
qed simp

lemma accounted_quarantine: "accounted w e \<Longrightarrow> f \<in> set (spooled w) \<Longrightarrow> accounted (with_spool (spool_quarantine bytes f) w) e"
  by (cases "aw_spool w")
     (auto simp: accounted_def waiting_def spooled_def set_aside_def with_spool_def spool_quarantine_def spool_remove_def)

lemma accounted_remove:
  assumes "accounted w e" "ar_id ` set (sf_events f) \<subseteq> ar_id ` set (aw_table w)"
  shows "accounted (with_spool (spool_remove bytes f) w) e"
  using assms by (cases "aw_spool w")
    (auto simp: accounted_def waiting_def spooled_def set_aside_def with_spool_def spool_remove_def)

lemma replay_files_accounted:
  assumes "0 < aw_batch_size w" "set fs \<subseteq> set (spooled w)" "distinct fs" "accounted w e"
  shows "accounted (replay_files bytes readable commits fs w) e"
  using assms
proof (induction fs arbitrary: w)
  case Nil
  then show ?case by simp
next
  case (Cons f fs)
  have rest: "set fs \<subseteq> set (spooled (with_spool (g f) w'))"
    if "aw_spool w' = aw_spool w" "g = spool_remove bytes \<or> g = spool_quarantine bytes" for g w'
    using that Cons.prems(2,3)
    by (cases "aw_spool w") (auto simp: spooled_def with_spool_def spool_remove_def spool_quarantine_def)
  show ?case
  proof (cases "readable f")
    case False
    have "accounted (with_spool (spool_quarantine bytes f) w) e"
      using Cons.prems by (intro accounted_quarantine) auto
    with False Cons.IH [of "with_spool (spool_quarantine bytes f) w"] Cons.prems
      rest [of w "spool_quarantine bytes"]
    show ?thesis by (simp add: with_spool_def)
  next
    case True
    obtain ok w' where r: "write_until_failure (commits f) (batches (aw_batch_size w) (sf_events f)) w = (ok, w')"
      by fastforce
    note res = write_until_failure_result [OF r, of e]
    show ?thesis
    proof (cases ok)
      case False
      with True r res Cons.prems(4) show ?thesis by simp
    next
      case ok: True
      have "ar_id ` set (sf_events f) \<subseteq> ar_id ` set (aw_table w')"
        using res ok concat_batches [OF Cons.prems(1), of "sf_events f"] by simp
      then have "accounted (with_spool (spool_remove bytes f) w') e"
        using res Cons.prems(4) by (intro accounted_remove) auto
      moreover have "0 < aw_batch_size (with_spool (spool_remove bytes f) w')"
        using res Cons.prems(1) by (simp add: with_spool_def)
      moreover have "set fs \<subseteq> set (spooled (with_spool (spool_remove bytes f) w'))"
        using rest [of w' "spool_remove bytes"] res by blast
      ultimately show ?thesis using True r ok Cons.IH Cons.prems(3) by simp
    qed
  qed
qed

lemma accounted_replay:
  assumes "0 < aw_batch_size w" "distinct (spooled w)" "accounted w e"
  shows "accounted (replay_spool bytes readable commits w) e"
proof (cases "aw_spool w")
  case None
  with assms show ?thesis by (simp add: replay_spool_def)
next
  case (Some sp)
  then show ?thesis
    using replay_files_accounted [OF assms(1) _ _ assms(3), of "spool_files sp"] assms(2)
    by (simp add: replay_spool_def spool_files_def spooled_def)
qed

section \<open>Shutdown\<close>

lemma accounted_safe_write:
  "accounted w e \<or> e \<in> set b \<Longrightarrow> accounted (safe_write bytes commits dk b w) e"
  unfolding safe_write_def using accounted_write accounted_spill by metis

lemma accounted_safe_writes:
  "accounted w e \<or> e \<in> set (concat bs) \<Longrightarrow> accounted (fold (safe_write bytes commits dk) bs w) e"
proof (induction bs arbitrary: w)
  case (Cons b bs)
  have "accounted (safe_write bytes commits dk b w) e \<or> e \<in> set (concat bs)"
    using Cons.prems accounted_safe_write by fastforce
  from Cons.IH [OF this] show ?case by simp
qed simp

lemma accounted_drain:
  assumes "0 < aw_batch_size w" "accounted w e"
  shows "accounted (drain bytes commits dk w) e"
proof -
  let ?p = "aw_inflight w @ aw_overflow w @ aw_queue w"
  let ?w = "w\<lparr>aw_inflight := [], aw_overflow := [], aw_queue := []\<rparr>"
  have "accounted ?w e \<or> e \<in> set (concat (batches (aw_batch_size w) ?p))"
    using assms(2) unfolding concat_batches [OF assms(1)]
    by (auto simp: accounted_def waiting_def spooled_def set_aside_def)
  from accounted_safe_writes [OF this] show ?thesis by (simp add: drain_def Let_def)
qed

section \<open>The invariant of a run\<close>

text \<open>Spool files have different names, later ones larger ones; the table has each id once.\<close>

definition spool_ok :: "audit_writer \<Rightarrow> bool" where
  "spool_ok w \<longleftrightarrow> (case aw_spool w of None \<Rightarrow> True | Some sp \<Rightarrow>
     distinct (map sf_ns (sp_files sp)) \<and> (\<forall>f \<in> set (sp_files sp). sf_ns f \<le> sp_last_ns sp))"

definition writer_ok :: "audit_writer \<Rightarrow> bool" where
  "writer_ok w \<longleftrightarrow> 0 < aw_batch_size w \<and> spool_ok w \<and> distinct (map ar_id (aw_table w)) \<and>
     distinct (aw_outbox w) \<and> (if aw_outbox_on w then set (aw_outbox w) = ar_id ` set (aw_table w) else aw_outbox w = [])"

lemma writer_ok_spooled: "writer_ok w \<Longrightarrow> distinct (spooled w)"
  by (cases "aw_spool w") (auto simp: writer_ok_def spool_ok_def spooled_def dest: distinct_map [THEN iffD1])

lemma writer_ok_fields:
  assumes "writer_ok w" "aw_batch_size w' = aw_batch_size w" "aw_outbox_on w' = aw_outbox_on w"
    "aw_table w' = aw_table w" "aw_outbox w' = aw_outbox w" "spool_ok w'"
  shows "writer_ok w'"
  using assms by (simp add: writer_ok_def)

lemma writer_ok_write: "writer_ok w \<Longrightarrow> writer_ok (write_batch es w)"
  by (simp add: writer_ok_def spool_ok_def write_batch_def distinct_insert_all distinct_outbox_all)

lemma spool_ok_append:
  assumes "spool_append bytes dk es sp = (kept, sp')" "spool_ok w" "aw_spool w = Some sp"
  shows "spool_ok (w\<lparr>aw_spool := Some sp'\<rparr>)"
  using assms by (fastforce simp: spool_ok_def spool_append_def Let_def split: if_splits)

lemma spool_ok_cong: "aw_spool w' = aw_spool w \<Longrightarrow> spool_ok w' = spool_ok w"
  by (simp add: spool_ok_def)

lemma writer_ok_spill: "writer_ok w \<Longrightarrow> writer_ok (spill bytes dk es w)"
proof (cases "es = [] \<or> aw_spool w = None")
  case True
  then show "writer_ok w \<Longrightarrow> ?thesis"
    by (auto simp: spill_def drop_events_def writer_ok_def spool_ok_def)
next
  case False
  then obtain sp where sp: "es \<noteq> []" "aw_spool w = Some sp" by auto
  obtain kept sp' where ap: "spool_append bytes dk es sp = (kept, sp')" by fastforce
  assume ok: "writer_ok w"
  then have "spool_ok w" by (simp add: writer_ok_def)
  from spool_ok_append [OF ap this sp(2)] have s: "spool_ok (w\<lparr>aw_spool := Some sp'\<rparr>)" .
  show ?thesis
    by (rule writer_ok_fields [OF ok])
       (use sp ap s in \<open>simp_all add: spill_def drop_events_def spool_ok_def Let_def\<close>)
qed

lemma writer_ok_enqueue: "writer_ok w \<Longrightarrow> writer_ok (enqueue e w)"
  by (rule writer_ok_fields) (auto simp: enqueue_def drop_events_def spool_ok_def writer_ok_def)

lemma writer_ok_submit: "writer_ok w \<Longrightarrow> writer_ok (submit sha256 e w)"
proof -
  assume ok: "writer_ok w"
  obtain e' w' where st: "stamped sha256 e w = (e', w')" by fastforce
  have "writer_ok w'"
    by (rule writer_ok_fields [OF ok])
       (use st ok in \<open>auto simp: stamped_def writer_ok_def spool_ok_def split: option.splits prod.splits\<close>)
  then show ?thesis using st writer_ok_enqueue by (simp add: submit_def)
qed

lemma spool_ok_shrink:
  assumes "spool_ok w"
  shows "spool_ok (with_spool (spool_remove bytes f) w)" "spool_ok (with_spool (spool_quarantine bytes f) w)"
  using assms
  by (cases "aw_spool w"; auto simp: spool_ok_def with_spool_def spool_remove_def spool_quarantine_def distinct_map_filter)+

lemma writer_ok_until_failure:
  "writer_ok w \<Longrightarrow> write_until_failure commits bs w = (ok, w') \<Longrightarrow> writer_ok w'"
  by (induction commits bs w rule: write_until_failure.induct)
     (auto simp: writer_ok_write split: list.splits bool.splits)

lemma writer_ok_with_spool:
  assumes "writer_ok w"
  shows "writer_ok (with_spool (spool_remove bytes f) w)" "writer_ok (with_spool (spool_quarantine bytes f) w)"
  using assms spool_ok_shrink [of w] by (simp_all add: writer_ok_def) (simp_all add: with_spool_def)

lemma writer_ok_replay_files: "writer_ok w \<Longrightarrow> writer_ok (replay_files bytes readable commits fs w)"
proof (induction fs arbitrary: w)
  case (Cons f fs)
  obtain ok w' where r: "write_until_failure (commits f) (batches (aw_batch_size w) (sf_events f)) w = (ok, w')"
    by fastforce
  have "writer_ok w'" using writer_ok_until_failure [OF Cons.prems r] .
  with Cons r show ?case by (cases ok) (simp_all add: writer_ok_with_spool)
qed simp

lemma writer_ok_safe_writes: "writer_ok w \<Longrightarrow> writer_ok (fold (safe_write bytes commits dk) bs w)"
  by (induction bs arbitrary: w) (simp_all add: safe_write_def writer_ok_write writer_ok_spill)

lemma writer_ok_step: "writer_ok w \<Longrightarrow> writer_ok (writer_step sha256 bytes s w)"
proof (cases s)
  case (WriteInflight commits dk)
  have clear: "writer_ok w' \<Longrightarrow> writer_ok (w'\<lparr>aw_inflight := []\<rparr>)" for w'
    by (rule writer_ok_fields) (auto simp: writer_ok_def spool_ok_def)
  then show "writer_ok w \<Longrightarrow> ?thesis" using WriteInflight
    by (simp add: write_inflight_def Let_def writer_ok_write writer_ok_spill)
next
  case (TakeBatch n)
  then show "writer_ok w \<Longrightarrow> ?thesis"
    by (simp add: take_batch_def Let_def writer_ok_def spool_ok_def)
next
  case (FlushOverflow dk)
  then show "writer_ok w \<Longrightarrow> ?thesis"
    unfolding FlushOverflow writer_step.simps flush_overflow_def
    by (intro writer_ok_spill) (simp add: writer_ok_def spool_ok_def)
next
  case (Replay readable commits)
  then show "writer_ok w \<Longrightarrow> ?thesis"
    by (simp add: replay_spool_def writer_ok_replay_files split: option.split)
next
  case (Drain commits dk)
  have "writer_ok w \<Longrightarrow> writer_ok (w\<lparr>aw_inflight := [], aw_overflow := [], aw_queue := []\<rparr>)"
    by (simp add: writer_ok_def spool_ok_def)
  then show "writer_ok w \<Longrightarrow> ?thesis" using Drain by (simp add: drain_def Let_def writer_ok_safe_writes)
qed (simp add: writer_ok_submit)

lemma accounted_step:
  assumes "writer_ok w" "accounted w e"
  shows "accounted (writer_step sha256 bytes s w) e"
  using assms writer_ok_spooled [OF assms(1)]
  by (cases s) (auto simp: writer_ok_def accounted_submit accounted_take accounted_write_inflight accounted_flush
      accounted_replay accounted_drain)

lemma run_accounted:
  assumes "writer_ok w"
  shows "writer_ok (writer_run sha256 bytes steps w) \<and>
    (\<forall>e. accounted w e \<or> e \<in> set (submitted sha256 bytes steps w) \<longrightarrow> accounted (writer_run sha256 bytes steps w) e)"
  using assms
proof (induction steps arbitrary: w)
  case Nil
  then show ?case by (simp add: writer_run_def)
next
  case (Cons s steps)
  let ?w = "writer_step sha256 bytes s w"
  have ok: "writer_ok ?w" by (rule writer_ok_step [OF Cons.prems])
  have run: "writer_run sha256 bytes (s # steps) w = writer_run sha256 bytes steps ?w" by (simp add: writer_run_def)
  have "accounted ?w e \<or> e \<in> set (submitted sha256 bytes steps ?w)"
    if "accounted w e \<or> e \<in> set (submitted sha256 bytes (s # steps) w)" for e
  proof (cases "accounted w e")
    case True
    then show ?thesis using accounted_step [OF Cons.prems] by blast
  next
    case False
    with that show ?thesis using accounted_submit [of w e sha256] by (cases s) auto
  qed
  with Cons.IH [OF ok] show ?case unfolding run by blast
qed

lemma new_writer_ok:
  "0 < bsize \<Longrightarrow> case sp of None \<Rightarrow> True | Some s \<Rightarrow> sp_files s = [] \<Longrightarrow> writer_ok (new_writer ch qsize bsize outbox sp)"
  by (simp add: writer_ok_def new_writer_def spool_ok_def split: option.splits)

section \<open>Delivery\<close>


lemma all_written:
  "length bs \<le> k \<Longrightarrow> write_until_failure (replicate k True) bs w = (True, fold write_batch bs w)"
proof (induction bs arbitrary: k w)
  case (Cons b bs)
  then obtain k' where "k = Suc k'" by (cases k) auto
  with Cons show ?case by simp
qed simp

lemma fold_write_fields:
  "aw_spool (fold write_batch bs w) = aw_spool w" "aw_batch_size (fold write_batch bs w) = aw_batch_size w"
  "aw_inflight (fold write_batch bs w) = aw_inflight w" "aw_overflow (fold write_batch bs w) = aw_overflow w"
  "aw_queue (fold write_batch bs w) = aw_queue w" "aw_dropped (fold write_batch bs w) = aw_dropped w"
  by (induction bs arbitrary: w) (simp_all add: write_batch_def)

definition every_batch :: "spool_file \<Rightarrow> bool list" where
  "every_batch f = replicate (length (sf_events f)) True"

lemma replay_all:
  "aw_inflight (replay_files bytes (\<lambda>_. True) every_batch fs w) = aw_inflight w \<and>
   aw_overflow (replay_files bytes (\<lambda>_. True) every_batch fs w) = aw_overflow w \<and>
   aw_queue (replay_files bytes (\<lambda>_. True) every_batch fs w) = aw_queue w \<and>
   aw_dropped (replay_files bytes (\<lambda>_. True) every_batch fs w) = aw_dropped w \<and>
   set_aside (replay_files bytes (\<lambda>_. True) every_batch fs w) = set_aside w \<and>
   spooled (replay_files bytes (\<lambda>_. True) every_batch fs w) = filter (\<lambda>f. f \<notin> set fs) (spooled w)"
proof (induction fs arbitrary: w)
  case Nil
  then show ?case by simp
next
  case (Cons f fs)
  let ?w = "with_spool (spool_remove bytes f) (fold write_batch (batches (aw_batch_size w) (sf_events f)) w)"
  have step: "replay_files bytes (\<lambda>_. True) every_batch (f # fs) w = replay_files bytes (\<lambda>_. True) every_batch fs ?w"
    by (simp add: every_batch_def all_written length_batches)
  have "spooled ?w = filter (\<lambda>g. g \<noteq> f) (spooled w)" "set_aside ?w = set_aside w"
    by (cases "aw_spool w"; simp add: spooled_def set_aside_def with_spool_def spool_remove_def fold_write_fields)+
  moreover have "aw_inflight ?w = aw_inflight w" "aw_overflow ?w = aw_overflow w" "aw_queue ?w = aw_queue w"
    "aw_dropped ?w = aw_dropped w"
    by (simp_all add: with_spool_def fold_write_fields)
  ultimately show ?case using Cons.IH [of ?w] unfolding step by (auto intro: filter_cong)
qed

lemma drain_all:
  "drain bytes (\<lambda>_. True) dk w =
     fold write_batch (batches (aw_batch_size w) (aw_inflight w @ aw_overflow w @ aw_queue w))
       (w\<lparr>aw_inflight := [], aw_overflow := [], aw_queue := []\<rparr>)"
proof -
  have "safe_write bytes (\<lambda>_. True) dk = write_batch" by (rule ext)+ (simp add: safe_write_def)
  then show ?thesis by (simp add: drain_def Let_def)
qed


section \<open>Exported heads\<close>

text \<open>What the writer handles comes from the submitted events, and each noted head is recorded.\<close>

definition heads_recorded :: "audit_writer \<Rightarrow> bool" where
  "heads_recorded w \<longleftrightarrow>
     (\<forall>(k, s, h) \<in> set (aw_heads w). \<exists>r \<in> set (aw_table w). chain_key r = k \<and> ar_chain_seq r = s \<and> ar_record_hash r = h)"

definition from_events :: "audit_row set \<Rightarrow> audit_writer \<Rightarrow> bool" where
  "from_events S w \<longleftrightarrow> set (waiting w) \<union> set (aw_table w) \<subseteq> S \<and> heads_recorded w"

lemma insert_all_recorded:
  assumes "inj_on ar_id S" "set tbl \<union> set es \<subseteq> S" "e \<in> set es"
  shows "e \<in> set (foldl insert_new tbl es)"
proof -
  have "ar_id e \<in> ar_id ` set (foldl insert_new tbl es)" using assms(3) by auto
  then obtain r where r: "ar_id e = ar_id r" "r \<in> set (foldl insert_new tbl es)" by (rule imageE)
  moreover from r(2) insert_all_subset [of tbl es] assms(2) have "r \<in> S" by blast
  ultimately show ?thesis using assms by (metis UnI2 inj_onD subsetD)
qed

lemma set_update_subset: "set (AList.update k v hs) \<subseteq> insert (k, v) (set hs)"
  by (induction hs) auto

lemma note_head_subset:
  "set (note_head hs e) \<subseteq> insert (chain_key e, ar_chain_seq e, ar_record_hash e) (set hs)"
proof (cases "note_head hs e = hs")
  case True
  then show ?thesis by auto
next
  case False
  then have "note_head hs e = AList.update (chain_key e) (ar_chain_seq e, ar_record_hash e) hs"
    by (auto simp: note_head_def split: if_splits)
  then show ?thesis by (simp only: set_update_subset)
qed

lemma note_head_from:
  "x \<in> set (foldl note_head hs es) \<Longrightarrow>
   x \<in> set hs \<or> (\<exists>e \<in> set es. x = (chain_key e, ar_chain_seq e, ar_record_hash e))"
proof (induction es arbitrary: hs)
  case (Cons e es)
  then have "x \<in> set (note_head hs e) \<or> (\<exists>e \<in> set es. x = (chain_key e, ar_chain_seq e, ar_record_hash e))"
    by simp
  then show ?case using note_head_subset [of hs e] by auto
qed simp

lemma from_events_write:
  assumes "inj_on ar_id S" "from_events S w" "set es \<subseteq> S"
  shows "from_events S (write_batch es w)"
proof -
  have sub: "set (aw_table w) \<union> set es \<subseteq> S" using assms by (simp add: from_events_def)
  have "heads_recorded (write_batch es w)"
    unfolding heads_recorded_def
  proof clarify
    fix a b s h
    assume "((a, b), s, h) \<in> set (aw_heads (write_batch es w))"
    then consider "((a, b), s, h) \<in> set (aw_heads w)"
      | e where "e \<in> set es" "((a, b), s, h) = (chain_key e, ar_chain_seq e, ar_record_hash e)"
      using note_head_from [of "((a, b), s, h)" "aw_heads w" es] by (auto simp: write_batch_def)
    then show "\<exists>r \<in> set (aw_table (write_batch es w)). chain_key r = (a, b) \<and> ar_chain_seq r = s \<and> ar_record_hash r = h"
    proof cases
      case 1
      then show ?thesis
        using assms(2) insert_all_subset [of "aw_table w" es]
        by (fastforce simp: from_events_def heads_recorded_def write_batch_def)
    next
      case 2
      then show ?thesis
        using insert_all_recorded [OF assms(1) sub, of e] by (auto simp: write_batch_def)
    qed
  qed
  moreover have "waiting (write_batch es w) = waiting w" by (simp add: waiting_def spooled_def write_batch_def)
  ultimately show ?thesis
    using assms sub insert_all_subset [of "aw_table w" es] by (auto simp: from_events_def write_batch_def)
qed

lemma from_events_cong:
  assumes "from_events S w" "set (waiting w') \<subseteq> S" "aw_table w' = aw_table w" "aw_heads w' = aw_heads w"
  shows "from_events S w'"
  using assms by (simp add: from_events_def heads_recorded_def)

lemma waiting_spill: "set (waiting (spill bytes dk es w)) \<subseteq> set (waiting w) \<union> set es"
proof (cases "es = [] \<or> aw_spool w = None")
  case True
  then show ?thesis by (auto simp: spill_def waiting_def spooled_def drop_events_def)
next
  case False
  then obtain sp where sp: "aw_spool w = Some sp" "es \<noteq> []" by auto
  obtain kept sp' where ap: "spool_append bytes dk es sp = (kept, sp')" by fastforce
  then have "concat (map sf_events (sp_files sp')) = concat (map sf_events (sp_files sp)) @ (if kept then es else [])"
    using sp(2) by (auto simp: spool_append_def Let_def split: if_splits)
  with sp ap show ?thesis
    by (cases kept) (auto simp: waiting_def spooled_def spill_def drop_events_def simp del: set_concat map_append concat_append)
qed

lemma spill_fields:
  "aw_table (spill bytes dk es w) = aw_table w" "aw_heads (spill bytes dk es w) = aw_heads w"
  by (simp_all add: spill_def drop_events_def Let_def split: option.split prod.split)

lemma from_events_spill: "from_events S w \<Longrightarrow> set es \<subseteq> S \<Longrightarrow> from_events S (spill bytes dk es w)"
  by (rule from_events_cong [of S w], assumption)
     (use waiting_spill [of bytes dk es w] in \<open>auto simp: from_events_def spill_fields\<close>)

lemma from_events_less:
  assumes "from_events S w" "set (waiting w') \<subseteq> set (waiting w)" "aw_table w' = aw_table w" "aw_heads w' = aw_heads w"
  shows "from_events S w'"
  by (rule from_events_cong [OF assms(1)]) (use assms in \<open>auto simp: from_events_def\<close>)

lemma spooled_shrink:
  "set (waiting (with_spool (spool_remove bytes f) w)) \<subseteq> set (waiting w)"
  "set (waiting (with_spool (spool_quarantine bytes f) w)) \<subseteq> set (waiting w)"
  by (cases "aw_spool w"; auto simp: waiting_def spooled_def with_spool_def spool_remove_def spool_quarantine_def)+

lemma from_events_until_failure:
  assumes "inj_on ar_id S"
  shows "write_until_failure commits bs w = (ok, w') \<Longrightarrow> from_events S w \<Longrightarrow> set (concat bs) \<subseteq> S \<Longrightarrow> from_events S w'"
  by (induction commits bs w rule: write_until_failure.induct)
     (auto intro: from_events_write [OF assms] split: list.splits bool.splits)

lemma from_events_replay_files:
  assumes inj: "inj_on ar_id S"
  shows "0 < aw_batch_size w \<Longrightarrow> from_events S w \<Longrightarrow> \<forall>f \<in> set fs. set (sf_events f) \<subseteq> S \<Longrightarrow>
    from_events S (replay_files bytes readable commits fs w)"
proof (induction fs arbitrary: w)
  case Nil
  then show ?case by simp
next
  case (Cons f fs)
  have less: "from_events S (with_spool (g f) v)" if "from_events S v" "g = spool_remove bytes \<or> g = spool_quarantine bytes" for g v
    by (rule from_events_less [OF that(1)]) (use that spooled_shrink [of bytes f v] in \<open>auto simp: with_spool_def\<close>)
  obtain ok w' where r: "write_until_failure (commits f) (batches (aw_batch_size w) (sf_events f)) w = (ok, w')"
    by fastforce
  have "from_events S w'"
    using from_events_until_failure [OF inj r] Cons.prems concat_batches [of "aw_batch_size w" "sf_events f"] by simp
  moreover have "aw_batch_size w' = aw_batch_size w" using write_until_failure_result [OF r] by blast
  ultimately show ?case
    using Cons r less by (cases ok) (simp_all add: with_spool_def [of _ w] with_spool_def [of _ w'], simp_all add: with_spool_def)
qed

lemma from_events_safe_writes:
  assumes "inj_on ar_id S"
  shows "from_events S w \<Longrightarrow> set (concat bs) \<subseteq> S \<Longrightarrow> from_events S (fold (safe_write bytes commits dk) bs w)"
  by (induction bs arbitrary: w)
     (simp_all add: safe_write_def from_events_write [OF assms] from_events_spill)

lemma from_events_submit:
  assumes "from_events S w" "fst (stamped sha256 e w) \<in> S"
  shows "from_events S (submit sha256 e w)"
proof -
  obtain e' w' where st: "stamped sha256 e w = (e', w')" by fastforce
  then have "w' = w\<lparr>aw_chain := aw_chain w'\<rparr>"
    by (cases "aw_chain w") (auto simp: stamped_def split: prod.splits)
  then obtain c where w': "w' = w\<lparr>aw_chain := c\<rparr>" by blast
  have "set (waiting (enqueue e' w')) \<subseteq> insert e' (set (waiting w))"
    unfolding w' by (auto simp: waiting_def spooled_def enqueue_def drop_events_def)
  moreover have "aw_table (enqueue e' w') = aw_table w" "aw_heads (enqueue e' w') = aw_heads w"
    unfolding w' by (simp_all add: enqueue_def drop_events_def)
  ultimately show ?thesis
    using assms st by (intro from_events_cong [OF assms(1)]) (auto simp: submit_def from_events_def)
qed

lemma from_events_step:
  assumes inj: "inj_on ar_id S" and ok: "writer_ok w" and fe: "from_events S w"
    and new: "\<And>e. s = Submit e \<Longrightarrow> fst (stamped sha256 e w) \<in> S"
  shows "from_events S (writer_step sha256 bytes s w)"
proof -
  have wait: "set (waiting w) \<subseteq> S" and size: "0 < aw_batch_size w"
    using fe ok by (simp_all add: from_events_def writer_ok_def)
  show ?thesis
  proof (cases s)
    case (Submit e)
    then show ?thesis using from_events_submit [OF fe new] by simp
  next
    case (TakeBatch n)
    have "set (waiting (take_batch n w)) \<subseteq> set (waiting w)"
      using set_take_subset set_drop_subset by (fastforce simp: waiting_def spooled_def take_batch_def Let_def)
    then show ?thesis unfolding TakeBatch writer_step.simps
      by (rule from_events_less [OF fe]) (simp_all add: take_batch_def Let_def)
  next
    case (WriteInflight commits dk)
    have "set (aw_inflight w) \<subseteq> S" using wait by (auto simp: waiting_def)
    then have "from_events S (if list_ex (\<lambda>ok. ok) (take 3 commits) then write_batch (aw_inflight w) w
        else spill bytes dk (aw_inflight w) w)" (is "from_events S ?w")
      using from_events_write [OF inj fe] from_events_spill [OF fe] by simp
    then have "from_events S (?w\<lparr>aw_inflight := []\<rparr>)"
      by (rule from_events_less) (auto simp: waiting_def spooled_def)
    then show ?thesis by (simp add: WriteInflight write_inflight_def Let_def)
  next
    case (FlushOverflow dk)
    have "from_events S (w\<lparr>aw_overflow := []\<rparr>)"
      by (rule from_events_less [OF fe]) (auto simp: waiting_def spooled_def)
    then show ?thesis unfolding FlushOverflow writer_step.simps flush_overflow_def
      by (rule from_events_spill) (use wait in \<open>auto simp: waiting_def\<close>)
  next
    case (Replay readable commits)
    show ?thesis
    proof (cases "aw_spool w")
      case None
      with Replay fe show ?thesis by (simp add: replay_spool_def)
    next
      case (Some sp)
      have "\<forall>f \<in> set (spool_files sp). set (sf_events f) \<subseteq> S"
        using wait Some by (auto simp: waiting_def spooled_def spool_files_def)
      from from_events_replay_files [OF inj size fe this] show ?thesis
        by (simp add: Replay replay_spool_def Some)
    qed
  next
    case (Drain commits dk)
    let ?w = "w\<lparr>aw_inflight := [], aw_overflow := [], aw_queue := []\<rparr>"
    have "from_events S ?w" by (rule from_events_less [OF fe]) (auto simp: waiting_def spooled_def)
    moreover have "set (concat (batches (aw_batch_size w) (aw_inflight w @ aw_overflow w @ aw_queue w))) \<subseteq> S"
      unfolding concat_batches [OF size] using wait by (auto simp: waiting_def)
    ultimately show ?thesis
      using from_events_safe_writes [OF inj] by (simp add: Drain drain_def Let_def)
  qed
qed

lemma run_from_events:
  assumes "inj_on ar_id S"
  shows "writer_ok w \<Longrightarrow> from_events S w \<Longrightarrow> set (submitted sha256 bytes steps w) \<subseteq> S \<Longrightarrow>
    from_events S (writer_run sha256 bytes steps w)"
proof (induction steps arbitrary: w)
  case Nil
  then show ?case by (simp add: writer_run_def)
next
  case (Cons s steps)
  have "from_events S (writer_step sha256 bytes s w)"
    by (rule from_events_step [OF assms Cons.prems(1,2)]) (use Cons.prems(3) in auto)
  then show ?case
    using Cons.IH [OF writer_ok_step [OF Cons.prems(1)]] Cons.prems(3) by (simp add: writer_run_def)
qed

text \<open>Exported heads exist: as long as events have different ids, each head that the writer exports
  (last number and hash of a chain) is the number and the hash of a record in the table, whatever
  happened to the batches in between; and the table holds only events that were submitted.\<close>

theorem exported_heads_recorded:
  assumes "0 < bsize" "case sp of None \<Rightarrow> True | Some s \<Rightarrow> sp_files s = []"
    and "inj_on ar_id (set (submitted sha256 bytes steps (new_writer ch qsize bsize outbox sp)))"
    and "(k, n, h) \<in> set (aw_heads (writer_run sha256 bytes steps (new_writer ch qsize bsize outbox sp)))"
  shows "\<exists>r \<in> set (aw_table (writer_run sha256 bytes steps (new_writer ch qsize bsize outbox sp))).
     chain_key r = k \<and> ar_chain_seq r = n \<and> ar_record_hash r = h \<and>
     r \<in> set (submitted sha256 bytes steps (new_writer ch qsize bsize outbox sp))"
proof -
  let ?w = "new_writer ch qsize bsize outbox sp"
  let ?S = "set (submitted sha256 bytes steps ?w)"
  have "from_events ?S ?w"
    using assms(2) by (simp add: from_events_def waiting_def spooled_def heads_recorded_def new_writer_def split: option.splits)
  from run_from_events [OF assms(3) new_writer_ok [OF assms(1,2)] this subset_refl]
  show ?thesis using assms(4) by (fastforce simp: from_events_def heads_recorded_def)
qed

section \<open>An example\<close>

text \<open>A queue of one, so the second event overflows; the database fails three times, then works.\<close>

definition ex_row :: "string \<Rightarrow> audit_row" where
  "ex_row rid = \<lparr>ar_id = rid, ar_created_at = ''t'', ar_tenant_id = ''demo'', ar_request_id = rid, ar_stage = ''input'',
     ar_agent_id = ''bot'', ar_decision = ''allow'', ar_outcome = None, ar_reason = ''ok'', ar_risk_score = 20,
     ar_payload_sha256 = ''p'', ar_snapshot_version = ''v1'', ar_chain_id = [], ar_chain_seq = 0, ar_prev_hash = [],
     ar_record_hash = [], ar_rest = []\<rparr>"

definition ex_spool :: audit_spool where
  "ex_spool = \<lparr>sp_max_bytes = 100, sp_size = 0, sp_last_ns = 0, sp_files = [], sp_bad = []\<rparr>"

definition ex_disk :: "int \<Rightarrow> disk" where
  "ex_disk t = \<lparr>dk_now_ns = t, dk_uid = ''u'', dk_writable = True\<rparr>"

definition ex_steps :: "writer_move list" where
  "ex_steps = [Submit (ex_row ''r1''), Submit (ex_row ''r2''), TakeBatch 1,
     WriteInflight [False, False, False] (ex_disk 5), FlushOverflow (ex_disk 6), Submit (ex_row ''r3''),
     Replay (\<lambda>_. True) every_batch, TakeBatch 1, WriteInflight [False, True] (ex_disk 7)]"

abbreviation ex_start :: audit_writer where
  "ex_start \<equiv> new_writer (Some (new_chain ''c1'')) 1 2 True (Some ex_spool)"

lemma ex_run:
  "map ar_id (aw_table (writer_run (\<lambda>s. ''h'') length ex_steps ex_start)) = [''r1'', ''r2'', ''r3'']"
  "aw_heads (writer_run (\<lambda>s. ''h'') length ex_steps ex_start) = [((''c1'', ''demo''), 3, ''h'')]"
  "map ar_id (submitted (\<lambda>s. ''h'') length ex_steps ex_start) = [''r1'', ''r2'', ''r3'']"
  by code_simp+

lemma ex_start_ok: "case Some ex_spool of None \<Rightarrow> True | Some s \<Rightarrow> sp_files s = []"
  by (simp add: ex_spool_def)



theorem exported_heads_recorded_witness:
  "\<exists>r \<in> set (aw_table (writer_run (\<lambda>s. ''h'') length ex_steps ex_start)).
     chain_key r = (''c1'', ''demo'') \<and> ar_chain_seq r = 3"
proof -
  have "distinct (map ar_id (submitted (\<lambda>s. ''h'') length ex_steps ex_start))" by (simp add: ex_run del: One_nat_def)
  then have inj: "inj_on ar_id (set (submitted (\<lambda>s. ''h'') length ex_steps ex_start))" by (simp add: distinct_map)
  show ?thesis
    using exported_heads_recorded [OF _ ex_start_ok inj, of "(''c1'', ''demo'')" 3 "''h''"] ex_run(2) by auto
qed

end
