(* ===== verification/Cp_Records.thy ===== *)
theory Cp_Records
  imports Registry
begin

text \<open>
  The control plane's records, permissions and store
  (\<^verbatim>\<open>services/guardrail-control-plane/app/domain/rbac.py\<close>, \<^verbatim>\<open>domain/records.py\<close>,
  \<^verbatim>\<open>errors.py\<close>, \<^verbatim>\<open>store/memory.py\<close>). Times are integers, microseconds since the epoch. What a
  record takes from its environment when it is built (the time and a fresh id) is an argument.
  A document kept as JSON and validated again when it is read is the document itself.
\<close>

section \<open>Permissions\<close>

datatype permission =
    PermRead | CatalogWrite | RegistryWrite | AssignmentsWrite | PublishRequest | PublishApprove
  | ReviewsDecide | ReviewsRaw | AdminKeys | DiscoveryWrite | InventoryWrite

definition role_permissions :: "(string \<times> permission list) list" where
  "role_permissions =
     [(''viewer'', [PermRead]),
      (''reviewer'', [PermRead, ReviewsDecide]),
      (''reviewer-raw'', [PermRead, ReviewsDecide, ReviewsRaw]),
      (''editor'', [PermRead, CatalogWrite, AssignmentsWrite, PublishRequest, InventoryWrite]),
      (''admin'', [PermRead, CatalogWrite, RegistryWrite, AssignmentsWrite, PublishRequest,
         PublishApprove, ReviewsDecide, AdminKeys, DiscoveryWrite, InventoryWrite])]"

definition roles :: "string list" where
  "roles = map fst role_permissions"

definition platform_only :: "permission list" where
  "platform_only = [RegistryWrite, PublishRequest, PublishApprove, DiscoveryWrite]"

record admin =
  adm_key_id :: string
  adm_name :: string
  adm_roles :: "string list"
  adm_tenant :: "string option"  \<comment> \<open>\<open>None\<close>: platform\<close>

definition actor :: "admin \<Rightarrow> string" where
  "actor p = adm_name p @ '' ('' @ take 8 (adm_key_id p) @ '')''"

definition is_platform :: "admin \<Rightarrow> bool" where
  [model_defs]: "is_platform p \<longleftrightarrow> adm_tenant p = None"

definition permissions :: "admin \<Rightarrow> permission list" where
  "permissions p =
     concat (map (\<lambda>r. case map_of role_permissions r of Some ps \<Rightarrow> ps | None \<Rightarrow> []) (adm_roles p))"

definition can :: "admin \<Rightarrow> permission \<Rightarrow> string option \<Rightarrow> bool" where
  "can p perm tenant =
     (if perm \<notin> set (permissions p) then False
      else if is_platform p then True
      else if perm \<in> set platform_only then False
      else tenant \<noteq> None \<and> tenant = adm_tenant p)"

definition visible_tenant :: "admin \<Rightarrow> string \<Rightarrow> bool" where
  "visible_tenant p tenant \<longleftrightarrow> is_platform p \<or> adm_tenant p = Some tenant"

definition SYSTEM :: admin where
  "SYSTEM = \<lparr>adm_key_id = ''system'', adm_name = ''system'', adm_roles = [''admin''], adm_tenant = None\<rparr>"

datatype cp_error =
    Forbidden permission "string option"
  | NotFound string
  | ValidationFailed string "string list" "string list"
  | StateConflict string
  | StoreConflict string
  | Uncaught doc_error  \<comment> \<open>an exception that no handler names\<close>

text \<open>\<open>p.require(permission, tenant)\<close>.\<close>

definition require :: "admin \<Rightarrow> permission \<Rightarrow> string option \<Rightarrow> cp_error + unit" where
  "require p perm tenant = guard_that (can p perm tenant) (Forbidden perm tenant)"

lemma require_simps [simp]:
  "require p perm t = Inr u \<longleftrightarrow> can p perm t"
  "require p perm t = Inl e \<longleftrightarrow> \<not> can p perm t \<and> e = Forbidden perm t"
  by (auto simp: require_def)

lemma can_platform: "can p perm None \<Longrightarrow> is_platform p"
  by (auto simp: can_def split: if_splits)

lemma can_platform_only: "can p perm t \<Longrightarrow> perm \<in> set platform_only \<Longrightarrow> is_platform p"
  by (auto simp: can_def split: if_splits)

lemma can_tenant: "can p perm t \<Longrightarrow> \<not> is_platform p \<Longrightarrow> t = adm_tenant p \<and> t \<noteq> None"
  by (auto simp: can_def split: if_splits)

lemma can_permission: "can p perm t \<Longrightarrow> perm \<in> set (permissions p)"
  by (auto simp: can_def split: if_splits)

section \<open>Records\<close>

type_synonym instant = int

datatype tenant_status = TenantActive | TenantSuspended

record tenant_record =
  tn_id :: string
  tn_name :: string
  tn_status :: tenant_status
  tn_created_at :: instant
  tn_advisor_data_classes :: "classification list"

record api_key_record =
  ky_id :: string
  ky_tenant_id :: string
  ky_name :: string
  ky_key_hash :: string
  ky_prefix :: string
  ky_scopes :: "string list"
  ky_environments :: "environment list option"
  ky_is_active :: bool
  ky_expires_at :: "instant option"
  ky_created_at :: instant
  ky_revoked_at :: "instant option"
  ky_rate_limit :: "int option"
  ky_agent_id :: "string option"

record agent_record =
  agr_tenant_id :: string
  agr_agent_id :: string
  agr_base_trust_score :: int
  agr_allowed_tools :: "string list"
  agr_owner :: "string option"
  agr_updated_at :: instant

record action_record =
  ac_id :: string
  ac_tenant_id :: string
  ac_action :: string
  ac_resource_pattern :: string
  ac_base_risk_score :: int

datatype modifier_kind = ModClassification | ModEnvironment

fun modifier_kind_value :: "modifier_kind \<Rightarrow> string" where
  "modifier_kind_value ModClassification = ''classification''"
| "modifier_kind_value ModEnvironment = ''environment''"

record modifier_record =
  mo_id :: string
  mo_tenant_id :: string
  mo_kind :: modifier_kind
  mo_value :: string
  mo_delta :: int

datatype version_status = Validated | Deprecated

record version_record =
  gv_guardrail_id :: string
  gv_version :: string
  gv_manifest :: manifest
  gv_manifest_rest :: jobj  \<comment> \<open>the keys of the manifest that are only carried: description, owner, data_handling, config_schema\<close>
  gv_status :: version_status
  gv_source :: string
  gv_conformance_report :: "jobj option"
  gv_created_at :: instant

record assignment_record =
  wa_environment :: environment
  wa_assignment :: assignment
  wa_updated_by :: string
  wa_updated_at :: instant

datatype snapshot_kind = KPublish | KRollback | KImport

record snapshot_record =
  sn_id :: string
  sn_environment :: environment
  sn_version :: string
  sn_document :: snapshot_doc
  sn_etag :: string
  sn_published_at :: instant
  sn_published_by :: string
  sn_approved_by :: "string option"
  sn_kind :: snapshot_kind
  sn_rolled_back_from :: "string option"

datatype request_status = ReqPending | ReqApproved | ReqRejected | ReqExpired | ReqStale

fun request_status_value :: "request_status \<Rightarrow> string" where
  "request_status_value ReqPending = ''pending''"
| "request_status_value ReqApproved = ''approved''"
| "request_status_value ReqRejected = ''rejected''"
| "request_status_value ReqExpired = ''expired''"
| "request_status_value ReqStale = ''stale''"

record publish_request =
  rq_id :: string
  rq_environment :: environment
  rq_kind :: snapshot_kind
  rq_document :: snapshot_doc
  rq_base_version :: "string option"
  rq_rolled_back_from :: "string option"
  rq_requested_by :: string
  rq_requested_by_key :: string
  rq_requested_at :: instant
  rq_note :: string
  rq_status :: request_status
  rq_decided_by :: "string option"
  rq_decided_at :: "instant option"
  rq_decision_note :: string
  rq_published_version :: "string option"

datatype review_status = RvPending | RvApproved | RvRejected | RvExpired

record review =
  rv_id :: string
  rv_tenant_id :: string
  rv_environment :: environment
  rv_request_id :: string
  rv_stage :: string
  rv_agent_id :: string
  rv_guardrail_id :: string
  rv_reason :: string
  rv_risk_score :: int
  rv_preview :: string
  rv_payload_enc :: string
  rv_status :: review_status  \<comment> \<open>never \<open>RvExpired\<close> in the store\<close>
  rv_reviewer :: "string option"
  rv_decision_note :: string
  rv_raw_viewed_by :: "string list"
  rv_created_at :: instant
  rv_decided_at :: "instant option"
  rv_expires_at :: instant

text \<open>\<open>ReviewRecord.effective_status\<close>.\<close>

definition effective_status :: "review \<Rightarrow> instant \<Rightarrow> review_status" where
  "effective_status r now =
     (if rv_status r = RvPending \<and> rv_expires_at r \<le> now then RvExpired else rv_status r)"

record admin_key =
  ak_id :: string
  ak_name :: string
  ak_key_hash :: string
  ak_prefix :: string
  ak_roles :: "string list"
  ak_tenant_id :: "string option"
  ak_is_active :: bool
  ak_created_at :: instant

record gateway_record =
  gw_gateway_id :: string
  gw_environment :: environment
  gw_snapshot_version :: "string option"
  gw_catalog_version :: "string option"
  gw_last_error :: "string option"
  gw_installed :: "string list"
  gw_last_seen :: instant
  gw_capabilities :: "string list"

text \<open>The change log: the before and after documents are left out.\<close>

record change =
  cg_entity :: string
  cg_entity_id :: string
  cg_action :: string
  cg_actor :: string

end
