(* ===== verification/Cp_Store.thy ===== *)
theory Cp_Store
  imports Cp_Records
begin

text \<open>
  Catalog documents (\<^verbatim>\<open>guardrail_sdk/documents.py\<close>) and the control plane's in-memory store
  (\<^verbatim>\<open>store/memory.py\<close>), the parts the services of this development use. A Python dictionary is
  an association list; every operation is atomic, as \<^verbatim>\<open>store/base.py\<close> promises.
\<close>

section \<open>Catalog documents\<close>

record catalog_api_key =
  ca_id :: string
  ca_name :: string
  ca_key_hash :: string
  ca_scopes :: "string list"
  ca_environments :: "environment list option"
  ca_expires_at :: "instant option"
  ca_rate_limit :: "int option"
  ca_agent_id :: "string option"

record catalog_agent_doc =
  cd_agent_id :: string
  cd_base_trust_score :: int
  cd_allowed_tools :: "string list"
  cd_open_findings :: "string list"

record catalog_action =
  cq_action :: string
  cq_resource_pattern :: string
  cq_base_risk_score :: int

record catalog_modifier =
  cm_kind :: modifier_kind
  cm_value :: string
  cm_delta :: int

record catalog_tenant =
  cn_id :: string
  cn_name :: string
  cn_status :: tenant_status
  cn_api_keys :: "catalog_api_key list"
  cn_agents :: "catalog_agent_doc list"
  cn_actions :: "catalog_action list"
  cn_modifiers :: "catalog_modifier list"
  cn_advisor_data_classes :: "classification list"
  cn_flagged_tools :: "string list"

record catalog_doc =
  co_version :: string
  co_tenants :: "catalog_tenant list"
  co_published_at :: "instant option"

record catalog_record =
  ct_id :: string
  ct_version :: string
  ct_document :: catalog_doc
  ct_etag :: string
  ct_content_hash :: string
  ct_published_at :: instant

section \<open>The store\<close>

record control_store =
  db_tenants :: "(string \<times> tenant_record) list"
  db_api_keys :: "(string \<times> api_key_record) list"
  db_agents :: "((string \<times> string) \<times> agent_record) list"
  db_actions :: "(string \<times> action_record) list"
  db_modifiers :: "(string \<times> modifier_record) list"
  db_versions :: "((string \<times> string) \<times> version_record) list"
  db_assignments :: "((environment \<times> string) \<times> assignment_record) list"
  db_snapshots :: "(string \<times> snapshot_record) list"
  db_current :: "(environment \<times> string) list"
  db_catalogs :: "catalog_record list"
  db_requests :: "(string \<times> publish_request) list"
  db_reviews :: "(string \<times> review) list"
  db_admin_keys :: "(string \<times> admin_key) list"
  db_gateways :: "(string \<times> gateway_record) list"
  db_changes :: "change list"

definition empty_store :: control_store where
  "empty_store = \<lparr>db_tenants = [], db_api_keys = [], db_agents = [], db_actions = [], db_modifiers = [],
     db_versions = [], db_assignments = [], db_snapshots = [], db_current = [], db_catalogs = [],
     db_requests = [], db_reviews = [], db_admin_keys = [], db_gateways = [], db_changes = []\<rparr>"

subsection \<open>Tenants and keys\<close>

definition get_tenant :: "control_store \<Rightarrow> string \<Rightarrow> tenant_record option" where
  "get_tenant s t = map_of (db_tenants s) t"

definition list_tenants :: "control_store \<Rightarrow> tenant_record list" where
  "list_tenants s = sort_key tn_id (map snd (db_tenants s))"

definition put_tenant :: "tenant_record \<Rightarrow> control_store \<Rightarrow> control_store" where
  "put_tenant t s = s\<lparr>db_tenants := AList.update (tn_id t) t (db_tenants s)\<rparr>"

definition add_api_key :: "api_key_record \<Rightarrow> control_store \<Rightarrow> cp_error + control_store" where
  "add_api_key k s =
     (if list_ex (\<lambda>x. ky_key_hash x = ky_key_hash k) (map snd (db_api_keys s))
      then Inl (StoreConflict ''duplicate key hash'')
      else Inr (s\<lparr>db_api_keys := AList.update (ky_id k) k (db_api_keys s)\<rparr>))"

definition get_api_key :: "control_store \<Rightarrow> string \<Rightarrow> api_key_record option" where
  "get_api_key s i = map_of (db_api_keys s) i"

definition list_api_keys :: "control_store \<Rightarrow> string option \<Rightarrow> api_key_record list" where
  "list_api_keys s tenant =
     filter (\<lambda>k. tenant = None \<or> tenant = Some (ky_tenant_id k)) (map snd (db_api_keys s))"

definition put_api_key :: "api_key_record \<Rightarrow> control_store \<Rightarrow> control_store" where
  "put_api_key k s = s\<lparr>db_api_keys := AList.update (ky_id k) k (db_api_keys s)\<rparr>"

subsection \<open>Agents, actions and modifiers\<close>

definition put_agent_row :: "agent_record \<Rightarrow> control_store \<Rightarrow> control_store" where
  "put_agent_row a s =
     s\<lparr>db_agents := AList.update (agr_tenant_id a, agr_agent_id a) a (db_agents s)\<rparr>"

definition get_agent_row :: "control_store \<Rightarrow> string \<Rightarrow> string \<Rightarrow> agent_record option" where
  "get_agent_row s t a = map_of (db_agents s) (t, a)"

definition list_agent_rows :: "control_store \<Rightarrow> string option \<Rightarrow> agent_record list" where
  "list_agent_rows s tenant =
     filter (\<lambda>a. tenant = None \<or> tenant = Some (agr_tenant_id a)) (map snd (db_agents s))"

definition delete_agent_row :: "string \<Rightarrow> string \<Rightarrow> control_store \<Rightarrow> bool \<times> control_store" where
  "delete_agent_row t a s =
     (map_of (db_agents s) (t, a) \<noteq> None, s\<lparr>db_agents := AList.delete (t, a) (db_agents s)\<rparr>)"

definition action_key :: "action_record \<Rightarrow> string \<times> string \<times> string" where
  "action_key a = (ac_tenant_id a, ac_action a, ac_resource_pattern a)"

text \<open>The loop keeps the id of the last row with the same key.\<close>

definition put_action_row :: "action_record \<Rightarrow> control_store \<Rightarrow> action_record \<times> control_store" where
  "put_action_row a s =
     (let a' = foldl (\<lambda>new old. if action_key old = action_key new then new\<lparr>ac_id := ac_id old\<rparr> else new)
                 a (map snd (db_actions s))
      in (a', s\<lparr>db_actions := AList.update (ac_id a') a' (db_actions s)\<rparr>))"

definition list_action_rows :: "control_store \<Rightarrow> string option \<Rightarrow> action_record list" where
  "list_action_rows s tenant =
     filter (\<lambda>a. tenant = None \<or> tenant = Some (ac_tenant_id a)) (map snd (db_actions s))"

definition delete_action_row :: "string \<Rightarrow> string \<Rightarrow> control_store \<Rightarrow> bool \<times> control_store" where
  "delete_action_row t i s =
     (case map_of (db_actions s) i of
        None \<Rightarrow> (False, s)
      | Some a \<Rightarrow> if ac_tenant_id a \<noteq> t then (False, s)
                  else (True, s\<lparr>db_actions := AList.delete i (db_actions s)\<rparr>))"

definition modifier_key :: "modifier_record \<Rightarrow> string \<times> modifier_kind \<times> string" where
  "modifier_key m = (mo_tenant_id m, mo_kind m, mo_value m)"

definition put_modifier_row :: "modifier_record \<Rightarrow> control_store \<Rightarrow> modifier_record \<times> control_store" where
  "put_modifier_row m s =
     (let m' = foldl (\<lambda>new old. if modifier_key old = modifier_key new then new\<lparr>mo_id := mo_id old\<rparr> else new)
                 m (map snd (db_modifiers s))
      in (m', s\<lparr>db_modifiers := AList.update (mo_id m') m' (db_modifiers s)\<rparr>))"

definition list_modifier_rows :: "control_store \<Rightarrow> string option \<Rightarrow> modifier_record list" where
  "list_modifier_rows s tenant =
     filter (\<lambda>m. tenant = None \<or> tenant = Some (mo_tenant_id m)) (map snd (db_modifiers s))"

definition delete_modifier_row :: "string \<Rightarrow> string \<Rightarrow> control_store \<Rightarrow> bool \<times> control_store" where
  "delete_modifier_row t i s =
     (case map_of (db_modifiers s) i of
        None \<Rightarrow> (False, s)
      | Some m \<Rightarrow> if mo_tenant_id m \<noteq> t then (False, s)
                  else (True, s\<lparr>db_modifiers := AList.delete i (db_modifiers s)\<rparr>))"

subsection \<open>Guardrail versions and assignments\<close>

definition put_version :: "version_record \<Rightarrow> control_store \<Rightarrow> control_store" where
  "put_version v s = s\<lparr>db_versions := AList.update (gv_guardrail_id v, gv_version v) v (db_versions s)\<rparr>"

definition get_version :: "control_store \<Rightarrow> string \<Rightarrow> string \<Rightarrow> version_record option" where
  "get_version s g v = map_of (db_versions s) (g, v)"

definition list_versions :: "control_store \<Rightarrow> string option \<Rightarrow> version_record list" where
  "list_versions s g =
     map snd (filter (\<lambda>kv. g = None \<or> g = Some (fst (fst kv))) (sort_key fst (db_versions s)))"

definition put_assignment_row :: "assignment_record \<Rightarrow> control_store \<Rightarrow> control_store" where
  "put_assignment_row r s =
     s\<lparr>db_assignments := AList.update (wa_environment r, as_id (wa_assignment r)) r (db_assignments s)\<rparr>"

definition get_assignment_row :: "control_store \<Rightarrow> environment \<Rightarrow> string \<Rightarrow> assignment_record option" where
  "get_assignment_row s env i = map_of (db_assignments s) (env, i)"

definition list_assignments :: "control_store \<Rightarrow> environment \<Rightarrow> assignment_record list" where
  "list_assignments s env =
     map snd (filter (\<lambda>kv. fst (fst kv) = env)
       (sort_key (\<lambda>kv. (as_order (wa_assignment (snd kv)), snd (fst kv))) (db_assignments s)))"

definition delete_assignment_row :: "environment \<Rightarrow> string \<Rightarrow> control_store \<Rightarrow> bool \<times> control_store" where
  "delete_assignment_row env i s =
     (map_of (db_assignments s) (env, i) \<noteq> None,
      s\<lparr>db_assignments := AList.delete (env, i) (db_assignments s)\<rparr>)"

definition replace_assignments :: "environment \<Rightarrow> assignment_record list \<Rightarrow> control_store \<Rightarrow> control_store" where
  "replace_assignments env rs s =
     foldl (\<lambda>t r. put_assignment_row r t)
       (s\<lparr>db_assignments := filter (\<lambda>kv. fst (fst kv) \<noteq> env) (db_assignments s)\<rparr>) rs"

subsection \<open>Snapshots, catalogs and publish requests\<close>

definition add_snapshot :: "snapshot_record \<Rightarrow> control_store \<Rightarrow> cp_error + control_store" where
  "add_snapshot n s =
     (if list_ex (\<lambda>x. sn_environment x = sn_environment n \<and> sn_version x = sn_version n)
           (map snd (db_snapshots s))
      then Inl (StoreConflict ''snapshot version exists'')
      else Inr (s\<lparr>db_snapshots := AList.update (sn_id n) n (db_snapshots s)\<rparr>))"

definition get_snapshot :: "control_store \<Rightarrow> environment \<Rightarrow> string \<Rightarrow> snapshot_record option" where
  "get_snapshot s env v =
     find (\<lambda>n. sn_environment n = env \<and> sn_version n = v) (map snd (db_snapshots s))"

definition current_snapshot :: "control_store \<Rightarrow> environment \<Rightarrow> snapshot_record option" where
  "current_snapshot s env =
     (case map_of (db_current s) env of
        None \<Rightarrow> None
      | Some i \<Rightarrow> if i = [] then None else map_of (db_snapshots s) i)"

definition set_current_snapshot :: "environment \<Rightarrow> string \<Rightarrow> control_store \<Rightarrow> control_store" where
  "set_current_snapshot env i s = s\<lparr>db_current := AList.update env i (db_current s)\<rparr>"

text \<open>\<open>sorted(..., reverse=True)\<close> is stable, so equal keys keep their order.\<close>

definition sorted_desc :: "('a \<Rightarrow> 'k::linorder) \<Rightarrow> 'a list \<Rightarrow> 'a list" where
  "sorted_desc f xs = rev (sort_key f (rev xs))"

definition list_snapshots :: "control_store \<Rightarrow> environment \<Rightarrow> nat \<Rightarrow> snapshot_record list" where
  "list_snapshots s env limit =
     take limit (sorted_desc (\<lambda>n. (sn_published_at n, sn_version n))
       (filter (\<lambda>n. sn_environment n = env) (map snd (db_snapshots s))))"

definition count_snapshots :: "control_store \<Rightarrow> environment \<Rightarrow> nat" where
  "count_snapshots s env = length (filter (\<lambda>n. sn_environment n = env) (map snd (db_snapshots s)))"

definition add_catalog :: "catalog_record \<Rightarrow> control_store \<Rightarrow> control_store" where
  "add_catalog c s = s\<lparr>db_catalogs := db_catalogs s @ [c]\<rparr>"

definition current_catalog :: "control_store \<Rightarrow> catalog_record option" where
  "current_catalog s = (if db_catalogs s = [] then None else Some (last (db_catalogs s)))"

definition put_publish_request :: "publish_request \<Rightarrow> control_store \<Rightarrow> control_store" where
  "put_publish_request r s = s\<lparr>db_requests := AList.update (rq_id r) r (db_requests s)\<rparr>"

definition get_publish_request :: "control_store \<Rightarrow> string \<Rightarrow> publish_request option" where
  "get_publish_request s i = map_of (db_requests s) i"

definition list_publish_requests ::
  "control_store \<Rightarrow> environment option \<Rightarrow> request_status option \<Rightarrow> publish_request list" where
  "list_publish_requests s env st =
     filter (\<lambda>r. (env = None \<or> env = Some (rq_environment r)) \<and> (st = None \<or> st = Some (rq_status r)))
       (sorted_desc rq_requested_at (map snd (db_requests s)))"

subsection \<open>Reviews, admin keys, gateways and the change log\<close>

definition put_review :: "review \<Rightarrow> control_store \<Rightarrow> control_store" where
  "put_review r s = s\<lparr>db_reviews := AList.update (rv_id r) r (db_reviews s)\<rparr>"

definition get_review :: "control_store \<Rightarrow> string \<Rightarrow> review option" where
  "get_review s i = map_of (db_reviews s) i"

definition decide_review ::
  "string \<Rightarrow> review_status \<Rightarrow> string \<Rightarrow> instant \<Rightarrow> string \<Rightarrow> control_store \<Rightarrow> bool \<times> control_store" where
  "decide_review i st reviewer decided_at note s =
     (case map_of (db_reviews s) i of
        None \<Rightarrow> (False, s)
      | Some r \<Rightarrow>
          if rv_status r \<noteq> RvPending \<or> rv_expires_at r \<le> decided_at then (False, s)
          else (True, s\<lparr>db_reviews := AList.update i
                 (r\<lparr>rv_status := st, rv_reviewer := Some reviewer, rv_decided_at := Some decided_at,
                    rv_decision_note := note\<rparr>) (db_reviews s)\<rparr>))"

definition add_review_raw_viewer :: "string \<Rightarrow> string \<Rightarrow> control_store \<Rightarrow> control_store" where
  "add_review_raw_viewer i who s =
     (case map_of (db_reviews s) i of
        None \<Rightarrow> s
      | Some r \<Rightarrow> s\<lparr>db_reviews := AList.update i (r\<lparr>rv_raw_viewed_by := rv_raw_viewed_by r @ [who]\<rparr>) (db_reviews s)\<rparr>)"

definition list_reviews ::
  "control_store \<Rightarrow> string option \<Rightarrow> review_status option \<Rightarrow> nat \<Rightarrow> review list" where
  "list_reviews s tenant st limit =
     take limit (sorted_desc rv_created_at
       (filter (\<lambda>r. (tenant = None \<or> tenant = Some (rv_tenant_id r)) \<and> (st = None \<or> st = Some (rv_status r)))
         (map snd (db_reviews s))))"

definition put_admin_key :: "admin_key \<Rightarrow> control_store \<Rightarrow> control_store" where
  "put_admin_key k s = s\<lparr>db_admin_keys := AList.update (ak_id k) k (db_admin_keys s)\<rparr>"

definition find_admin_key :: "control_store \<Rightarrow> string \<Rightarrow> admin_key option" where
  "find_admin_key s h = find (\<lambda>k. ak_key_hash k = h) (map snd (db_admin_keys s))"

definition list_admin_keys :: "control_store \<Rightarrow> admin_key list" where
  "list_admin_keys s = map snd (db_admin_keys s)"

definition put_gateway :: "gateway_record \<Rightarrow> control_store \<Rightarrow> control_store" where
  "put_gateway g s = s\<lparr>db_gateways := AList.update (gw_gateway_id g) g (db_gateways s)\<rparr>"

definition list_gateways :: "control_store \<Rightarrow> environment option \<Rightarrow> gateway_record list" where
  "list_gateways s env =
     filter (\<lambda>g. env = None \<or> env = Some (gw_environment g)) (map snd (db_gateways s))"

definition log_change :: "string \<Rightarrow> string \<Rightarrow> string \<Rightarrow> string \<Rightarrow> control_store \<Rightarrow> control_store" where
  "log_change entity i what who s =
     s\<lparr>db_changes := db_changes s @
       [\<lparr>cg_entity = entity, cg_entity_id = i, cg_action = what, cg_actor = who\<rparr>]\<rparr>"

definition list_changes ::
  "control_store \<Rightarrow> string option \<Rightarrow> string option \<Rightarrow> nat \<Rightarrow> change list" where
  "list_changes s entity i limit =
     take limit (filter (\<lambda>c. (entity = None \<or> entity = Some (cg_entity c)) \<and>
       (i = None \<or> i = Some (cg_entity_id c))) (rev (db_changes s)))"

section \<open>What each operation leaves alone\<close>

lemma log_change_fields [simp]:
  "db_tenants (log_change e i a w s) = db_tenants s" "db_api_keys (log_change e i a w s) = db_api_keys s"
  "db_agents (log_change e i a w s) = db_agents s" "db_actions (log_change e i a w s) = db_actions s"
  "db_modifiers (log_change e i a w s) = db_modifiers s" "db_versions (log_change e i a w s) = db_versions s"
  "db_assignments (log_change e i a w s) = db_assignments s" "db_snapshots (log_change e i a w s) = db_snapshots s"
  "db_current (log_change e i a w s) = db_current s" "db_catalogs (log_change e i a w s) = db_catalogs s"
  "db_requests (log_change e i a w s) = db_requests s" "db_reviews (log_change e i a w s) = db_reviews s"
  "db_admin_keys (log_change e i a w s) = db_admin_keys s" "db_gateways (log_change e i a w s) = db_gateways s"
  by (simp_all add: log_change_def)

lemma put_publish_request_fields [simp]:
  "db_snapshots (put_publish_request r s) = db_snapshots s" "db_current (put_publish_request r s) = db_current s"
  "db_assignments (put_publish_request r s) = db_assignments s" "db_versions (put_publish_request r s) = db_versions s"
  "db_gateways (put_publish_request r s) = db_gateways s"
  "db_requests (put_publish_request r s) = AList.update (rq_id r) r (db_requests s)"
  by (simp_all add: put_publish_request_def)

lemma put_assignment_fields [simp]:
  "db_snapshots (put_assignment_row r s) = db_snapshots s" "db_current (put_assignment_row r s) = db_current s"
  "db_requests (put_assignment_row r s) = db_requests s" "db_versions (put_assignment_row r s) = db_versions s"
  "db_gateways (put_assignment_row r s) = db_gateways s" "db_changes (put_assignment_row r s) = db_changes s"
  by (simp_all add: put_assignment_row_def)

lemma replace_assignments_fields [simp]:
  "db_snapshots (replace_assignments env rs s) = db_snapshots s"
  "db_current (replace_assignments env rs s) = db_current s"
  "db_requests (replace_assignments env rs s) = db_requests s"
  "db_versions (replace_assignments env rs s) = db_versions s"
  "db_gateways (replace_assignments env rs s) = db_gateways s"
  by (induction rs rule: rev_induct) (simp_all add: replace_assignments_def)

lemma set_current_fields [simp]:
  "db_snapshots (set_current_snapshot env i s) = db_snapshots s"
  "db_requests (set_current_snapshot env i s) = db_requests s"
  "db_versions (set_current_snapshot env i s) = db_versions s"
  "db_gateways (set_current_snapshot env i s) = db_gateways s"
  "db_current (set_current_snapshot env i s) = AList.update env i (db_current s)"
  "db_assignments (set_current_snapshot env i s) = db_assignments s"
  by (simp_all add: set_current_snapshot_def)

lemma current_snapshot_log [simp]: "current_snapshot (log_change e i a w s) env = current_snapshot s env"
  by (auto simp: current_snapshot_def split: option.split)

lemma current_snapshot_put_request [simp]:
  "current_snapshot (put_publish_request r s) env = current_snapshot s env"
  by (auto simp: current_snapshot_def split: option.split)

lemma map_of_AList_update [simp]: "map_of (AList.update k v d) = (map_of d)(k \<mapsto> v)"
  by (rule update_conv')

lemma update_new: "k \<notin> fst ` set d \<Longrightarrow> AList.update k v d = d @ [(k, v)]"
  by (induction d) auto

lemma list_all_update:
  assumes "list_all P d" "P (k, v)"
  shows "list_all P (AList.update k v d)"
  using assms by (induction d) auto

text \<open>Replacing a row changes no column that stays the same.\<close>

lemma map_update_same:
  "map_of d k = Some v0 \<Longrightarrow> f v = f v0 \<Longrightarrow> map (\<lambda>kv. f (snd kv)) (AList.update k v d) = map (\<lambda>kv. f (snd kv)) d"
  by (induction d) auto

end
