(* ===== verification/Cp_Registry.thy ===== *)
theory Cp_Registry
  imports Cp_Store
begin

text \<open>
  The control plane's guardrail registry (\<^verbatim>\<open>services/registry.py\<close>), its admin keys
  (\<^verbatim>\<open>services/admin.py\<close>) and the snapshot compiler (\<^verbatim>\<open>domain/compiler.py\<close>).

  A handler takes the store and returns the exception or the value, and the store it leaves.
  SHA-256, random keys and JSON Schema validation are parameters.
\<close>

section \<open>Registry\<close>

text \<open>A raw manifest: what pydantic says of keys that are missing, unknown or of another type, or
  the typed fields and the keys that are only carried.\<close>

type_synonym raw_manifest = "string list + manifest \<times> jobj"

fun doc_error_message :: "doc_error \<Rightarrow> string" where
  "doc_error_message (FieldError f) = f"
| "doc_error_message (DocValueError m) = ''Value error, '' @ m"

definition parse_manifest :: "raw_manifest \<Rightarrow> cp_error + manifest \<times> jobj" where
  "parse_manifest raw =
     (case raw of
        Inl msgs \<Rightarrow> Inl (ValidationFailed ''invalid manifest'' msgs [])
      | Inr (m, rest) \<Rightarrow>
          (case validate_manifest m of
             Inl e \<Rightarrow> Inl (ValidationFailed ''invalid manifest'' [doc_error_message e] [])
           | Inr m' \<Rightarrow> Inr (m', rest)))"

text \<open>The end of \<open>register\<close>, for a manifest that may be registered: find the version or store it.\<close>

definition store_version ::
  "string \<Rightarrow> manifest \<Rightarrow> jobj \<Rightarrow> string \<Rightarrow> jobj option \<Rightarrow> instant \<Rightarrow> control_store \<Rightarrow>
   (cp_error + version_record) \<times> control_store" where
  "store_version who m rest source report now s =
     (case get_version s (mf_id m) (mf_version m) of
        Some v \<Rightarrow>
          if gv_manifest v \<noteq> m \<or> gv_manifest_rest v \<noteq> rest
          then (Inl (StoreConflict (manifest_key m @
                 '' is already registered with a different manifest; bump the version'')), s)
          else (Inr v, s)
      | None \<Rightarrow>
          (let v = \<lparr>gv_guardrail_id = mf_id m, gv_version = mf_version m, gv_manifest = m,
                    gv_manifest_rest = rest, gv_status = Validated, gv_source = source,
                    gv_conformance_report = report, gv_created_at = now\<rparr>
           in (Inr v, log_change ''guardrail_version'' (manifest_key m) ''register'' who (put_version v s))))"

definition register ::
  "admin option \<Rightarrow> raw_manifest \<Rightarrow> string \<Rightarrow> jobj option \<Rightarrow> instant \<Rightarrow> control_store \<Rightarrow>
   (cp_error + version_record) \<times> control_store" where
  "register p raw source report now s =
     (if (case p of None \<Rightarrow> False | Some a \<Rightarrow> \<not> can a RegistryWrite None)
      then (Inl (Forbidden RegistryWrite None), s)
      else (case parse_manifest raw of
              Inl e \<Rightarrow> (Inl e, s)
            | Inr (m, rest) \<Rightarrow>
                if (case report of None \<Rightarrow> False | Some r \<Rightarrow> \<not> truthy (obj_get r ''passed''))
                then (Inl (ValidationFailed (manifest_key m @ '' failed conformance'')
                       [''conformance report has passed=false''] []), s)
                else store_version
                       (case p of Some a \<Rightarrow> actor a | None \<Rightarrow> ''gateway ('' @ source @ '')'')
                       m rest source report now s))"

definition deprecate ::
  "admin \<Rightarrow> string \<Rightarrow> string \<Rightarrow> control_store \<Rightarrow> (cp_error + version_record) \<times> control_store" where
  "deprecate p gid v s =
     (if \<not> can p RegistryWrite None then (Inl (Forbidden RegistryWrite None), s)
      else (case get_version s gid v of
              None \<Rightarrow> (Inl (NotFound (gid @ ''@'' @ v @ '' not found'')), s)
            | Some rec \<Rightarrow>
                (let rec' = rec\<lparr>gv_status := Deprecated\<rparr>
                 in (Inr rec', log_change ''guardrail_version'' (gid @ ''@'' @ v) ''deprecate'' (actor p)
                       (put_version rec' s)))))"

definition list_registry ::
  "admin \<Rightarrow> string option \<Rightarrow> control_store \<Rightarrow> cp_error + version_record list" where
  "list_registry p gid s =
     (if \<not> can p PermRead (adm_tenant p) then Inl (Forbidden PermRead (adm_tenant p))
      else Inr (list_versions s gid))"

definition version_key :: "version_record \<Rightarrow> string" where
  "version_key v = gv_guardrail_id v @ ''@'' @ gv_version v"

definition versions_by_key :: "control_store \<Rightarrow> (string \<times> version_record) list" where
  "versions_by_key s = foldl (\<lambda>d v. AList.update (version_key v) v d) [] (list_versions s None)"

subsection \<open>Versions are immutable\<close>

text \<open>Rows sit under their own id and version, and hold a validated manifest of that name.\<close>

definition version_row_ok :: "(string \<times> string) \<times> version_record \<Rightarrow> bool" where
  "version_row_ok kv \<longleftrightarrow>
     fst kv = (gv_guardrail_id (snd kv), gv_version (snd kv)) \<and>
     mf_id (gv_manifest (snd kv)) = gv_guardrail_id (snd kv) \<and>
     mf_version (gv_manifest (snd kv)) = gv_version (snd kv) \<and>
     \<not> isl (validate_manifest (gv_manifest (snd kv)))"

definition versions_ok :: "control_store \<Rightarrow> bool" where
  "versions_ok s \<longleftrightarrow> distinct (map fst (db_versions s)) \<and> list_all version_row_ok (db_versions s)"

definition keeps_versions :: "control_store \<Rightarrow> control_store \<Rightarrow> bool" where
  "keeps_versions s t \<longleftrightarrow>
     (\<forall>k v. map_of (db_versions s) k = Some v \<longrightarrow>
        (\<exists>w. map_of (db_versions t) k = Some w \<and> gv_manifest w = gv_manifest v \<and>
           gv_manifest_rest w = gv_manifest_rest v))"

lemma keeps_versions_refl [simp, intro]: "keeps_versions s s"
  by (simp add: keeps_versions_def)

lemma keeps_versions_trans: "keeps_versions s t \<Longrightarrow> keeps_versions t u \<Longrightarrow> keeps_versions s u"
  by (fastforce simp: keeps_versions_def)

lemma keeps_versions_same: "db_versions t = db_versions s \<Longrightarrow> keeps_versions s t"
  by (simp add: keeps_versions_def)

lemma versions_ok_same: "db_versions t = db_versions s \<Longrightarrow> versions_ok t \<longleftrightarrow> versions_ok s"
  by (simp add: versions_ok_def)

lemma validate_manifest_Inr: "validate_manifest m = Inr m' \<Longrightarrow> m' = m"
  by (auto simp: validate_manifest_def split: if_splits option.splits bool.splits)

lemma versions_ok_put:
  assumes "versions_ok s" "version_row_ok ((gv_guardrail_id v, gv_version v), v)"
  shows "versions_ok (put_version v s)"
  using assms by (simp add: versions_ok_def put_version_def distinct_update list_all_update)

lemma parse_manifest_Inr:
  "parse_manifest raw = Inr (m, rest) \<Longrightarrow> raw = Inr (m, rest) \<and> \<not> isl (validate_manifest m)"
  using validate_manifest_Inr
  by (fastforce simp: parse_manifest_def split: sum.splits)

lemma log_change_versions_ok [simp]: "versions_ok (log_change e i a w s) = versions_ok s"
  by (rule versions_ok_same) simp

lemma get_version_row:
  "versions_ok s \<Longrightarrow> get_version s g v = Some r \<Longrightarrow> version_row_ok ((g, v), r)"
  by (auto simp: versions_ok_def get_version_def list_all_iff dest!: map_of_SomeD)

lemma store_version_ok:
  "versions_ok s \<Longrightarrow> \<not> isl (validate_manifest m) \<Longrightarrow>
   versions_ok (snd (store_version who m rest source report now s))"
  by (auto simp: store_version_def Let_def version_row_ok_def split: option.split intro!: versions_ok_put)

lemma keeps_versions_log [simp]: "keeps_versions s (log_change e i a w t) = keeps_versions s t"
  by (simp add: keeps_versions_def)

lemma keeps_versions_put:
  "(case get_version s (gv_guardrail_id v) (gv_version v) of None \<Rightarrow> True
    | Some r \<Rightarrow> gv_manifest r = gv_manifest v \<and> gv_manifest_rest r = gv_manifest_rest v) \<Longrightarrow>
   keeps_versions s (put_version v s)"
  by (auto simp: keeps_versions_def put_version_def get_version_def)

lemma store_version_keeps: "keeps_versions s (snd (store_version who m rest source report now s))"
  by (auto simp: store_version_def Let_def split: option.split intro!: keeps_versions_put)

text \<open>What a successful registration leaves: the version with this manifest.\<close>

lemma store_version_Inr:
  "store_version who m rest source report now s = (Inr v, t) \<Longrightarrow> versions_ok s \<Longrightarrow>
   \<not> isl (validate_manifest m) \<Longrightarrow>
   get_version t (mf_id m) (mf_version m) = Some v \<and> gv_manifest v = m \<and>
   gv_guardrail_id v = mf_id m \<and> gv_version v = mf_version m"
  using get_version_row [of s "mf_id m" "mf_version m"]
  by (auto simp: store_version_def Let_def get_version_def put_version_def version_row_ok_def
      split: option.splits if_splits)

lemma register_ok [inv_intros]:
  "versions_ok s \<Longrightarrow> versions_ok (snd (register p raw source report now s))"
  by (auto simp: register_def dest: parse_manifest_Inr intro: store_version_ok
      split: sum.split prod.split option.split)

lemma register_keeps: "keeps_versions s (snd (register p raw source report now s))"
  by (auto simp: register_def intro: store_version_keeps split: sum.split)

lemma register_Inr:
  assumes "register p raw source report now s = (Inr v, t)" "versions_ok s"
  shows "get_version t (gv_guardrail_id v) (gv_version v) = Some v \<and>
    mf_id (gv_manifest v) = gv_guardrail_id v \<and> mf_version (gv_manifest v) = gv_version v \<and>
    (\<exists>rest. raw = Inr (gv_manifest v, rest))"
proof -
  obtain m rest who where pm: "parse_manifest raw = Inr (m, rest)"
    and sv: "store_version who m rest source report now s = (Inr v, t)"
    using assms(1) by (auto simp: register_def split: if_splits sum.splits prod.splits)
  from store_version_Inr [OF sv assms(2)] parse_manifest_Inr [OF pm] show ?thesis by auto
qed

lemma deprecate_keeps: "versions_ok s \<Longrightarrow> keeps_versions s (snd (deprecate p g v s))"
  using get_version_row [of s g v]
  by (auto simp: deprecate_def Let_def version_row_ok_def split: option.split intro!: keeps_versions_put)

lemma deprecate_ok [inv_intros]: "versions_ok s \<Longrightarrow> versions_ok (snd (deprecate p g v s))"
  using get_version_row [of s g v]
  by (auto simp: deprecate_def Let_def version_row_ok_def split: option.split intro!: versions_ok_put)

end
