(* ===== verification/Cp_Admin.thy ===== *)
theory Cp_Admin
  imports Cp_Registry
begin

text \<open>
  Admin keys (\<^verbatim>\<open>services/admin.py\<close>): who may act on the control plane. The hash is a parameter, and
  so is the random key of \<open>create\<close>.
\<close>

definition authenticate_admin :: "(string \<Rightarrow> string) \<Rightarrow> string option \<Rightarrow> control_store \<Rightarrow> admin option" where
  "authenticate_admin hash raw s =
     (if raw = None \<or> raw = Some [] \<or> 256 < length (the raw) then None
      else (case find_admin_key s (hash (the raw)) of
              None \<Rightarrow> None
            | Some k \<Rightarrow>
                if \<not> ak_is_active k then None
                else Some \<lparr>adm_key_id = ak_id k, adm_name = ak_name k, adm_roles = ak_roles k,
                           adm_tenant = ak_tenant_id k\<rparr>))"

definition create_admin_key ::
  "(string \<Rightarrow> string) \<Rightarrow> admin option \<Rightarrow> string \<Rightarrow> string list \<Rightarrow> string option \<Rightarrow> string \<Rightarrow> string \<Rightarrow> instant \<Rightarrow>
   control_store \<Rightarrow> (cp_error + admin_key \<times> string) \<times> control_store" where
  "create_admin_key hash p name rs tenant raw fresh_id now s =
     (let unknown = filter (\<lambda>r. r \<notin> set roles) rs in
      if unknown \<noteq> [] \<or> rs = [] then (Inl (ValidationFailed ''unknown roles'' [] []), s)
      else if (case p of None \<Rightarrow> False | Some a \<Rightarrow> \<not> can a AdminKeys tenant)
      then (Inl (Forbidden AdminKeys tenant), s)
      else if (case p of None \<Rightarrow> False | Some a \<Rightarrow> \<not> is_platform a \<and> tenant \<noteq> adm_tenant a)
      then (Inl (ValidationFailed ''tenant admins can only create keys for their own tenant'' [] []), s)
      else if (case p of None \<Rightarrow> False | Some a \<Rightarrow> \<not> is_platform a \<and> ''admin'' \<in> set rs \<and> tenant = None)
      then (Inl (ValidationFailed ''only platform admins can create platform keys'' [] []), s)
      else (let k = \<lparr>ak_id = fresh_id, ak_name = name, ak_key_hash = hash raw, ak_prefix = take 12 raw,
                     ak_roles = rs, ak_tenant_id = tenant, ak_is_active = True, ak_created_at = now\<rparr>
            in (Inr (k, raw), log_change ''admin_key'' fresh_id ''create''
                  (case p of None \<Rightarrow> ''bootstrap'' | Some a \<Rightarrow> actor a) (put_admin_key k s))))"

definition revoke_admin_key :: "admin \<Rightarrow> string \<Rightarrow> control_store \<Rightarrow> (cp_error + unit) \<times> control_store" where
  "revoke_admin_key p key_id s =
     (case find (\<lambda>k. ak_id k = key_id) (list_admin_keys s) of
        None \<Rightarrow> (Inl (NotFound (''admin key '' @ key_id @ '' not found'')), s)
      | Some k \<Rightarrow>
          if \<not> can p AdminKeys (ak_tenant_id k) then (Inl (Forbidden AdminKeys (ak_tenant_id k)), s)
          else (Inr (), log_change ''admin_key'' key_id ''revoke'' (actor p)
                  (put_admin_key (k\<lparr>ak_is_active := False\<rparr>) s)))"

definition list_keys :: "admin \<Rightarrow> control_store \<Rightarrow> cp_error + admin_key list" where
  "list_keys p s =
     (if \<not> can p AdminKeys (adm_tenant p) then Inl (Forbidden AdminKeys (adm_tenant p))
      else Inr (filter (\<lambda>k. is_platform p \<or> ak_tenant_id k = adm_tenant p) (list_admin_keys s)))"

section \<open>No escalation by minting keys\<close>

text \<open>
  A key a tenant admin mints acts for that tenant only, so what it can do, on the platform or
  on a tenant, is limited to the tenant. It can still hold a role its maker lacks:
  \<open>reviewer-raw\<close> reads held payloads, which \<open>admin\<close> may not.
\<close>

lemma create_admin_key_tenant:
  assumes "create_admin_key hash (Some a) name rs tenant raw i now s = (Inr (k, r), t)"
    and "\<not> is_platform a"
  shows "ak_tenant_id k = adm_tenant a \<and> adm_tenant a \<noteq> None"
  using assms by (auto simp: create_admin_key_def Let_def model_defs split: if_splits dest: can_tenant)

definition admin_of_key :: "admin_key \<Rightarrow> admin" where
  [model_defs]: "admin_of_key k = \<lparr>adm_key_id = ak_id k, adm_name = ak_name k, adm_roles = ak_roles k, adm_tenant = ak_tenant_id k\<rparr>"

lemma minted_key_confined:
  assumes "create_admin_key hash (Some a) name rs tenant raw i now s = (Inr (k, r), t)"
    and "\<not> is_platform a" and "can (admin_of_key k) perm tn"
  shows "tn = adm_tenant a \<and> perm \<notin> set platform_only"
  using create_admin_key_tenant [OF assms(1,2)] assms(2,3)
  by (auto simp: can_def admin_of_key_def is_platform_def split: if_splits)

definition ex_tenant_admin :: admin where
  "ex_tenant_admin = \<lparr>adm_key_id = ''k1'', adm_name = ''ann'', adm_roles = [''admin''], adm_tenant = Some ''acme''\<rparr>"

definition ex_minted :: admin_key where
  "ex_minted = fst (projr (fst (create_admin_key (\<lambda>x. x) (Some ex_tenant_admin) ''bob'' [''reviewer-raw'']
     (Some ''acme'') ''cpk_x'' ''k2'' 0 empty_store)))"

lemma mint_reviewer_raw:
  "can (admin_of_key ex_minted) ReviewsRaw (Some ''acme'') \<and> \<not> can ex_tenant_admin ReviewsRaw (Some ''acme'')"
  by code_simp

end
