(* ===== verification/Cp_Assignments.thy ===== *)
theory Cp_Assignments
  imports Cp_Registry
begin

text \<open>
  Working-set assignments (\<^verbatim>\<open>services/assignments.py\<close>). A raw body is what pydantic makes of it:
  messages, or the assignment before its own checks run. A patch is a function on the assignment
  with the names of the fields it sets.
\<close>

definition check_env :: "string \<Rightarrow> cp_error + environment" where
  "check_env e =
     (if e = ''dev'' then Inr Dev else if e = ''staging'' then Inr Staging
      else if e = ''production'' then Inr Production
      else Inl (NotFound (''unknown environment '' @ e)))"

type_synonym raw_assignment = "string list + assignment"

definition parse_assignment :: "raw_assignment \<Rightarrow> cp_error + assignment" where
  "parse_assignment raw =
     (case raw of
        Inl msgs \<Rightarrow> Inl (ValidationFailed ''invalid assignment'' msgs [])
      | Inr a \<Rightarrow>
          (case validate_assignment a of
             Inl e \<Rightarrow> Inl (ValidationFailed ''invalid assignment'' [doc_error_message e] [])
           | Inr a' \<Rightarrow> Inr a'))"

definition list_working :: "admin \<Rightarrow> string \<Rightarrow> control_store \<Rightarrow> cp_error + assignment_record list" where
  "list_working p environment s =
     (case check_env environment of
        Inl e \<Rightarrow> Inl e
      | Inr env \<Rightarrow>
          if \<not> can p PermRead (adm_tenant p) then Inl (Forbidden PermRead (adm_tenant p))
          else Inr (filter (\<lambda>r. is_platform p \<or> assignment_tenant (wa_assignment r) = adm_tenant p)
                      (list_assignments s env)))"

definition put_assignment ::
  "admin \<Rightarrow> string \<Rightarrow> raw_assignment \<Rightarrow> instant \<Rightarrow> control_store \<Rightarrow>
   (cp_error + assignment_record) \<times> control_store" where
  "put_assignment p environment raw now s =
     (case check_env environment of
        Inl e \<Rightarrow> (Inl e, s)
      | Inr env \<Rightarrow>
          (case parse_assignment raw of
             Inl e \<Rightarrow> (Inl e, s)
           | Inr a \<Rightarrow>
               if \<not> can p AssignmentsWrite (assignment_tenant a)
               then (Inl (Forbidden AssignmentsWrite (assignment_tenant a)), s)
               else if get_version s (as_guardrail_id a) (as_guardrail_version a) = None
               then (Inl (ValidationFailed (as_guardrail_id a @ ''@'' @ as_guardrail_version a @
                       '' is not registered'') [] []), s)
               else (let before = get_assignment_row s env (as_id a) in
                     if (case before of None \<Rightarrow> False
                         | Some b \<Rightarrow> \<not> can p AssignmentsWrite (assignment_tenant (wa_assignment b)))
                     then (Inl (Forbidden AssignmentsWrite (assignment_tenant (wa_assignment (the before)))), s)
                     else (let r = \<lparr>wa_environment = env, wa_assignment = a, wa_updated_by = actor p,
                                    wa_updated_at = now\<rparr>
                           in (Inr r, log_change ''assignment'' (environment @ ''/'' @ as_id a)
                                 (if before = None then ''create'' else ''update'') (actor p)
                                 (put_assignment_row r s))))))"

definition PATCHABLE :: "string list" where
  "PATCHABLE = [''enabled'', ''mode'', ''order'', ''parallel_group'', ''failure_mode'', ''timeout_ms'',
     ''config'', ''stages'', ''guardrail_version'']"

text \<open>\<open>changes\<close> is \<open>{**current, **changes}\<close>, \<open>names\<close> the keys of the patch.\<close>

definition patch_assignment ::
  "admin \<Rightarrow> string \<Rightarrow> string \<Rightarrow> string list \<Rightarrow> (assignment \<Rightarrow> raw_assignment) \<Rightarrow> instant \<Rightarrow> control_store \<Rightarrow>
   (cp_error + assignment_record) \<times> control_store" where
  "patch_assignment p environment i names changes now s =
     (case check_env environment of
        Inl e \<Rightarrow> (Inl e, s)
      | Inr env \<Rightarrow>
          if \<not> set names \<subseteq> set PATCHABLE
          then (Inl (ValidationFailed ''cannot patch'' [] []), s)
          else (case get_assignment_row s env i of
                  None \<Rightarrow> (Inl (NotFound (''assignment '' @ i @ '' not found in '' @ environment)), s)
                | Some current \<Rightarrow> put_assignment p environment (changes (wa_assignment current)) now s))"

definition delete_assignment ::
  "admin \<Rightarrow> string \<Rightarrow> string \<Rightarrow> control_store \<Rightarrow> (cp_error + unit) \<times> control_store" where
  "delete_assignment p environment i s =
     (case check_env environment of
        Inl e \<Rightarrow> (Inl e, s)
      | Inr env \<Rightarrow>
          (case get_assignment_row s env i of
             None \<Rightarrow> (Inl (NotFound (''assignment '' @ i @ '' not found in '' @ environment)), s)
           | Some current \<Rightarrow>
               if \<not> can p AssignmentsWrite (assignment_tenant (wa_assignment current))
               then (Inl (Forbidden AssignmentsWrite (assignment_tenant (wa_assignment current))), s)
               else (Inr (), log_change ''assignment'' (environment @ ''/'' @ i) ''delete'' (actor p)
                       (snd (delete_assignment_row env i s)))))"

section \<open>The difference to the live snapshot\<close>

record diff =
  df_base_version :: "string option"
  df_added :: "string list"
  df_removed :: "string list"
  df_changed :: "string list"
  df_details :: "(string \<times> assignment option \<times> assignment option) list"  \<comment> \<open>live, working\<close>

text \<open>\<open>_visible\<close>: a tenant key sees the side of a change that belongs to its tenant.\<close>

definition visible_side :: "admin \<Rightarrow> assignment option \<Rightarrow> assignment option" where
  "visible_side p a =
     (case a of
        None \<Rightarrow> None
      | Some x \<Rightarrow> if is_platform p \<or> assignment_tenant x = adm_tenant p then a else None)"

definition diff_of ::
  "admin \<Rightarrow> (string \<times> assignment) list \<Rightarrow> (string \<times> assignment) list \<Rightarrow> string option \<Rightarrow> diff" where
  "diff_of p working live base =
     (let added = sort (filter (\<lambda>k. k \<notin> set (map fst live)) (map fst working));
          removed = sort (filter (\<lambda>k. k \<notin> set (map fst working)) (map fst live));
          changed = sort (filter (\<lambda>k. k \<in> set (map fst live) \<and> map_of working k \<noteq> map_of live k) (map fst working));
          mine = (\<lambda>k. case (case map_of working k of None \<Rightarrow> map_of live k | Some a \<Rightarrow> Some a) of
                        None \<Rightarrow> False | Some a \<Rightarrow> assignment_tenant a = adm_tenant p);
          shown = (\<lambda>ids. if is_platform p then ids else filter mine ids)
      in \<lparr>df_base_version = base, df_added = shown added, df_removed = shown removed,
          df_changed = shown changed,
          df_details = map (\<lambda>k. (k, visible_side p (map_of live k), visible_side p (map_of working k)))
                         (shown added @ shown removed @ shown changed)\<rparr>)"

definition diff_assignments :: "admin \<Rightarrow> string \<Rightarrow> control_store \<Rightarrow> cp_error + diff" where
  "diff_assignments p environment s =
     (case check_env environment of
        Inl e \<Rightarrow> Inl e
      | Inr env \<Rightarrow>
          if \<not> can p PermRead (adm_tenant p) then Inl (Forbidden PermRead (adm_tenant p))
          else (let working = map (\<lambda>r. (as_id (wa_assignment r), wa_assignment r)) (list_assignments s env);
                    current = current_snapshot s env;
                    live = (case current of None \<Rightarrow> []
                            | Some c \<Rightarrow> map (\<lambda>a. (as_id a, a)) (sd_assignments (sn_document c)))
                in Inr (diff_of p working live (map_option sn_version current))))"

section \<open>Tenant keys stay inside their tenant\<close>

text \<open>The working rows of another tenant, or of everyone (\<open>None\<close>).\<close>

definition rows_of ::
  "string option \<Rightarrow> control_store \<Rightarrow> (environment \<times> string) \<Rightarrow> assignment_record option" where
  "rows_of tenant s k =
     (case map_of (db_assignments s) k of
        None \<Rightarrow> None
      | Some r \<Rightarrow> if assignment_tenant (wa_assignment r) = tenant then Some r else None)"

lemma put_assignment_Inr:
  assumes "put_assignment p environment raw now s = (Inr r, t)"
  obtains env i w where "check_env environment = Inr env" "wa_environment r = env"
    "can p AssignmentsWrite (assignment_tenant (wa_assignment r))"
    "\<And>b. map_of (db_assignments s) (env, as_id (wa_assignment r)) = Some b \<Longrightarrow>
        can p AssignmentsWrite (assignment_tenant (wa_assignment b))"
    "t = log_change ''assignment'' i w (actor p) (put_assignment_row r s)"
proof -
  obtain env a where ce: "check_env environment = Inr env" and pa: "parse_assignment raw = Inr a"
    using assms by (cases "check_env environment"; cases "parse_assignment raw"; simp add: put_assignment_def)
  note d = assms [unfolded put_assignment_def ce pa sum.case Let_def get_assignment_row_def]
  have ok: "can p AssignmentsWrite (assignment_tenant a)"
    and old: "case map_of (db_assignments s) (env, as_id a) of None \<Rightarrow> True
         | Some b \<Rightarrow> can p AssignmentsWrite (assignment_tenant (wa_assignment b))"
    using d by (simp_all split: if_splits option.splits)
  from d ok old have "wa_assignment r = a" "wa_environment r = env"
    "\<exists>i w. t = log_change ''assignment'' i w (actor p) (put_assignment_row r s)"
    by (cases "map_of (db_assignments s) (env, as_id a)"; force split: if_splits)+
  with that [OF ce] ok old show thesis by (metis option.simps(5))
qed

lemma put_assignment_Inl: "put_assignment p environment raw now s = (Inl e, t) \<Longrightarrow> t = s"
  by (auto simp: put_assignment_def Let_def split: sum.splits if_splits)

lemma put_assignment_other:
  assumes "\<not> is_platform p" "tenant \<noteq> adm_tenant p"
  shows "rows_of tenant (snd (put_assignment p environment raw now s)) k = rows_of tenant s k"
proof (cases "put_assignment p environment raw now s")
  case (Pair r t)
  show ?thesis
  proof (cases r)
    case (Inl e)
    with Pair put_assignment_Inl show ?thesis by (metis snd_conv)
  next
    case (Inr rr)
    with Pair have pa: "put_assignment p environment raw now s = (Inr rr, t)" by simp
    obtain env i w where *: "wa_environment rr = env"
      "can p AssignmentsWrite (assignment_tenant (wa_assignment rr))"
      "\<And>b. map_of (db_assignments s) (env, as_id (wa_assignment rr)) = Some b \<Longrightarrow>
        can p AssignmentsWrite (assignment_tenant (wa_assignment b))"
      "t = log_change ''assignment'' i w (actor p) (put_assignment_row rr s)"
      by (rule put_assignment_Inr [OF pa]) blast
    have "assignment_tenant (wa_assignment rr) \<noteq> tenant"
      using can_tenant [OF *(2) assms(1)] assms(2) by simp
    moreover have "map_of (db_assignments s) (env, as_id (wa_assignment rr)) = Some b \<Longrightarrow>
        assignment_tenant (wa_assignment b) \<noteq> tenant" for b
      using can_tenant [OF *(3) assms(1)] assms(2) by simp
    ultimately show ?thesis
      using Pair * by (auto simp: rows_of_def put_assignment_row_def split: option.split)
  qed
qed

lemma patch_assignment_other:
  "\<not> is_platform p \<Longrightarrow> tenant \<noteq> adm_tenant p \<Longrightarrow>
   rows_of tenant (snd (patch_assignment p environment i names changes now s)) k = rows_of tenant s k"
  by (auto simp: patch_assignment_def put_assignment_other split: sum.split option.split)

lemma delete_assignment_other:
  assumes "\<not> is_platform p" "tenant \<noteq> adm_tenant p"
  shows "rows_of tenant (snd (delete_assignment p environment i s)) k = rows_of tenant s k"
  using assms
  by (auto simp: delete_assignment_def get_assignment_row_def delete_assignment_row_def rows_of_def
      delete_conv' dest: can_tenant split: sum.split option.split)

end
