(* ===== verification/Cp_Compiler.thy ===== *)
theory Cp_Compiler
  imports Cp_Registry Json_Object
begin

text \<open>
  The snapshot compiler of the control plane (\<^verbatim>\<open>domain/compiler.py\<close>) and that what it accepts
  without warnings, the gateways it saw accept too (\<^verbatim>\<open>app/engine/registry.py\<close>, theory
  \<^verbatim>\<open>Registry\<close>). JSON Schema validation of a configuration is a parameter: from the carried keys of
  the manifest and the configuration to the messages.
\<close>

section \<open>Versions of snapshots\<close>

text \<open>\<open>f"{n:05d}"\<close> for a number that is not negative.\<close>

definition pad5 :: "nat \<Rightarrow> string" where
  "pad5 n = replicate (5 - length (nat_digits n)) CHR ''0'' @ nat_digits n"

definition snapshot_version ::
  "(environment \<Rightarrow> assignment list \<Rightarrow> string) \<Rightarrow> environment \<Rightarrow> snapshot_doc \<Rightarrow> nat \<Rightarrow> string" where
  "snapshot_version digest env doc sequence =
     environment_value env @ ''-'' @ pad5 sequence @ ''-'' @
       take 8 (digest (sd_environment doc) (sd_assignments doc))"

definition etag :: "string \<Rightarrow> string" where
  "etag h = CHR 0x22 # take 32 h @ [CHR 0x22]"

section \<open>Compiling\<close>

text \<open>\<open>repr\<close> of a list of plain strings.\<close>

definition repr_list :: "string list \<Rightarrow> string" where
  "repr_list xs = ''['' @ join '', '' (map quoted xs) @ '']''"

definition compile_key :: "assignment \<Rightarrow> string" where
  "compile_key a = as_guardrail_id a @ ''@'' @ as_guardrail_version a"

definition gateway_live :: "instant \<Rightarrow> int \<Rightarrow> gateway_record \<Rightarrow> bool" where
  "gateway_live now stale_after g \<longleftrightarrow> now - gw_last_seen g \<le> stale_after * 1000000"

text \<open>The body of the loop: the errors and the warnings one assignment adds.\<close>

definition check_assignment ::
  "(jobj \<Rightarrow> jobj \<Rightarrow> string list) \<Rightarrow> (string \<times> version_record) list \<Rightarrow> gateway_record list \<Rightarrow> bool \<Rightarrow>
   assignment \<Rightarrow> string list \<times> string list" where
  "check_assignment validate_config versions live force a =
     (let key = compile_key a in
      case map_of versions key of
        None \<Rightarrow> ([as_id a @ '': guardrail '' @ key @ '' is not registered''], [])
      | Some rec \<Rightarrow>
          (let m = gv_manifest rec;
               dep = (if gv_status rec = Deprecated then [as_id a @ '': '' @ key @ '' is deprecated''] else []);
               unsupported = map stage_value (filter (\<lambda>s. s \<notin> set (mf_stages m)) (as_stages a));
               uns = (if unsupported \<noteq> []
                      then [as_id a @ '': '' @ key @ '' does not support stage(s) '' @ repr_list unsupported] else []);
               par = (if as_parallel_group a \<noteq> None \<and> as_parallel_group a \<noteq> Some [] \<and>
                         \<not> cap_parallel_safe (mf_capabilities m)
                      then [as_id a @ '': '' @ key @ '' is not parallel_safe but has parallel_group''] else []);
               cfg = map (\<lambda>msg. as_id a @ '': '' @ msg) (validate_config (gv_manifest_rest rec) (as_config a));
               missing_on = map gw_gateway_id (filter (\<lambda>g. key \<notin> set (gw_installed g)) live);
               mis = (if missing_on \<noteq> []
                      then [as_id a @ '': '' @ key @ '' is not installed on gateway(s) '' @
                            join '', '' (sort missing_on)] else [])
           in ((if force then [] else dep) @ uns @ par @ cfg @ (if force then [] else mis),
               (if force then dep else []) @ (if force then mis else []))))"

record compile_result =
  cr_document :: "snapshot_doc option"
  cr_errors :: "string list"
  cr_warnings :: "string list"

definition cr_ok :: "compile_result \<Rightarrow> bool" where
  [model_defs]: "cr_ok r \<longleftrightarrow> cr_document r \<noteq> None \<and> cr_errors r = []"

text \<open>Building the document may raise: \<open>SnapshotDoc\<close> refuses assignments that share an id.\<close>

definition compile_snapshot ::
  "(jobj \<Rightarrow> jobj \<Rightarrow> string list) \<Rightarrow> environment \<Rightarrow> assignment list \<Rightarrow> (string \<times> version_record) list \<Rightarrow>
   gateway_record list \<Rightarrow> bool \<Rightarrow> int \<Rightarrow> instant \<Rightarrow> doc_error + compile_result" where
  "compile_snapshot validate_config env assignments versions gateways force stale_after now =
     (let live = filter (gateway_live now stale_after) gateways;
          ordered = sort_key (\<lambda>a. (as_order a, as_id a)) assignments;
          checks = map (check_assignment validate_config versions live force) ordered;
          errors = concat (map fst checks);
          warnings = concat (map snd checks) @
            (if live = [] then [''no live gateways reported for '' @ environment_value env @
                                ''; installation not verified''] else [])
      in if errors \<noteq> [] then Inr \<lparr>cr_document = None, cr_errors = errors, cr_warnings = warnings\<rparr>
         else (let doc = \<lparr>sd_version = ''draft'', sd_environment = env, sd_assignments = ordered,
                          sd_published_at = None, sd_published_by = None, sd_approved_by = None\<rparr>
               in if \<not> distinct (map as_id ordered)
                  then Inl (DocValueError ''assignment ids must be unique'')
                  else Inr \<lparr>cr_document = Some doc, cr_errors = [], cr_warnings = warnings\<rparr>))"

lemma compile_snapshot_document:
  assumes "compile_snapshot vc env as vs gs force stale now = Inr r" "cr_document r = Some d"
  shows "sd_environment d = env \<and> sd_assignments d = sort_key (\<lambda>a. (as_order a, as_id a)) as \<and>
    distinct (map as_id (sd_assignments d)) \<and>
    list_all (\<lambda>a. fst (check_assignment vc vs (filter (gateway_live now stale) gs) force a) = []) as"
proof -
  let ?live = "filter (gateway_live now stale) gs"
  let ?ord = "sort_key (\<lambda>a. (as_order a, as_id a)) as"
  have e: "concat (map fst (map (check_assignment vc vs ?live force) ?ord)) = []"
    and di: "distinct (map as_id ?ord)" and d: "sd_environment d = env" "sd_assignments d = ?ord"
    using assms by (auto simp: compile_snapshot_def Let_def split: if_splits)
  from e have "list_all (\<lambda>a. fst (check_assignment vc vs ?live force a) = []) as"
    by (auto simp: list_all_iff)
  with d di show ?thesis by simp
qed

text \<open>What an assignment without errors satisfies.\<close>

lemma check_assignment_Some:
  assumes "map_of vs (compile_key a) = Some rec"
  shows "fst (check_assignment vc vs live force a) = [] \<longleftrightarrow>
     (force \<or> gv_status rec \<noteq> Deprecated) \<and> filter (\<lambda>s. s \<notin> set (mf_stages (gv_manifest rec))) (as_stages a) = [] \<and>
     (as_parallel_group a = None \<or> as_parallel_group a = Some [] \<or> cap_parallel_safe (mf_capabilities (gv_manifest rec))) \<and>
     vc (gv_manifest_rest rec) (as_config a) = [] \<and>
     (force \<or> filter (\<lambda>g. compile_key a \<notin> set (gw_installed g)) live = [])"
proof -
  define u where "u = filter (\<lambda>s. s \<notin> set (mf_stages (gv_manifest rec))) (as_stages a)"
  define mi where "mi = filter (\<lambda>g. compile_key a \<notin> set (gw_installed g)) live"
  show ?thesis
    unfolding u_def [symmetric] mi_def [symmetric] check_assignment_def Let_def assms option.case
    by (cases force; simp)
qed

lemma check_assignment_clean:
  assumes "fst (check_assignment vc vs live force a) = []"
  obtains rec where "map_of vs (compile_key a) = Some rec"
    "set (as_stages a) \<subseteq> set (mf_stages (gv_manifest rec))"
    "as_parallel_group a = None \<or> as_parallel_group a = Some [] \<or> cap_parallel_safe (mf_capabilities (gv_manifest rec))"
    "vc (gv_manifest_rest rec) (as_config a) = []"
    "force \<or> gv_status rec \<noteq> Deprecated"
    "force \<or> list_all (\<lambda>g. compile_key a \<in> set (gw_installed g)) live"
proof (cases "map_of vs (compile_key a)")
  case None
  with assms show ?thesis by (simp add: check_assignment_def Let_def)
next
  case (Some rec)
  note c = assms [unfolded check_assignment_Some [OF Some]]
  show ?thesis
  proof (rule that [OF Some])
    show "set (as_stages a) \<subseteq> set (mf_stages (gv_manifest rec))"
      using c by (simp add: filter_empty_conv subset_iff)
    show "force \<or> list_all (\<lambda>g. compile_key a \<in> set (gw_installed g)) live"
      using c by (simp add: filter_empty_conv list_all_iff)
  qed (use c in simp_all)
qed

section \<open>The gateway accepts what the control plane compiled\<close>

lemma compile_assignments_total:
  assumes "list_all (\<lambda>a. \<exists>m. manifests (compile_key a) = Some m \<and>
      set (as_stages a) \<subseteq> set (mf_stages m) \<and>
      (as_parallel_group a = None \<or> as_parallel_group a = Some [] \<or> cap_parallel_safe (mf_capabilities m)) \<and>
      \<not> isl (instantiate m (as_config a))) as"
  shows "\<exists>bs. compile_assignments manifests instantiate as = Inr bs"
  using assms
proof (induction as)
  case Nil
  then show ?case by simp
next
  case (Cons a as)
  from Cons.prems obtain m where m: "manifests (compile_key a) = Some m" "set (as_stages a) \<subseteq> set (mf_stages m)"
    "as_parallel_group a = None \<or> as_parallel_group a = Some [] \<or> cap_parallel_safe (mf_capabilities m)"
    "\<not> isl (instantiate m (as_config a))"
    unfolding list.pred_inject(2) by blast
  from m(4) obtain g where g: "instantiate m (as_config a) = Inr g"
    by (cases "instantiate m (as_config a)") simp_all
  from Cons obtain bs where bs: "compile_assignments manifests instantiate as = Inr bs"
    unfolding list.pred_inject(2) by blast
  from m g bs have "compile_assignments manifests instantiate (a # as) =
      Inr (\<lparr>bg_assignment = a, bg_manifest = m, bg_guardrail = g\<rparr> # bs)"
    by (subst compile_assignments_Cons) (auto simp: bound_ok_def compile_key_def)
  then show ?case by blast
qed

lemma list_all_sort_key: "list_all P (sort_key f xs) = list_all P xs"
  by (simp add: list_all_iff)

lemma compiled_document_accepted:
  assumes r: "compile_snapshot vc env as vs gs False stale now = Inr r" "cr_document r = Some d"
    and g: "g \<in> set gs" "gateway_live now stale g"
    and mans: "\<And>key rec. key \<in> set (gw_installed g) \<Longrightarrow> map_of vs key = Some rec \<Longrightarrow>
        manifests key = Some (gv_manifest rec)"
    and inst: "\<And>key rec cfg. map_of vs key = Some rec \<Longrightarrow> vc (gv_manifest_rest rec) cfg = [] \<Longrightarrow>
        \<not> isl (instantiate (gv_manifest rec) cfg)"
  shows "\<exists>bs. compile_assignments manifests instantiate (sd_assignments d) = Inr bs"
proof (rule compile_assignments_total)
  have clean: "list_all (\<lambda>a. fst (check_assignment vc vs (filter (gateway_live now stale) gs) False a) = [])
      (sd_assignments d)" and as: "sd_assignments d = sort_key (\<lambda>a. (as_order a, as_id a)) as"
    using compile_snapshot_document [OF r] by (simp_all add: list_all_sort_key)
  show "list_all (\<lambda>a. \<exists>m. manifests (compile_key a) = Some m \<and> set (as_stages a) \<subseteq> set (mf_stages m) \<and>
      (as_parallel_group a = None \<or> as_parallel_group a = Some [] \<or> cap_parallel_safe (mf_capabilities m)) \<and>
      \<not> isl (instantiate m (as_config a))) (sd_assignments d)"
    unfolding list_all_iff
  proof
    fix a assume "a \<in> set (sd_assignments d)"
    with clean have "fst (check_assignment vc vs (filter (gateway_live now stale) gs) False a) = []"
      by (simp add: list_all_iff)
    then obtain rec where rec: "map_of vs (compile_key a) = Some rec"
      "set (as_stages a) \<subseteq> set (mf_stages (gv_manifest rec))"
      "as_parallel_group a = None \<or> as_parallel_group a = Some [] \<or> cap_parallel_safe (mf_capabilities (gv_manifest rec))"
      "vc (gv_manifest_rest rec) (as_config a) = []"
      and live: "list_all (\<lambda>g. compile_key a \<in> set (gw_installed g)) (filter (gateway_live now stale) gs)"
      by (rule check_assignment_clean) simp
    have "manifests (compile_key a) = Some (gv_manifest rec)"
      using live g mans [of "compile_key a" rec] rec(1) by (simp add: list_all_iff)
    then show "\<exists>m. manifests (compile_key a) = Some m \<and> set (as_stages a) \<subseteq> set (mf_stages m) \<and>
      (as_parallel_group a = None \<or> as_parallel_group a = Some [] \<or> cap_parallel_safe (mf_capabilities m)) \<and>
      \<not> isl (instantiate m (as_config a))"
      using rec inst [of "compile_key a" rec "as_config a"] by blast
  qed
qed

section \<open>Sequence numbers keep versions apart\<close>

lemma pad5_digits: "c \<in> set (pad5 n) \<Longrightarrow> is_digit c"
  by (auto simp: pad5_def is_digit_def dest: nat_digits_digit)

lemma digits_value_pad5 [simp]: "digits_value (pad5 n) = n"
proof -
  have "digits_value (replicate k CHR ''0'' @ ds) = digits_value ds" for k ds
    by (induction k) (simp_all add: digits_value_def digit_value_def)
  then show ?thesis by (simp add: pad5_def)
qed

lemma snapshot_version_inject:
  assumes "snapshot_version digest env doc n = snapshot_version digest env doc' m"
  shows "n = m"
proof -
  have tw: "takeWhile is_digit (pad5 k @ CHR ''-'' # r) = pad5 k" for k r
    using pad5_digits [of _ k] by (simp add: is_digit_def)
  from assms have "pad5 n @ CHR ''-'' # take 8 (digest (sd_environment doc) (sd_assignments doc)) =
      pad5 m @ CHR ''-'' # take 8 (digest (sd_environment doc') (sd_assignments doc'))"
    by (simp add: snapshot_version_def)
  then have "pad5 n = pad5 m" by (metis tw)
  then show ?thesis by (metis digits_value_pad5)
qed

end
