(* ===== verification/Cp_Catalog.thy ===== *)
theory Cp_Catalog
  imports Cp_Compiler
begin

text \<open>
  The catalog: \<open>build_catalog\<close> (\<^verbatim>\<open>domain/compiler.py\<close>), the service that edits tenants, gateway API
  keys, agents, actions and modifiers and republishes after every change
  (\<^verbatim>\<open>services/catalog.py\<close>), and the fleet's heartbeat, which registers manifests and may republish
  (\<^verbatim>\<open>services/gateways.py\<close>).

  The open findings and the entities of a tenant come from the inventory, a parameter here; so are
  the content hash, the printed time and random keys. A handler reads the clock once.
\<close>

section \<open>Building the document\<close>

record inventory_flags =
  fl_agent_findings :: "(string \<times> string list) list"
  fl_flagged_tools :: "string list"

text \<open>\<open>sorted(set(xs))\<close>.\<close>

definition sort_unique :: "'a::linorder list \<Rightarrow> 'a list" where
  "sort_unique xs = sort (remdups xs)"

lemma set_sort_unique [simp]: "set (sort_unique xs) = set xs"
  by (simp add: sort_unique_def)

definition key_published :: "instant \<Rightarrow> api_key_record \<Rightarrow> bool" where
  "key_published now k \<longleftrightarrow>
     ky_is_active k \<and> (case ky_expires_at k of None \<Rightarrow> True | Some e \<Rightarrow> now < e)"

definition catalog_key :: "api_key_record \<Rightarrow> catalog_api_key" where
  "catalog_key k = \<lparr>ca_id = ky_id k, ca_name = ky_name k, ca_key_hash = ky_key_hash k, ca_scopes = ky_scopes k,
     ca_environments = ky_environments k, ca_expires_at = ky_expires_at k, ca_rate_limit = ky_rate_limit k,
     ca_agent_id = ky_agent_id k\<rparr>"

definition catalog_agent_of :: "inventory_flags option \<Rightarrow> agent_record \<Rightarrow> catalog_agent_doc" where
  "catalog_agent_of flags a = \<lparr>cd_agent_id = agr_agent_id a, cd_base_trust_score = agr_base_trust_score a,
     cd_allowed_tools = agr_allowed_tools a,
     cd_open_findings =
       (case flags of
          None \<Rightarrow> []
        | Some f \<Rightarrow> sort_unique (case map_of (fl_agent_findings f) (agr_agent_id a) of None \<Rightarrow> [] | Some ks \<Rightarrow> ks))\<rparr>"

text \<open>What the four loops and the inventory add to one tenant.\<close>

definition build_tenant ::
  "api_key_record list \<Rightarrow> agent_record list \<Rightarrow> action_record list \<Rightarrow> modifier_record list \<Rightarrow>
   (string \<times> inventory_flags) list \<Rightarrow> instant \<Rightarrow> tenant_record \<Rightarrow> catalog_tenant" where
  "build_tenant keys agents actions modifiers inventory now t =
     (let i = tn_id t; flags = map_of inventory i in
      \<lparr>cn_id = i, cn_name = tn_name t, cn_status = tn_status t,
       cn_api_keys = map catalog_key
         (filter (\<lambda>k. key_published now k \<and> ky_tenant_id k = i) (sort_key ky_id keys)),
       cn_agents = map (catalog_agent_of flags)
         (filter (\<lambda>a. agr_tenant_id a = i) (sort_key (\<lambda>a. (agr_tenant_id a, agr_agent_id a)) agents)),
       cn_actions = map (\<lambda>r. \<lparr>cq_action = ac_action r, cq_resource_pattern = ac_resource_pattern r,
                              cq_base_risk_score = ac_base_risk_score r\<rparr>)
         (filter (\<lambda>r. ac_tenant_id r = i)
           (sort_key (\<lambda>r. (ac_tenant_id r, ac_action r, ac_resource_pattern r)) actions)),
       cn_modifiers = map (\<lambda>m. \<lparr>cm_kind = mo_kind m, cm_value = mo_value m, cm_delta = mo_delta m\<rparr>)
         (filter (\<lambda>m. mo_tenant_id m = i)
           (sort_key (\<lambda>m. (mo_tenant_id m, modifier_kind_value (mo_kind m), mo_value m)) modifiers)),
       cn_advisor_data_classes = tn_advisor_data_classes t,
       cn_flagged_tools = (case flags of None \<Rightarrow> [] | Some f \<Rightarrow> sort_unique (fl_flagged_tools f))\<rparr>)"

text \<open>The field constraints of the catalog models.\<close>

definition hex_char :: "char \<Rightarrow> bool" where
  "hex_char c \<longleftrightarrow> (let n = of_char c :: nat in (48 \<le> n \<and> n \<le> 57) \<or> (97 \<le> n \<and> n \<le> 102))"

definition catalog_key_valid :: "catalog_api_key \<Rightarrow> bool" where
  "catalog_key_valid k \<longleftrightarrow>
     length (drop_final_newline (ca_key_hash k)) = 64 \<and> list_all hex_char (drop_final_newline (ca_key_hash k)) \<and>
     (case ca_rate_limit k of None \<Rightarrow> True | Some r \<Rightarrow> 0 \<le> r) \<and>
     (case ca_agent_id k of None \<Rightarrow> True | Some a \<Rightarrow> length a \<le> 128)"

definition catalog_tenant_valid :: "catalog_tenant \<Rightarrow> bool" where
  "catalog_tenant_valid t \<longleftrightarrow>
     list_all catalog_key_valid (cn_api_keys t) \<and>
     list_all (\<lambda>a. 0 \<le> cd_base_trust_score a \<and> cd_base_trust_score a \<le> 100) (cn_agents t) \<and>
     list_all (\<lambda>a. 0 \<le> cq_base_risk_score a \<and> cq_base_risk_score a \<le> 100) (cn_actions t) \<and>
     list_all (\<lambda>m. - 100 \<le> cm_delta m \<and> cm_delta m \<le> 100) (cn_modifiers t)"

definition build_catalog ::
  "tenant_record list \<Rightarrow> api_key_record list \<Rightarrow> agent_record list \<Rightarrow> action_record list \<Rightarrow>
   modifier_record list \<Rightarrow> (string \<times> inventory_flags) list option \<Rightarrow> instant \<Rightarrow>
   doc_error + catalog_tenant list" where
  "build_catalog tenants keys agents actions modifiers inventory now =
     (let inv = (case inventory of None \<Rightarrow> [] | Some i \<Rightarrow> i);
          ts = map (build_tenant keys agents actions modifiers inv now) (sort_key tn_id tenants)
      in if list_all catalog_tenant_valid ts then Inr ts else Inl (FieldError ''catalog''))"

record catalog_settings =
  kg_digest :: "catalog_tenant list \<Rightarrow> string"  \<comment> \<open>content hash without version and time\<close>
  kg_time_text :: "instant \<Rightarrow> string"  \<comment> \<open>\<open>strftime('%Y%m%d%H%M%S%f')\<close>\<close>
  kg_open_findings :: "string \<Rightarrow> (string \<times> string) list"  \<comment> \<open>of a tenant: kind and entity id\<close>
  kg_entities :: "string \<Rightarrow> (string \<times> string \<times> string option) list"  \<comment> \<open>id to name and registry agent\<close>

definition catalog_version :: "catalog_settings \<Rightarrow> instant \<Rightarrow> string \<Rightarrow> string" where
  "catalog_version kg published_at digest = ''catalog-'' @ kg_time_text kg published_at @ ''-'' @ take 8 digest"

section \<open>Inventory flags\<close>

definition BINDING_GATEWAY_WINDOW :: int where
  "BINDING_GATEWAY_WINDOW = 15 * 60 * 1000000"

definition BOUND_KEYS_CAPABILITY :: string where
  "BOUND_KEYS_CAPABILITY = ''agent_bound_keys''"

definition ADVISORS_CAPABILITY :: string where
  "ADVISORS_CAPABILITY = ''advisors_v1''"

definition INVENTORY_RISK_CAPABILITY :: string where
  "INVENTORY_RISK_CAPABILITY = ''inventory_risk_v1''"

definition AGENT_RISK_FINDINGS :: "string list" where
  "AGENT_RISK_FINDINGS = [''unmanaged_agent'']"

text \<open>Gateways heard from in the window that lack a capability.\<close>

definition gateways_without :: "string \<Rightarrow> instant \<Rightarrow> control_store \<Rightarrow> string list" where
  "gateways_without cap now s =
     map gw_gateway_id (filter (\<lambda>g. now - BINDING_GATEWAY_WINDOW \<le> gw_last_seen g \<and> cap \<notin> set (gw_capabilities g))
       (list_gateways s None))"

definition add_flag ::
  "(string \<times> string \<times> string option) list \<Rightarrow> inventory_flags \<Rightarrow> string \<times> string \<Rightarrow> inventory_flags" where
  "add_flag entities flags f =
     (case map_of entities (snd f) of
        None \<Rightarrow> flags
      | Some (name, agent) \<Rightarrow>
          if fst f \<in> set AGENT_RISK_FINDINGS \<and> agent \<noteq> None \<and> agent \<noteq> Some []
          then (let a = the agent; old = (case map_of (fl_agent_findings flags) a of None \<Rightarrow> [] | Some ks \<Rightarrow> ks)
                in flags\<lparr>fl_agent_findings := AList.update a (old @ [fst f]) (fl_agent_findings flags)\<rparr>)
          else if fst f = ''tool_definition_changed''
          then flags\<lparr>fl_flagged_tools := fl_flagged_tools flags @ [name]\<rparr>
          else flags)"

definition tenant_flags :: "catalog_settings \<Rightarrow> string \<Rightarrow> inventory_flags" where
  "tenant_flags kg t =
     foldl (add_flag (kg_entities kg t)) \<lparr>fl_agent_findings = [], fl_flagged_tools = []\<rparr>
       (filter (\<lambda>f. fst f \<in> set AGENT_RISK_FINDINGS \<or> fst f = ''tool_definition_changed'') (kg_open_findings kg t))"

definition collect_flags ::
  "catalog_settings \<Rightarrow> string list \<Rightarrow> instant \<Rightarrow> control_store \<Rightarrow> (string \<times> inventory_flags) list option" where
  "collect_flags kg tenant_ids now s =
     (if gateways_without INVENTORY_RISK_CAPABILITY now s \<noteq> [] then None
      else Some (filter (\<lambda>tf. fl_agent_findings (snd tf) \<noteq> [] \<or> fl_flagged_tools (snd tf) \<noteq> [])
        (map (\<lambda>t. (t, tenant_flags kg t)) tenant_ids)))"

section \<open>Publishing the catalog\<close>

definition built_catalog :: "catalog_settings \<Rightarrow> instant \<Rightarrow> control_store \<Rightarrow> doc_error + catalog_tenant list" where
  "built_catalog kg now s =
     build_catalog (list_tenants s) (list_api_keys s None) (list_agent_rows s None) (list_action_rows s None)
       (list_modifier_rows s None) (collect_flags kg (map tn_id (list_tenants s)) now s) now"

definition publish_catalog ::
  "catalog_settings \<Rightarrow> instant \<Rightarrow> string \<Rightarrow> control_store \<Rightarrow> (cp_error + catalog_record) \<times> control_store" where
  "publish_catalog kg now fresh s =
     (case built_catalog kg now s of
        Inl e \<Rightarrow> (Inl (Uncaught e), s)
      | Inr ts \<Rightarrow>
          (let digest = kg_digest kg ts; current = current_catalog s in
           if (case current of None \<Rightarrow> False | Some c \<Rightarrow> ct_content_hash c = digest)
           then (Inr (the current), s)
           else (let published_at =
                       (case current of None \<Rightarrow> now
                        | Some c \<Rightarrow> if now \<le> ct_published_at c then ct_published_at c + 1 else now);
                     version = catalog_version kg published_at digest;
                     rec = \<lparr>ct_id = fresh, ct_version = version,
                            ct_document = \<lparr>co_version = version, co_tenants = ts, co_published_at = Some published_at\<rparr>,
                            ct_etag = etag digest, ct_content_hash = digest, ct_published_at = published_at\<rparr>
                 in (Inr rec, add_catalog rec s))))"

text \<open>\<open>await self.publish()\<close> and return: the change stays also when building the catalog raises.\<close>

definition then_publish ::
  "catalog_settings \<Rightarrow> instant \<Rightarrow> string \<Rightarrow> 'a \<Rightarrow> control_store \<Rightarrow> (cp_error + 'a) \<times> control_store" where
  "then_publish kg now fresh x s =
     (case publish_catalog kg now fresh s of (Inl e, t) \<Rightarrow> (Inl e, t) | (Inr r, t) \<Rightarrow> (Inr x, t))"

definition current_catalog_document :: "control_store \<Rightarrow> (catalog_doc \<times> string) option" where
  "current_catalog_document s = map_option (\<lambda>c. (ct_document c, ct_etag c)) (current_catalog s)"

section \<open>Tenants\<close>

definition tenant_id_ok :: "string \<Rightarrow> bool" where
  "tenant_id_ok t \<longleftrightarrow>
     (let s = drop_final_newline t in
      2 \<le> length s \<and> length s \<le> 63 \<and> kebab_char (hd s) \<and> list_all (\<lambda>c. kebab_char c \<or> c = CHR ''-'') s)"

definition create_tenant ::
  "catalog_settings \<Rightarrow> admin \<Rightarrow> string \<Rightarrow> string \<Rightarrow> instant \<Rightarrow> string \<Rightarrow> control_store \<Rightarrow>
   (cp_error + tenant_record) \<times> control_store" where
  "create_tenant kg p tenant name now fresh s =
     (if \<not> can p CatalogWrite None then (Inl (Forbidden CatalogWrite None), s)
      else if \<not> tenant_id_ok tenant then (Inl (Uncaught (FieldError ''id'')), s)
      else if get_tenant s tenant \<noteq> None then (Inl (StoreConflict (''tenant '' @ tenant @ '' exists'')), s)
      else (let t = \<lparr>tn_id = tenant, tn_name = name, tn_status = TenantActive, tn_created_at = now,
                     tn_advisor_data_classes = []\<rparr>
            in then_publish kg now fresh t (log_change ''tenant'' tenant ''create'' (actor p) (put_tenant t s))))"

text \<open>\<open>_tenant\<close>.\<close>

definition require_tenant :: "string \<Rightarrow> control_store \<Rightarrow> cp_error + tenant_record" where
  "require_tenant tenant s =
     (case get_tenant s tenant of
        None \<Rightarrow> Inl (NotFound (''tenant '' @ tenant @ '' not found'')) | Some t \<Rightarrow> Inr t)"

fun tenant_status_value :: "tenant_status \<Rightarrow> string" where
  "tenant_status_value TenantActive = ''active''"
| "tenant_status_value TenantSuspended = ''suspended''"

definition set_tenant_status ::
  "catalog_settings \<Rightarrow> admin \<Rightarrow> string \<Rightarrow> tenant_status \<Rightarrow> instant \<Rightarrow> string \<Rightarrow> control_store \<Rightarrow>
   (cp_error + tenant_record) \<times> control_store" where
  "set_tenant_status kg p tenant st now fresh s =
     (if \<not> can p CatalogWrite None then (Inl (Forbidden CatalogWrite None), s)
      else (case require_tenant tenant s of
              Inl e \<Rightarrow> (Inl e, s)
            | Inr t \<Rightarrow>
                (let t' = t\<lparr>tn_status := st\<rparr>
                 in then_publish kg now fresh t' (log_change ''tenant'' tenant
                      (''status:'' @ tenant_status_value st) (actor p) (put_tenant t' s)))))"

definition tenants_for :: "admin \<Rightarrow> control_store \<Rightarrow> cp_error + tenant_record list" where
  "tenants_for p s =
     (if \<not> can p PermRead (adm_tenant p) then Inl (Forbidden PermRead (adm_tenant p))
      else Inr (filter (\<lambda>t. visible_tenant p (tn_id t)) (list_tenants s)))"

definition require_capability ::
  "string \<Rightarrow> string \<Rightarrow> string \<Rightarrow> string \<Rightarrow> instant \<Rightarrow> control_store \<Rightarrow> cp_error + unit" where
  "require_capability cap v action feature now s =
     guard_that (gateways_without cap now s = [])
       (ValidationFailed (''upgrade these gateways to '' @ v @ '' or later before '' @ action @
          '' (older gateways can'' @ [CHR 0x27] @ ''t read '' @ feature @ ''): '' @
          join '', '' (sort (gateways_without cap now s))) [] [])"

definition set_advisor_policy ::
  "catalog_settings \<Rightarrow> admin \<Rightarrow> string \<Rightarrow> (string + classification) list \<Rightarrow> instant \<Rightarrow> string \<Rightarrow>
   control_store \<Rightarrow> (cp_error + tenant_record) \<times> control_store" where
  \<comment> \<open>an entry of the list that is no data class is on the left\<close>
  "set_advisor_policy kg p tenant raw now fresh s =
     (if \<not> can p CatalogWrite (Some tenant) then (Inl (Forbidden CatalogWrite (Some tenant)), s)
      else (case require_tenant tenant s of
              Inl e \<Rightarrow> (Inl e, s)
            | Inr t \<Rightarrow>
                (case (if raw \<noteq> [] \<and> tn_advisor_data_classes t = []
                       then require_capability ADVISORS_CAPABILITY ''0.9'' ''allowing hosted advisors''
                              ''advisor policies'' now s
                       else Inr ()) of
                   Inl e \<Rightarrow> (Inl e, s)
                 | Inr _ \<Rightarrow>
                     if list_ex isl raw then (Inl (ValidationFailed ''unknown data class'' [] []), s)
                     else (let t' = t\<lparr>tn_advisor_data_classes :=
                                 sort_key classification_value (remdups (map projr raw))\<rparr>
                           in then_publish kg now fresh t'
                                (log_change ''tenant'' tenant ''advisor_policy'' (actor p) (put_tenant t' s))))))"

section \<open>Gateway API keys\<close>

definition require_agent :: "string \<Rightarrow> string \<Rightarrow> control_store \<Rightarrow> cp_error + unit" where
  "require_agent tenant agent s =
     guard_that (get_agent_row s tenant agent \<noteq> None)
       (ValidationFailed (''agent '' @ quoted agent @ '' is not registered in tenant '' @ quoted tenant @
          ''; register it first'') [] [])"

definition may_bind :: "string \<Rightarrow> string option \<Rightarrow> instant \<Rightarrow> control_store \<Rightarrow> cp_error + unit" where
  "may_bind tenant agent now s =
     (case agent of
        None \<Rightarrow> Inr ()
      | Some a \<Rightarrow> result_bind (require_agent tenant a s)
          (\<lambda>_. require_capability BOUND_KEYS_CAPABILITY ''0.6'' ''binding keys to agents'' ''bound keys'' now s))"

record new_key =
  nk_name :: string
  nk_scopes :: "string list"
  nk_environments :: "environment list option"
  nk_expires_at :: "instant option"
  nk_rate_limit :: "int option"
  nk_agent_id :: "string option"

definition create_api_key ::
  "catalog_settings \<Rightarrow> (string \<Rightarrow> string) \<Rightarrow> admin \<Rightarrow> string \<Rightarrow> new_key \<Rightarrow> string \<Rightarrow> string \<Rightarrow> instant \<Rightarrow> string \<Rightarrow>
   control_store \<Rightarrow> (cp_error + api_key_record \<times> string) \<times> control_store" where
  "create_api_key kg hash p tenant nk raw key_id now fresh s =
     (if \<not> can p CatalogWrite (Some tenant) then (Inl (Forbidden CatalogWrite (Some tenant)), s)
      else (case result_bind (require_tenant tenant s) (\<lambda>_. may_bind tenant (nk_agent_id nk) now s) of
              Inl e \<Rightarrow> (Inl e, s)
            | Inr _ \<Rightarrow>
                (let k = \<lparr>ky_id = key_id, ky_tenant_id = tenant, ky_name = nk_name nk, ky_key_hash = hash raw,
                          ky_prefix = take 12 raw,
                          ky_scopes = (if nk_scopes nk \<noteq> [] then nk_scopes nk else [''guard:invoke'']),
                          ky_environments = nk_environments nk, ky_is_active = True,
                          ky_expires_at = nk_expires_at nk, ky_created_at = now, ky_revoked_at = None,
                          ky_rate_limit = nk_rate_limit nk, ky_agent_id = nk_agent_id nk\<rparr>
                 in case add_api_key k s of
                      Inl e \<Rightarrow> (Inl e, s)
                    | Inr s1 \<Rightarrow> then_publish kg now fresh (k, raw)
                        (log_change ''api_key'' key_id ''create'' (actor p) s1))))"

definition import_api_key :: "admin \<Rightarrow> api_key_record \<Rightarrow> control_store \<Rightarrow> (cp_error + unit) \<times> control_store" where
  "import_api_key p k s =
     (if \<not> can p CatalogWrite (Some (ky_tenant_id k)) then (Inl (Forbidden CatalogWrite (Some (ky_tenant_id k))), s)
      else if filter (\<lambda>x. ky_key_hash x = ky_key_hash k) (list_api_keys s (Some (ky_tenant_id k))) \<noteq> []
      then (Inr (), s)
      else (case add_api_key k s of
              Inl e \<Rightarrow> (Inl e, s)
            | Inr s1 \<Rightarrow> (Inr (), log_change ''api_key'' (ky_id k) ''import'' (actor p) s1)))"

text \<open>The first lines of \<open>revoke_api_key\<close>, \<open>set_api_key_rate_limit\<close> and \<open>bind_api_key\<close>.\<close>

definition own_key :: "admin \<Rightarrow> string \<Rightarrow> string \<Rightarrow> control_store \<Rightarrow> cp_error + api_key_record" where
  "own_key p tenant key_id s =
     (if \<not> can p CatalogWrite (Some tenant) then Inl (Forbidden CatalogWrite (Some tenant))
      else (case get_api_key s key_id of
              None \<Rightarrow> Inl (NotFound (''api key '' @ key_id @ '' not found''))
            | Some k \<Rightarrow> if ky_tenant_id k \<noteq> tenant then Inl (NotFound (''api key '' @ key_id @ '' not found''))
                        else Inr k))"

definition revoke_api_key ::
  "catalog_settings \<Rightarrow> admin \<Rightarrow> string \<Rightarrow> string \<Rightarrow> instant \<Rightarrow> string \<Rightarrow> control_store \<Rightarrow>
   (cp_error + api_key_record) \<times> control_store" where
  "revoke_api_key kg p tenant key_id now fresh s =
     (case own_key p tenant key_id s of
        Inl e \<Rightarrow> (Inl e, s)
      | Inr k \<Rightarrow>
          (let k' = k\<lparr>ky_is_active := False, ky_revoked_at := Some now\<rparr>
           in then_publish kg now fresh k' (log_change ''api_key'' key_id ''revoke'' (actor p) (put_api_key k' s))))"

definition set_api_key_rate_limit ::
  "catalog_settings \<Rightarrow> admin \<Rightarrow> string \<Rightarrow> string \<Rightarrow> int option \<Rightarrow> instant \<Rightarrow> string \<Rightarrow> control_store \<Rightarrow>
   (cp_error + api_key_record) \<times> control_store" where
  "set_api_key_rate_limit kg p tenant key_id limit now fresh s =
     (case own_key p tenant key_id s of
        Inl e \<Rightarrow> (Inl e, s)
      | Inr k \<Rightarrow>
          (let k' = k\<lparr>ky_rate_limit := limit\<rparr>
           in then_publish kg now fresh k' (log_change ''api_key'' key_id ''rate_limit'' (actor p) (put_api_key k' s))))"

definition bind_api_key ::
  "catalog_settings \<Rightarrow> admin \<Rightarrow> string \<Rightarrow> string \<Rightarrow> string option \<Rightarrow> instant \<Rightarrow> string \<Rightarrow> control_store \<Rightarrow>
   (cp_error + api_key_record) \<times> control_store" where
  "bind_api_key kg p tenant key_id agent now fresh s =
     (case own_key p tenant key_id s of
        Inl e \<Rightarrow> (Inl e, s)
      | Inr k \<Rightarrow>
          if \<not> ky_is_active k then (Inl (ValidationFailed ''this key is revoked'' [] []), s)
          else (case may_bind tenant agent now s of
                  Inl e \<Rightarrow> (Inl e, s)
                | Inr _ \<Rightarrow>
                    (let k' = k\<lparr>ky_agent_id := agent\<rparr>
                     in then_publish kg now fresh k' (log_change ''api_key'' key_id
                          (if agent \<noteq> None \<and> agent \<noteq> Some [] then ''bind'' else ''unbind'') (actor p)
                          (put_api_key k' s)))))"

definition keys_of_tenant :: "admin \<Rightarrow> string \<Rightarrow> control_store \<Rightarrow> cp_error + api_key_record list" where
  "keys_of_tenant p tenant s =
     (if \<not> can p PermRead (Some tenant) then Inl (Forbidden PermRead (Some tenant))
      else Inr (list_api_keys s (Some tenant)))"

end
