(* ===== verification/Cp_Fleet.thy ===== *)
theory Cp_Fleet
  imports Cp_Catalog
begin

text \<open>
  The rest of the catalog service (\<^verbatim>\<open>services/catalog.py\<close>): agent profiles, actions and score
  modifiers; and the heartbeat of a gateway (\<^verbatim>\<open>services/gateways.py\<close>), which registers the manifests
  it has installed.
\<close>

section \<open>Agents, actions and modifiers\<close>

definition put_agent ::
  "catalog_settings \<Rightarrow> admin \<Rightarrow> string \<Rightarrow> string \<Rightarrow> int \<Rightarrow> string list \<Rightarrow> string option \<Rightarrow> instant \<Rightarrow> string \<Rightarrow>
   control_store \<Rightarrow> (cp_error + agent_record) \<times> control_store" where
  "put_agent kg p tenant agent trust tools owner now fresh s =
     (if \<not> can p CatalogWrite (Some tenant) then (Inl (Forbidden CatalogWrite (Some tenant)), s)
      else (case require_tenant tenant s of
              Inl e \<Rightarrow> (Inl e, s)
            | Inr _ \<Rightarrow>
                if \<not> (0 \<le> trust \<and> trust \<le> 100) then (Inl (Uncaught (FieldError ''base_trust_score'')), s)
                else (let a = \<lparr>agr_tenant_id = tenant, agr_agent_id = agent, agr_base_trust_score = trust,
                               agr_allowed_tools = tools, agr_owner = owner, agr_updated_at = now\<rparr>
                      in then_publish kg now fresh a
                           (log_change ''agent'' (tenant @ ''/'' @ agent) ''upsert'' (actor p) (put_agent_row a s)))))"

definition delete_agent ::
  "catalog_settings \<Rightarrow> admin \<Rightarrow> string \<Rightarrow> string \<Rightarrow> instant \<Rightarrow> string \<Rightarrow> control_store \<Rightarrow>
   (cp_error + unit) \<times> control_store" where
  "delete_agent kg p tenant agent now fresh s =
     (if \<not> can p CatalogWrite (Some tenant) then (Inl (Forbidden CatalogWrite (Some tenant)), s)
      else (case delete_agent_row tenant agent s of
              (False, s1) \<Rightarrow> (Inl (NotFound (''agent '' @ agent @ '' not found'')), s1)
            | (True, s1) \<Rightarrow> then_publish kg now fresh ()
                (log_change ''agent'' (tenant @ ''/'' @ agent) ''delete'' (actor p) s1)))"

definition agents_of_tenant :: "admin \<Rightarrow> string \<Rightarrow> control_store \<Rightarrow> cp_error + agent_record list" where
  "agents_of_tenant p tenant s =
     (if \<not> can p PermRead (Some tenant) then Inl (Forbidden PermRead (Some tenant))
      else Inr (list_agent_rows s (Some tenant)))"

definition put_action ::
  "catalog_settings \<Rightarrow> admin \<Rightarrow> string \<Rightarrow> string \<Rightarrow> string \<Rightarrow> int \<Rightarrow> string \<Rightarrow> instant \<Rightarrow> string \<Rightarrow>
   control_store \<Rightarrow> (cp_error + action_record) \<times> control_store" where
  "put_action kg p tenant act pattern score row_id now fresh s =
     (if \<not> can p CatalogWrite (Some tenant) then (Inl (Forbidden CatalogWrite (Some tenant)), s)
      else (case require_tenant tenant s of
              Inl e \<Rightarrow> (Inl e, s)
            | Inr _ \<Rightarrow>
                if \<not> (0 \<le> score \<and> score \<le> 100) then (Inl (Uncaught (FieldError ''base_risk_score'')), s)
                else (let (a, s1) = put_action_row \<lparr>ac_id = row_id, ac_tenant_id = tenant, ac_action = act,
                                      ac_resource_pattern = pattern, ac_base_risk_score = score\<rparr> s
                      in then_publish kg now fresh a (log_change ''action'' (ac_id a) ''upsert'' (actor p) s1))))"

definition delete_action ::
  "catalog_settings \<Rightarrow> admin \<Rightarrow> string \<Rightarrow> string \<Rightarrow> instant \<Rightarrow> string \<Rightarrow> control_store \<Rightarrow>
   (cp_error + unit) \<times> control_store" where
  "delete_action kg p tenant row_id now fresh s =
     (if \<not> can p CatalogWrite (Some tenant) then (Inl (Forbidden CatalogWrite (Some tenant)), s)
      else (case delete_action_row tenant row_id s of
              (False, s1) \<Rightarrow> (Inl (NotFound (''action '' @ row_id @ '' not found'')), s1)
            | (True, s1) \<Rightarrow> then_publish kg now fresh () (log_change ''action'' row_id ''delete'' (actor p) s1)))"

definition actions_of_tenant :: "admin \<Rightarrow> string \<Rightarrow> control_store \<Rightarrow> cp_error + action_record list" where
  "actions_of_tenant p tenant s =
     (if \<not> can p PermRead (Some tenant) then Inl (Forbidden PermRead (Some tenant))
      else Inr (list_action_rows s (Some tenant)))"

definition put_modifier ::
  "catalog_settings \<Rightarrow> admin \<Rightarrow> string \<Rightarrow> modifier_kind \<Rightarrow> string \<Rightarrow> int \<Rightarrow> string \<Rightarrow> instant \<Rightarrow> string \<Rightarrow>
   control_store \<Rightarrow> (cp_error + modifier_record) \<times> control_store" where
  "put_modifier kg p tenant kind v delta row_id now fresh s =
     (if \<not> can p CatalogWrite (Some tenant) then (Inl (Forbidden CatalogWrite (Some tenant)), s)
      else (case require_tenant tenant s of
              Inl e \<Rightarrow> (Inl e, s)
            | Inr _ \<Rightarrow>
                if \<not> (- 100 \<le> delta \<and> delta \<le> 100) then (Inl (Uncaught (FieldError ''delta'')), s)
                else (let (m, s1) = put_modifier_row \<lparr>mo_id = row_id, mo_tenant_id = tenant, mo_kind = kind,
                                      mo_value = v, mo_delta = delta\<rparr> s
                      in then_publish kg now fresh m (log_change ''modifier'' (mo_id m) ''upsert'' (actor p) s1))))"

definition delete_modifier ::
  "catalog_settings \<Rightarrow> admin \<Rightarrow> string \<Rightarrow> string \<Rightarrow> instant \<Rightarrow> string \<Rightarrow> control_store \<Rightarrow>
   (cp_error + unit) \<times> control_store" where
  "delete_modifier kg p tenant row_id now fresh s =
     (if \<not> can p CatalogWrite (Some tenant) then (Inl (Forbidden CatalogWrite (Some tenant)), s)
      else (case delete_modifier_row tenant row_id s of
              (False, s1) \<Rightarrow> (Inl (NotFound (''modifier '' @ row_id @ '' not found'')), s1)
            | (True, s1) \<Rightarrow> then_publish kg now fresh () (log_change ''modifier'' row_id ''delete'' (actor p) s1)))"

definition modifiers_of_tenant :: "admin \<Rightarrow> string \<Rightarrow> control_store \<Rightarrow> cp_error + modifier_record list" where
  "modifiers_of_tenant p tenant s =
     (if \<not> can p PermRead (Some tenant) then Inl (Forbidden PermRead (Some tenant))
      else Inr (list_modifier_rows s (Some tenant)))"

section \<open>Heartbeats\<close>

text \<open>\<open>_changes_catalog_audience\<close>.\<close>

definition changes_audience :: "gateway_record option \<Rightarrow> gateway_record \<Rightarrow> bool" where
  "changes_audience previous g =
     (case previous of
        None \<Rightarrow> True
      | Some old \<Rightarrow> gw_capabilities old \<noteq> gw_capabilities g \<or>
                    BINDING_GATEWAY_WINDOW < gw_last_seen g - gw_last_seen old)"

text \<open>The loop over the manifests: the keys that are installed, the problems, the store.\<close>

definition problem_text :: "raw_manifest \<Rightarrow> cp_error \<Rightarrow> string" where
  "problem_text raw e =
     (case raw of Inl _ \<Rightarrow> ''?'' | Inr (m, _) \<Rightarrow> manifest_key m) @ '': '' @
     (case e of ValidationFailed m _ _ \<Rightarrow> m | StoreConflict m \<Rightarrow> m | _ \<Rightarrow> '''')"

fun register_all ::
  "raw_manifest list \<Rightarrow> instant \<Rightarrow> control_store \<Rightarrow> string list \<times> string list \<times> control_store" where
  "register_all [] now s = ([], [], s)"
| "register_all (raw # raws) now s =
     (case register None raw ''gateway'' None now s of
        (Inl e, s1) \<Rightarrow> (let (ins, pr, s2) = register_all raws now s1 in (ins, problem_text raw e # pr, s2))
      | (Inr v, s1) \<Rightarrow> (let (ins, pr, s2) = register_all raws now s1 in (version_key v # ins, pr, s2)))"

record beat =
  hb_gateway_id :: string
  hb_environment :: environment
  hb_manifests :: "raw_manifest list"
  hb_snapshot_version :: "string option"
  hb_catalog_version :: "string option"
  hb_last_error :: "string option"
  hb_capabilities :: "string list"

definition heartbeat ::
  "catalog_settings \<Rightarrow> beat \<Rightarrow> instant \<Rightarrow> string \<Rightarrow> control_store \<Rightarrow> gateway_record \<times> control_store" where
  "heartbeat kg hb now fresh s =
     (let (installed, problems, s1) = register_all (hb_manifests hb) now s;
          errors = filter (\<lambda>e. e \<noteq> []) ((case hb_last_error hb of None \<Rightarrow> [] | Some e \<Rightarrow> [e]) @ problems);
          g = \<lparr>gw_gateway_id = hb_gateway_id hb, gw_environment = hb_environment hb,
               gw_snapshot_version = hb_snapshot_version hb, gw_catalog_version = hb_catalog_version hb,
               gw_last_error = (if errors = [] then None else Some (join ''; '' errors)),
               gw_installed = sort installed, gw_last_seen = now,
               gw_capabilities = sort_unique (hb_capabilities hb)\<rparr>;
          previous = find (\<lambda>x. gw_gateway_id x = hb_gateway_id hb) (list_gateways s1 None);
          s2 = put_gateway g s1
      in (g, if changes_audience previous g then snd (publish_catalog kg now fresh s2) else s2))"

definition gateways_for ::
  "admin \<Rightarrow> environment option \<Rightarrow> int \<Rightarrow> instant \<Rightarrow> control_store \<Rightarrow> cp_error + (gateway_record \<times> bool) list" where
  "gateways_for p env stale now s =
     (if \<not> can p PermRead (adm_tenant p) then Inl (Forbidden PermRead (adm_tenant p))
      else Inr (map (\<lambda>g. (g, gateway_live now stale g)) (list_gateways s env)))"

section \<open>What a heartbeat says is installed is what the registry holds\<close>

lemma publish_catalog_keeps [simp]:
  "db_versions (snd (publish_catalog kg now f s)) = db_versions s"
  "db_gateways (snd (publish_catalog kg now f s)) = db_gateways s"
  "db_api_keys (snd (publish_catalog kg now f s)) = db_api_keys s"
  "db_tenants (snd (publish_catalog kg now f s)) = db_tenants s"
  by (simp_all add: publish_catalog_def Let_def add_catalog_def split: sum.split)

text \<open>A set of manifests a gateway has, by key.\<close>

definition manifests_by_key :: "raw_manifest list \<Rightarrow> string \<Rightarrow> manifest option" where
  "manifests_by_key raws key =
     map_option fst (find (\<lambda>mr. manifest_key (fst mr) = key)
       (concat (map (\<lambda>r. case r of Inl _ \<Rightarrow> [] | Inr mr \<Rightarrow> [mr]) raws)))"

definition registered_as :: "control_store \<Rightarrow> string \<Rightarrow> manifest \<Rightarrow> bool" where
  "registered_as s key m \<longleftrightarrow>
     (\<exists>v. get_version s (gv_guardrail_id v) (gv_version v) = Some v \<and> version_key v = key \<and> gv_manifest v = m)"

lemma registered_as_mono: "keeps_versions s t \<Longrightarrow> versions_ok t \<Longrightarrow> registered_as s key m \<Longrightarrow> registered_as t key m"
proof -
  assume k: "keeps_versions s t" and t: "versions_ok t" and r: "registered_as s key m"
  from r obtain v where v: "get_version s (gv_guardrail_id v) (gv_version v) = Some v"
    "version_key v = key" "gv_manifest v = m"
    unfolding registered_as_def by blast
  with k obtain w where w: "get_version t (gv_guardrail_id v) (gv_version v) = Some w" "gv_manifest w = m"
    unfolding keeps_versions_def get_version_def by blast
  have "gv_guardrail_id w = gv_guardrail_id v" "gv_version w = gv_version v"
    using get_version_row [OF t w(1)] by (simp_all add: version_row_ok_def)
  with v w show ?thesis unfolding registered_as_def version_key_def by metis
qed

lemma register_all_keeps:
  "versions_ok s \<Longrightarrow> register_all raws now s = (ins, pr, t) \<Longrightarrow> versions_ok t \<and> keeps_versions s t"
proof (induction raws arbitrary: s ins pr t)
  case Nil
  then show ?case by simp
next
  case (Cons raw raws)
  obtain x s1 where x: "register None raw ''gateway'' None now s = (x, s1)" by fastforce
  have s1: "versions_ok s1" "keeps_versions s s1"
    using register_ok [OF Cons.prems(1), of None raw "''gateway''" None now]
      register_keeps [of s None raw "''gateway''" None now] x by simp_all
  obtain ins' pr' t' where r: "register_all raws now s1 = (ins', pr', t')" by (metis prod_cases3)
  have "t = t'" using Cons.prems(2) x r by (auto split: sum.splits)
  with Cons.IH [OF s1(1) r] s1(2) show ?case using keeps_versions_trans by blast
qed

lemma register_all_installed:
  "versions_ok s \<Longrightarrow> register_all raws now s = (ins, pr, t) \<Longrightarrow> key \<in> set ins \<Longrightarrow>
   \<exists>m rest. Inr (m, rest) \<in> set raws \<and> manifest_key m = key \<and> registered_as t key m"
proof (induction raws arbitrary: s ins pr t)
  case Nil
  then show ?case by simp
next
  case (Cons raw raws)
  obtain x s1 where x: "register None raw ''gateway'' None now s = (x, s1)" by fastforce
  have s1: "versions_ok s1"
    using register_ok [OF Cons.prems(1), of None raw "''gateway''" None now] x by simp
  obtain ins' pr' t' where r: "register_all raws now s1 = (ins', pr', t')" by (metis prod_cases3)
  have t: "t = t'" using Cons.prems(2) x r by (auto split: sum.splits)
  note keep = register_all_keeps [OF s1 r]
  show ?case
  proof (cases "key \<in> set ins'")
    case True
    with Cons.IH [OF s1 r] t show ?thesis by auto
  next
    case False
    with Cons.prems(2,3) x r obtain v where v: "x = Inr v" "key = version_key v"
      by (auto split: sum.splits)
    from register_Inr [of None raw "''gateway''" None now s v s1] x v(1) Cons.prems(1)
    obtain rest where g: "get_version s1 (gv_guardrail_id v) (gv_version v) = Some v"
      "mf_id (gv_manifest v) = gv_guardrail_id v" "mf_version (gv_manifest v) = gv_version v"
      "raw = Inr (gv_manifest v, rest)" by auto
    have "registered_as s1 key (gv_manifest v)"
      using g(1) v(2) unfolding registered_as_def by blast
    then have "registered_as t key (gv_manifest v)"
      using registered_as_mono keep t by blast
    moreover have "manifest_key (gv_manifest v) = key"
      using g v(2) by (simp add: manifest_key_def version_key_def)
    ultimately show ?thesis using g(4) by auto
  qed
qed

end
