(* ===== verification/Cp_Publishing.thy ===== *)
theory Cp_Publishing
  imports Cp_Compiler
begin

text \<open>
  Publishing snapshots (\<^verbatim>\<open>services/publishing.py\<close>): compile and submit, the request and its
  approval by a second key, rejection, rollback, import. \<open>approve\<close> is in two parts, since other
  handlers run between its checks and its transaction. The content hashes are parameters.
  Events and metrics are left out.
\<close>

record publish_settings =
  ps_two_person :: "environment list"
  ps_ttl_hours :: int
  ps_gateway_stale_seconds :: int
  ps_digest :: "environment \<Rightarrow> assignment list \<Rightarrow> string"  \<comment> \<open>without version and publication fields\<close>
  ps_full_digest :: "snapshot_doc \<Rightarrow> string"
  ps_validate_config :: "jobj \<Rightarrow> jobj \<Rightarrow> string list"

definition requires_approval :: "publish_settings \<Rightarrow> environment \<Rightarrow> bool" where
  "requires_approval ps env \<longleftrightarrow> env \<in> set (ps_two_person ps)"

definition compile_env ::
  "publish_settings \<Rightarrow> environment \<Rightarrow> assignment list \<Rightarrow> bool \<Rightarrow> instant \<Rightarrow> control_store \<Rightarrow>
   doc_error + compile_result" where
  "compile_env ps env as force now s =
     compile_snapshot (ps_validate_config ps) env as (versions_by_key s) (list_gateways s (Some env))
       force (ps_gateway_stale_seconds ps) now"

definition is_unchanged ::
  "publish_settings \<Rightarrow> environment \<Rightarrow> snapshot_doc \<Rightarrow> control_store \<Rightarrow> snapshot_record option" where
  "is_unchanged ps env doc s =
     (case current_snapshot s env of
        None \<Rightarrow> None
      | Some c \<Rightarrow>
          if ps_digest ps (sd_environment (sn_document c)) (sd_assignments (sn_document c)) =
             ps_digest ps (sd_environment doc) (sd_assignments doc)
          then Some c else None)"

text \<open>\<open>_commit\<close>, with the id of the new record.\<close>

definition commit ::
  "publish_settings \<Rightarrow> environment \<Rightarrow> snapshot_doc \<Rightarrow> string \<Rightarrow> string option \<Rightarrow> snapshot_kind \<Rightarrow>
   string option \<Rightarrow> instant \<Rightarrow> string \<Rightarrow> control_store \<Rightarrow> (cp_error + snapshot_record) \<times> control_store" where
  "commit ps env doc published_by approved_by kind rolled_back_from now fresh s =
     (let sequence = count_snapshots s env + 1;
          final = doc\<lparr>sd_version := snapshot_version (ps_digest ps) env doc sequence,
                      sd_published_at := Some (of_int now), sd_published_by := Some published_by,
                      sd_approved_by := approved_by\<rparr>;
          rec = \<lparr>sn_id = fresh, sn_environment = env, sn_version = sd_version final, sn_document = final,
                 sn_etag = etag (ps_full_digest ps final), sn_published_at = now,
                 sn_published_by = published_by, sn_approved_by = approved_by, sn_kind = kind,
                 sn_rolled_back_from = rolled_back_from\<rparr>
      in case add_snapshot rec s of
           Inl e \<Rightarrow> (Inl e, s)
         | Inr s1 \<Rightarrow>
             (let s2 = set_current_snapshot env fresh s1;
                  s3 = (if kind = KRollback \<or> kind = KImport
                        then replace_assignments env
                               (map (\<lambda>a. \<lparr>wa_environment = env, wa_assignment = a, wa_updated_by = published_by,
                                          wa_updated_at = now\<rparr>) (sd_assignments final)) s2
                        else s2)
              in (Inr rec, log_change ''snapshot'' (environment_value env @ ''/'' @ sn_version rec)
                    (case kind of KPublish \<Rightarrow> ''publish'' | KRollback \<Rightarrow> ''rollback'' | KImport \<Rightarrow> ''import'')
                    published_by s3)))"

section \<open>Publish and rollback\<close>

text \<open>What \<open>publish\<close> and \<open>rollback\<close> have when they call \<open>_submit\<close>.\<close>

record submission =
  sb_admin :: admin
  sb_environment :: environment
  sb_document :: snapshot_doc
  sb_warnings :: "string list"
  sb_kind :: snapshot_kind
  sb_note :: string
  sb_rolled_back_from :: "string option"

datatype publish_status = Published | PendingApproval | Unchanged

record publish_outcome =
  po_status :: publish_status
  po_snapshot :: "snapshot_record option"
  po_request :: "publish_request option"
  po_warnings :: "string list"

definition publish_check ::
  "publish_settings \<Rightarrow> admin \<Rightarrow> environment \<Rightarrow> string \<Rightarrow> bool \<Rightarrow> instant \<Rightarrow> control_store \<Rightarrow>
   cp_error + submission" where
  "publish_check ps p env note force now s =
     (if \<not> can p PublishRequest None then Inl (Forbidden PublishRequest None)
      else (case compile_env ps env (map wa_assignment (list_assignments s env)) force now s of
              Inl e \<Rightarrow> Inl (Uncaught e)
            | Inr r \<Rightarrow>
                (case cr_document r of
                   None \<Rightarrow> Inl (ValidationFailed (environment_value env @ '' snapshot is invalid'')
                             (cr_errors r) (cr_warnings r))
                 | Some d \<Rightarrow> Inr \<lparr>sb_admin = p, sb_environment = env, sb_document = d,
                       sb_warnings = cr_warnings r, sb_kind = KPublish, sb_note = note,
                       sb_rolled_back_from = None\<rparr>)))"

definition rollback_check ::
  "publish_settings \<Rightarrow> admin \<Rightarrow> environment \<Rightarrow> string \<Rightarrow> string \<Rightarrow> instant \<Rightarrow> control_store \<Rightarrow>
   cp_error + submission" where
  "rollback_check ps p env target note now s =
     (if \<not> can p PublishRequest None then Inl (Forbidden PublishRequest None)
      else (case get_snapshot s env target of
              None \<Rightarrow> Inl (NotFound (''snapshot '' @ target @ '' not found in '' @ environment_value env))
            | Some t \<Rightarrow>
                (case compile_env ps env (sd_assignments (sn_document t)) True now s of
                   Inl e \<Rightarrow> Inl (Uncaught e)
                 | Inr r \<Rightarrow>
                     (case cr_document r of
                        None \<Rightarrow> Inl (ValidationFailed (''cannot roll back to '' @ target)
                                  (cr_errors r) (cr_warnings r))
                      | Some d \<Rightarrow> Inr \<lparr>sb_admin = p, sb_environment = env, sb_document = d,
                            sb_warnings = cr_warnings r, sb_kind = KRollback,
                            sb_note = (if note \<noteq> [] then note else ''rollback to '' @ target),
                            sb_rolled_back_from = Some target\<rparr>))))"

definition request_of :: "submission \<Rightarrow> string \<Rightarrow> instant \<Rightarrow> control_store \<Rightarrow> publish_request" where
  "request_of sb fresh now s =
     \<lparr>rq_id = fresh, rq_environment = sb_environment sb, rq_kind = sb_kind sb, rq_document = sb_document sb,
      rq_base_version = map_option sn_version (current_snapshot s (sb_environment sb)),
      rq_rolled_back_from = sb_rolled_back_from sb, rq_requested_by = actor (sb_admin sb),
      rq_requested_by_key = adm_key_id (sb_admin sb), rq_requested_at = now, rq_note = sb_note sb,
      rq_status = ReqPending, rq_decided_by = None, rq_decided_at = None, rq_decision_note = [],
      rq_published_version = None\<rparr>"

text \<open>\<open>_submit\<close>; \<open>fresh\<close> is the id of the request or of the snapshot.\<close>

definition submit_snapshot ::
  "publish_settings \<Rightarrow> submission \<Rightarrow> instant \<Rightarrow> string \<Rightarrow> control_store \<Rightarrow>
   (cp_error + publish_outcome) \<times> control_store" where
  "submit_snapshot ps sb now fresh s =
     (let env = sb_environment sb; w = sb_warnings sb in
      case is_unchanged ps env (sb_document sb) s of
        Some c \<Rightarrow> (Inr \<lparr>po_status = Unchanged, po_snapshot = Some c, po_request = None, po_warnings = w\<rparr>, s)
      | None \<Rightarrow>
          if requires_approval ps env
          then (let r = request_of sb fresh now s
                in (Inr \<lparr>po_status = PendingApproval, po_snapshot = None, po_request = Some r, po_warnings = w\<rparr>,
                    log_change ''publish_request'' fresh
                      (''request:'' @ (if sb_kind sb = KRollback then ''rollback'' else ''publish''))
                      (actor (sb_admin sb)) (put_publish_request r s)))
          else (case commit ps env (sb_document sb) (actor (sb_admin sb)) None (sb_kind sb)
                       (sb_rolled_back_from sb) now fresh s of
                  (Inl e, s') \<Rightarrow> (Inl e, s')
                | (Inr n, s') \<Rightarrow>
                    (Inr \<lparr>po_status = Published, po_snapshot = Some n, po_request = None, po_warnings = w\<rparr>, s')))"

section \<open>Approval\<close>

text \<open>\<open>_pending\<close>: an old request is marked before the exception.\<close>

definition pending ::
  "publish_settings \<Rightarrow> string \<Rightarrow> instant \<Rightarrow> control_store \<Rightarrow> (cp_error + publish_request) \<times> control_store" where
  "pending ps i now s =
     (case get_publish_request s i of
        None \<Rightarrow> (Inl (NotFound (''publish request '' @ i @ '' not found'')), s)
      | Some r \<Rightarrow>
          if rq_status r \<noteq> ReqPending then (Inl (StateConflict (''publish request is '' @ request_status_value (rq_status r))), s)
          else if now - rq_requested_at r > ps_ttl_hours ps * 3600 * 1000000
          then (Inl (StateConflict ''publish request expired; request again''),
                put_publish_request (r\<lparr>rq_status := ReqExpired\<rparr>) s)
          else (Inr r, s))"

definition base_matches :: "publish_request \<Rightarrow> control_store \<Rightarrow> bool" where
  "base_matches r s \<longleftrightarrow> map_option sn_version (current_snapshot s (rq_environment r)) = rq_base_version r"

text \<open>\<open>approve\<close> up to its transaction, and the transaction.\<close>

definition approve_check ::
  "publish_settings \<Rightarrow> admin \<Rightarrow> string \<Rightarrow> instant \<Rightarrow> control_store \<Rightarrow>
   (cp_error + publish_request) \<times> control_store" where
  "approve_check ps p i now s =
     (if \<not> can p PublishApprove None then (Inl (Forbidden PublishApprove None), s)
      else (case pending ps i now s of
              (Inl e, s') \<Rightarrow> (Inl e, s')
            | (Inr r, s') \<Rightarrow>
                if rq_requested_by_key r = adm_key_id p
                then (Inl (StateConflict
                  ''two-person rule: the approver must be a different admin key than the requester''), s')
                else if \<not> base_matches r s'
                then (Inl (StateConflict (environment_value (rq_environment r) @
                        '' changed since this request; request the publish again'')),
                      put_publish_request (r\<lparr>rq_status := ReqStale\<rparr>) s')
                else (case compile_env ps (rq_environment r) (sd_assignments (rq_document r))
                             (rq_kind r = KRollback) now s' of
                        Inl e \<Rightarrow> (Inl (Uncaught e), s')
                      | Inr c \<Rightarrow>
                          if \<not> cr_ok c
                          then (Inl (ValidationFailed ''snapshot is no longer valid'' (cr_errors c) (cr_warnings c)), s')
                          else (Inr r, s'))))"

definition approve_commit ::
  "publish_settings \<Rightarrow> admin \<Rightarrow> publish_request \<Rightarrow> string \<Rightarrow> instant \<Rightarrow> string \<Rightarrow> control_store \<Rightarrow>
   (cp_error + snapshot_record) \<times> control_store" where
  "approve_commit ps p r note now fresh s =
     (if \<not> base_matches r s
      then (Inl (StateConflict (environment_value (rq_environment r) @
              '' changed while approving; request the publish again'')), s)
      else (case commit ps (rq_environment r) (rq_document r) (rq_requested_by r) (Some (actor p)) (rq_kind r)
                   (rq_rolled_back_from r) now fresh s of
              (Inl e, s1) \<Rightarrow> (Inl e, s1)
            | (Inr n, s1) \<Rightarrow>
                (Inr n, log_change ''publish_request'' (rq_id r) ''approve'' (actor p)
                   (put_publish_request
                      (r\<lparr>rq_status := ReqApproved, rq_decided_by := Some (actor p), rq_decided_at := Some now,
                         rq_decision_note := note, rq_published_version := Some (sn_version n)\<rparr>) s1))))"

definition approve ::
  "publish_settings \<Rightarrow> admin \<Rightarrow> string \<Rightarrow> string \<Rightarrow> instant \<Rightarrow> string \<Rightarrow> control_store \<Rightarrow>
   (cp_error + snapshot_record) \<times> control_store" where
  "approve ps p i note now fresh s =
     (case approve_check ps p i now s of
        (Inl e, s') \<Rightarrow> (Inl e, s')
      | (Inr r, s') \<Rightarrow> approve_commit ps p r note now fresh s')"

definition reject ::
  "publish_settings \<Rightarrow> admin \<Rightarrow> string \<Rightarrow> string \<Rightarrow> instant \<Rightarrow> control_store \<Rightarrow>
   (cp_error + publish_request) \<times> control_store" where
  "reject ps p i note now s =
     (if \<not> can p PublishApprove None then (Inl (Forbidden PublishApprove None), s)
      else (case pending ps i now s of
              (Inl e, s') \<Rightarrow> (Inl e, s')
            | (Inr r, s') \<Rightarrow>
                (let r' = r\<lparr>rq_status := ReqRejected, rq_decided_by := Some (actor p), rq_decided_at := Some now,
                            rq_decision_note := note\<rparr>
                 in (Inr r', log_change ''publish_request'' i ''reject'' (actor p) (put_publish_request r' s')))))"

section \<open>Import and reading\<close>

definition import_snapshot ::
  "publish_settings \<Rightarrow> admin \<Rightarrow> snapshot_doc \<Rightarrow> bool \<Rightarrow> instant \<Rightarrow> string \<Rightarrow> control_store \<Rightarrow>
   (cp_error + snapshot_record) \<times> control_store" where
  "import_snapshot ps p doc force now fresh s =
     (if \<not> can p PublishApprove None then (Inl (Forbidden PublishApprove None), s)
      else (case compile_env ps (sd_environment doc) (sd_assignments doc) force now s of
              Inl e \<Rightarrow> (Inl (Uncaught e), s)
            | Inr r \<Rightarrow>
                (case cr_document r of
                   None \<Rightarrow> (Inl (ValidationFailed ''imported snapshot is invalid'' (cr_errors r) (cr_warnings r)), s)
                 | Some d \<Rightarrow>
                     (case is_unchanged ps (sd_environment doc) d s of
                        Some c \<Rightarrow> (Inr c, s)
                      | None \<Rightarrow> commit ps (sd_environment doc) d (actor p) (Some (actor p)) KImport None now fresh s))))"

definition current_document :: "control_store \<Rightarrow> environment \<Rightarrow> (snapshot_doc \<times> string) option" where
  "current_document s env = map_option (\<lambda>n. (sn_document n, sn_etag n)) (current_snapshot s env)"

definition history :: "admin \<Rightarrow> environment \<Rightarrow> nat \<Rightarrow> control_store \<Rightarrow> cp_error + snapshot_record list" where
  "history p env limit s =
     (if \<not> can p PermRead (adm_tenant p) then Inl (Forbidden PermRead (adm_tenant p))
      else Inr (list_snapshots s env limit))"

definition publish_requests ::
  "admin \<Rightarrow> environment option \<Rightarrow> request_status option \<Rightarrow> control_store \<Rightarrow> cp_error + publish_request list" where
  "publish_requests p env st s =
     (if \<not> can p PermRead (adm_tenant p) then Inl (Forbidden PermRead (adm_tenant p))
      else Inr (list_publish_requests s env st))"

definition visible_document :: "admin \<Rightarrow> snapshot_doc \<Rightarrow> snapshot_doc" where
  "visible_document p d =
     d\<lparr>sd_assignments := filter (\<lambda>a. assignment_tenant a = None \<or> assignment_tenant a = adm_tenant p)
         (sd_assignments d)\<rparr>"

definition read_snapshot ::
  "admin \<Rightarrow> environment \<Rightarrow> string option \<Rightarrow> control_store \<Rightarrow> cp_error + snapshot_record option" where
  "read_snapshot p env v s =
     (if \<not> can p PermRead (adm_tenant p) then Inl (Forbidden PermRead (adm_tenant p))
      else (case (case v of None \<Rightarrow> current_snapshot s env | Some x \<Rightarrow> get_snapshot s env x) of
              None \<Rightarrow> Inr None
            | Some n \<Rightarrow> if is_platform p then Inr (Some n)
                        else Inr (Some (n\<lparr>sn_document := visible_document p (sn_document n)\<rparr>))))"

section \<open>Handlers that run at once\<close>

text \<open>
  A run of the service: each move is one handler, or the part of a handler between two points at
  which another may run. \<open>pw_submitting\<close> and \<open>pw_approving\<close> hold the handlers under way. The log is
  history, for statements about it. \<open>MElse\<close> is anything else the control plane does. Ids are new:
  a move whose id is taken does nothing.
\<close>

datatype publish_event =
    EvRequested admin publish_request
  | EvPublished admin snapshot_record
  | EvApproved admin publish_request "string option" snapshot_record  \<comment> \<open>and the version live before\<close>
  | EvRejected admin publish_request
  | EvImported admin snapshot_record

record publish_world =
  pw_store :: control_store
  pw_submitting :: "submission list"
  pw_approving :: "(admin \<times> publish_request) list"
  pw_log :: "publish_event list"

datatype publish_move =
    MPublish admin environment string bool instant
  | MRollback admin environment string string instant
  | MSubmit nat instant string
  | MCheck admin string instant
  | MCommit nat string instant string
  | MReject admin string string instant
  | MImport admin snapshot_doc bool instant string
  | MElse control_store

definition fresh_id :: "string \<Rightarrow> control_store \<Rightarrow> bool" where
  "fresh_id i s \<longleftrightarrow> i \<noteq> [] \<and> i \<notin> set (map fst (db_requests s)) \<and> i \<notin> set (map fst (db_snapshots s))"

fun publish_step :: "publish_settings \<Rightarrow> publish_move \<Rightarrow> publish_world \<Rightarrow> publish_world" where
  "publish_step ps (MPublish p env note force now) w =
     (case publish_check ps p env note force now (pw_store w) of
        Inl e \<Rightarrow> w
      | Inr sb \<Rightarrow> w\<lparr>pw_submitting := pw_submitting w @ [sb]\<rparr>)"
| "publish_step ps (MRollback p env target note now) w =
     (case rollback_check ps p env target note now (pw_store w) of
        Inl e \<Rightarrow> w
      | Inr sb \<Rightarrow> w\<lparr>pw_submitting := pw_submitting w @ [sb]\<rparr>)"
| "publish_step ps (MSubmit k now fresh) w =
     (if length (pw_submitting w) \<le> k \<or> \<not> fresh_id fresh (pw_store w) then w
      else (let sb = pw_submitting w ! k in
            case submit_snapshot ps sb now fresh (pw_store w) of
              (Inl e, s) \<Rightarrow> w\<lparr>pw_store := s\<rparr>
            | (Inr po, s) \<Rightarrow>
                w\<lparr>pw_store := s,
                  pw_log := pw_log w @
                    (case po_request po of Some r \<Rightarrow> [EvRequested (sb_admin sb) r] | None \<Rightarrow> []) @
                    (if po_status po = Published then [EvPublished (sb_admin sb) (the (po_snapshot po))] else [])\<rparr>))"
| "publish_step ps (MCheck p i now) w =
     (case approve_check ps p i now (pw_store w) of
        (Inl e, s) \<Rightarrow> w\<lparr>pw_store := s\<rparr>
      | (Inr r, s) \<Rightarrow> w\<lparr>pw_store := s, pw_approving := pw_approving w @ [(p, r)]\<rparr>)"
| "publish_step ps (MCommit k note now fresh) w =
     (if length (pw_approving w) \<le> k \<or> \<not> fresh_id fresh (pw_store w) then w
      else (let (p, r) = pw_approving w ! k;
                base = map_option sn_version (current_snapshot (pw_store w) (rq_environment r)) in
            case approve_commit ps p r note now fresh (pw_store w) of
              (Inl e, s) \<Rightarrow> w\<lparr>pw_store := s\<rparr>
            | (Inr n, s) \<Rightarrow> w\<lparr>pw_store := s, pw_log := pw_log w @ [EvApproved p r base n]\<rparr>))"
| "publish_step ps (MReject p i note now) w =
     (case reject ps p i note now (pw_store w) of
        (Inl e, s) \<Rightarrow> w\<lparr>pw_store := s\<rparr>
      | (Inr r, s) \<Rightarrow> w\<lparr>pw_store := s, pw_log := pw_log w @ [EvRejected p r]\<rparr>)"
| "publish_step ps (MImport p doc force now fresh) w =
     (if \<not> fresh_id fresh (pw_store w) then w
      else (case import_snapshot ps p doc force now fresh (pw_store w) of
              (Inl e, s) \<Rightarrow> w\<lparr>pw_store := s\<rparr>
            | (Inr n, s) \<Rightarrow> w\<lparr>pw_store := s,
                              pw_log := pw_log w @ (if sn_id n = fresh then [EvImported p n] else [])\<rparr>))"
| "publish_step ps (MElse t) w =
     (if db_snapshots t = db_snapshots (pw_store w) \<and> db_current t = db_current (pw_store w) \<and>
         db_requests t = db_requests (pw_store w)
      then w\<lparr>pw_store := t\<rparr> else w)"

definition publish_run :: "publish_settings \<Rightarrow> publish_move list \<Rightarrow> publish_world \<Rightarrow> publish_world" where
  "publish_run ps ms w = foldl (\<lambda>w m. publish_step ps m w) w ms"

definition publish_init :: publish_world where
  "publish_init = \<lparr>pw_store = empty_store, pw_submitting = [], pw_approving = [], pw_log = []\<rparr>"

end
