(* ===== verification/Cp_Publishing_Props.thy ===== *)
theory Cp_Publishing_Props
  imports Cp_Publishing
begin

text \<open>
  What holds of every run of the publishing service: the history of each environment is numbered
  without gaps and the live snapshot is its newest, and nothing reaches a protected environment
  without a request of one key and the approval of another.
\<close>

section \<open>The effect of a commit\<close>

lemma commit_Inl: "commit ps env doc by ap kind rb now fresh s = (Inl e, t) \<Longrightarrow> t = s"
  by (simp add: commit_def Let_def split: sum.splits)

definition committed ::
  "publish_settings \<Rightarrow> environment \<Rightarrow> snapshot_doc \<Rightarrow> nat \<Rightarrow> string option \<Rightarrow> snapshot_kind \<Rightarrow> string \<Rightarrow>
   snapshot_record \<Rightarrow> bool" where
  "committed ps env doc k ap kind fresh n \<longleftrightarrow>
     sn_id n = fresh \<and> sn_environment n = env \<and> sn_approved_by n = ap \<and> sn_kind n = kind \<and>
     sn_version n = snapshot_version (ps_digest ps) env (sn_document n) k \<and>
     sd_environment (sn_document n) = sd_environment doc \<and> sd_assignments (sn_document n) = sd_assignments doc"

lemma commit_Inr:
  assumes "commit ps env doc by ap kind rb now fresh s = (Inr n, t)" "fresh \<notin> fst ` set (db_snapshots s)"
  shows "db_snapshots t = db_snapshots s @ [(fresh, n)]" "db_current t = AList.update env fresh (db_current s)"
    "db_requests t = db_requests s" "committed ps env doc (count_snapshots s env + 1) ap kind fresh n"
  using assms
  by (auto simp: commit_def Let_def add_snapshot_def update_new committed_def snapshot_version_def
      split: if_splits)

section \<open>History\<close>

definition env_snapshots :: "control_store \<Rightarrow> environment \<Rightarrow> snapshot_record list" where
  "env_snapshots s env = filter (\<lambda>n. sn_environment n = env) (map snd (db_snapshots s))"

definition numbered :: "publish_settings \<Rightarrow> environment \<Rightarrow> snapshot_record list \<Rightarrow> bool" where
  "numbered ps env ns \<longleftrightarrow>
     (\<forall>i < length ns. sn_version (ns ! i) = snapshot_version (ps_digest ps) env (sn_document (ns ! i)) (i + 1))"

definition history_ok :: "publish_settings \<Rightarrow> control_store \<Rightarrow> bool" where
  "history_ok ps s \<longleftrightarrow>
     distinct (map fst (db_snapshots s)) \<and>
     list_all (\<lambda>(k, n). k = sn_id n \<and> k \<noteq> []) (db_snapshots s) \<and>
     ran (map_of (db_current s)) \<subseteq> fst ` set (db_snapshots s) \<and>
     (\<forall>env. numbered ps env (env_snapshots s env) \<and>
        current_snapshot s env = (if env_snapshots s env = [] then None else Some (last (env_snapshots s env))))"

lemma count_env_snapshots: "count_snapshots s env = length (env_snapshots s env)"
  by (simp add: count_snapshots_def env_snapshots_def)

lemma numbered_distinct:
  assumes "numbered ps env ns"
  shows "distinct (map sn_version ns)"
  unfolding distinct_conv_nth
proof (intro allI impI)
  fix i j assume ij: "i < length (map sn_version ns)" "j < length (map sn_version ns)" "i \<noteq> j"
  with assms have "sn_version (ns ! i) = snapshot_version (ps_digest ps) env (sn_document (ns ! i)) (i + 1)"
    "sn_version (ns ! j) = snapshot_version (ps_digest ps) env (sn_document (ns ! j)) (j + 1)"
    by (simp_all add: numbered_def)
  with ij snapshot_version_inject [of "ps_digest ps" env "sn_document (ns ! i)" "i + 1" "sn_document (ns ! j)" "j + 1"]
  show "map sn_version ns ! i \<noteq> map sn_version ns ! j" by auto
qed

lemma numbered_snoc:
  "numbered ps env ns \<Longrightarrow> sn_version n = snapshot_version (ps_digest ps) env (sn_document n) (length ns + 1) \<Longrightarrow>
   numbered ps env (ns @ [n])"
  by (auto simp: numbered_def nth_append less_Suc_eq)

lemma history_ok_current:
  "history_ok ps s \<Longrightarrow>
   current_snapshot s env = (if env_snapshots s env = [] then None else Some (last (env_snapshots s env)))"
  by (simp add: history_ok_def)

lemma history_ok_commit:
  assumes "history_ok ps s" "commit ps env doc by ap kind rb now fresh s = (Inr n, t)"
    and fresh: "fresh \<noteq> []" "fresh \<notin> fst ` set (db_snapshots s)"
  shows "history_ok ps t"
proof -
  note c = commit_Inr [OF assms(2) fresh(2)]
  have es: "env_snapshots t e = (if e = env then env_snapshots s e @ [n] else env_snapshots s e)" for e
    using c(1,4) by (simp add: env_snapshots_def committed_def)
  have v: "sn_version n = snapshot_version (ps_digest ps) env (sn_document n) (length (env_snapshots s env) + 1)"
    using c(4) by (simp add: committed_def count_env_snapshots)
  have num: "numbered ps e (env_snapshots t e)" for e
    using assms(1) v numbered_snoc es by (simp add: history_ok_def)
  have look: "map_of (db_snapshots t) k = (if k = fresh then Some n else map_of (db_snapshots s) k)" for k
    using c(1) fresh(2) by (auto simp: map_add_def split: option.split dest: map_of_SomeD)
      (metis image_eqI fst_conv map_of_SomeD)
  have cur: "current_snapshot t e = (if e = env then Some n else current_snapshot s e)" for e
  proof (cases "e = env")
    case True
    with c(2) fresh look show ?thesis by (simp add: current_snapshot_def)
  next
    case False
    have "i \<noteq> fresh" if "map_of (db_current s) e = Some i" for i
      using assms(1) fresh(2) ranI [of "map_of (db_current s)" e i] that by (auto simp: history_ok_def)
    with False c(2) look show ?thesis by (auto simp: current_snapshot_def split: option.split)
  qed
  show ?thesis
    unfolding history_ok_def
  proof (intro conjI allI)
    show "distinct (map fst (db_snapshots t))"
      using assms(1) c(1) fresh(2) by (simp add: history_ok_def)
    show "list_all (\<lambda>(k, n). k = sn_id n \<and> k \<noteq> []) (db_snapshots t)"
      using assms(1) c(1,4) fresh(1) by (simp add: history_ok_def committed_def)
    have "ran (map_of (db_current t)) \<subseteq> insert fresh (ran (map_of (db_current s)))"
      using c(2) by (auto simp: ran_def)
    then show "ran (map_of (db_current t)) \<subseteq> fst ` set (db_snapshots t)"
      using assms(1) c(1) by (auto simp: history_ok_def)
    fix e
    show "numbered ps e (env_snapshots t e)" by (rule num)
    show "current_snapshot t e = (if env_snapshots t e = [] then None else Some (last (env_snapshots t e)))"
      using cur [of e] es [of e] assms(1) by (simp add: history_ok_def)
  qed
qed

lemma history_ok_same:
  "db_snapshots t = db_snapshots s \<Longrightarrow> db_current t = db_current s \<Longrightarrow> history_ok ps t = history_ok ps s"
  unfolding history_ok_def env_snapshots_def current_snapshot_def by (simp only:)

text \<open>The next version is new, so storing it never conflicts.\<close>

lemma commit_no_conflict:
  assumes "history_ok ps s"
  shows "\<not> isl (fst (commit ps env doc by ap kind rb now fresh s))"
proof -
  have "sn_version n \<noteq> snapshot_version (ps_digest ps) env d (count_snapshots s env + 1)"
    if n: "n \<in> set (env_snapshots s env)" for n d
  proof
    assume eq: "sn_version n = snapshot_version (ps_digest ps) env d (count_snapshots s env + 1)"
    from n obtain i where i: "i < length (env_snapshots s env)" "env_snapshots s env ! i = n"
      by (auto simp: in_set_conv_nth)
    with assms have "sn_version n = snapshot_version (ps_digest ps) env (sn_document n) (i + 1)"
      by (auto simp: history_ok_def numbered_def)
    with eq have "i + 1 = count_snapshots s env + 1" by (metis snapshot_version_inject)
    with i(1) show False by (simp add: count_env_snapshots)
  qed
  then have nc: "\<not> list_ex (\<lambda>x. sn_environment x = env \<and>
      sn_version x = snapshot_version (ps_digest ps) env d (count_snapshots s env + 1)) (map snd (db_snapshots s))" for d
    by (auto simp: env_snapshots_def list_ex_iff)
  then have add: "sn_environment m = env \<Longrightarrow>
      sn_version m = snapshot_version (ps_digest ps) env doc (count_snapshots s env + 1) \<Longrightarrow>
      \<not> isl (add_snapshot m s)" for m
    by (simp add: add_snapshot_def)
  have case_isl: "\<not> isl x \<Longrightarrow> \<not> isl (fst (case x of Inl e \<Rightarrow> (Inl e, s) | Inr y \<Rightarrow> (Inr z, f y)))" for x z f
    by (cases x) simp_all
  show ?thesis
    unfolding commit_def Let_def by (rule case_isl, rule add) simp_all
qed

section \<open>What each handler leaves of snapshots and requests\<close>

definition same_history :: "control_store \<Rightarrow> control_store \<Rightarrow> bool" where
  "same_history s t \<longleftrightarrow> db_snapshots t = db_snapshots s \<and> db_current t = db_current s"

lemma same_history_ok: "same_history s t \<Longrightarrow> history_ok ps t = history_ok ps s"
  unfolding same_history_def by (elim conjE, rule history_ok_same)

definition request_core ::
  "publish_request \<Rightarrow> (string \<times> environment \<times> snapshot_kind \<times> snapshot_doc) \<times> (string option \<times> string)" where
  "request_core r = ((rq_id r, rq_environment r, rq_kind r, rq_document r), (rq_base_version r, rq_requested_by_key r))"

lemma request_core_status [simp]:
  "request_core (r\<lparr>rq_status := st\<rparr>) = request_core r"
  "request_core (r\<lparr>rq_status := st, rq_decided_by := a, rq_decided_at := b, rq_decision_note := c\<rparr>) = request_core r"
  "request_core (r\<lparr>rq_status := st, rq_decided_by := a, rq_decided_at := b, rq_decision_note := c,
     rq_published_version := d\<rparr>) = request_core r"
  by (simp_all add: request_core_def)

text \<open>Every request of \<open>t\<close> is one of \<open>s\<close>, up to its status.\<close>

definition requests_from :: "control_store \<Rightarrow> control_store \<Rightarrow> bool" where
  "requests_from s t \<longleftrightarrow> dom (map_of (db_requests s)) \<subseteq> dom (map_of (db_requests t)) \<and>
     request_core ` ran (map_of (db_requests t)) \<subseteq> request_core ` ran (map_of (db_requests s))"

lemma requests_from_put:
  "map_of (db_requests s) i = Some r' \<Longrightarrow> request_core r = request_core r' \<Longrightarrow> requests_from s (put_publish_request r s)"
  by (fastforce simp: requests_from_def ran_def)

lemma requests_from_same: "db_requests t = db_requests s \<Longrightarrow> requests_from s t"
  by (simp add: requests_from_def)

lemma requests_from_trans: "requests_from s t \<Longrightarrow> requests_from t u \<Longrightarrow> requests_from s u"
  unfolding requests_from_def by (elim conjE, intro conjI) (erule (1) order.trans)+

lemma requests_from_log [simp]: "requests_from s (log_change e i a w t) = requests_from s t"
  by (simp add: requests_from_def)

lemma same_history_log [simp]: "same_history s (log_change e i a w t) = same_history s t"
  by (simp add: same_history_def)

lemma same_history_refl [simp]: "same_history s s" "same_history s (put_publish_request r s)"
  by (simp_all add: same_history_def)

lemma pending_keeps:
  assumes "pending ps i now s = (x, t)"
  shows "same_history s t \<and> requests_from s t"
    and "x = Inr r \<Longrightarrow> t = s \<and> map_of (db_requests s) i = Some r"
proof -
  show "same_history s t \<and> requests_from s t"
    using assms
    by (auto simp: pending_def get_publish_request_def requests_from_same
        split: option.splits if_splits intro: requests_from_put)
  show "x = Inr r \<Longrightarrow> t = s \<and> map_of (db_requests s) i = Some r"
    using assms by (auto simp: pending_def get_publish_request_def split: option.splits if_splits)
qed

lemma approve_check_Inr:
  assumes "approve_check ps p i now s = (Inr r, t)"
  shows "t = s \<and> map_of (db_requests s) i = Some r \<and> can p PublishApprove None \<and>
    rq_requested_by_key r \<noteq> adm_key_id p"
proof -
  obtain t' where pe: "pending ps i now s = (Inr r, t')" and c: "can p PublishApprove None"
    "rq_requested_by_key r \<noteq> adm_key_id p" "t = t'"
    using assms by (auto simp: approve_check_def split: if_splits prod.splits sum.splits)
  from pending_keeps(2) [OF pe] c show ?thesis by auto
qed

lemma approve_check_keeps:
  assumes "approve_check ps p i now s = (x, t)"
  shows "same_history s t \<and> requests_from s t"
proof (cases "can p PublishApprove None")
  case False
  with assms show ?thesis by (auto simp: approve_check_def requests_from_same)
next
  case True
  obtain y u where pe: "pending ps i now s = (y, u)" by fastforce
  show ?thesis
  proof (cases y)
    case (Inl e)
    with assms pe True pending_keeps(1) [OF pe] show ?thesis by (simp add: approve_check_def)
  next
    case (Inr r)
    with pending_keeps(2) [OF pe] have us: "u = s" "map_of (db_requests s) i = Some r" by auto
    then have "t = s \<or> t = put_publish_request (r\<lparr>rq_status := ReqStale\<rparr>) s"
      using assms pe True Inr by (auto simp: approve_check_def split: if_splits sum.splits)
    with us(2) show ?thesis
      by (auto simp: requests_from_same intro: requests_from_put)
  qed
qed

lemma reject_keeps:
  assumes "reject ps p i note now s = (x, t)"
  shows "same_history s t \<and> requests_from s t"
proof (cases "can p PublishApprove None")
  case False
  with assms show ?thesis by (auto simp: reject_def requests_from_same)
next
  case True
  obtain y u where pe: "pending ps i now s = (y, u)" by fastforce
  show ?thesis
  proof (cases y)
    case (Inl e)
    with assms pe True pending_keeps(1) [OF pe] show ?thesis by (simp add: reject_def)
  next
    case (Inr r)
    with pending_keeps(2) [OF pe] have us: "u = s" "map_of (db_requests s) i = Some r" by auto
    have "requests_from s (put_publish_request (r\<lparr>rq_status := ReqRejected, rq_decided_by := Some (actor p),
        rq_decided_at := Some now, rq_decision_note := note\<rparr>) s)"
      by (rule requests_from_put [OF us(2)]) simp
    with us assms pe True Inr show ?thesis by (auto simp: reject_def Let_def)
  qed
qed

section \<open>The invariant of a run\<close>

definition traced :: "publish_event list \<Rightarrow> publish_request \<Rightarrow> bool" where
  "traced evs r \<longleftrightarrow>
     (\<exists>q r0. EvRequested q r0 \<in> set evs \<and> request_core r0 = request_core r \<and> can q PublishRequest None \<and>
        adm_key_id q = rq_requested_by_key r)"

definition approver_ok :: "publish_event list \<Rightarrow> admin \<Rightarrow> publish_request \<Rightarrow> bool" where
  "approver_ok evs p r \<longleftrightarrow> can p PublishApprove None \<and> rq_requested_by_key r \<noteq> adm_key_id p \<and> traced evs r"

text \<open>The snapshot of an approval stands in the history right after the version it was based on.\<close>

definition based_on :: "control_store \<Rightarrow> string option \<Rightarrow> snapshot_record \<Rightarrow> bool" where
  "based_on s base n \<longleftrightarrow>
     (\<exists>xs ys. env_snapshots s (sn_environment n) = xs @ n # ys \<and>
        base = (if xs = [] then None else Some (sn_version (last xs))))"

definition approval_ok ::
  "publish_event list \<Rightarrow> admin \<Rightarrow> publish_request \<Rightarrow> string option \<Rightarrow> snapshot_record \<Rightarrow> bool" where
  "approval_ok evs p r base n \<longleftrightarrow>
     approver_ok evs p r \<and> base = rq_base_version r \<and> sn_environment n = rq_environment r \<and>
     sn_kind n = rq_kind r \<and> sd_assignments (sn_document n) = sd_assignments (rq_document r)"

definition requested_ids :: "publish_event list \<Rightarrow> string list" where
  "requested_ids evs = concat (map (\<lambda>e. case e of EvRequested q r \<Rightarrow> [rq_id r] | _ \<Rightarrow> []) evs)"

definition requests_traced :: "publish_world \<Rightarrow> bool" where
  "requests_traced w \<longleftrightarrow>
     (\<forall>r \<in> ran (map_of (db_requests (pw_store w))). traced (pw_log w) r) \<and>
     (\<forall>(p, r) \<in> set (pw_approving w). approver_ok (pw_log w) p r) \<and>
     (\<forall>sb \<in> set (pw_submitting w). can (sb_admin sb) PublishRequest None)"

definition snapshots_approved :: "publish_settings \<Rightarrow> control_store \<Rightarrow> publish_event list \<Rightarrow> bool" where
  "snapshots_approved ps s evs \<longleftrightarrow>
     (\<forall>n \<in> snd ` set (db_snapshots s). sn_environment n \<in> set (ps_two_person ps) \<longrightarrow>
        sn_kind n = KImport \<or> (\<exists>p r base. EvApproved p r base n \<in> set evs))"

definition approvals_ok :: "control_store \<Rightarrow> publish_event list \<Rightarrow> bool" where
  "approvals_ok s evs \<longleftrightarrow>
     (\<forall>p r base n. EvApproved p r base n \<in> set evs \<longrightarrow> approval_ok evs p r base n \<and> based_on s base n)"

definition ids_ok :: "control_store \<Rightarrow> publish_event list \<Rightarrow> bool" where
  "ids_ok s evs \<longleftrightarrow> distinct (requested_ids evs) \<and> set (requested_ids evs) \<subseteq> dom (map_of (db_requests s))"

definition world_ok :: "publish_settings \<Rightarrow> publish_world \<Rightarrow> bool" where
  "world_ok ps w \<longleftrightarrow>
     history_ok ps (pw_store w) \<and> requests_traced w \<and> snapshots_approved ps (pw_store w) (pw_log w) \<and>
     approvals_ok (pw_store w) (pw_log w) \<and> ids_ok (pw_store w) (pw_log w)"

lemma traced_mono: "traced evs r \<Longrightarrow> traced (evs @ more_evs) r"
  by (auto simp: traced_def)

lemma approver_ok_mono: "approver_ok evs p r \<Longrightarrow> approver_ok (evs @ more_evs) p r"
  by (simp add: approver_ok_def traced_mono)

lemma approval_ok_mono: "approval_ok evs p r b n \<Longrightarrow> approval_ok (evs @ more_evs) p r b n"
  by (simp add: approval_ok_def approver_ok_mono)

lemma traced_core: "traced evs r \<Longrightarrow> request_core r' = request_core r \<Longrightarrow> traced evs r'"
  by (auto simp: traced_def request_core_def)

lemma requests_from_traced:
  assumes "requests_from s t" "\<forall>r \<in> ran (map_of (db_requests s)). traced evs r"
  shows "\<forall>r \<in> ran (map_of (db_requests t)). traced evs r"
proof
  fix r assume "r \<in> ran (map_of (db_requests t))"
  then have "request_core r \<in> request_core ` ran (map_of (db_requests s))"
    using assms(1) by (auto simp: requests_from_def)
  then obtain r' where "r' \<in> ran (map_of (db_requests s))" "request_core r = request_core r'" by blast
  with assms(2) traced_core show "traced evs r" by blast
qed

lemma based_on_same: "same_history s t \<Longrightarrow> based_on t base n = based_on s base n"
  by (simp add: based_on_def same_history_def env_snapshots_def)

lemma requests_traced_store:
  "requests_traced w \<Longrightarrow> requests_from (pw_store w) t \<Longrightarrow> requests_traced (w\<lparr>pw_store := t\<rparr>)"
  using requests_from_traced [of "pw_store w" t "pw_log w"] by (simp add: requests_traced_def)

lemma world_ok_store:
  assumes "world_ok ps w" "same_history (pw_store w) t" "requests_from (pw_store w) t"
  shows "world_ok ps (w\<lparr>pw_store := t\<rparr>)"
proof -
  have "snapshots_approved ps t (pw_log w)"
    using assms(1,2) by (simp add: world_ok_def snapshots_approved_def same_history_def)
  moreover have "approvals_ok t (pw_log w)"
    using assms(1) by (simp add: world_ok_def approvals_ok_def based_on_same [OF assms(2)])
  moreover have "ids_ok t (pw_log w)"
    using assms(1,3) unfolding world_ok_def ids_ok_def requests_from_def by (meson order.trans)
  ultimately show ?thesis
    using assms(1) requests_traced_store [OF _ assms(3)] same_history_ok [OF assms(2)]
    by (simp add: world_ok_def)
qed

text \<open>A log entry that is no request and no approval.\<close>

definition plain_event :: "publish_event \<Rightarrow> bool" where
  "plain_event e \<longleftrightarrow> (case e of EvRequested _ _ \<Rightarrow> False | EvApproved _ _ _ _ \<Rightarrow> False | _ \<Rightarrow> True)"

lemma requests_traced_log: "requests_traced w \<Longrightarrow> requests_traced (w\<lparr>pw_log := pw_log w @ es\<rparr>)"
  by (auto simp: requests_traced_def traced_mono approver_ok_mono)

lemma requested_ids_append [simp]: "requested_ids (xs @ ys) = requested_ids xs @ requested_ids ys"
  by (simp add: requested_ids_def)

lemma requested_ids_single [simp]:
  "requested_ids [EvRequested q r] = [rq_id r]" "requested_ids [EvApproved p r b n] = []"
  by (simp_all add: requested_ids_def)

lemma snapshots_approved_log: "snapshots_approved ps s evs \<Longrightarrow> snapshots_approved ps s (evs @ es)"
  by (fastforce simp: snapshots_approved_def)

lemma world_ok_log:
  assumes "world_ok ps w" "list_all plain_event es"
  shows "world_ok ps (w\<lparr>pw_log := pw_log w @ es\<rparr>)"
proof -
  have ids: "requested_ids es = []"
    using assms(2) by (induction es) (auto simp: requested_ids_def plain_event_def split: publish_event.splits)
  have "EvApproved p r b n \<notin> set es" for p r b n
    using assms(2) by (auto simp: plain_event_def list_all_iff)
  then have "approvals_ok (pw_store w) (pw_log w @ es)"
    using assms(1) by (simp add: world_ok_def approvals_ok_def approval_ok_mono)
  with assms(1) ids requests_traced_log snapshots_approved_log show ?thesis
    by (simp add: world_ok_def ids_ok_def)
qed

lemma world_ok_submitting:
  "world_ok ps w \<Longrightarrow> can (sb_admin sb) PublishRequest None \<Longrightarrow>
   world_ok ps (w\<lparr>pw_submitting := pw_submitting w @ [sb]\<rparr>)"
  by (simp add: world_ok_def requests_traced_def)

lemma world_ok_approving:
  "world_ok ps w \<Longrightarrow> approver_ok (pw_log w) p r \<Longrightarrow>
   world_ok ps (w\<lparr>pw_approving := pw_approving w @ [(p, r)]\<rparr>)"
  by (simp add: world_ok_def requests_traced_def)

section \<open>Every move keeps the invariant\<close>

text \<open>A commit adds its record to the history of its environment.\<close>

lemma based_on_snoc:
  assumes "db_snapshots t = db_snapshots s @ [(f, n)]" "based_on s base m"
  shows "based_on t base m"
proof -
  from assms(2) obtain xs ys where x: "env_snapshots s (sn_environment m) = xs @ m # ys"
    "base = (if xs = [] then None else Some (sn_version (last xs)))"
    unfolding based_on_def by blast
  have "env_snapshots t (sn_environment m) = xs @ m # (ys @ filter (\<lambda>k. sn_environment k = sn_environment m) [n])"
    using x(1) assms(1) by (simp add: env_snapshots_def)
  with x(2) show ?thesis unfolding based_on_def by blast
qed

lemma world_ok_commit:
  assumes ok: "world_ok ps w" and fresh: "fresh_id fresh (pw_store w)"
    and c: "commit ps env doc by ap kind rb now fresh (pw_store w) = (Inr n, t)"
    and ev: "env \<in> set (ps_two_person ps) \<longrightarrow> kind = KImport"
  shows "world_ok ps (w\<lparr>pw_store := t\<rparr>)"
proof -
  have f: "fresh \<noteq> []" "fresh \<notin> fst ` set (db_snapshots (pw_store w))"
    using fresh by (auto simp: fresh_id_def)
  note e = commit_Inr [OF c f(2)]
  have "history_ok ps t" using ok c f history_ok_commit by (auto simp: world_ok_def)
  moreover have "requests_traced (w\<lparr>pw_store := t\<rparr>)"
    using ok e(3) by (intro requests_traced_store) (auto simp: world_ok_def requests_from_same)
  moreover have "snapshots_approved ps t (pw_log w)"
    using ok e(1,4) ev by (auto simp: world_ok_def snapshots_approved_def committed_def)
  moreover have "approvals_ok t (pw_log w)"
    using ok based_on_snoc [OF e(1)] by (auto simp: world_ok_def approvals_ok_def)
  ultimately show ?thesis using ok e(3) by (simp add: world_ok_def ids_ok_def)
qed

lemma world_ok_requested:
  assumes ok: "world_ok ps w" and fresh: "fresh_id (rq_id r) (pw_store w)"
    and q: "can q PublishRequest None" "adm_key_id q = rq_requested_by_key r"
  shows "world_ok ps (w\<lparr>pw_store := log_change e i a wh (put_publish_request r (pw_store w)),
    pw_log := pw_log w @ [EvRequested q r]\<rparr>)" (is "world_ok ps ?w")
proof -
  have tr: "traced (pw_log w @ [EvRequested q r]) r" using q by (auto simp: traced_def)
  have "requests_traced ?w"
    using ok tr requests_traced_log [of w "[EvRequested q r]"]
    by (auto simp: world_ok_def requests_traced_def ran_def)
  moreover have sh: "same_history (pw_store w) (pw_store ?w)" by simp
  moreover have "approvals_ok (pw_store ?w) (pw_log ?w)"
    unfolding approvals_ok_def based_on_same [OF sh]
    using ok by (simp add: world_ok_def approvals_ok_def approval_ok_mono)
  moreover have "ids_ok (pw_store ?w) (pw_log ?w)"
    using ok fresh by (auto simp: world_ok_def ids_ok_def fresh_id_def dom_map_of_conv_image_fst)
  moreover have "snapshots_approved ps (pw_store ?w) (pw_log ?w)"
    using ok snapshots_approved_log [of ps "pw_store w"] by (simp add: world_ok_def snapshots_approved_def)
  ultimately show ?thesis
    using ok same_history_ok [OF sh, of ps] by (simp add: world_ok_def)
qed

lemma approve_commit_Inr:
  assumes "approve_commit ps p r note now fresh s = (Inr n, t)"
  obtains u e i a wh where "base_matches r s"
    "commit ps (rq_environment r) (rq_document r) (rq_requested_by r) (Some (actor p)) (rq_kind r)
       (rq_rolled_back_from r) now fresh s = (Inr n, u)"
    "t = log_change e i a wh (put_publish_request
       (r\<lparr>rq_status := ReqApproved, rq_decided_by := Some (actor p), rq_decided_at := Some now,
          rq_decision_note := note, rq_published_version := Some (sn_version n)\<rparr>) u)"
  using assms by (auto simp: approve_commit_def split: if_splits prod.splits sum.splits)

lemma approve_commit_Inl: "approve_commit ps p r note now fresh s = (Inl e, t) \<Longrightarrow> t = s"
  by (auto simp: approve_commit_def dest: commit_Inl split: if_splits prod.splits sum.splits)

lemma world_ok_approved:
  assumes ok: "world_ok ps w" and fresh: "fresh_id fresh (pw_store w)"
    and ap: "approver_ok (pw_log w) p r"
    and c: "approve_commit ps p r note now fresh (pw_store w) = (Inr n, t)"
  shows "world_ok ps (w\<lparr>pw_store := t,
    pw_log := pw_log w @ [EvApproved p r (map_option sn_version (current_snapshot (pw_store w) (rq_environment r))) n]\<rparr>)"
    (is "world_ok ps ?w")
proof -
  let ?s = "pw_store w"
  let ?base = "map_option sn_version (current_snapshot ?s (rq_environment r))"
  let ?ev = "EvApproved p r ?base n"
  obtain u e i a wh where b: "base_matches r ?s"
    and cm: "commit ps (rq_environment r) (rq_document r) (rq_requested_by r) (Some (actor p)) (rq_kind r)
       (rq_rolled_back_from r) now fresh ?s = (Inr n, u)"
    and t: "t = log_change e i a wh (put_publish_request
       (r\<lparr>rq_status := ReqApproved, rq_decided_by := Some (actor p), rq_decided_at := Some now,
          rq_decision_note := note, rq_published_version := Some (sn_version n)\<rparr>) u)"
    by (rule approve_commit_Inr [OF c])
  have f: "fresh \<noteq> []" "fresh \<notin> fst ` set (db_snapshots ?s)" using fresh by (auto simp: fresh_id_def)
  note ce = commit_Inr [OF cm f(2)]
  have n: "sn_environment n = rq_environment r" "sn_kind n = rq_kind r"
    "sd_assignments (sn_document n) = sd_assignments (rq_document r)"
    using ce(4) by (auto simp: committed_def)
  have sh: "same_history u t" using t by simp
  have es: "env_snapshots t (sn_environment n) = env_snapshots ?s (sn_environment n) @ [n]"
    using ce(1) t by (simp add: env_snapshots_def)
  have "history_ok ps t"
    using ok cm f history_ok_commit same_history_ok [OF sh] by (auto simp: world_ok_def)
  moreover have "requests_traced ?w"
    using ok traced_mono [of "pw_log w" _ "[?ev]"] ap ce(3) t
      traced_core [of "pw_log w @ [?ev]" r]
    by (auto simp: world_ok_def requests_traced_def approver_ok_mono ran_def approver_ok_def)
  moreover have "snapshots_approved ps t (pw_log w @ [?ev])"
  proof -
    have "\<exists>p r base. EvApproved p r base n \<in> set (pw_log w @ [?ev])"
      by (intro exI [of _ p] exI [of _ r] exI [of _ ?base]) simp
    moreover have "snapshots_approved ps ?s (pw_log w @ [?ev])"
      using ok snapshots_approved_log by (simp add: world_ok_def)
    ultimately show ?thesis
      using ce(1) t unfolding snapshots_approved_def by simp
  qed
  moreover have "approvals_ok t (pw_log w @ [?ev])"
  proof -
    have "based_on t ?base n"
      unfolding based_on_def
      by (rule exI [of _ "env_snapshots ?s (sn_environment n)"], rule exI [of _ "[]"])
        (use es n(1) ok history_ok_current [of ps ?s "rq_environment r"] in \<open>simp add: world_ok_def\<close>)
    moreover have "approval_ok (pw_log w @ [?ev]) p r ?base n"
      using approver_ok_mono [OF ap] b n by (simp add: approval_ok_def base_matches_def)
    moreover have "based_on t b' m" if "based_on ?s b' m" for b' m
      using based_on_snoc [OF ce(1) that] based_on_same [OF sh] by simp
    ultimately show ?thesis
      using ok by (auto simp: world_ok_def approvals_ok_def approval_ok_mono)
  qed
  moreover have "ids_ok t (pw_log w @ [?ev])"
    using ok ce(3) t by (auto simp: world_ok_def ids_ok_def)
  ultimately show ?thesis by (simp add: world_ok_def)
qed

lemma publish_check_can: "publish_check ps p env note force now s = Inr sb \<Longrightarrow> can (sb_admin sb) PublishRequest None"
  by (auto simp: publish_check_def split: if_splits sum.splits option.splits)

lemma rollback_check_can: "rollback_check ps p env tg note now s = Inr sb \<Longrightarrow> can (sb_admin sb) PublishRequest None"
  by (auto simp: rollback_check_def split: if_splits sum.splits option.splits)

lemma world_ok_two_person:
  assumes "world_ok ps w" "sb \<in> set (pw_submitting w)" "fresh_id fresh (pw_store w)"
    and r: "submit_snapshot ps sb now fresh (pw_store w) = (Inr po, t)"
  shows "world_ok ps (w\<lparr>pw_store := t,
     pw_log := pw_log w @
       (case po_request po of Some r \<Rightarrow> [EvRequested (sb_admin sb) r] | None \<Rightarrow> []) @
       (if po_status po = Published then [EvPublished (sb_admin sb) (the (po_snapshot po))] else [])\<rparr>)"
proof -
  let ?s = "pw_store w" and ?env = "sb_environment sb"
  have c: "can (sb_admin sb) PublishRequest None"
    using assms(1,2) by (simp add: world_ok_def requests_traced_def)
  consider "t = ?s" "po_request po = None" "po_status po = Unchanged"
    | e i a wh where "t = log_change e i a wh (put_publish_request (request_of sb fresh now ?s) ?s)"
        "po_request po = Some (request_of sb fresh now ?s)" "po_status po = PendingApproval"
    | n where "\<not> requires_approval ps ?env"
        "commit ps ?env (sb_document sb) (actor (sb_admin sb)) None (sb_kind sb)
           (sb_rolled_back_from sb) now fresh ?s = (Inr n, t)"
        "po_request po = None" "po_status po = Published"
  proof (cases "is_unchanged ps ?env (sb_document sb) ?s")
    case (Some k)
    with r show thesis by (intro that(1)) (auto simp: submit_snapshot_def Let_def)
  next
    case None
    show thesis
    proof (cases "requires_approval ps ?env")
      case True
      with r None show thesis by (intro that(2)) (auto simp: submit_snapshot_def Let_def)
    next
      case False
      with r None obtain n where "commit ps ?env (sb_document sb) (actor (sb_admin sb)) None (sb_kind sb)
           (sb_rolled_back_from sb) now fresh ?s = (Inr n, t)" "po_request po = None" "po_status po = Published"
        by (auto simp: submit_snapshot_def Let_def split: prod.splits sum.splits)
      with False show thesis by (intro that(3))
    qed
  qed
  then show ?thesis
  proof cases
    case 1
    with assms(1) show ?thesis by simp
  next
    case 2
    have rq: "rq_id (request_of sb fresh now ?s) = fresh"
      "adm_key_id (sb_admin sb) = rq_requested_by_key (request_of sb fresh now ?s)"
      by (simp_all add: request_of_def)
    from world_ok_requested [OF assms(1) _ c rq(2), of e i a wh] assms(3) rq(1) 2 show ?thesis by simp
  next
    case 3
    have "world_ok ps (w\<lparr>pw_store := t\<rparr>)"
      using 3(1) by (intro world_ok_commit [OF assms(1,3) 3(2)]) (simp add: requires_approval_def)
    from world_ok_log [OF this, of "[EvPublished (sb_admin sb) (the (po_snapshot po))]"] 3 show ?thesis
      by (simp add: plain_event_def)
  qed
qed

lemma submit_Inl: "submit_snapshot ps sb now fresh s = (Inl e, t) \<Longrightarrow> t = s"
  by (cases "is_unchanged ps (sb_environment sb) (sb_document sb) s"; cases "requires_approval ps (sb_environment sb)")
    (auto simp: submit_snapshot_def Let_def dest: commit_Inl split: prod.splits sum.splits)

lemma import_snapshot_cases:
  assumes "import_snapshot ps p doc force now fresh s = (x, t)"
  obtains "t = s" "\<And>n. x = Inr n \<Longrightarrow> current_snapshot s (sd_environment doc) = Some n"
  | d n where "x = Inr n" "commit ps (sd_environment doc) d (actor p) (Some (actor p)) KImport None now fresh s = (Inr n, t)"
proof -
  show thesis
  proof (cases "can p PublishApprove None")
    case False
    with assms show thesis by (intro that(1)) (auto simp: import_snapshot_def)
  next
    case c: True
    show thesis
    proof (cases "compile_env ps (sd_environment doc) (sd_assignments doc) force now s")
      case (Inl e)
      with assms c show thesis by (intro that(1)) (auto simp: import_snapshot_def)
    next
      case (Inr r)
      show thesis
      proof (cases "cr_document r")
        case None
        with assms c Inr show thesis by (intro that(1)) (auto simp: import_snapshot_def)
      next
        case (Some d)
        show thesis
        proof (cases "is_unchanged ps (sd_environment doc) d s")
          case None
          with assms c Inr Some
          have cm: "commit ps (sd_environment doc) d (actor p) (Some (actor p)) KImport None now fresh s = (x, t)"
            by (simp add: import_snapshot_def)
          then show thesis by (cases x) (auto intro: that dest: commit_Inl)
        next
          case u: (Some k)
          then have "current_snapshot s (sd_environment doc) = Some k"
            by (auto simp: is_unchanged_def split: option.splits if_splits)
          with assms c Inr Some u show thesis by (intro that(1)) (auto simp: import_snapshot_def)
        qed
      qed
    qed
  qed
qed

lemma world_ok_step: "world_ok ps w \<Longrightarrow> world_ok ps (publish_step ps m w)"
proof (cases m)
  case (MPublish p env nt force now)
  assume "world_ok ps w"
  with MPublish show ?thesis
    by (auto split: sum.split intro: world_ok_submitting publish_check_can)
next
  case (MRollback p env tg nt now)
  assume "world_ok ps w"
  with MRollback show ?thesis
    by (auto split: sum.split intro: world_ok_submitting rollback_check_can)
next
  case (MSubmit k now fresh)
  assume ok: "world_ok ps w"
  show ?thesis
  proof (cases "length (pw_submitting w) \<le> k \<or> \<not> fresh_id fresh (pw_store w)")
    case True
    with ok MSubmit show ?thesis by simp
  next
    case False
    let ?sb = "pw_submitting w ! k"
    obtain x t where x: "submit_snapshot ps ?sb now fresh (pw_store w) = (x, t)" by fastforce
    show ?thesis
    proof (cases x)
      case (Inl e)
      with x submit_Inl have "t = pw_store w" by blast
      with x Inl False MSubmit ok show ?thesis by (simp add: Let_def)
    next
      case (Inr po)
      from False have "?sb \<in> set (pw_submitting w)" "fresh_id fresh (pw_store w)" by simp_all
      from world_ok_two_person [OF ok this] x Inr False MSubmit show ?thesis by (simp add: Let_def)
    qed
  qed
next
  case (MCheck p i now)
  assume ok: "world_ok ps w"
  obtain x t where x: "approve_check ps p i now (pw_store w) = (x, t)" by fastforce
  show ?thesis
  proof (cases x)
    case (Inl e)
    with x MCheck approve_check_keeps [OF x] world_ok_store [OF ok] show ?thesis by simp
  next
    case (Inr r)
    with approve_check_Inr x have r: "t = pw_store w" "map_of (db_requests (pw_store w)) i = Some r"
      "can p PublishApprove None" "rq_requested_by_key r \<noteq> adm_key_id p" by blast+
    then have "approver_ok (pw_log w) p r"
      using ok by (auto simp: approver_ok_def world_ok_def requests_traced_def intro: ranI)
    with x Inr r MCheck world_ok_approving [OF ok] show ?thesis by simp
  qed
next
  case (MCommit k nt now fresh)
  assume ok: "world_ok ps w"
  show ?thesis
  proof (cases "length (pw_approving w) \<le> k \<or> \<not> fresh_id fresh (pw_store w)")
    case True
    with ok MCommit show ?thesis by simp
  next
    case False
    obtain p r where pr: "pw_approving w ! k = (p, r)" by fastforce
    with False have "(p, r) \<in> set (pw_approving w)" using nth_mem [of k "pw_approving w"] by simp
    then have ap: "approver_ok (pw_log w) p r" using ok by (auto simp: world_ok_def requests_traced_def)
    obtain x t where x: "approve_commit ps p r nt now fresh (pw_store w) = (x, t)" by fastforce
    show ?thesis
    proof (cases x)
      case (Inl e)
      with x approve_commit_Inl have "t = pw_store w" by blast
      with x Inl False MCommit ok pr show ?thesis by simp
    next
      case (Inr n)
      with x False have "fresh_id fresh (pw_store w)" "approve_commit ps p r nt now fresh (pw_store w) = (Inr n, t)"
        by simp_all
      from world_ok_approved [OF ok this(1) ap this(2)] x Inr False MCommit pr show ?thesis by simp
    qed
  qed
next
  case (MReject p i nt now)
  assume ok: "world_ok ps w"
  obtain x t where x: "reject ps p i nt now (pw_store w) = (x, t)" by fastforce
  from reject_keeps [OF x] have "world_ok ps (w\<lparr>pw_store := t\<rparr>)" using world_ok_store [OF ok] by simp
  then have "world_ok ps (w\<lparr>pw_store := t, pw_log := pw_log w @ [EvRejected p r]\<rparr>)" for r
    using world_ok_log [of ps "w\<lparr>pw_store := t\<rparr>" "[EvRejected p r]"] by (simp add: plain_event_def)
  with x MReject \<open>world_ok ps (w\<lparr>pw_store := t\<rparr>)\<close> show ?thesis by (auto split: sum.split)
next
  case (MImport p doc force now fresh)
  assume ok: "world_ok ps w"
  show ?thesis
  proof (cases "fresh_id fresh (pw_store w)")
    case False
    with ok MImport show ?thesis by simp
  next
    case True
    obtain x t where x: "import_snapshot ps p doc force now fresh (pw_store w) = (x, t)" by fastforce
    have w': "world_ok ps (w\<lparr>pw_store := t\<rparr>)"
      by (rule import_snapshot_cases [OF x]) (use ok world_ok_commit [OF ok True] in auto)
    have "plain_event (EvImported p n)" for n by (simp add: plain_event_def)
    then have "world_ok ps (w\<lparr>pw_store := t, pw_log := pw_log w @ (if b then [EvImported p n] else [])\<rparr>)" for b n
      using world_ok_log [OF w', of "if b then [EvImported p n] else []"] by simp
    with w' x True MImport show ?thesis by (cases x) simp_all
  qed
next
  case (MElse t)
  assume ok: "world_ok ps w"
  with MElse show ?thesis
    by (auto intro!: world_ok_store [OF ok] simp: same_history_def requests_from_def)
qed

lemma current_empty [simp]: "current_snapshot empty_store env = None"
  by (simp add: current_snapshot_def empty_store_def)

lemma world_ok_init: "world_ok ps publish_init"
  by (simp add: world_ok_def publish_init_def history_ok_def env_snapshots_def numbered_def
      requests_traced_def snapshots_approved_def approvals_ok_def ids_ok_def requested_ids_def)
    (simp add: empty_store_def)

lemma world_ok_run: "world_ok ps (publish_run ps ms publish_init)"
  by (induction ms rule: rev_induct) (simp_all add: publish_run_def world_ok_init world_ok_step)

section \<open>The two-person rule\<close>

text \<open>C26. Whatever handlers run and however they interleave, a snapshot in a protected
  environment that is no import was requested by an admin key that may request, and approved by
  another key that may approve. It holds the assignments of the request, and it replaced exactly
  the version that was live when the request was made, so nobody approved a change they did not
  see.
\<close>

theorem two_person_rule:
  assumes "n \<in> snd ` set (db_snapshots (pw_store (publish_run ps ms publish_init)))"
    and "sn_environment n \<in> set (ps_two_person ps)" "sn_kind n \<noteq> KImport"
  shows "\<exists>p q r0 r.
     EvRequested q r0 \<in> set (pw_log (publish_run ps ms publish_init)) \<and>
     EvApproved p r (rq_base_version r0) n \<in> set (pw_log (publish_run ps ms publish_init)) \<and>
     rq_id r = rq_id r0 \<and> can q PublishRequest None \<and> can p PublishApprove None \<and>
     adm_key_id q = rq_requested_by_key r0 \<and> adm_key_id p \<noteq> adm_key_id q \<and>
     sd_assignments (sn_document n) = sd_assignments (rq_document r0) \<and>
     based_on (pw_store (publish_run ps ms publish_init)) (rq_base_version r0) n"
proof -
  let ?w = "publish_run ps ms publish_init"
  note ok = world_ok_run [of ps ms]
  obtain p r base where e: "EvApproved p r base n \<in> set (pw_log ?w)"
    using ok assms unfolding world_ok_def snapshots_approved_def by blast
  then have ap: "approval_ok (pw_log ?w) p r base n" "based_on (pw_store ?w) base n"
    using ok unfolding world_ok_def approvals_ok_def by blast+
  then obtain q r0 where "EvRequested q r0 \<in> set (pw_log ?w)" "request_core r0 = request_core r"
    "can q PublishRequest None" "adm_key_id q = rq_requested_by_key r"
    unfolding approval_ok_def approver_ok_def traced_def by blast
  with ap e show ?thesis
    by (intro exI [of _ p] exI [of _ q] exI [of _ r0] exI [of _ r])
      (auto simp: approval_ok_def approver_ok_def request_core_def)
qed

definition ex_admin :: "string \<Rightarrow> admin" where
  "ex_admin k = \<lparr>adm_key_id = k, adm_name = k, adm_roles = [''admin''], adm_tenant = None\<rparr>"

definition ex_settings :: publish_settings where
  "ex_settings = \<lparr>ps_two_person = [Production], ps_ttl_hours = 24, ps_gateway_stale_seconds = 300,
     ps_digest = (\<lambda>_ as. ''3fa2c1d0''), ps_full_digest = (\<lambda>_. ''3fa2c1d0''), ps_validate_config = (\<lambda>_ _. [])\<rparr>"

definition ex_moves :: "publish_move list" where
  "ex_moves = [MPublish (ex_admin ''ann'') Production [] False 0, MSubmit 0 0 ''r1'',
     MCheck (ex_admin ''bob'') ''r1'' 10, MCommit 0 [] 30 ''s1'']"

definition ex_published :: snapshot_record where
  "ex_published = hd (map snd (db_snapshots (pw_store (publish_run ex_settings ex_moves publish_init))))"

lemma ex_run_snapshots:
  "length (db_snapshots (pw_store (publish_run ex_settings ex_moves publish_init))) = 1"
  "sn_environment ex_published = Production" "sn_kind ex_published = KPublish"
  "sn_version ex_published = ''production-00001-3fa2c1d0''"
  by code_simp+

theorem two_person_rule_witness:
  "\<exists>p q r0. EvRequested q r0 \<in> set (pw_log (publish_run ex_settings ex_moves publish_init)) \<and>
     can q PublishRequest None \<and> can p PublishApprove None \<and> adm_key_id p \<noteq> adm_key_id q"
proof -
  let ?d = "db_snapshots (pw_store (publish_run ex_settings ex_moves publish_init))"
  obtain x where x: "?d = [x]"
    using ex_run_snapshots(1) by (cases ?d) auto
  then have "ex_published = snd x" by (simp add: ex_published_def)
  with x have m: "ex_published \<in> snd ` set ?d" by simp
  have e: "sn_environment ex_published \<in> set (ps_two_person ex_settings)"
    using ex_run_snapshots(2) by (simp add: ex_settings_def)
  have k: "sn_kind ex_published \<noteq> KImport" using ex_run_snapshots(3) by simp
  from two_person_rule [OF m e k] show ?thesis by blast
qed

text \<open>C30. In every run the history of an environment is numbered from one without gaps, no version
  occurs twice, the live snapshot is always the newest of the history, and the next commit never
  fails on a version that exists.
\<close>

theorem publish_history_consistent:
  "let s = pw_store (publish_run ps ms publish_init); ns = env_snapshots s env in
   distinct (map sn_version ns) \<and> numbered ps env ns \<and>
   current_snapshot s env = (if ns = [] then None else Some (last ns)) \<and>
   \<not> isl (fst (commit ps env doc by ap kind rb now fresh s))"
proof -
  let ?s = "pw_store (publish_run ps ms publish_init)"
  have h: "history_ok ps ?s" using world_ok_run by (simp add: world_ok_def)
  then have n: "numbered ps env (env_snapshots ?s env)"
    and c: "current_snapshot ?s env = (if env_snapshots ?s env = [] then None else Some (last (env_snapshots ?s env)))"
    by (simp_all add: history_ok_def)
  show ?thesis
    unfolding Let_def using numbered_distinct [OF n] n c commit_no_conflict [OF h] by blast
qed

section \<open>A request published once\<close>

lemma in_split_unique:
  assumes "distinct zs" "zs = xs @ n # ys" "zs = xs' @ n # ys'"
  shows "xs = xs'"
  using assms
proof (induction xs arbitrary: xs' zs)
  case Nil
  then show ?case by (cases xs') auto
next
  case (Cons x xs)
  then show ?case by (cases xs') auto
qed

text \<open>Two records of an environment that replaced the same version are the same record.\<close>

lemma based_on_unique:
  assumes h: "history_ok ps s" and b: "based_on s base n" "based_on s base m"
    and e: "sn_environment n = sn_environment m"
  shows "n = m"
proof -
  let ?ns = "env_snapshots s (sn_environment m)"
  have d: "distinct (map sn_version ?ns)" using h numbered_distinct unfolding history_ok_def by blast
  obtain xs ys where x: "?ns = xs @ n # ys" "base = (if xs = [] then None else Some (sn_version (last xs)))"
    using b(1) e unfolding based_on_def by auto
  obtain xs' ys' where x': "?ns = xs' @ m # ys'" "base = (if xs' = [] then None else Some (sn_version (last xs')))"
    using b(2) unfolding based_on_def by auto
  have "xs = xs'"
  proof (cases "xs = []")
    case True
    with x x' show ?thesis by (auto split: if_splits)
  next
    case False
    with x x' have ne: "xs' \<noteq> []" "sn_version (last xs) = sn_version (last xs')"
      by (auto split: if_splits)
    have "map sn_version ?ns = map sn_version (butlast xs) @ sn_version (last xs) # map sn_version (n # ys)"
      using False x(1) by (metis append_butlast_last_id append_Cons append_Nil append_assoc list.map(2) map_append)
    moreover have "map sn_version ?ns = map sn_version (butlast xs') @ sn_version (last xs) # map sn_version (m # ys')"
      using ne x'(1) by (metis append_butlast_last_id append_Cons append_Nil append_assoc list.map(2) map_append)
    ultimately have "map sn_version (butlast xs) = map sn_version (butlast xs')"
      using in_split_unique [OF d] by blast
    then have "length xs = length xs'"
      using False ne by (metis length_butlast length_map length_greater_0_conv Suc_pred diff_Suc_1)
    with x(1) x'(1) show ?thesis by (metis append_eq_append_conv)
  qed
  with x(1) x'(1) show ?thesis by simp
qed

lemma requested_same:
  "distinct (requested_ids evs) \<Longrightarrow> EvRequested q r \<in> set evs \<Longrightarrow> EvRequested q' r' \<in> set evs \<Longrightarrow>
   rq_id r = rq_id r' \<Longrightarrow> r = r'"
proof (induction evs)
  case Nil
  then show ?case by simp
next
  case (Cons e evs)
  have split: "requested_ids (e # evs) = requested_ids [e] @ requested_ids evs"
    by (simp add: requested_ids_def)
  have mem: "EvRequested q r \<in> set evs \<Longrightarrow> rq_id r \<in> set (requested_ids evs)" for q r
    by (force simp: requested_ids_def)
  consider "e = EvRequested q r \<or> e = EvRequested q' r'"
    | "EvRequested q r \<in> set evs" "EvRequested q' r' \<in> set evs"
    using Cons.prems by auto
  then show ?case
  proof cases
    case 1
    with Cons.prems mem [of q r] mem [of q' r'] split show ?thesis by auto
  next
    case 2
    with Cons split show ?thesis by simp
  qed
qed

lemma request_published_once:
  assumes "EvApproved p r b n \<in> set (pw_log (publish_run ps ms publish_init))"
    and "EvApproved p' r' b' n' \<in> set (pw_log (publish_run ps ms publish_init))"
    and "rq_id r = rq_id r'"
  shows "n = n'"
proof -
  let ?w = "publish_run ps ms publish_init"
  note ok = world_ok_run [of ps ms]
  have a: "approval_ok (pw_log ?w) p r b n" "based_on (pw_store ?w) b n"
    "approval_ok (pw_log ?w) p' r' b' n'" "based_on (pw_store ?w) b' n'"
    using ok assms unfolding world_ok_def approvals_ok_def by blast+
  from a(1,3) obtain q r0 q' r0' where t: "EvRequested q r0 \<in> set (pw_log ?w)" "request_core r0 = request_core r"
    "EvRequested q' r0' \<in> set (pw_log ?w)" "request_core r0' = request_core r'"
    unfolding approval_ok_def approver_ok_def traced_def by blast
  have "rq_id r0 = rq_id r0'" using t assms(3) by (simp add: request_core_def)
  moreover have "distinct (requested_ids (pw_log ?w))" using ok by (simp add: world_ok_def ids_ok_def)
  ultimately have "r0 = r0'" using requested_same t by blast
  with t have "request_core r = request_core r'" by metis
  with a show ?thesis
    using based_on_unique [of ps "pw_store ?w" b n n'] ok
    by (simp add: approval_ok_def request_core_def world_ok_def)
qed

section \<open>What goes wrong between check and commit\<close>

definition event_line :: "publish_event \<Rightarrow> string \<times> string" where
  "event_line e =
     (case e of
        EvRequested _ r \<Rightarrow> (''requested'', rq_id r)
      | EvPublished _ n \<Rightarrow> (''published'', sn_id n)
      | EvApproved _ r _ n \<Rightarrow> (''approved'', rq_id r)
      | EvRejected _ r \<Rightarrow> (''rejected'', rq_id r)
      | EvImported _ n \<Rightarrow> (''imported'', sn_id n))"


text \<open>
  \<open>approve\<close> compiles without \<open>force\<close> unless the request is a rollback, so what only \<open>force\<close>
  let through at the request is refused at the approval.
\<close>

lemma compile_deprecated:
  assumes "a \<in> set as" "map_of vs (compile_key a) = Some v" "gv_status v = Deprecated"
    and "compile_snapshot vc env as vs gs False stale now = Inr r"
  shows "cr_document r = None"
proof (rule ccontr)
  assume "cr_document r \<noteq> None"
  then obtain d where "cr_document r = Some d" by auto
  from compile_snapshot_document [OF assms(4) this] assms(1)
  have "fst (check_assignment vc vs (filter (gateway_live now stale) gs) False a) = []"
    by (simp add: list_all_iff)
  with assms(2,3) show False by (simp add: check_assignment_Some)
qed


definition ex_cp_manifest :: manifest where
  "ex_cp_manifest = \<lparr>mf_id = ''pii'', mf_version = ''1.0.0'', mf_kind = KLocal, mf_stages = [Input],
     mf_failure_mode = FailClosed, mf_decisions_emitted = [Allow, Block], mf_sdk_version = ''>=1.0'',
     mf_latency_budget_ms = 300,
     mf_capabilities = \<lparr>cap_emits_modify = False, cap_needs_state = False, cap_needs_raw_payload = False,
       cap_parallel_safe = False, cap_supports_batch = False, cap_max_payload_kb = 256\<rparr>,
     mf_entrypoint = Some ''pii:Pii'', mf_remote = None\<rparr>"

definition ex_cp_assignment :: assignment where
  "ex_cp_assignment = \<lparr>as_id = ''a1'', as_guardrail_id = ''pii'', as_guardrail_version = ''1.0.0'',
     as_scope_type = ScopeGlobal, as_scope_id = None, as_stages = [Input], as_order = 100,
     as_parallel_group = None, as_enabled = True, as_mode = Enforce, as_failure_mode = None,
     as_timeout_ms = None, as_config = []\<rparr>"

definition ex_cp_version :: "version_status \<Rightarrow> version_record" where
  "ex_cp_version st = \<lparr>gv_guardrail_id = ''pii'', gv_version = ''1.0.0'', gv_manifest = ex_cp_manifest,
     gv_manifest_rest = [], gv_status = st, gv_source = ''gateway'', gv_conformance_report = None, gv_created_at = 0\<rparr>"

text \<open>The working set uses a deprecated version; a forced publish leaves the request \<open>r1\<close>.\<close>

definition ex_forced_start :: control_store where
  "ex_forced_start = put_version (ex_cp_version Deprecated)
     (put_assignment_row \<lparr>wa_environment = Production, wa_assignment = ex_cp_assignment,
        wa_updated_by = ''ann'', wa_updated_at = 0\<rparr> empty_store)"

definition ex_forced_store :: control_store where
  "ex_forced_store = snd (submit_snapshot ex_settings
     (projr (publish_check ex_settings (ex_admin ''ann'') Production [] True 0 ex_forced_start)) 0 ''r1'' ex_forced_start)"

lemma ex_forced:
  "\<not> isl (publish_check ex_settings (ex_admin ''ann'') Production [] True 0 ex_forced_start)"
  "map_option rq_kind (get_publish_request ex_forced_store ''r1'') = Some KPublish"
  "map_option (\<lambda>r. map compile_key (sd_assignments (rq_document r))) (get_publish_request ex_forced_store ''r1'') =
     Some [''pii@1.0.0'']"
  "map_option gv_status (map_of (versions_by_key ex_forced_store) ''pii@1.0.0'') = Some Deprecated"
  by code_simp+


end
