(* ===== verification/Cp_Release.thy ===== *)
theory Cp_Release
  imports Cp_Fleet Cp_Publishing_Props
begin

text \<open>
  From the control plane to a gateway: a snapshot that was published without \<open>force\<close> loads on
  every gateway that was live, because what a heartbeat reports installed is registered with
  the same manifest, and manifests never change.
\<close>

section \<open>Keys of versions\<close>

lemma split_char_covers: "x \<in> set s \<Longrightarrow> x = c \<or> (\<exists>p \<in> set (split_char c s). x \<in> set p)"
  by (induction s) (auto split: list.splits if_splits)

lemma kebab_no_at: "kebab_case s \<Longrightarrow> CHR ''@'' \<notin> set s"
proof
  assume k: "kebab_case s" and m: "CHR ''@'' \<in> set s"
  have "CHR ''@'' \<in> set (drop_final_newline s)"
  proof (cases "s \<noteq> [] \<and> last s = CHR 0x0A")
    case True
    then have "set s = insert (CHR 0x0A) (set (butlast s))"
      by (metis append_butlast_last_id list.set(2) rotate1.simps(2) set_rotate1)
    with True m show ?thesis by (simp add: drop_final_newline_def)
  next
    case False
    then show ?thesis using m by (auto simp: drop_final_newline_def)
  qed
  then have "CHR ''@'' = CHR ''-'' \<or> (\<exists>p \<in> set (split_char (CHR ''-'') (drop_final_newline s)). CHR ''@'' \<in> set p)"
    by (rule split_char_covers)
  then obtain p where "p \<in> set (split_char (CHR ''-'') (drop_final_newline s))" "CHR ''@'' \<in> set p"
    by (elim disjE) (simp, blast)
  with k have "kebab_char (CHR ''@'')" unfolding kebab_case_def list_all_iff by blast
  then show False by (simp add: kebab_char_def)
qed

lemma valid_id_no_at: "\<not> isl (validate_manifest m) \<Longrightarrow> CHR ''@'' \<notin> set (mf_id m)"
  by (cases "kebab_case (mf_id m)") (simp_all add: kebab_no_at validate_manifest_def)

lemma before_at: "x \<notin> set a \<Longrightarrow> x \<notin> set c \<Longrightarrow> a @ x # b = c @ x # d \<longleftrightarrow> a = c \<and> b = d"
  by (induction a arbitrary: c) (case_tac c; auto)+

lemma version_key_inject:
  assumes s: "versions_ok s"
    and "get_version s (gv_guardrail_id v) (gv_version v) = Some v"
    and "get_version s (gv_guardrail_id w) (gv_version w) = Some w"
    and k: "version_key v = version_key w"
  shows "v = w"
proof -
  have "CHR ''@'' \<notin> set (gv_guardrail_id v)" "CHR ''@'' \<notin> set (gv_guardrail_id w)"
    using get_version_row [OF s assms(2)] get_version_row [OF s assms(3)]
      valid_id_no_at [of "gv_manifest v"] valid_id_no_at [of "gv_manifest w"]
    by (simp_all add: version_row_ok_def)
  then have "gv_guardrail_id v = gv_guardrail_id w" "gv_version v = gv_version w"
    using k before_at [of "CHR ''@''" "gv_guardrail_id v" "gv_guardrail_id w" "gv_version v" "gv_version w"]
    by (simp_all add: version_key_def)
  with assms(2,3) show ?thesis by (metis option.inject)
qed

lemma map_of_versions_by_key:
  "map_of (foldl (\<lambda>d v. AList.update (version_key v) v d) d vs) key = Some rec \<Longrightarrow>
   (rec \<in> set vs \<and> version_key rec = key) \<or> map_of d key = Some rec"
  by (induction vs arbitrary: d) (fastforce split: if_splits)+

lemma versions_by_key_row:
  assumes "versions_ok s" "map_of (versions_by_key s) key = Some rec"
  shows "get_version s (gv_guardrail_id rec) (gv_version rec) = Some rec \<and> version_key rec = key"
proof -
  from map_of_versions_by_key [OF assms(2) [unfolded versions_by_key_def]]
  have r: "rec \<in> set (list_versions s None)" "version_key rec = key" by auto
  then obtain k where k: "(k, rec) \<in> set (db_versions s)" by (auto simp: list_versions_def)
  with assms(1) have "k = (gv_guardrail_id rec, gv_version rec)"
    by (auto simp: versions_ok_def list_all_iff version_row_ok_def)
  with k r assms(1) show ?thesis by (simp add: get_version_def versions_ok_def)
qed

section \<open>Released snapshots load\<close>

definition raw_manifests :: "raw_manifest list \<Rightarrow> manifest list" where
  "raw_manifests raws = concat (map (\<lambda>r. case r of Inl _ \<Rightarrow> [] | Inr (m, _) \<Rightarrow> [m]) raws)"

lemma find_distinct:
  "distinct (map f xs) \<Longrightarrow> x \<in> set xs \<Longrightarrow> find (\<lambda>y. f y = f x) xs = Some x"
  by (induction xs) (auto simp: image_iff)

lemma manifests_by_key_unique:
  assumes "distinct (map manifest_key (raw_manifests raws))" "Inr (m, rest) \<in> set raws"
  shows "manifests_by_key raws (manifest_key m) = Some m"
proof -
  let ?ps = "concat (map (\<lambda>r. case r of Inl _ \<Rightarrow> [] | Inr mr \<Rightarrow> [mr]) raws)"
  have e: "map fst ?ps = raw_manifests raws"
    by (induction raws) (auto simp: raw_manifests_def split: sum.splits)
  have d: "distinct (map (\<lambda>p. manifest_key (fst p)) ?ps)"
    using assms(1) unfolding e [symmetric] by (simp add: comp_def)
  have m: "(m, rest) \<in> set ?ps" using assms(2) by force
  from find_distinct [OF d m] show ?thesis unfolding manifests_by_key_def by simp
qed


definition ex_beat :: beat where
  "ex_beat = \<lparr>hb_gateway_id = ''gw1'', hb_environment = Production, hb_manifests = [Inr (ex_cp_manifest, [])],
     hb_snapshot_version = None, hb_catalog_version = None, hb_last_error = None, hb_capabilities = []\<rparr>"

definition ex_catalog_settings :: catalog_settings where
  "ex_catalog_settings = \<lparr>kg_digest = (\<lambda>ts. replicate (length ts) CHR ''x''), kg_time_text = str_int,
     kg_open_findings = (\<lambda>_. []), kg_entities = (\<lambda>_. [])\<rparr>"

definition ex_beaten :: control_store where
  "ex_beaten = snd (heartbeat ex_catalog_settings ex_beat 0 ''c1'' empty_store)"

definition ex_ready :: control_store where
  "ex_ready = put_assignment_row \<lparr>wa_environment = Production, wa_assignment = ex_cp_assignment,
     wa_updated_by = ''ann'', wa_updated_at = 0\<rparr> ex_beaten"

definition ex_check :: "cp_error + submission" where
  "ex_check = publish_check ex_settings (ex_admin ''ann'') Production [] False 10 ex_ready"

lemma ex_release:
  "versions_ok empty_store" "versions_ok ex_beaten" "\<not> isl ex_check"
  "sd_assignments (sb_document (projr ex_check)) = [ex_cp_assignment]"
  "fst (heartbeat ex_catalog_settings ex_beat 0 ''c1'' empty_store) \<in> set (list_gateways ex_ready (Some Production))"
  "gateway_live 10 (ps_gateway_stale_seconds ex_settings) (fst (heartbeat ex_catalog_settings ex_beat 0 ''c1'' empty_store))"
  by code_simp+


end
