(* ===== verification/Catalog_Sync.thy ===== *)
theory Catalog_Sync
  imports Context_Build Cp_Fleet
begin

text \<open>
  The gateway's side of the catalog: \<open>CatalogHolder\<close> and \<open>ControlPlaneSync\<close>
  (\<^verbatim>\<open>app/engine/remote.py\<close>), the authenticator with its cache (\<^verbatim>\<open>app/gateway/auth.py\<close>) and the
  tenant cache (\<^verbatim>\<open>app/context/catalog.py\<close>). The answer of the control plane and the file cache are
  values that a step is given; a JSON document that does not parse is \<open>None\<close>.
\<close>

section \<open>Catalog holder\<close>

record catalog_holder =
  ch_env :: environment
  ch_doc :: "catalog_doc option"
  ch_keys :: "(string \<times> principal) list"
  ch_tenants :: "(string \<times> tenant_catalog) list"
  ch_last_error :: "string option"

definition new_catalog_holder :: "environment \<Rightarrow> catalog_holder" where
  "new_catalog_holder env = \<lparr>ch_env = env, ch_doc = None, ch_keys = [], ch_tenants = [], ch_last_error = None\<rparr>"

definition tenant_catalog_of :: "catalog_tenant \<Rightarrow> tenant_catalog" where
  "tenant_catalog_of t =
     \<lparr>tc_agents = foldl (\<lambda>d a. AList.update (cd_agent_id a)
          \<lparr>ag_agent_id = cd_agent_id a, ag_base_trust_score = cd_base_trust_score a,
           ag_allowed_tools = cd_allowed_tools a, ag_open_findings = cd_open_findings a\<rparr> d) [] (cn_agents t),
      tc_actions = foldl (\<lambda>d r. AList.update (cq_action r)
          ((case map_of d (cq_action r) of None \<Rightarrow> [] | Some rs \<Rightarrow> rs) @
           [\<lparr>al_action = cq_action r, al_resource_pattern = cq_resource_pattern r,
             al_base_risk_score = cq_base_risk_score r\<rparr>]) d) [] (cn_actions t),
      tc_modifiers = foldl (\<lambda>d m. AList.update (modifier_kind_value (cm_kind m), cm_value m) (cm_delta m) d)
          [] (cn_modifiers t),
      tc_advisor_data_classes = set (cn_advisor_data_classes t),
      tc_flagged_tools = remdups (cn_flagged_tools t)\<rparr>"

text \<open>The two \<open>continue\<close> guards of the loop over the keys.\<close>

definition key_usable :: "environment \<Rightarrow> instant \<Rightarrow> catalog_api_key \<Rightarrow> bool" where
  "key_usable env now k \<longleftrightarrow>
     \<not> (case ca_expires_at k of None \<Rightarrow> False | Some e \<Rightarrow> e \<le> now) \<and>
     \<not> (case ca_environments k of None \<Rightarrow> False | Some es \<Rightarrow> env \<notin> set es)"

definition principal_of :: "string \<Rightarrow> catalog_api_key \<Rightarrow> principal" where
  "principal_of tenant k = \<lparr>pr_key_id = ca_id k, pr_tenant_id = tenant, pr_key_name = ca_name k,
     pr_scopes = ca_scopes k, pr_rate_limit_per_minute = ca_rate_limit k, pr_agent_id = ca_agent_id k\<rparr>"

definition doc_keys :: "environment \<Rightarrow> instant \<Rightarrow> catalog_tenant list \<Rightarrow> (string \<times> principal) list" where
  "doc_keys env now ts =
     concat (map (\<lambda>t. map (\<lambda>k. (ca_key_hash k, principal_of (cn_id t) k)) (filter (key_usable env now) (cn_api_keys t)))
       (filter (\<lambda>t. cn_status t = TenantActive) ts))"

definition put_all :: "('k \<times> 'v) list \<Rightarrow> ('k \<times> 'v) list" where
  "put_all kvs = foldl (\<lambda>d kv. AList.update (fst kv) (snd kv) d) [] kvs"

definition catalog_apply :: "catalog_doc option \<Rightarrow> instant \<Rightarrow> catalog_holder \<Rightarrow> bool \<times> catalog_holder" where
  "catalog_apply raw now h =
     (case raw of
        None \<Rightarrow> (False, h\<lparr>ch_last_error := Some ''catalog rejected: ValidationError''\<rparr>)
      | Some doc \<Rightarrow>
          if \<not> list_all catalog_tenant_valid (co_tenants doc)
          then (False, h\<lparr>ch_last_error := Some ''catalog rejected: ValidationError''\<rparr>)
          else (True, h\<lparr>ch_doc := Some doc,
                        ch_keys := put_all (doc_keys (ch_env h) now (co_tenants doc)),
                        ch_tenants := put_all (map (\<lambda>t. (cn_id t, tenant_catalog_of t))
                          (filter (\<lambda>t. cn_status t = TenantActive) (co_tenants doc))),
                        ch_last_error := None\<rparr>))"

definition holder_lookup :: "catalog_holder \<Rightarrow> string \<Rightarrow> principal option" where
  "holder_lookup h key_hash = map_of (ch_keys h) key_hash"

definition empty_tenant_catalog :: tenant_catalog where
  "empty_tenant_catalog = \<lparr>tc_agents = [], tc_actions = [], tc_modifiers = [], tc_advisor_data_classes = {},
     tc_flagged_tools = []\<rparr>"

definition holder_load :: "catalog_holder \<Rightarrow> string \<Rightarrow> tenant_catalog" where
  "holder_load h tenant = (case map_of (ch_tenants h) tenant of None \<Rightarrow> empty_tenant_catalog | Some c \<Rightarrow> c)"

section \<open>Authentication\<close>

record authenticator =
  au_ttl :: int
  au_negative_ttl :: int
  au_cache :: "(string \<times> int \<times> principal option) list"

definition new_authenticator :: "int \<Rightarrow> int \<Rightarrow> authenticator" where
  "new_authenticator ttl neg = \<lparr>au_ttl = ttl, au_negative_ttl = neg, au_cache = []\<rparr>"

text \<open>A miss: ask the store, remember the answer, and drop what is over when the cache is large.\<close>

definition cache_fill ::
  "(string \<Rightarrow> principal option) \<Rightarrow> string \<Rightarrow> int \<Rightarrow> authenticator \<Rightarrow> principal option \<times> authenticator" where
  "cache_fill lookup h now au =
     (let q = lookup h;
          c = AList.update h (now + (if q \<noteq> None then au_ttl au else au_negative_ttl au), q) (au_cache au)
      in (q, au\<lparr>au_cache := if 10000 < length c then filter (\<lambda>kv. now < fst (snd kv)) c else c\<rparr>))"

definition cache_lookup ::
  "(string \<Rightarrow> principal option) \<Rightarrow> string \<Rightarrow> int \<Rightarrow> authenticator \<Rightarrow> principal option \<times> authenticator" where
  "cache_lookup lookup h now au =
     (case map_of (au_cache au) h of
        Some (expiry, p) \<Rightarrow> if now < expiry then (p, au) else cache_fill lookup h now au
      | None \<Rightarrow> cache_fill lookup h now au)"

definition authenticate ::
  "(string \<Rightarrow> string) \<Rightarrow> (string \<Rightarrow> principal option) \<Rightarrow> string option \<Rightarrow> string \<Rightarrow> int \<Rightarrow> authenticator \<Rightarrow>
   principal option \<times> authenticator" where
  "authenticate hash lookup raw scope now au =
     (if raw = None \<or> raw = Some [] \<or> 256 < length (the raw) then (None, au)
      else (case cache_lookup lookup (hash (the raw)) now au of
              (None, au') \<Rightarrow> (None, au')
            | (Some p, au') \<Rightarrow> (if scope \<in> set (pr_scopes p) then Some p else None, au')))"

section \<open>Synchronisation\<close>

text \<open>
  The answer to one fetch: unreachable, not modified, nothing there, or a document with its etag.
  \<open>sy_cached\<close> is the file of the last good copy.
\<close>

datatype 'd fetched = Unreachable | NotModified | Missing | Document 'd "string option"

record catalog_sync =
  sy_holder :: catalog_holder
  sy_etag :: "string option"
  sy_cached :: "(catalog_doc option \<times> string option) option"
  sy_reachable :: bool

definition refresh_catalog ::
  "catalog_doc option fetched \<Rightarrow> instant \<Rightarrow> catalog_sync \<Rightarrow> bool \<times> catalog_sync" where
  "refresh_catalog answer now y =
     (case answer of
        Unreachable \<Rightarrow> (False, y\<lparr>sy_reachable := False\<rparr>)
      | Document d e \<Rightarrow>
          (case catalog_apply d now (sy_holder y) of
             (True, h) \<Rightarrow> (True, y\<lparr>sy_reachable := True, sy_holder := h, sy_etag := e, sy_cached := Some (d, e)\<rparr>)
           | (False, h) \<Rightarrow> (True, y\<lparr>sy_reachable := True, sy_holder := h\<rparr>))
      | _ \<Rightarrow> (True, y\<lparr>sy_reachable := True\<rparr>))"

text \<open>\<open>start\<close> for the catalog: the control plane first, then the cached copy.\<close>

definition start_catalog :: "catalog_doc option fetched \<Rightarrow> instant \<Rightarrow> catalog_sync \<Rightarrow> catalog_sync" where
  "start_catalog answer now y =
     (let (ok, y1) = refresh_catalog answer now y in
      if ok \<and> ch_doc (sy_holder y1) \<noteq> None then y1
      else (case sy_cached y1 of
              None \<Rightarrow> y1
            | Some (d, e) \<Rightarrow>
                (case catalog_apply d now (sy_holder y1) of
                   (True, h) \<Rightarrow> y1\<lparr>sy_holder := h, sy_etag := e\<rparr>
                 | (False, h) \<Rightarrow> y1\<lparr>sy_holder := h\<rparr>)))"

section \<open>Tenant cache\<close>

type_synonym tenant_cache = "(string \<times> int \<times> tenant_catalog) list"

definition cached_get ::
  "(string \<Rightarrow> tenant_catalog) \<Rightarrow> int \<Rightarrow> string \<Rightarrow> int \<Rightarrow> tenant_cache \<Rightarrow> tenant_catalog \<times> tenant_cache" where
  "cached_get load ttl tenant now c =
     (case map_of c tenant of
        Some (expiry, cat) \<Rightarrow> if now < expiry then (cat, c)
                              else (load tenant, AList.update tenant (now + ttl, load tenant) c)
      | None \<Rightarrow> (load tenant, AList.update tenant (now + ttl, load tenant) c))"

end
