(* ===== verification/Catalog_Props.thy ===== *)
theory Catalog_Props
  imports Catalog_Sync
begin

text \<open>
  From an edit of the catalog to the answer of a gateway: the keys a gateway accepts are exactly
  the keys the control plane has in force, and a revoked key is refused once the cache time is
  over.
\<close>

section \<open>The store of keys and tenants\<close>

definition keys_ok :: "control_store \<Rightarrow> bool" where
  "keys_ok s \<longleftrightarrow>
     distinct (map fst (db_api_keys s)) \<and> list_all (\<lambda>(i, k). i = ky_id k) (db_api_keys s) \<and>
     distinct (map (\<lambda>ik. ky_key_hash (snd ik)) (db_api_keys s)) \<and>
     distinct (map fst (db_tenants s)) \<and> list_all (\<lambda>(i, t). i = tn_id t) (db_tenants s)"

definition catalogs_ok :: "catalog_settings \<Rightarrow> control_store \<Rightarrow> bool" where
  "catalogs_ok kg s \<longleftrightarrow>
     list_all (\<lambda>c. ct_content_hash c = kg_digest kg (co_tenants (ct_document c)) \<and>
       list_all catalog_tenant_valid (co_tenants (ct_document c))) (db_catalogs s)"

text \<open>The content hash tells the stored catalogs from what would be built now.\<close>

definition no_collision :: "catalog_settings \<Rightarrow> instant \<Rightarrow> control_store \<Rightarrow> bool" where
  "no_collision kg now s \<longleftrightarrow>
     (case built_catalog kg now s of
        Inl _ \<Rightarrow> True
      | Inr ts \<Rightarrow> list_all (\<lambda>d. kg_digest kg (co_tenants (ct_document d)) = kg_digest kg ts \<longrightarrow>
                     co_tenants (ct_document d) = ts) (db_catalogs s))"

lemma key_row: "keys_ok s \<Longrightarrow> (i, k) \<in> set (db_api_keys s) \<longleftrightarrow> i = ky_id k \<and> get_api_key s i = Some k"
  by (auto simp: keys_ok_def get_api_key_def list_all_iff)

lemma tenant_row: "keys_ok s \<Longrightarrow> (i, t) \<in> set (db_tenants s) \<longleftrightarrow> i = tn_id t \<and> get_tenant s i = Some t"
  by (auto simp: keys_ok_def get_tenant_def list_all_iff)

lemma distinct_map_inj: "distinct (map f xs) \<Longrightarrow> x \<in> set xs \<Longrightarrow> y \<in> set xs \<Longrightarrow> f x = f y \<Longrightarrow> x = y"
  by (auto simp: distinct_map inj_on_def)

lemma same_hash_same_key:
  assumes "keys_ok s" "get_api_key s (ky_id k) = Some k" "get_api_key s (ky_id j) = Some j"
    and "ky_key_hash k = ky_key_hash j"
  shows "k = j"
proof -
  have "(ky_id k, k) \<in> set (db_api_keys s)" "(ky_id j, j) \<in> set (db_api_keys s)"
    using assms by (simp_all add: key_row)
  with assms(1,4) distinct_map_inj [of "\<lambda>ik. ky_key_hash (snd ik)" "db_api_keys s"] show ?thesis
    unfolding keys_ok_def by fastforce
qed

subsection \<open>Every service operation keeps it\<close>

lemma keys_ok_catalog [simp]: "keys_ok (snd (publish_catalog kg now f s)) = keys_ok s"
  by (simp add: keys_ok_def)

lemma keys_ok_log [simp]: "keys_ok (log_change e i a w s) = keys_ok s"
  by (simp add: keys_ok_def)

lemma then_publish_snd: "snd (then_publish kg now f x s) = snd (publish_catalog kg now f s)"
  by (simp add: then_publish_def split: prod.split sum.split)

lemma keys_ok_then_publish [simp]: "keys_ok (snd (then_publish kg now f x s)) = keys_ok s"
  by (subst then_publish_snd) (rule keys_ok_catalog)

lemma keys_ok_put_tenant [inv_intros]: "keys_ok s \<Longrightarrow> keys_ok (put_tenant t s)"
  by (simp add: keys_ok_def put_tenant_def distinct_update list_all_update)

lemma keys_ok_add_key:
  assumes "keys_ok s" "add_api_key k s = Inr t" "get_api_key s (ky_id k) = None"
  shows "keys_ok t"
proof -
  have new: "ky_id k \<notin> fst ` set (db_api_keys s)"
    using assms(3) by (simp add: get_api_key_def map_of_eq_None_iff)
  have "ky_key_hash k \<notin> (\<lambda>ik. ky_key_hash (snd ik)) ` set (db_api_keys s)"
    using assms(2) by (auto simp: add_api_key_def list_ex_iff split: if_splits)
  moreover have "t = s\<lparr>db_api_keys := AList.update (ky_id k) k (db_api_keys s)\<rparr>"
    using assms(2) by (simp add: add_api_key_def split: if_splits)
  ultimately show ?thesis using assms(1) new by (simp add: keys_ok_def update_new)
qed

lemma keys_ok_put_key:
  assumes "keys_ok s" "get_api_key s (ky_id k) = Some k0" "ky_key_hash k = ky_key_hash k0"
  shows "keys_ok (put_api_key k s)"
proof -
  have "map (\<lambda>ik. ky_key_hash (snd ik)) (AList.update (ky_id k) k (db_api_keys s)) =
      map (\<lambda>ik. ky_key_hash (snd ik)) (db_api_keys s)"
    using map_update_same [of "db_api_keys s" "ky_id k" k0 ky_key_hash k] assms(2,3)
    by (simp add: get_api_key_def)
  with assms(1) show ?thesis
    by (simp add: keys_ok_def put_api_key_def distinct_update list_all_update)
qed

lemma own_key_row: "own_key p tenant i s = Inr k \<Longrightarrow> keys_ok s \<Longrightarrow> get_api_key s i = Some k \<and> ky_id k = i"
  using key_row [of s i k] by (auto simp: own_key_def get_api_key_def split: if_splits option.splits dest!: map_of_SomeD)

lemma keys_ok_revoke [inv_intros]:
  assumes "keys_ok s"
  shows "keys_ok (snd (revoke_api_key kg p tenant i now f s))"
proof (cases "own_key p tenant i s")
  case (Inl e)
  with assms show ?thesis by (simp add: revoke_api_key_def)
next
  case (Inr k)
  with own_key_row assms have "get_api_key s (ky_id k) = Some k" by blast
  with assms have "keys_ok (put_api_key (k\<lparr>ky_is_active := False, ky_revoked_at := Some now\<rparr>) s)"
    by (intro keys_ok_put_key) simp_all
  with Inr show ?thesis by (simp add: revoke_api_key_def Let_def)
qed

lemma keys_ok_limit [inv_intros]:
  assumes "keys_ok s"
  shows "keys_ok (snd (set_api_key_rate_limit kg p tenant i limit now f s))"
proof (cases "own_key p tenant i s")
  case (Inl e)
  with assms show ?thesis by (simp add: set_api_key_rate_limit_def)
next
  case (Inr k)
  with own_key_row assms have "get_api_key s (ky_id k) = Some k" by blast
  with assms have "keys_ok (put_api_key (k\<lparr>ky_rate_limit := limit\<rparr>) s)"
    by (intro keys_ok_put_key) simp_all
  with Inr show ?thesis by (simp add: set_api_key_rate_limit_def Let_def)
qed

lemma keys_ok_bind [inv_intros]:
  assumes "keys_ok s"
  shows "keys_ok (snd (bind_api_key kg p tenant i agent now f s))"
proof (cases "own_key p tenant i s")
  case (Inl e)
  with assms show ?thesis by (simp add: bind_api_key_def)
next
  case (Inr k)
  with own_key_row assms have "get_api_key s (ky_id k) = Some k" by blast
  with assms have "keys_ok (put_api_key (k\<lparr>ky_agent_id := agent\<rparr>) s)"
    by (intro keys_ok_put_key) simp_all
  with Inr assms show ?thesis by (auto simp: bind_api_key_def Let_def split: sum.split)
qed

lemma keys_ok_create_key [inv_intros]:
  assumes "keys_ok s" "get_api_key s key_id = None"
  shows "keys_ok (snd (create_api_key kg hash p tenant nk raw key_id now f s))"
proof -
  have "keys_ok t" if "add_api_key k s = Inr t" "ky_id k = key_id" for k t
    using keys_ok_add_key [OF assms(1) that(1)] assms(2) that(2) by simp
  with assms(1) show ?thesis
    by (simp add: create_api_key_def Let_def split: sum.split)
qed

lemma keys_ok_create_tenant [inv_intros]:
  "keys_ok s \<Longrightarrow> keys_ok (snd (create_tenant kg p tenant name now f s))"
  by (simp add: create_tenant_def Let_def keys_ok_put_tenant)

lemma keys_ok_tenant_status [inv_intros]:
  "keys_ok s \<Longrightarrow> keys_ok (snd (set_tenant_status kg p tenant st now f s))"
  by (simp add: set_tenant_status_def Let_def keys_ok_put_tenant split: sum.split)

section \<open>Which keys a gateway accepts\<close>

lemma map_of_put_all: "map_of (put_all kvs) k = map_of (rev kvs) k"
proof -
  have "map_of (foldl (\<lambda>d kv. AList.update (fst kv) (snd kv) d) d kvs) k =
      (case map_of (rev kvs) k of None \<Rightarrow> map_of d k | Some v \<Rightarrow> Some v)" for d
    by (induction kvs arbitrary: d) (auto simp: map_add_def split: option.splits)
  then show ?thesis by (simp add: put_all_def split: option.split)
qed

lemma map_of_functional:
  assumes "\<And>v w. (k, v) \<in> set xs \<Longrightarrow> (k, w) \<in> set xs \<Longrightarrow> v = w"
  shows "map_of xs k = Some v \<longleftrightarrow> (k, v) \<in> set xs"
proof
  show "map_of xs k = Some v \<Longrightarrow> (k, v) \<in> set xs" by (rule map_of_SomeD)
  assume m: "(k, v) \<in> set xs"
  then obtain w where "map_of xs k = Some w" by (metis weak_map_of_SomeI)
  with m assms map_of_SomeD show "map_of xs k = Some v" by metis
qed

text \<open>What the catalog gives an API key on a gateway of an environment.\<close>

definition key_in_force :: "control_store \<Rightarrow> instant \<Rightarrow> environment \<Rightarrow> instant \<Rightarrow> api_key_record \<Rightarrow> bool" where
  "key_in_force s now env later k \<longleftrightarrow>
     get_api_key s (ky_id k) = Some k \<and> key_published now k \<and>
     (\<exists>t. get_tenant s (ky_tenant_id k) = Some t \<and> tn_status t = TenantActive) \<and>
     key_usable env later (catalog_key k)"

lemma catalog_key_hash [simp]: "ca_key_hash (catalog_key k) = ky_key_hash k"
  by (simp add: catalog_key_def)

lemma built_keys:
  assumes "keys_ok s" "built_catalog kg now s = Inr ts"
  shows "(h, p) \<in> set (doc_keys env later ts) \<longleftrightarrow>
     (\<exists>k. key_in_force s now env later k \<and> ky_key_hash k = h \<and> p = principal_of (ky_tenant_id k) (catalog_key k))"
proof -
  obtain inv where ts: "ts = map (build_tenant (list_api_keys s None) (list_agent_rows s None)
      (list_action_rows s None) (list_modifier_rows s None) inv now) (sort_key tn_id (list_tenants s))"
    using assms(2) by (auto simp: built_catalog_def build_catalog_def Let_def split: if_splits)
  have ten: "t \<in> set (list_tenants s) \<longleftrightarrow> get_tenant s (tn_id t) = Some t" for t
  proof -
    have "t \<in> set (list_tenants s) \<longleftrightarrow> (\<exists>i. (i, t) \<in> set (db_tenants s))"
      by (simp add: list_tenants_def image_iff Bex_def)
    then show ?thesis by (simp add: tenant_row [OF assms(1)])
  qed
  have key: "k \<in> set (list_api_keys s None) \<longleftrightarrow> get_api_key s (ky_id k) = Some k" for k
  proof -
    have "k \<in> set (list_api_keys s None) \<longleftrightarrow> (\<exists>i. (i, k) \<in> set (db_api_keys s))"
      by (simp add: list_api_keys_def image_iff Bex_def)
    then show ?thesis by (simp add: key_row [OF assms(1)])
  qed
  have tid: "get_tenant s i = Some t \<Longrightarrow> tn_id t = i" for i t
    using tenant_row [OF assms(1), of i t] by (auto simp: get_tenant_def dest: map_of_SomeD)
  have mem: "(h, p) \<in> set (doc_keys env later ts) \<longleftrightarrow>
      (\<exists>t \<in> set ts. cn_status t = TenantActive \<and>
         (\<exists>c \<in> set (cn_api_keys t). key_usable env later c \<and> h = ca_key_hash c \<and> p = principal_of (cn_id t) c))"
    by (auto simp: doc_keys_def)
  show ?thesis
  proof
    assume "(h, p) \<in> set (doc_keys env later ts)"
    note this [unfolded mem]
    then obtain t k where "t \<in> set (list_tenants s)" "tn_status t = TenantActive"
      "k \<in> set (list_api_keys s None)" "key_published now k" "ky_tenant_id k = tn_id t"
      "key_usable env later (catalog_key k)" "h = ky_key_hash k" "p = principal_of (tn_id t) (catalog_key k)"
      by (auto simp: ts build_tenant_def Let_def)
    then show "\<exists>k. key_in_force s now env later k \<and> ky_key_hash k = h \<and>
        p = principal_of (ky_tenant_id k) (catalog_key k)"
      by (intro exI [of _ k]) (simp add: key_in_force_def ten key)
  next
    assume "\<exists>k. key_in_force s now env later k \<and> ky_key_hash k = h \<and>
        p = principal_of (ky_tenant_id k) (catalog_key k)"
    then obtain k t where k: "get_api_key s (ky_id k) = Some k" "key_published now k"
      "get_tenant s (ky_tenant_id k) = Some t" "tn_status t = TenantActive"
      "key_usable env later (catalog_key k)" "ky_key_hash k = h" "p = principal_of (ky_tenant_id k) (catalog_key k)"
      unfolding key_in_force_def by blast
    have t: "tn_id t = ky_tenant_id k" by (rule tid [OF k(3)])
    let ?t = "build_tenant (list_api_keys s None) (list_agent_rows s None)
      (list_action_rows s None) (list_modifier_rows s None) inv now t"
    have "?t \<in> set ts" using ten [of t] k(3) t by (simp add: ts)
    moreover have "catalog_key k \<in> set (cn_api_keys ?t)"
      using key [of k] k t by (auto simp: build_tenant_def Let_def)
    moreover have "cn_status ?t = TenantActive" "cn_id ?t = ky_tenant_id k"
      using k t by (simp_all add: build_tenant_def Let_def)
    ultimately show "(h, p) \<in> set (doc_keys env later ts)"
      unfolding mem using k(5-7) by (intro bexI [of _ ?t] conjI bexI [of _ "catalog_key k"]) simp_all
  qed
qed

lemma built_lookup:
  assumes "keys_ok s" "built_catalog kg now s = Inr ts"
  shows "map_of (put_all (doc_keys env later ts)) h = Some p \<longleftrightarrow>
     (\<exists>k. key_in_force s now env later k \<and> ky_key_hash k = h \<and> p = principal_of (ky_tenant_id k) (catalog_key k))"
proof -
  have "p = q" if "(h, p) \<in> set (doc_keys env later ts)" "(h, q) \<in> set (doc_keys env later ts)" for p q
    using that same_hash_same_key [OF assms(1)]
    unfolding built_keys [OF assms] key_in_force_def by metis
  then have "map_of (rev (doc_keys env later ts)) h = Some p \<longleftrightarrow> (h, p) \<in> set (rev (doc_keys env later ts))"
    by (intro map_of_functional) simp
  then show ?thesis by (simp add: map_of_put_all built_keys [OF assms])
qed

lemma publish_catalog_document:
  assumes "publish_catalog kg now f s = (Inr c, t)" "no_collision kg now t" "catalogs_ok kg s"
  shows "\<exists>ts. built_catalog kg now s = Inr ts \<and> co_tenants (ct_document c) = ts \<and>
    list_all catalog_tenant_valid ts \<and> current_catalog t = Some c \<and> catalogs_ok kg t"
proof -
  obtain ts where ts: "built_catalog kg now s = Inr ts"
    using assms(1) by (cases "built_catalog kg now s") (auto simp: publish_catalog_def)
  then have v: "list_all catalog_tenant_valid ts"
    by (auto simp: built_catalog_def build_catalog_def Let_def split: if_splits)
  show ?thesis
  proof (cases "\<exists>k. current_catalog s = Some k \<and> ct_content_hash k = kg_digest kg ts")
    case True
    then obtain k where k: "current_catalog s = Some k" "ct_content_hash k = kg_digest kg ts" by blast
    then have c: "c = k" "t = s" using assms(1) ts by (simp_all add: publish_catalog_def Let_def)
    have m: "k \<in> set (db_catalogs s)" using k(1) by (auto simp: current_catalog_def split: if_splits)
    then have "kg_digest kg (co_tenants (ct_document k)) = kg_digest kg ts"
      using assms(3) k(2) by (auto simp: catalogs_ok_def list_all_iff)
    then have "co_tenants (ct_document k) = ts"
      using assms(2) m ts c(2) by (auto simp: no_collision_def list_all_iff)
    with ts v k c assms(3) show ?thesis by simp
  next
    case False
    then have "\<not> (case current_catalog s of None \<Rightarrow> False | Some c \<Rightarrow> ct_content_hash c = kg_digest kg ts)"
      by (cases "current_catalog s") auto
    with assms(1,3) ts v show ?thesis
      by (auto simp: publish_catalog_def Let_def add_catalog_def current_catalog_def catalogs_ok_def)
  qed
qed

lemma published_lookup:
  assumes "no_collision kg now t" "keys_ok s" "catalogs_ok kg s" "publish_catalog kg now f s = (Inr c, t)"
  shows "holder_lookup (snd (catalog_apply (Some (ct_document c)) later h)) key_hash = Some p \<longleftrightarrow>
     (\<exists>k. key_in_force s now (ch_env h) later k \<and> ky_key_hash k = key_hash \<and>
        p = principal_of (ky_tenant_id k) (catalog_key k))"
proof -
  obtain ts where ts: "built_catalog kg now s = Inr ts" "co_tenants (ct_document c) = ts"
    "list_all catalog_tenant_valid ts"
    using publish_catalog_document [OF assms(4,1,3)] by blast
  with built_lookup [OF assms(2) ts(1), of "ch_env h" later key_hash p] show ?thesis
    by (simp add: catalog_apply_def holder_lookup_def)
qed

text \<open>C28. The keys a gateway accepts are the keys in force: after the control plane published its
  catalog and a gateway applied it, the gateway knows a key hash exactly when an active,
  unexpired key of an active tenant has that hash and is meant for the gateway's environment,
  and the principal is that key's tenant, scopes, rate limit and bound agent.
\<close>

theorem gateway_accepts_keys_in_force:
  assumes "no_collision kg now t" "keys_ok s" "catalogs_ok kg s"
    and "publish_catalog kg now f s = (Inr c, t)"
  shows "holder_lookup (snd (catalog_apply (Some (ct_document c)) later h)) key_hash = Some p \<longleftrightarrow>
     (\<exists>k. key_in_force s now (ch_env h) later k \<and> ky_key_hash k = key_hash \<and>
        p = principal_of (ky_tenant_id k) (catalog_key k))"
  by (rule published_lookup [OF assms])

section \<open>A revoked key is refused\<close>

type_synonym auth_call = "(string \<Rightarrow> principal option) \<times> string option \<times> string \<times> int"

definition auth_all :: "(string \<Rightarrow> string) \<Rightarrow> auth_call list \<Rightarrow> authenticator \<Rightarrow> authenticator" where
  "auth_all hash calls au =
     foldl (\<lambda>a (lookup, raw, scope, m). snd (authenticate hash lookup raw scope m a)) au calls"

text \<open>Every cached answer is over at some time, or is what the lookup says now.\<close>

definition cache_within :: "int \<Rightarrow> (string \<Rightarrow> principal option) \<Rightarrow> authenticator \<Rightarrow> bool" where
  "cache_within bound lookup au \<longleftrightarrow>
     list_all (\<lambda>(h, e, p). e \<le> bound \<or> p = lookup h) (au_cache au)"

lemma cache_lookup_cases:
  assumes "cache_lookup lookup h m au = (p, au')"
  shows "(au' = au \<and> (\<exists>e. map_of (au_cache au) h = Some (e, p) \<and> m < e)) \<or>
     (p = lookup h \<and> (\<exists>P. au' = au\<lparr>au_cache := filter P (AList.update h
        (m + (if p \<noteq> None then au_ttl au else au_negative_ttl au), p) (au_cache au))\<rparr>))"
proof -
  have fill: "\<exists>P. cache_fill lookup h m au = (lookup h, au\<lparr>au_cache := filter P (AList.update h
        (m + (if lookup h \<noteq> None then au_ttl au else au_negative_ttl au), lookup h) (au_cache au))\<rparr>)"
    (is "\<exists>P. _ = (_, au\<lparr>au_cache := filter P ?c\<rparr>)")
  proof (cases "10000 < length ?c")
    case True
    then show ?thesis
      unfolding cache_fill_def Let_def by (intro exI [of _ "\<lambda>kv. m < fst (snd kv)"]) simp
  next
    case False
    then show ?thesis unfolding cache_fill_def Let_def by (intro exI [of _ "\<lambda>_. True"]) simp
  qed
  consider e where "map_of (au_cache au) h = Some (e, p)" "m < e" "au' = au"
    | "cache_fill lookup h m au = (p, au')"
    using assms by (auto simp: cache_lookup_def split: option.splits if_splits)
  then show ?thesis using fill by cases auto
qed

lemma list_all_filter: "list_all Q xs \<Longrightarrow> list_all Q (filter P xs)"
  by (simp add: list_all_iff)

lemma cache_within_lookup:
  assumes "cache_within b lk au" "lookup = lk \<or> m + max (au_ttl au) (au_negative_ttl au) \<le> b"
    and "cache_lookup lookup h m au = (p, au')"
  shows "cache_within b lk au' \<and> au_ttl au' = au_ttl au \<and> au_negative_ttl au' = au_negative_ttl au"
  using cache_lookup_cases [OF assms(3)]
proof (elim disjE conjE exE)
  fix P assume pl: "p = lookup h"
    and au: "au' = au\<lparr>au_cache := filter P (AList.update h
        (m + (if p \<noteq> None then au_ttl au else au_negative_ttl au), p) (au_cache au))\<rparr>"
  have "list_all (\<lambda>(h, e, p). e \<le> b \<or> p = lk h)
      (AList.update h (m + (if p \<noteq> None then au_ttl au else au_negative_ttl au), p) (au_cache au))"
    using assms(1,2) pl by (intro list_all_update) (auto simp: cache_within_def)
  with au show ?thesis by (simp add: cache_within_def list_all_filter)
qed (use assms(1) in simp)

lemma cache_within_auth:
  assumes "cache_within b lk au" "lookup = lk \<or> m + max (au_ttl au) (au_negative_ttl au) \<le> b"
  shows "cache_within b lk (snd (authenticate hash lookup raw scope m au)) \<and>
     au_ttl (snd (authenticate hash lookup raw scope m au)) = au_ttl au \<and>
     au_negative_ttl (snd (authenticate hash lookup raw scope m au)) = au_negative_ttl au"
proof (cases "raw = None \<or> raw = Some [] \<or> 256 < length (the raw)")
  case True
  with assms(1) show ?thesis by (simp add: authenticate_def)
next
  case False
  obtain p au' where c: "cache_lookup lookup (hash (the raw)) m au = (p, au')" by fastforce
  with False have "snd (authenticate hash lookup raw scope m au) = au'"
    by (cases p) (auto simp: authenticate_def)
  with cache_within_lookup [OF assms c] show ?thesis by simp
qed

lemma cache_within_all:
  assumes "cache_within b lk au"
    and "list_all (\<lambda>(lookup, raw, scope, m). lookup = lk \<or> m + max (au_ttl au) (au_negative_ttl au) \<le> b) calls"
  shows "cache_within b lk (auth_all hash calls au) \<and>
     au_ttl (auth_all hash calls au) = au_ttl au \<and> au_negative_ttl (auth_all hash calls au) = au_negative_ttl au"
  using assms
proof (induction calls arbitrary: au)
  case Nil
  then show ?case by (simp add: auth_all_def)
next
  case (Cons call calls)
  obtain lookup raw scope m where call: "call = (lookup, raw, scope, m)" by (metis prod_cases4)
  let ?au = "snd (authenticate hash lookup raw scope m au)"
  have s: "cache_within b lk ?au \<and> au_ttl ?au = au_ttl au \<and> au_negative_ttl ?au = au_negative_ttl au"
    using Cons.prems call by (intro cache_within_auth) simp_all
  then have "cache_within b lk (auth_all hash calls ?au) \<and> au_ttl (auth_all hash calls ?au) = au_ttl ?au \<and>
      au_negative_ttl (auth_all hash calls ?au) = au_negative_ttl ?au"
    using Cons.prems(2) by (intro Cons.IH) simp_all
  moreover have "auth_all hash (call # calls) au = auth_all hash calls ?au"
    by (simp add: auth_all_def call)
  ultimately show ?case using s by simp
qed

lemma cache_expired:
  assumes "cache_within b lk au" "lk (hash raw) = None" "b \<le> m"
  shows "fst (authenticate hash lk (Some raw) scope m au) = None"
proof -
  obtain p au' where c: "cache_lookup lk (hash raw) m au = (p, au')" by fastforce
  have "p = None"
    using cache_lookup_cases [OF c] assms
    by (auto simp: cache_within_def list_all_iff dest!: map_of_SomeD)
  with c show ?thesis by (simp add: authenticate_def)
qed

lemma revoked_not_in_force:
  assumes "keys_ok s" "revoke_api_key kg p tenant i now f s = (Inr k, s')"
  shows "\<exists>s1 c. keys_ok s1 \<and> db_catalogs s1 = db_catalogs s \<and> publish_catalog kg now f s1 = (Inr c, s') \<and>
     get_api_key s1 (ky_id k) = Some k \<and> \<not> ky_is_active k"
proof -
  obtain k0 where k0: "own_key p tenant i s = Inr k0"
    using assms(2) by (cases "own_key p tenant i s") (auto simp: revoke_api_key_def)
  let ?k = "k0\<lparr>ky_is_active := False, ky_revoked_at := Some now\<rparr>"
  let ?s1 = "log_change ''api_key'' i ''revoke'' (actor p) (put_api_key ?k s)"
  have row: "get_api_key s (ky_id k0) = Some k0" using own_key_row [OF k0 assms(1)] by blast
  have tp: "then_publish kg now f ?k ?s1 = (Inr k, s')"
    using assms(2) k0 by (simp add: revoke_api_key_def Let_def)
  obtain x u where x: "publish_catalog kg now f ?s1 = (x, u)" by fastforce
  obtain c where c: "publish_catalog kg now f ?s1 = (Inr c, s')" "k = ?k"
  proof (cases x)
    case (Inl e)
    with tp x show thesis unfolding then_publish_def by simp
  next
    case (Inr c)
    with tp x have "s' = u" "k = ?k" unfolding then_publish_def by simp_all
    with that [of c] x Inr show thesis by simp
  qed
  have "keys_ok ?s1" using keys_ok_put_key [OF assms(1), of ?k k0] row by simp
  moreover have "db_catalogs ?s1 = db_catalogs s" by (simp add: put_api_key_def)
  moreover have "get_api_key ?s1 (ky_id k) = Some k \<and> \<not> ky_is_active k"
    using c(2) by (simp add: get_api_key_def put_api_key_def)
  ultimately show ?thesis using c(1) by blast
qed

text \<open>C29. A revoked key stops working: once a gateway applied the catalog that the revocation
  published, at time \<open>T\<close> of its clock, every authentication with the key from \<open>T + ttl\<close> on is
  refused, whatever was authenticated and cached before (against any older catalog) and since.
\<close>

theorem revoked_key_refused:
  assumes "no_collision kg now s'" "keys_ok s" "catalogs_ok kg s"
    and revoke: "revoke_api_key kg p tenant i now f s = (Inr k, s')"
    and doc: "current_catalog s' = Some c"
    and h: "h = snd (catalog_apply (Some (ct_document c)) later h0)"
    and ttl: "neg \<le> ttl" and before: "list_all (\<lambda>(lookup, raw, scope, m). m \<le> T) calls"
    and key: "hash raw = ky_key_hash k" and m: "T + ttl \<le> m"
  shows "fst (authenticate hash (holder_lookup h) (Some raw) scope m
     (auth_all hash (map (\<lambda>(r, sc, m). (holder_lookup h, r, sc, m)) since)
       (auth_all hash calls (new_authenticator ttl neg)))) = None"
proof -
  obtain s1 c1 where s1: "keys_ok s1" "db_catalogs s1 = db_catalogs s" "publish_catalog kg now f s1 = (Inr c1, s')"
    "get_api_key s1 (ky_id k) = Some k" "\<not> ky_is_active k"
    using revoked_not_in_force [OF assms(2) revoke] by blast
  have cs: "catalogs_ok kg s1" using assms(3) s1(2) by (simp add: catalogs_ok_def)
  have c: "c1 = c" using publish_catalog_document [OF s1(3) assms(1) cs] doc by auto
  have gone: "holder_lookup h (hash raw) = None"
  proof (cases "holder_lookup h (hash raw)")
    case (Some q)
    have "holder_lookup (snd (catalog_apply (Some (ct_document c1)) later h0)) (hash raw) = Some q"
      using Some h c by simp
    note this [unfolded published_lookup [OF assms(1) s1(1) cs s1(3)]]
    then have "\<exists>j. key_in_force s1 now (ch_env h0) later j \<and> ky_key_hash j = ky_key_hash k"
      unfolding key by blast
    then obtain j where j: "key_in_force s1 now (ch_env h0) later j" "ky_key_hash j = ky_key_hash k" by blast
    have "j = k"
      using same_hash_same_key [OF s1(1) _ s1(4) j(2)] j(1) by (simp add: key_in_force_def)
    with j(1) s1(5) show ?thesis by (simp add: key_in_force_def key_published_def)
  qed simp
  let ?lk = "holder_lookup h" and ?a0 = "new_authenticator ttl neg"
  let ?a1 = "auth_all hash calls ?a0"
  have a1: "cache_within (T + ttl) ?lk ?a1 \<and> au_ttl ?a1 = ttl \<and> au_negative_ttl ?a1 = neg"
  proof -
    have 0: "cache_within (T + ttl) ?lk ?a0" "au_ttl ?a0 = ttl" "au_negative_ttl ?a0 = neg"
      by (simp_all add: cache_within_def new_authenticator_def)
    have "list_all (\<lambda>(lookup, raw, scope, m). lookup = ?lk \<or> m + max ttl neg \<le> T + ttl) calls"
      using before ttl by (auto simp: list_all_iff)
    with cache_within_all [OF 0(1), of calls hash] 0 show ?thesis by simp
  qed
  then have "cache_within (T + ttl) ?lk (auth_all hash (map (\<lambda>(r, sc, m). (?lk, r, sc, m)) since) ?a1)"
    using cache_within_all [of "T + ttl" ?lk ?a1 "map (\<lambda>(r, sc, m). (?lk, r, sc, m)) since" hash]
    by (auto simp: list_all_iff)
  from cache_expired [where hash = hash and raw = raw and lk = "holder_lookup h", OF this gone m] show ?thesis .
qed

section \<open>An example\<close>

definition ex_kg :: catalog_settings where
  "ex_kg = \<lparr>kg_digest = (\<lambda>ts. concat (map (\<lambda>t. CHR ''t'' # replicate (length (cn_api_keys t)) CHR ''k'') ts)),
     kg_time_text = str_int, kg_open_findings = (\<lambda>_. []), kg_entities = (\<lambda>_. [])\<rparr>"

definition ex_hash :: "string \<Rightarrow> string" where
  "ex_hash raw = replicate 64 (if raw = ''gk_1'' then CHR ''a'' else CHR ''b'')"

definition ex_platform :: admin where
  "ex_platform = \<lparr>adm_key_id = ''ann'', adm_name = ''ann'', adm_roles = [''admin''], adm_tenant = None\<rparr>"

definition ex_with_key :: control_store where
  "ex_with_key = snd (create_api_key ex_kg ex_hash ex_platform ''acme''
     \<lparr>nk_name = ''bot'', nk_scopes = [], nk_environments = None, nk_expires_at = None, nk_rate_limit = None,
      nk_agent_id = None\<rparr> ''gk_1'' ''k1'' 20 ''c2''
     (snd (create_tenant ex_kg ex_platform ''acme'' ''Acme'' 10 ''c1'' empty_store)))"

definition ex_current :: catalog_record where
  "ex_current = the (current_catalog ex_with_key)"

definition ex_revoked :: "(cp_error + api_key_record) \<times> control_store" where
  "ex_revoked = revoke_api_key ex_kg ex_platform ''acme'' ''k1'' 30 ''c3'' ex_with_key"

lemma ex_with_key_values:
  "let s = ex_with_key in keys_ok s \<and> catalogs_ok ex_kg s \<and> no_collision ex_kg 25 s \<and>
     map_option ky_key_hash (get_api_key s ''k1'') = Some (ex_hash ''gk_1'') \<and>
     (case get_api_key s ''k1'' of None \<Rightarrow> False
      | Some k \<Rightarrow> key_published 25 k \<and> key_usable Production 26 (catalog_key k) \<and> ky_tenant_id k = ''acme'' \<and> ky_id k = ''k1'') \<and>
     map_option tn_status (get_tenant s ''acme'') = Some TenantActive \<and>
     (case publish_catalog ex_kg 25 ''c3'' s of (x, t) \<Rightarrow> \<not> isl x \<and> no_collision ex_kg 25 t) \<and>
     (case revoke_api_key ex_kg ex_platform ''acme'' ''k1'' 30 ''c3'' s of
        (x, t) \<Rightarrow> no_collision ex_kg 30 t \<and> \<not> isl x \<and> current_catalog t \<noteq> None \<and>
          ky_key_hash (projr x) = ex_hash ''gk_1'')"
  by code_simp

lemma ex_catalog_facts:
  "keys_ok ex_with_key" "catalogs_ok ex_kg ex_with_key" "no_collision ex_kg 25 ex_with_key"
  "no_collision ex_kg 30 (snd ex_revoked)"
  "map_option ky_key_hash (get_api_key ex_with_key ''k1'') = Some (ex_hash ''gk_1'')"
  "case get_api_key ex_with_key ''k1'' of None \<Rightarrow> False
   | Some k \<Rightarrow> key_published 25 k \<and> key_usable Production 26 (catalog_key k) \<and> ky_tenant_id k = ''acme'' \<and> ky_id k = ''k1''"
  "map_option tn_status (get_tenant ex_with_key ''acme'') = Some TenantActive"
  "\<not> isl (fst (publish_catalog ex_kg 25 ''c3'' ex_with_key))"
  "\<not> isl (fst ex_revoked)" "current_catalog (snd ex_revoked) \<noteq> None"
  "ky_key_hash (projr (fst ex_revoked)) = ex_hash ''gk_1''"
  "no_collision ex_kg 25 (snd (publish_catalog ex_kg 25 ''c3'' ex_with_key))"
  using ex_with_key_values unfolding Let_def ex_revoked_def by (simp_all add: split_beta)

theorem gateway_accepts_keys_in_force_witness:
  "\<exists>c t p. publish_catalog ex_kg 25 ''c3'' ex_with_key = (Inr c, t) \<and>
     holder_lookup (snd (catalog_apply (Some (ct_document c)) 26 (new_catalog_holder Production))) (ex_hash ''gk_1'') =
       Some p \<and> pr_tenant_id p = ''acme''"
proof -
  obtain c t where ct: "publish_catalog ex_kg 25 ''c3'' ex_with_key = (Inr c, t)"
    using ex_catalog_facts(8) by (cases "publish_catalog ex_kg 25 ''c3'' ex_with_key"; cases "fst (publish_catalog ex_kg 25 ''c3'' ex_with_key)") auto
  obtain k where k: "get_api_key ex_with_key ''k1'' = Some k" "key_published 25 k"
    "key_usable Production 26 (catalog_key k)" "ky_tenant_id k = ''acme''" "ky_id k = ''k1''"
    "ky_key_hash k = ex_hash ''gk_1''"
    using ex_catalog_facts(5,6) by (auto split: option.splits)
  have f: "key_in_force ex_with_key 25 (ch_env (new_catalog_holder Production)) 26 k"
    using k ex_catalog_facts(7) by (auto simp: key_in_force_def new_catalog_holder_def)
  have n: "no_collision ex_kg 25 t"
  proof -
    have "snd (publish_catalog ex_kg 25 ''c3'' ex_with_key) = t" using ct by simp
    then show ?thesis using ex_catalog_facts(12) by simp
  qed
  from gateway_accepts_keys_in_force [OF n ex_catalog_facts(1,2) ct, of 26 "new_catalog_holder Production"
      "ex_hash ''gk_1''" "principal_of (ky_tenant_id k) (catalog_key k)"] f k(6)
  have "holder_lookup (snd (catalog_apply (Some (ct_document c)) 26 (new_catalog_holder Production))) (ex_hash ''gk_1'') =
      Some (principal_of (ky_tenant_id k) (catalog_key k))" by blast
  with ct k(4) show ?thesis by (intro exI conjI) (assumption, assumption, simp add: principal_of_def)
qed

theorem revoked_key_refused_witness:
  "fst (authenticate ex_hash (holder_lookup (snd (catalog_apply (Some (ct_document (the (current_catalog (snd ex_revoked))))) 31
        (new_catalog_holder Production)))) (Some ''gk_1'') ''guard:invoke'' 70
     (auth_all ex_hash (map (\<lambda>(r, sc, m). (holder_lookup (snd (catalog_apply
          (Some (ct_document (the (current_catalog (snd ex_revoked))))) 31 (new_catalog_holder Production))), r, sc, m)) [])
       (auth_all ex_hash [(holder_lookup (snd (catalog_apply (Some (ct_document ex_current)) 21
            (new_catalog_holder Production))), Some ''gk_1'', ''guard:invoke'', 35)] (new_authenticator 30 5)))) = None"
proof -
  have r: "revoke_api_key ex_kg ex_platform ''acme'' ''k1'' 30 ''c3'' ex_with_key = (Inr (projr (fst ex_revoked)), snd ex_revoked)"
    using ex_catalog_facts(9) by (simp add: ex_revoked_def prod_eq_iff)
  have c: "current_catalog (snd ex_revoked) = Some (the (current_catalog (snd ex_revoked)))"
    using ex_catalog_facts(10) by simp
  show ?thesis
    by (rule revoked_key_refused [OF ex_catalog_facts(4,1,2) r c refl, where T = 40])
      (simp_all add: ex_catalog_facts(11))
qed

end
