(* ===== verification/Cp_Reviews.thy ===== *)
theory Cp_Reviews
  imports Cp_Store
begin

text \<open>
  The review queue (\<^verbatim>\<open>services/reviews.py\<close>): a held request is filed with its encrypted payload, a
  reviewer decides it once, and the gateway learns the state; the payload leaves only after an
  approval. \<open>decide\<close> is in two parts, its check and its conditional write, since other handlers run
  between. The cipher (\<^verbatim>\<open>domain/crypto.py\<close>) is a parameter.
\<close>

section \<open>Handlers\<close>

definition PREVIEW_CHARS :: nat where
  "PREVIEW_CHARS = 500"

record review_settings =
  rs_encrypt :: "jobj \<Rightarrow> string"
  rs_decrypt :: "string \<Rightarrow> jobj option"
  rs_ttl_minutes :: int

record new_review =
  nr_tenant_id :: string
  nr_environment :: environment
  nr_request_id :: string
  nr_stage :: string
  nr_agent_id :: string
  nr_guardrail_id :: string
  nr_reason :: string
  nr_risk_score :: int
  nr_payload :: jobj
  nr_preview :: string
  nr_ttl_minutes :: "int option"

definition review_of :: "review_settings \<Rightarrow> new_review \<Rightarrow> string \<Rightarrow> instant \<Rightarrow> review" where
  "review_of cfg n fresh now =
     (let ttl = (case nr_ttl_minutes n of None \<Rightarrow> rs_ttl_minutes cfg
                 | Some t \<Rightarrow> if t = 0 then rs_ttl_minutes cfg else t)
      in \<lparr>rv_id = fresh, rv_tenant_id = nr_tenant_id n, rv_environment = nr_environment n,
          rv_request_id = nr_request_id n, rv_stage = nr_stage n, rv_agent_id = nr_agent_id n,
          rv_guardrail_id = nr_guardrail_id n, rv_reason = take 1000 (nr_reason n),
          rv_risk_score = nr_risk_score n, rv_preview = take PREVIEW_CHARS (nr_preview n),
          rv_payload_enc = rs_encrypt cfg (nr_payload n), rv_status = RvPending, rv_reviewer = None,
          rv_decision_note = [], rv_raw_viewed_by = [], rv_created_at = now, rv_decided_at = None,
          rv_expires_at = now + ttl * 60 * 1000000\<rparr>)"

definition create_review ::
  "review_settings \<Rightarrow> new_review \<Rightarrow> string \<Rightarrow> instant \<Rightarrow> control_store \<Rightarrow> review \<times> control_store" where
  "create_review cfg n fresh now s =
     (let r = review_of cfg n fresh now
      in (r, log_change ''review'' fresh ''create''
               (''gateway ('' @ environment_value (nr_environment n) @ '')'') (put_review r s)))"

definition require_review :: "string \<Rightarrow> control_store \<Rightarrow> cp_error + review" where
  "require_review i s =
     (case get_review s i of None \<Rightarrow> Inl (NotFound (''review '' @ i @ '' not found'')) | Some r \<Rightarrow> Inr r)"

fun review_status_value :: "review_status \<Rightarrow> string" where
  "review_status_value RvPending = ''pending''"
| "review_status_value RvApproved = ''approved''"
| "review_status_value RvRejected = ''rejected''"
| "review_status_value RvExpired = ''expired''"

definition reviews_for ::
  "admin \<Rightarrow> string option \<Rightarrow> review_status option \<Rightarrow> instant \<Rightarrow> control_store \<Rightarrow>
   cp_error + (review \<times> review_status) list" where
  "reviews_for p tenant st now s =
     (let tenant' = (if tenant = None \<and> \<not> is_platform p then adm_tenant p else tenant);
          asked = (if tenant' \<noteq> None then tenant' else adm_tenant p) in
      if \<not> can p PermRead asked then Inl (Forbidden PermRead asked)
      else (let stored = (if st = Some RvExpired then Some RvPending else st);
                out = map (\<lambda>r. (r, effective_status r now)) (list_reviews s tenant' stored 100)
            in Inr (filter (\<lambda>(r, e). st = None \<or> st = Some e) out)))"

text \<open>Every view is logged; the raw payload needs a permission of its own.\<close>

definition view_review ::
  "review_settings \<Rightarrow> admin \<Rightarrow> string \<Rightarrow> bool \<Rightarrow> control_store \<Rightarrow>
   (cp_error + review \<times> jobj option) \<times> control_store" where
  "view_review cfg p i raw s =
     (case require_review i s of
        Inl e \<Rightarrow> (Inl e, s)
      | Inr r \<Rightarrow>
          let t = Some (rv_tenant_id r) in
          if \<not> can p PermRead t then (Inl (Forbidden PermRead t), s)
          else if raw \<and> \<not> can p ReviewsRaw t then (Inl (Forbidden ReviewsRaw t), s)
          else (let s1 = log_change ''review'' i ''view'' (actor p) s in
                if raw
                then (Inr (r\<lparr>rv_raw_viewed_by := rv_raw_viewed_by r @ [actor p]\<rparr>, rs_decrypt cfg (rv_payload_enc r)),
                      log_change ''review'' i ''view_raw'' (actor p) (add_review_raw_viewer i (actor p) s1))
                else (Inr (r, None), s1)))"

text \<open>\<open>decide\<close> up to its write, and the write with what follows.\<close>

definition decide_check ::
  "admin \<Rightarrow> string \<Rightarrow> bool \<Rightarrow> string \<Rightarrow> instant \<Rightarrow> control_store \<Rightarrow> cp_error + review" where
  "decide_check p i approved note now s =
     (case require_review i s of
        Inl e \<Rightarrow> Inl e
      | Inr r \<Rightarrow>
          if \<not> can p ReviewsDecide (Some (rv_tenant_id r))
          then Inl (Forbidden ReviewsDecide (Some (rv_tenant_id r)))
          else if effective_status r now \<noteq> RvPending
          then Inl (StateConflict (''review is '' @ review_status_value (effective_status r now)))
          else Inr (r\<lparr>rv_status := (if approved then RvApproved else RvRejected), rv_reviewer := Some (actor p),
                      rv_decided_at := Some now, rv_decision_note := take 1000 note\<rparr>))"

definition decide_write ::
  "admin \<Rightarrow> review \<Rightarrow> instant \<Rightarrow> control_store \<Rightarrow> (cp_error + review) \<times> control_store" where
  "decide_write p r now s =
     (case decide_review (rv_id r) (rv_status r) (actor p) (the (rv_decided_at r)) (rv_decision_note r) s of
        (True, t) \<Rightarrow>
          (Inr r, log_change ''review'' (rv_id r)
             (if rv_status r = RvApproved then ''approve'' else ''reject'') (actor p) t)
      | (False, t) \<Rightarrow>
          (case require_review (rv_id r) t of
             Inl e \<Rightarrow> (Inl e, t)
           | Inr c \<Rightarrow> (Inl (StateConflict (''review is already '' @
               review_status_value (effective_status c now) @ '' (by '' @
               (case rv_reviewer c of None \<Rightarrow> ''None'' | Some w \<Rightarrow> w) @ '')'')), t)))"

definition decide_on ::
  "admin \<Rightarrow> string \<Rightarrow> bool \<Rightarrow> string \<Rightarrow> instant \<Rightarrow> control_store \<Rightarrow> (cp_error + review) \<times> control_store" where
  "decide_on p i approved note now s =
     (case decide_check p i approved note now s of
        Inl e \<Rightarrow> (Inl e, s) | Inr r \<Rightarrow> decide_write p r now s)"

record escalation_status =
  es_id :: string
  es_status :: review_status
  es_decision :: decision
  es_reason :: string
  es_reviewer :: "string option"
  es_payload :: "jobj option"

definition status_decision :: "review_status \<Rightarrow> decision" where
  "status_decision st = (case st of RvPending \<Rightarrow> Escalate | RvApproved \<Rightarrow> Allow | _ \<Rightarrow> Block)"

definition status_reason :: "review \<Rightarrow> review_status \<Rightarrow> string" where
  "status_reason r st =
     (let who = (case rv_reviewer r of None \<Rightarrow> ''None'' | Some w \<Rightarrow> w) in
      (case st of RvPending \<Rightarrow> ''waiting for human review''
       | RvApproved \<Rightarrow> ''approved by '' @ who
       | RvRejected \<Rightarrow> ''rejected by '' @ who
       | RvExpired \<Rightarrow> ''review expired without a decision (fail-closed)'') @
      (if rv_decision_note r \<noteq> [] \<and> (st = RvApproved \<or> st = RvRejected) then '': '' @ rv_decision_note r else []))"

definition status_for_gateway ::
  "review_settings \<Rightarrow> string \<Rightarrow> string \<Rightarrow> instant \<Rightarrow> control_store \<Rightarrow> cp_error + escalation_status" where
  "status_for_gateway cfg i tenant now s =
     (case require_review i s of
        Inl e \<Rightarrow> Inl e
      | Inr r \<Rightarrow>
          if rv_tenant_id r \<noteq> tenant then Inl (NotFound (''review '' @ i @ '' not found''))
          else (let st = effective_status r now
                in Inr \<lparr>es_id = rv_id r, es_status = st, es_decision = status_decision st,
                        es_reason = status_reason r st, es_reviewer = rv_reviewer r,
                        es_payload = (if st = RvApproved then rs_decrypt cfg (rv_payload_enc r) else None)\<rparr>))"

section \<open>The queue as an interface\<close>

text \<open>
  What the service relies on: a filed review is found, a decision is written at most once and
  before the expiry, and nothing else changes a decided review.
\<close>

locale review_queue =
  fixes look :: "'s \<Rightarrow> string \<Rightarrow> review option"
    and filing :: "review \<Rightarrow> 's \<Rightarrow> 's"
    and settle :: "string \<Rightarrow> review_status \<Rightarrow> string \<Rightarrow> instant \<Rightarrow> string \<Rightarrow> 's \<Rightarrow> bool \<times> 's"
  assumes look_file: "look (filing r s) i = (if i = rv_id r then Some r else look s i)"
    and look_settle: "look (snd (settle i st who t note s)) j =
        (case look s i of
           Some r \<Rightarrow> if j = i \<and> rv_status r = RvPending \<and> t < rv_expires_at r
                    then Some (r\<lparr>rv_status := st, rv_reviewer := Some who, rv_decided_at := Some t,
                               rv_decision_note := note\<rparr>)
                    else look s j
         | None \<Rightarrow> look s j)"
    and settle_won: "fst (settle i st who t note s) \<longleftrightarrow>
        (case look s i of Some r \<Rightarrow> rv_status r = RvPending \<and> t < rv_expires_at r | None \<Rightarrow> False)"
begin

lemma settled_stays:
  assumes "look s i = Some r" "rv_status r \<noteq> RvPending"
  shows "look (snd (settle j st who t note s)) i = Some r \<and> \<not> fst (settle i st who t note s)"
  using assms by (auto simp: look_settle settle_won split: option.splits)

lemma settle_lost_same:
  assumes "\<not> fst (settle i st who t note s)"
  shows "look (snd (settle i st who t note s)) j = look s j"
  using assms by (auto simp: look_settle settle_won split: option.splits)

lemma settle_once:
  assumes "fst (settle i st who t note s)" "st \<noteq> RvPending"
  shows "\<not> fst (settle i st' who' t' note' (snd (settle i st who t note s)))"
  using assms by (auto simp: look_settle settle_won split: option.splits)

end

interpretation queue: review_queue get_review put_review decide_review
  by unfold_locales
    (auto simp: get_review_def put_review_def decide_review_def split: option.splits)

section \<open>Runs\<close>

text \<open>
  Handlers run one at a time, a decision in two moves. \<open>rw_log\<close> is history: what was filed, and each
  decision that was written, with its maker. \<open>RElse\<close> is whatever else the control plane does. A fresh
  id is new.
\<close>

record review_world =
  rw_store :: control_store
  rw_deciding :: "(admin \<times> review) list"
  rw_filed :: "(string \<times> new_review \<times> instant) list"
  rw_log :: "(string \<times> admin \<times> review_status \<times> instant) list"

datatype review_move =
    RCreate new_review string instant
  | RCheck admin string bool string instant
  | RWrite nat instant
  | RView admin string bool
  | RElse control_store

fun review_step :: "review_settings \<Rightarrow> review_move \<Rightarrow> review_world \<Rightarrow> review_world" where
  "review_step cfg (RCreate n fresh now) w =
     (if get_review (rw_store w) fresh \<noteq> None then w
      else w\<lparr>rw_store := snd (create_review cfg n fresh now (rw_store w)),
             rw_filed := rw_filed w @ [(fresh, n, now)]\<rparr>)"
| "review_step cfg (RCheck p i ok nt now) w =
     (case decide_check p i ok nt now (rw_store w) of
        Inl e \<Rightarrow> w
      | Inr r \<Rightarrow> w\<lparr>rw_deciding := rw_deciding w @ [(p, r)]\<rparr>)"
| "review_step cfg (RWrite k now) w =
     (if length (rw_deciding w) \<le> k then w
      else (let (p, r) = rw_deciding w ! k in
            case decide_write p r now (rw_store w) of
              (Inl e, s) \<Rightarrow> w\<lparr>rw_store := s\<rparr>
            | (Inr r', s) \<Rightarrow> w\<lparr>rw_store := s,
                rw_log := rw_log w @ [(rv_id r, p, rv_status r, the (rv_decided_at r))]\<rparr>))"
| "review_step cfg (RView p i raw) w = w\<lparr>rw_store := snd (view_review cfg p i raw (rw_store w))\<rparr>"
| "review_step cfg (RElse t) w = (if db_reviews t = db_reviews (rw_store w) then w\<lparr>rw_store := t\<rparr> else w)"

definition review_run :: "review_settings \<Rightarrow> review_move list \<Rightarrow> review_world \<Rightarrow> review_world" where
  "review_run cfg ms w = foldl (\<lambda>w m. review_step cfg m w) w ms"

definition review_init :: review_world where
  "review_init = \<lparr>rw_store = empty_store, rw_deciding = [], rw_filed = [], rw_log = []\<rparr>"

end
