(* ===== verification/Cp_Reviews_Props.thy ===== *)
theory Cp_Reviews_Props
  imports Cp_Reviews
begin

text \<open>
  Runs of the review queue: the invariant that ties each stored review to the request that was filed
  and to the one decision in the history, and what the gateway may learn from it.
\<close>

section \<open>The invariant\<close>

definition decisions_on :: "string \<Rightarrow> review_world \<Rightarrow> (string \<times> admin \<times> review_status \<times> instant) list" where
  "decisions_on i w = filter (\<lambda>l. fst l = i) (rw_log w)"

definition filings_of :: "string \<Rightarrow> review_world \<Rightarrow> (string \<times> new_review \<times> instant) list" where
  "filings_of i w = filter (\<lambda>f. fst f = i) (rw_filed w)"

definition filed_as :: "review_settings \<Rightarrow> review_world \<Rightarrow> review \<Rightarrow> bool" where
  "filed_as cfg w r \<longleftrightarrow>
     (\<exists>n t. filings_of (rv_id r) w = [(rv_id r, n, t)] \<and> rv_tenant_id r = nr_tenant_id n \<and>
            rv_payload_enc r = rs_encrypt cfg (nr_payload n) \<and>
            rv_expires_at r = rv_expires_at (review_of cfg n (rv_id r) t))"

definition decided_as :: "review_world \<Rightarrow> review \<Rightarrow> bool" where
  "decided_as w r \<longleftrightarrow>
     (if rv_status r = RvPending then decisions_on (rv_id r) w = []
      else \<exists>p t. decisions_on (rv_id r) w = [(rv_id r, p, rv_status r, t)] \<and>
                 can p ReviewsDecide (Some (rv_tenant_id r)) \<and> t < rv_expires_at r \<and>
                 rv_status r \<noteq> RvExpired)"

definition traced_review :: "review_settings \<Rightarrow> review_world \<Rightarrow> string \<Rightarrow> bool" where
  "traced_review cfg w i \<longleftrightarrow>
     (case get_review (rw_store w) i of
        None \<Rightarrow> decisions_on i w = [] \<and> filings_of i w = []
      | Some r \<Rightarrow> rv_id r = i \<and> filed_as cfg w r \<and> decided_as w r)"

definition under_way :: "review_world \<Rightarrow> admin \<times> review \<Rightarrow> bool" where
  "under_way w x \<longleftrightarrow>
     (let r = snd x in rv_status r \<in> {RvApproved, RvRejected} \<and>
        can (fst x) ReviewsDecide (Some (rv_tenant_id r)) \<and>
        (case get_review (rw_store w) (rv_id r) of Some c \<Rightarrow> rv_tenant_id c = rv_tenant_id r | None \<Rightarrow> False))"

definition review_inv :: "review_settings \<Rightarrow> review_world \<Rightarrow> bool" where
  "review_inv cfg w \<longleftrightarrow> (\<forall>i. traced_review cfg w i) \<and> list_all (under_way w) (rw_deciding w)"

lemma review_invI:
  "(\<And>i. traced_review cfg w i) \<Longrightarrow> list_all (under_way w) (rw_deciding w) \<Longrightarrow> review_inv cfg w"
  by (simp add: review_inv_def)

lemma get_review_log [simp]: "get_review (log_change e i a who s) j = get_review s j"
  by (simp add: get_review_def log_change_def)

lemma get_review_put [simp]:
  "get_review (put_review r s) i = (if i = rv_id r then Some r else get_review s i)"
  by (rule queue.look_file)

text \<open>A step that leaves tenant, payload, expiry and decision of every review as they were.\<close>

definition same_core :: "review \<Rightarrow> review \<Rightarrow> bool" where
  "same_core r c \<longleftrightarrow> rv_id c = rv_id r \<and> rv_tenant_id c = rv_tenant_id r \<and>
     rv_payload_enc c = rv_payload_enc r \<and> rv_expires_at c = rv_expires_at r \<and> rv_status c = rv_status r"

lemma filed_as_same: "filed_as cfg w r \<Longrightarrow> same_core r c \<Longrightarrow> filed_as cfg (w\<lparr>rw_store := s\<rparr>) c"
  by (simp add: filed_as_def filings_of_def same_core_def)

lemma decided_as_same: "decided_as w r \<Longrightarrow> same_core r c \<Longrightarrow> decided_as (w\<lparr>rw_store := s\<rparr>) c"
  by (simp add: decided_as_def same_core_def decisions_on_def cong: if_cong)

lemma review_inv_same:
  assumes inv: "review_inv cfg w"
    and same: "\<And>i. rel_option same_core (get_review (rw_store w) i) (get_review s i)"
  shows "review_inv cfg (w\<lparr>rw_store := s\<rparr>)"
proof (rule review_invI)
  fix i
  show "traced_review cfg (w\<lparr>rw_store := s\<rparr>) i"
  proof (cases "get_review (rw_store w) i")
    case None
    then show ?thesis
      using inv same [of i] by (auto simp: review_inv_def traced_review_def decisions_on_def filings_of_def dest!: spec [of _ i])
  next
    case (Some r)
    then obtain c where c: "get_review s i = Some c" "same_core r c"
      using same [of i] by (auto simp: option_rel_Some1)
    have "rv_id r = i" "filed_as cfg w r" "decided_as w r"
      using inv Some by (auto simp: review_inv_def traced_review_def dest!: spec [of _ i])
    then show ?thesis
      using c filed_as_same [OF _ c(2)] decided_as_same [OF _ c(2)]
      by (simp add: traced_review_def same_core_def)
  qed
next
  have "under_way w x \<Longrightarrow> under_way (w\<lparr>rw_store := s\<rparr>) x" for x
    using same [of "rv_id (snd x)"]
    by (auto simp: under_way_def Let_def same_core_def option_rel_Some1 split: option.splits)
  then show "list_all (under_way (w\<lparr>rw_store := s\<rparr>)) (rw_deciding (w\<lparr>rw_store := s\<rparr>))"
    using inv by (auto simp: review_inv_def list_all_iff)
qed

lemma same_core_refl [simp]: "rel_option same_core x x"
  by (cases x) (auto simp: same_core_def)

lemma view_same_core:
  "rel_option same_core (get_review s i) (get_review (snd (view_review cfg p j raw s)) i)"
  by (auto simp: view_review_def require_review_def add_review_raw_viewer_def get_review_def same_core_def
      log_change_def Let_def split: option.splits)

section \<open>Every move keeps it\<close>

lemma create_keeps:
  assumes inv: "review_inv cfg w"
  shows "review_inv cfg (review_step cfg (RCreate n fresh now) w)"
proof (cases "get_review (rw_store w) fresh")
  case (Some r)
  then show ?thesis using inv by simp
next
  case None
  define v where "v = review_step cfg (RCreate n fresh now) w"
  have store: "get_review (rw_store v) i =
      (if i = fresh then Some (review_of cfg n fresh now) else get_review (rw_store w) i)" for i
    using None by (simp add: v_def create_review_def Let_def review_of_def)
  have log: "rw_log v = rw_log w" "rw_deciding v = rw_deciding w"
    "rw_filed v = rw_filed w @ [(fresh, n, now)]"
    using None by (simp_all add: v_def)
  show ?thesis unfolding v_def [symmetric]
  proof (rule review_invI)
    fix i
    have tr: "traced_review cfg w i" using inv by (simp add: review_inv_def)
    show "traced_review cfg v i"
    proof (cases "i = fresh")
      case True
      then show ?thesis using tr None
        by (auto simp: traced_review_def store log decided_as_def decisions_on_def filed_as_def filings_of_def review_of_def Let_def)
    next
      case False
      then show ?thesis using tr
        by (auto simp: traced_review_def store log decided_as_def decisions_on_def filed_as_def filings_of_def
            split: option.splits)
    qed
  next
    have "list_all (under_way w) (rw_deciding w)" using inv by (simp add: review_inv_def)
    then show "list_all (under_way v) (rw_deciding v)"
      unfolding log using None
      by (auto simp: list_all_iff under_way_def store Let_def split: option.splits if_splits)
  qed
qed

lemma check_keeps:
  assumes inv: "review_inv cfg w"
  shows "review_inv cfg (review_step cfg (RCheck p i ok nt now) w)"
proof (cases "decide_check p i ok nt now (rw_store w)")
  case (Inl e)
  then show ?thesis using inv by simp
next
  case (Inr r)
  then obtain c where c: "get_review (rw_store w) i = Some c"
    and r: "r = c\<lparr>rv_status := (if ok then RvApproved else RvRejected), rv_reviewer := Some (actor p),
                rv_decided_at := Some now, rv_decision_note := take 1000 nt\<rparr>"
    and may: "can p ReviewsDecide (Some (rv_tenant_id c))"
    by (auto simp: decide_check_def require_review_def split: option.splits if_splits)
  have "rv_id c = i" using inv c by (auto simp: review_inv_def traced_review_def dest: spec [of _ i])
  then have "under_way w (p, r)" using c r may by (simp add: under_way_def)
  moreover have "traced_review cfg (w\<lparr>rw_deciding := d\<rparr>) j = traced_review cfg w j" for d j
    by (auto simp: traced_review_def decided_as_def decisions_on_def filed_as_def filings_of_def split: option.splits)
  moreover have "under_way (w\<lparr>rw_deciding := d\<rparr>) = under_way w" for d
    by (rule ext) (simp add: under_way_def)
  ultimately show ?thesis using inv Inr by (simp add: review_inv_def)
qed

lemma write_keeps:
  assumes inv: "review_inv cfg w"
  shows "review_inv cfg (review_step cfg (RWrite k now) w)"
proof (cases "k < length (rw_deciding w)")
  case False
  then show ?thesis using inv by simp
next
  case k: True
  obtain p r where pr: "rw_deciding w ! k = (p, r)" by (cases "rw_deciding w ! k")
  let ?s = "rw_store w"
  let ?d = "decide_review (rv_id r) (rv_status r) (actor p) (the (rv_decided_at r)) (rv_decision_note r) ?s"
  have way: "under_way w (p, r)"
    using inv k pr by (metis review_inv_def list_all_length)
  then obtain c where c: "get_review ?s (rv_id r) = Some c" and ten: "rv_tenant_id c = rv_tenant_id r"
    and st: "rv_status r \<in> {RvApproved, RvRejected}" and may: "can p ReviewsDecide (Some (rv_tenant_id r))"
    by (auto simp: under_way_def Let_def split: option.splits)
  have cid: "rv_id c = rv_id r"
    using inv c by (auto simp: review_inv_def traced_review_def dest: spec [of _ "rv_id r"])
  show ?thesis
  proof (cases "fst ?d")
    case False
    then obtain t where d: "?d = (False, t)" by (cases ?d) auto
    have "rel_option same_core (get_review ?s i) (get_review t i)" for i
      using queue.settle_lost_same [OF False, of i] by (simp add: d)
    then have "review_inv cfg (w\<lparr>rw_store := t\<rparr>)" by (rule review_inv_same [OF inv])
    moreover obtain e where "decide_write p r now ?s = (Inl e, t)"
      by (cases "require_review (rv_id r) t") (simp_all add: decide_write_def d)
    ultimately show ?thesis using k pr by simp
  next
    case True
    then obtain t where d: "?d = (True, t)" by (cases ?d) auto
    let ?c = "c\<lparr>rv_status := rv_status r, rv_reviewer := Some (actor p), rv_decided_at := Some (the (rv_decided_at r)),
        rv_decision_note := rv_decision_note r\<rparr>"
    have won: "rv_status c = RvPending" "the (rv_decided_at r) < rv_expires_at c"
      using True by (auto simp: queue.settle_won c)
    define v where "v = review_step cfg (RWrite k now) w"
    have w': "v = w\<lparr>rw_store := log_change ''review'' (rv_id r)
          (if rv_status r = RvApproved then ''approve'' else ''reject'') (actor p) t,
        rw_log := rw_log w @ [(rv_id r, p, rv_status r, the (rv_decided_at r))]\<rparr>"
      using k pr by (simp add: v_def decide_write_def d)
    have store: "get_review (rw_store v) i = (if i = rv_id r then Some ?c else get_review ?s i)" for i
      using won queue.look_settle [of "rv_id r" "rv_status r" "actor p" "the (rv_decided_at r)" "rv_decision_note r" ?s i]
      by (simp add: w' c d)
    have logs: "decisions_on i v = decisions_on i w @
        (if i = rv_id r then [(rv_id r, p, rv_status r, the (rv_decided_at r))] else [])" for i
      by (simp add: w' decisions_on_def)
    have rest: "rw_filed v = rw_filed w" "rw_deciding v = rw_deciding w" by (simp_all add: w')
    show ?thesis unfolding v_def [symmetric]
    proof (rule review_invI)
      fix i
      have tr: "traced_review cfg w i" using inv by (simp add: review_inv_def)
      show "traced_review cfg v i"
      proof (cases "i = rv_id r")
        case True
        have "filed_as cfg w c" "decisions_on (rv_id r) w = []"
          using tr True won c by (auto simp: traced_review_def decided_as_def)
        then have "filed_as cfg v ?c" "decided_as v ?c"
          using won st may ten cid by (auto simp: filed_as_def filings_of_def rest decided_as_def logs)
        then show ?thesis using True cid by (simp add: traced_review_def store)
      next
        case False
        then show ?thesis using tr
          by (auto simp: traced_review_def store logs decided_as_def filed_as_def filings_of_def rest split: option.splits if_splits)
      qed
    next
      have "list_all (under_way w) (rw_deciding w)" using inv by (simp add: review_inv_def)
      then show "list_all (under_way v) (rw_deciding v)"
        unfolding rest using c
        by (auto simp: list_all_iff under_way_def store Let_def split: option.splits if_splits)
    qed
  qed
qed

lemma review_step_keeps: "review_inv cfg w \<Longrightarrow> review_inv cfg (review_step cfg m w)"
proof (cases m)
  case (RView p i raw)
  assume "review_inv cfg w"
  then show ?thesis unfolding RView review_step.simps by (rule review_inv_same) (rule view_same_core)
next
  case (RElse t)
  assume inv: "review_inv cfg w"
  have "db_reviews t = db_reviews (rw_store w) \<Longrightarrow> review_inv cfg (w\<lparr>rw_store := t\<rparr>)"
    by (rule review_inv_same [OF inv]) (simp add: get_review_def)
  then show ?thesis using inv by (simp add: RElse)
qed (simp_all only: create_keeps check_keeps write_keeps)

lemma review_run_keeps: "review_inv cfg w \<Longrightarrow> review_inv cfg (review_run cfg ms w)"
  unfolding review_run_def by (induction ms arbitrary: w) (simp_all add: review_step_keeps)

lemma review_init_inv: "review_inv cfg review_init"
  by (simp add: review_inv_def review_init_def traced_review_def decisions_on_def filings_of_def get_review_def empty_store_def)


section \<open>What the gateway learns\<close>

text \<open>C33. Whatever the handlers do and however decisions race, the gateway answers a held request with
  allow, or with its payload, only when the request was filed for that tenant and exactly one decision
  on it was written: an approval, by an admin key that may decide for the tenant, before the review
  expired. The payload is then the one that was filed, as the cipher gives it back.\<close>

theorem held_payload_needs_approval:
  assumes "w = review_run cfg ms review_init"
    and answer: "status_for_gateway cfg i tenant now (rw_store w) = Inr e"
    and allowed: "es_decision e = Allow \<or> es_payload e \<noteq> None"
  shows "\<exists>n filed p t. filings_of i w = [(i, n, filed)] \<and> nr_tenant_id n = tenant \<and>
           decisions_on i w = [(i, p, RvApproved, t)] \<and> can p ReviewsDecide (Some tenant) \<and>
           t < rv_expires_at (review_of cfg n i filed) \<and>
           es_payload e = rs_decrypt cfg (rs_encrypt cfg (nr_payload n))"
proof -
  have inv: "review_inv cfg w" using assms(1) review_run_keeps [OF review_init_inv] by simp
  obtain r where r: "get_review (rw_store w) i = Some r" and ten: "rv_tenant_id r = tenant"
    and e: "es_decision e = status_decision (effective_status r now)"
      "es_payload e = (if effective_status r now = RvApproved then rs_decrypt cfg (rv_payload_enc r) else None)"
    using answer by (auto simp: status_for_gateway_def require_review_def Let_def split: option.splits if_splits)
  have "effective_status r now = RvApproved"
    using allowed e by (auto simp: status_decision_def split: review_status.splits if_splits)
  then have st: "rv_status r = RvApproved" by (simp add: effective_status_def split: if_splits)
  then show ?thesis
    using inv r ten e
    by (auto simp: review_inv_def traced_review_def filed_as_def decided_as_def effective_status_def
        dest!: spec [of _ i])
qed

definition ex_review_settings :: review_settings where
  "ex_review_settings = \<lparr>rs_encrypt = (\<lambda>p. if p = [] then ''0'' else ''1''),
     rs_decrypt = (\<lambda>c. if c = ''0'' then Some [] else None), rs_ttl_minutes = 60\<rparr>"

definition ex_new_review :: new_review where
  "ex_new_review = \<lparr>nr_tenant_id = ''acme'', nr_environment = Production, nr_request_id = ''q'', nr_stage = ''input'',
     nr_agent_id = ''bot'', nr_guardrail_id = ''pii'', nr_reason = ''r'', nr_risk_score = 50, nr_payload = [],
     nr_preview = ''p'', nr_ttl_minutes = None\<rparr>"

definition ex_reviewer :: "string \<Rightarrow> admin" where
  "ex_reviewer k = \<lparr>adm_key_id = k, adm_name = k, adm_roles = [''reviewer''], adm_tenant = Some ''acme''\<rparr>"

text \<open>Two reviewers pass the check; the approval is written first and the rejection loses.\<close>

definition ex_review_moves :: "review_move list" where
  "ex_review_moves = [RCreate ex_new_review ''v'' 0, RCheck (ex_reviewer ''ann'') ''v'' True [] 10,
     RCheck (ex_reviewer ''bob'') ''v'' False [] 20, RWrite 0 30, RWrite 1 40]"

theorem held_payload_needs_approval_witness:
  "\<exists>n filed p t. filings_of ''v'' (review_run ex_review_settings ex_review_moves review_init) = [(''v'', n, filed)] \<and>
     nr_tenant_id n = ''acme'' \<and>
     decisions_on ''v'' (review_run ex_review_settings ex_review_moves review_init) = [(''v'', p, RvApproved, t)] \<and>
     can p ReviewsDecide (Some ''acme'') \<and> t < rv_expires_at (review_of ex_review_settings n ''v'' filed) \<and>
     Some [] = rs_decrypt ex_review_settings (rs_encrypt ex_review_settings (nr_payload n))"
proof -
  let ?w = "review_run ex_review_settings ex_review_moves review_init"
  have answer: "status_for_gateway ex_review_settings ''v'' ''acme'' 50 (rw_store ?w) =
      Inr \<lparr>es_id = ''v'', es_status = RvApproved, es_decision = Allow, es_reason = ''approved by ann (ann)'',
           es_reviewer = Some ''ann (ann)'', es_payload = Some []\<rparr>"
    by code_simp
  show ?thesis
    using held_payload_needs_approval [OF refl answer] by simp
qed

end
