(* ===== verification/Rate_Limit.thy ===== *)
theory Rate_Limit
  imports Prelude "HOL-Library.AList"
begin

text \<open>
  The rate limiter (\<^verbatim>\<open>app/gateway/ratelimit.py\<close>): a token bucket per API key, with bounded memory.
  Seconds and tokens are real numbers; the monotonic clock is an argument. The lock makes a check one
  step.
\<close>

section \<open>The limiter\<close>

record rate_limiter =
  rl_default :: int
  rl_buckets :: "(string \<times> real \<times> real) list"  \<comment> \<open>tokens and last refill\<close>
  rl_max_keys :: nat

definition new_rate_limiter :: "int \<Rightarrow> nat \<Rightarrow> rate_limiter" where
  "new_rate_limiter default_per_minute max_keys =
     \<lparr>rl_default = max 0 default_per_minute, rl_buckets = [], rl_max_keys = max_keys\<rparr>"

definition limit_for :: "int option \<Rightarrow> rate_limiter \<Rightarrow> int" where
  "limit_for override rl = (case override of None \<Rightarrow> rl_default rl | Some v \<Rightarrow> max 0 v)"

definition evict :: "real \<Rightarrow> rate_limiter \<Rightarrow> rate_limiter" where
  "evict now rl =
     (let b = filter (\<lambda>kv. now - snd (snd kv) < 60) (rl_buckets rl) in
      if rl_max_keys rl < length b
      then rl\<lparr>rl_buckets := take (rl_max_keys rl div 2) (sort_key (\<lambda>kv. - snd (snd kv)) b)\<rparr>
      else rl\<lparr>rl_buckets := b\<rparr>)"

definition refilled :: "int \<Rightarrow> string \<Rightarrow> real \<Rightarrow> rate_limiter \<Rightarrow> real" where
  "refilled per_minute key_id now rl =
     (let (tokens, last_refill) =
            (case map_of (rl_buckets rl) key_id of Some b \<Rightarrow> b | None \<Rightarrow> (real_of_int per_minute, now))
      in min (real_of_int per_minute) (tokens + (now - last_refill) * (real_of_int per_minute / 60)))"

definition rate_check ::
  "string \<Rightarrow> int option \<Rightarrow> real \<Rightarrow> rate_limiter \<Rightarrow> real option \<times> rate_limiter" where
  "rate_check key_id override now rl =
     (let per_minute = limit_for override rl in
      if per_minute \<le> 0 then (None, rl)
      else
        (let rate = real_of_int per_minute / 60;
             tokens = refilled per_minute key_id now rl;
             allowed = (1 \<le> tokens);
             rl1 = rl\<lparr>rl_buckets := AList.update key_id (if allowed then tokens - 1 else tokens, now) (rl_buckets rl)\<rparr>;
             rl2 = (if rl_max_keys rl < length (rl_buckets rl1) then evict now rl1 else rl1)
         in (if allowed then None else Some (max (1 / 1000) ((1 - tokens) / rate)), rl2)))"

section \<open>Runs\<close>

text \<open>A sequence of checks; the log keeps for each check the key, the time and the answer.\<close>

type_synonym rate_call = "string \<times> int option \<times> real"

fun rate_run :: "rate_call list \<Rightarrow> rate_limiter \<Rightarrow> (string \<times> real \<times> real option) list \<times> rate_limiter" where
  "rate_run [] rl = ([], rl)"
| "rate_run ((k, ov, t) # cs) rl =
     (case rate_check k ov t rl of
        (a, rl1) \<Rightarrow> (case rate_run cs rl1 of (l, rl2) \<Rightarrow> ((k, t, a) # l, rl2)))"

text \<open>How many requests of a key were allowed.\<close>

definition allowed_of :: "string \<Rightarrow> (string \<times> real \<times> real option) list \<Rightarrow> nat" where
  "allowed_of k l = length (filter (\<lambda>(k', t, a). k' = k \<and> a = None) l)"

text \<open>Times do not decrease, and the key always comes with the same limit.\<close>

fun in_order :: "real \<Rightarrow> rate_call list \<Rightarrow> bool" where
  "in_order t0 [] \<longleftrightarrow> True"
| "in_order t0 ((k, ov, t) # cs) \<longleftrightarrow> t0 \<le> t \<and> in_order t cs"

definition one_limit :: "string \<Rightarrow> int \<Rightarrow> rate_limiter \<Rightarrow> rate_call list \<Rightarrow> bool" where
  "one_limit k n rl cs \<longleftrightarrow> list_all (\<lambda>(k', ov, t). k' = k \<longrightarrow> limit_for ov rl = n) cs"

text \<open>No check finds more than \<open>max_keys\<close> keys that were used within the last minute.\<close>

fun uncrowded :: "rate_call list \<Rightarrow> rate_limiter \<Rightarrow> bool" where
  "uncrowded [] rl \<longleftrightarrow> True"
| "uncrowded ((k, ov, t) # cs) rl \<longleftrightarrow>
     length (filter (\<lambda>kv. fst kv \<noteq> k \<and> t - snd (snd kv) < 60) (rl_buckets rl)) < rl_max_keys rl \<and>
     uncrowded cs (snd (rate_check k ov t rl))"

section \<open>Tokens never exceed a minute's worth\<close>

text \<open>What a key can spend at a time: its bucket refilled, or a full one when it has none.\<close>

definition buckets_ok :: "real \<Rightarrow> string \<Rightarrow> int \<Rightarrow> rate_limiter \<Rightarrow> bool" where
  "buckets_ok t k n rl \<longleftrightarrow>
     distinct (map fst (rl_buckets rl)) \<and>
     (\<forall>kv \<in> set (rl_buckets rl). snd (snd kv) \<le> t) \<and>
     (case map_of (rl_buckets rl) k of Some (v, l) \<Rightarrow> 0 \<le> v \<and> v \<le> real_of_int n | None \<Rightarrow> True)"

lemma refilled_bounds:
  assumes "buckets_ok t k n rl" "t \<le> now" "0 < n"
  shows "0 \<le> refilled n k now rl" "refilled n k now rl \<le> real_of_int n"
proof -
  have "0 \<le> refilled n k now rl" if b: "map_of (rl_buckets rl) k = Some (v, l)" for v l
  proof -
    have "l \<le> now" using assms map_of_SomeD [OF b] by (force simp: buckets_ok_def)
    moreover have "0 \<le> v" using assms b by (simp add: buckets_ok_def)
    ultimately show ?thesis using assms(3) by (simp add: refilled_def b)
  qed
  then show "0 \<le> refilled n k now rl"
    using assms(3) by (cases "map_of (rl_buckets rl) k") (auto simp: refilled_def)
  show "refilled n k now rl \<le> real_of_int n" by (simp add: refilled_def Let_def split: prod.split)
qed

lemma min_cap: "0 \<le> d \<Longrightarrow> min c (x + d) = min c (min c x + d)" for c x d :: real
  by (auto simp: min_def)

lemma refilled_later:
  assumes "a \<le> b" "0 < n"
  shows "refilled n k b rl = min (real_of_int n) (refilled n k a rl + (b - a) * (real_of_int n / 60))"
proof -
  have *: "v + (b - l) * (real_of_int n / 60) = v + (a - l) * (real_of_int n / 60) + (b - a) * (real_of_int n / 60)"
    for v l
    by (simp add: left_diff_distrib add_divide_distrib diff_divide_distrib)
  have d: "0 \<le> (b - a) * (real_of_int n / 60)" using assms by simp
  show ?thesis
  proof (cases "map_of (rl_buckets rl) k")
    case None
    then show ?thesis using d by (simp add: refilled_def)
  next
    case (Some c)
    obtain v l where c: "c = (v, l)" by (cases c)
    show ?thesis
      using min_cap [OF d, of "real_of_int n" "v + (a - l) * (real_of_int n / 60)"]
      by (simp only: refilled_def Some c Let_def option.case prod.case * [of v l])
  qed
qed

text \<open>Forgetting an idle bucket changes nothing: it is full again.\<close>

lemma idle_full:
  assumes "map_of (rl_buckets rl) k = Some (v, l)" "60 \<le> now - l" "0 \<le> v" "0 < n"
  shows "refilled n k now rl = real_of_int n"
proof -
  have "60 * (real_of_int n / 60) \<le> (now - l) * (real_of_int n / 60)"
    using assms by (intro mult_right_mono) auto
  then have "real_of_int n \<le> v + (now - l) * (real_of_int n / 60)" using assms(3) by linarith
  then show ?thesis
    unfolding refilled_def assms(1) Let_def option.case prod.case by (rule min_absorb1)
qed

lemma map_of_filter_key:
  "distinct (map fst b) \<Longrightarrow>
   map_of (filter P b) k = (case map_of b k of Some v \<Rightarrow> if P (k, v) then Some v else None | None \<Rightarrow> None)"
  by (induction b) (auto split: option.splits simp: map_of_eq_None_iff image_iff)


lemma evict_uncrowded:
  assumes "length (filter (\<lambda>kv. now - snd (snd kv) < 60) (rl_buckets rl)) \<le> rl_max_keys rl"
  shows "evict now rl = rl\<lparr>rl_buckets := filter (\<lambda>kv. now - snd (snd kv) < 60) (rl_buckets rl)\<rparr>"
  using assms by (simp add: evict_def Let_def)

lemma evict_keeps:
  assumes few: "length (filter (\<lambda>kv. now - snd (snd kv) < 60) (rl_buckets rl)) \<le> rl_max_keys rl"
    and ok: "buckets_ok now k n rl" and n: "0 < n"
  shows "buckets_ok now k n (evict now rl)" "now \<le> x \<Longrightarrow> refilled n k x (evict now rl) = refilled n k x rl"
proof -
  let ?f = "filter (\<lambda>kv. now - snd (snd kv) < 60) (rl_buckets rl)"
  have d: "distinct (map fst (rl_buckets rl))" using ok by (simp add: buckets_ok_def)
  note m = map_of_filter_key [OF d, of "\<lambda>kv. now - snd (snd kv) < 60" k]
  show "buckets_ok now k n (evict now rl)"
  proof -
    have "map_of (rl_buckets rl) k = Some b" if "map_of ?f k = Some b" for b
      using that m by (auto split: option.splits if_splits)
    then show ?thesis
      using ok d by (cases "map_of ?f k") (auto simp: buckets_ok_def evict_uncrowded [OF few] distinct_map_filter)
  qed
  show "refilled n k x (evict now rl) = refilled n k x rl" if x: "now \<le> x"
  proof (cases "map_of (rl_buckets rl) k")
    case None
    then show ?thesis unfolding evict_uncrowded [OF few] by (simp add: refilled_def m)
  next
    case (Some b)
    obtain v l where b: "b = (v, l)" by (cases b)
    show ?thesis
    proof (cases "now - l < 60")
      case True
      then show ?thesis unfolding evict_uncrowded [OF few] by (simp add: refilled_def m Some b)
    next
      case False
      have "0 \<le> v" using ok Some b by (simp add: buckets_ok_def)
      then have "refilled n k x rl = real_of_int n"
        using Some b False n x by (intro idle_full [of _ _ v l]) auto
      then show ?thesis using False unfolding evict_uncrowded [OF few] by (simp add: refilled_def m Some b)
    qed
  qed
qed

section \<open>One check\<close>

lemma limit_update [simp]: "limit_for ov (rl\<lparr>rl_buckets := b\<rparr>) = limit_for ov rl"
  by (simp add: limit_for_def split: option.split)

lemma evict_fields [simp]:
  "rl_default (evict now rl) = rl_default rl" "rl_max_keys (evict now rl) = rl_max_keys rl"
  by (simp_all add: evict_def Let_def)

lemma check_fields [simp]:
  "rl_default (snd (rate_check k ov t rl)) = rl_default rl"
  "rl_max_keys (snd (rate_check k ov t rl)) = rl_max_keys rl"
  by (simp_all add: rate_check_def Let_def)

lemma limit_after_check [simp]: "limit_for ov' (snd (rate_check k ov t rl)) = limit_for ov' rl"
  by (simp add: limit_for_def split: option.split)

lemma filter_update_key:
  "distinct (map fst b) \<Longrightarrow>
   length (filter P (AList.update k v b)) \<le> Suc (length (filter (\<lambda>kv. fst kv \<noteq> k \<and> P kv) b))"
proof (induction b)
  case (Cons x b)
  have "k \<notin> fst ` set b \<Longrightarrow> filter (\<lambda>kv. fst kv \<noteq> k \<and> P kv) b = filter P b" for b :: "('a \<times> 'b) list"
    by (rule filter_cong) auto
  then show ?case using Cons by (auto simp: image_iff)
qed simp

lemma set_update_snd:
  "distinct (map fst b) \<Longrightarrow> set (AList.update k v b) \<subseteq> insert (k, v) (set b)"
  by (induction b) auto

text \<open>The state after a check when its key has a bucket of its own.\<close>

lemma check_bucket:
  assumes ok: "buckets_ok t0 k n rl" and t: "t0 \<le> t" and few: "uncrowded ((k', ov, t) # cs) rl"
    and lim: "0 < limit_for ov rl" and n: "0 < n"
    and v: "v = (let tokens = refilled (limit_for ov rl) k' t rl in if 1 \<le> tokens then tokens - 1 else tokens)"
    and own: "k' = k \<Longrightarrow> 0 \<le> v \<and> v \<le> real_of_int n"
  shows "buckets_ok t k n (snd (rate_check k' ov t rl))"
    and "t \<le> x \<Longrightarrow> refilled n k x (snd (rate_check k' ov t rl)) =
           refilled n k x (rl\<lparr>rl_buckets := AList.update k' (v, t) (rl_buckets rl)\<rparr>)"
proof -
  let ?u = "rl\<lparr>rl_buckets := AList.update k' (v, t) (rl_buckets rl)\<rparr>"
  have d: "distinct (map fst (rl_buckets rl))" using ok by (simp add: buckets_ok_def)
  have "set (AList.update k' (v, t) (rl_buckets rl)) \<subseteq> insert (k', v, t) (set (rl_buckets rl))"
    by (rule set_update_snd [OF d])
  then have u: "buckets_ok t k n ?u"
    using ok t own d by (fastforce simp: buckets_ok_def distinct_update update_conv')
  have "length (filter (\<lambda>kv. t - snd (snd kv) < 60) (rl_buckets ?u)) \<le>
      Suc (length (filter (\<lambda>kv. fst kv \<noteq> k' \<and> t - snd (snd kv) < 60) (rl_buckets rl)))"
    using filter_update_key [OF d, of "\<lambda>kv. t - snd (snd kv) < 60" k' "(v, t)"] by simp
  then have small: "length (filter (\<lambda>kv. t - snd (snd kv) < 60) (rl_buckets ?u)) \<le> rl_max_keys ?u"
    using few by simp
  have r: "snd (rate_check k' ov t rl) = (if rl_max_keys rl < length (rl_buckets ?u) then evict t ?u else ?u)"
    using lim by (simp add: rate_check_def Let_def v)
  show "buckets_ok t k n (snd (rate_check k' ov t rl))"
    using u evict_keeps(1) [OF small u n] by (simp add: r)
  show "t \<le> x \<Longrightarrow> refilled n k x (snd (rate_check k' ov t rl)) = refilled n k x ?u"
    using evict_keeps(2) [OF small u n] by (simp add: r)
qed


lemma buckets_ok_mono: "buckets_ok t k n rl \<Longrightarrow> t \<le> u \<Longrightarrow> buckets_ok u k n rl"
  by (fastforce simp: buckets_ok_def)

lemma check_own:
  assumes ok: "buckets_ok t0 k n rl" and t: "t0 \<le> t" and few: "uncrowded ((k, ov, t) # cs) rl"
    and lim: "limit_for ov rl = n" and n: "0 < n"
  shows "fst (rate_check k ov t rl) = None \<longleftrightarrow> 1 \<le> refilled n k t rl"
    and "buckets_ok t k n (snd (rate_check k ov t rl))"
    and "refilled n k t (snd (rate_check k ov t rl)) =
           refilled n k t rl - (if fst (rate_check k ov t rl) = None then 1 else 0)"
proof -
  let ?r = "refilled n k t rl"
  let ?v = "if 1 \<le> ?r then ?r - 1 else ?r"
  have b: "0 \<le> ?r" "?r \<le> real_of_int n" by (rule refilled_bounds [OF ok t n])+
  have bound: "0 \<le> ?v \<and> ?v \<le> real_of_int n" using b by auto
  have val: "?v = (let tokens = refilled (limit_for ov rl) k t rl in if 1 \<le> tokens then tokens - 1 else tokens)"
    by (simp add: lim Let_def)
  have pos: "0 < limit_for ov rl" using lim n by simp
  note step = check_bucket [OF ok t few pos n val bound]
  show a: "fst (rate_check k ov t rl) = None \<longleftrightarrow> 1 \<le> ?r"
    using n lim by (simp add: rate_check_def Let_def)
  show "buckets_ok t k n (snd (rate_check k ov t rl))" by (rule step(1))
  show "refilled n k t (snd (rate_check k ov t rl)) = ?r - (if fst (rate_check k ov t rl) = None then 1 else 0)"
    using bound unfolding step(2) [OF order.refl] a by (simp add: refilled_def update_conv')
qed

lemma check_other:
  assumes ok: "buckets_ok t0 k n rl" and t: "t0 \<le> t" and few: "uncrowded ((k', ov, t) # cs) rl"
    and other: "k' \<noteq> k" and n: "0 < n"
  shows "buckets_ok t k n (snd (rate_check k' ov t rl))"
    and "t \<le> x \<Longrightarrow> refilled n k x (snd (rate_check k' ov t rl)) = refilled n k x rl"
proof -
  have *: "buckets_ok t k n (snd (rate_check k' ov t rl)) \<and>
    (t \<le> x \<longrightarrow> refilled n k x (snd (rate_check k' ov t rl)) = refilled n k x rl)"
  proof (cases "0 < limit_for ov rl")
    case False
    then have "snd (rate_check k' ov t rl) = rl" by (simp add: rate_check_def Let_def)
    then show ?thesis using buckets_ok_mono [OF ok t] by simp
  next
    case True
    note step = check_bucket [OF ok t few True n refl]
    show ?thesis
      using step(1) step(2) [of x] other by (simp add: refilled_def update_conv')
  qed
  then show "buckets_ok t k n (snd (rate_check k' ov t rl))"
    and "t \<le> x \<Longrightarrow> refilled n k x (snd (rate_check k' ov t rl)) = refilled n k x rl" by blast+
qed

section \<open>Runs\<close>

definition until :: "real \<Rightarrow> rate_call list \<Rightarrow> bool" where
  "until b cs \<longleftrightarrow> list_all (\<lambda>(k, ov, t). t \<le> b) cs"

lemma in_order_le: "in_order a cs \<Longrightarrow> b \<le> a \<Longrightarrow> in_order b cs"
  by (induction b cs rule: in_order.induct) auto

lemma one_limit_check [simp]: "one_limit k n (snd (rate_check k' ov t rl)) cs = one_limit k n rl cs"
  by (simp add: one_limit_def)

lemma run_spends:
  assumes "rate_run cs rl = (l, rl')" "buckets_ok t0 k n rl" "in_order t0 cs" "until b cs" "t0 \<le> b"
    "one_limit k n rl cs" "uncrowded cs rl" "0 < n"
  shows "real (allowed_of k l) + refilled n k b rl' \<le> refilled n k t0 rl + (b - t0) * (real_of_int n / 60)
    \<and> buckets_ok b k n rl'"
  using assms
proof (induction cs arbitrary: rl t0 l)
  case Nil
  then show ?case
    using refilled_later [of t0 b n k rl] by (auto simp: allowed_of_def intro: buckets_ok_mono)
next
  case (Cons c cs)
  obtain k' ov t where c: "c = (k', ov, t)" by (cases c)
  let ?m = "snd (rate_check k' ov t rl)"
  obtain l2 where run: "rate_run cs ?m = (l2, rl')" and l: "l = (k', t, fst (rate_check k' ov t rl)) # l2"
    using Cons.prems(1) by (auto simp: c split: prod.splits)
  have t: "t0 \<le> t" "t \<le> b" "in_order t cs" "until b cs" "uncrowded cs ?m" "one_limit k n ?m cs"
    using Cons.prems by (auto simp: c until_def one_limit_def)
  note later = refilled_later [of t0 t n k rl]
  have gain: "refilled n k t rl \<le> refilled n k t0 rl + (t - t0) * (real_of_int n / 60)"
    using t Cons.prems later by simp
  have split: "(t - t0) * (real_of_int n / 60) + (b - t) * (real_of_int n / 60) = (b - t0) * (real_of_int n / 60)"
    by (simp add: left_diff_distrib add_divide_distrib diff_divide_distrib)
  show ?case
  proof (cases "k' = k")
    case True
    have lim: "limit_for ov rl = n" using Cons.prems(6) True by (simp add: c one_limit_def)
    note own = check_own [OF Cons.prems(2) t(1) _ lim Cons.prems(8), of cs]
    have few: "uncrowded ((k, ov, t) # cs) rl" using Cons.prems(7) True c by simp
    show ?thesis
      using Cons.IH [OF run _ t(3) t(4) t(2) t(6) t(5) Cons.prems(8)] own [OF few] gain split True
      by (auto simp: l allowed_of_def split: if_splits)
  next
    case False
    note other = check_other [OF Cons.prems(2) t(1) Cons.prems(7) [unfolded c] False Cons.prems(8)]
    show ?thesis
      using Cons.IH [OF run other(1) t(3) t(4) t(2) t(6) t(5) Cons.prems(8)] other(2) [of t] gain split False
      by (simp add: l allowed_of_def)
  qed
qed


lemma run_limit [simp]: "limit_for ov (snd (rate_run cs rl)) = limit_for ov rl"
proof (induction cs arbitrary: rl)
  case (Cons c cs)
  obtain k' ov' t where c: "c = (k', ov', t)" by (cases c)
  have "snd (rate_run (c # cs) rl) = snd (rate_run cs (snd (rate_check k' ov' t rl)))"
    by (simp add: c split: prod.split)
  then show ?case by (simp add: Cons.IH)
qed simp

lemma run_uncrowded:
  "uncrowded (cs @ ds) rl \<longleftrightarrow> uncrowded cs rl \<and> uncrowded ds (snd (rate_run cs rl))"
proof (induction cs arbitrary: rl)
  case (Cons c cs)
  obtain k' ov' t where c: "c = (k', ov', t)" by (cases c)
  have "snd (rate_run (c # cs) rl) = snd (rate_run cs (snd (rate_check k' ov' t rl)))"
    by (simp add: c split: prod.split)
  then show ?case by (simp add: Cons.IH c)
qed simp

lemma run_other:
  assumes "rate_run cs rl = (l, rl')" "buckets_ok t0 k n rl" "in_order t0 cs" "until b cs" "t0 \<le> b"
    "k \<notin> fst ` set cs" "uncrowded cs rl" "0 < n"
  shows "refilled n k b rl' = refilled n k b rl \<and> buckets_ok b k n rl'"
  using assms
proof (induction cs arbitrary: rl t0 l)
  case Nil
  then show ?case by (auto intro: buckets_ok_mono)
next
  case (Cons c cs)
  obtain k' ov t where c: "c = (k', ov, t)" by (cases c)
  let ?m = "snd (rate_check k' ov t rl)"
  obtain l2 where run: "rate_run cs ?m = (l2, rl')"
    using Cons.prems(1) by (auto simp: c split: prod.splits)
  have t: "t0 \<le> t" "t \<le> b" "in_order t cs" "until b cs" "uncrowded cs ?m" "k' \<noteq> k" "k \<notin> fst ` set cs"
    using Cons.prems by (auto simp: c until_def)
  note other = check_other [OF Cons.prems(2) t(1) Cons.prems(7) [unfolded c] t(6) Cons.prems(8)]
  show ?case
    using Cons.IH [OF run other(1) t(3) t(4) t(2) t(7) t(5) Cons.prems(8)] other(2) [OF t(2)] by simp
qed

lemma new_limiter_ok: "buckets_ok t k n (new_rate_limiter d m)"
  by (simp add: buckets_ok_def new_rate_limiter_def)

lemma started_ok:
  assumes "rate_run cs (new_rate_limiter d m) = (l, rl)" "in_order t0 cs" "until b cs" "t0 \<le> b"
    "one_limit k n (new_rate_limiter d m) cs" "uncrowded cs (new_rate_limiter d m)" "0 < n"
  shows "buckets_ok b k n rl" "\<And>ov. limit_for ov rl = limit_for ov (new_rate_limiter d m)"
  using run_spends [OF assms(1) new_limiter_ok assms(2-7)] run_limit [of _ cs "new_rate_limiter d m"]
  by (simp_all add: assms(1))


text \<open>A refused request learns how long to wait, and a request of that key after at least that time is
  allowed, whatever other keys do meanwhile.\<close>

theorem retry_after_sufficient:
  assumes before: "rate_run earlier (new_rate_limiter d m) = (l0, rl0)" "in_order since earlier" "until t earlier" "since \<le> t"
    and refused: "rate_check k ov t rl0 = (Some wait, rl1)"
    and mid: "rate_run others rl1 = (l, rl2)" "in_order t others" "until u others" "k \<notin> fst ` set others" "t + wait \<le> u"
    and lim: "one_limit k n (new_rate_limiter d m) (earlier @ [(k, ov, t), (k, ov', u)])" "0 < n"
    and few: "uncrowded (earlier @ (k, ov, t) # others @ [(k, ov', u)]) (new_rate_limiter d m)"
  shows "fst (rate_check k ov' u rl2) = None"
proof -
  have few2: "uncrowded earlier (new_rate_limiter d m)" "uncrowded ((k, ov, t) # others) rl0"
    "uncrowded others rl1" "uncrowded [(k, ov', u)] rl2"
    using few before(1) refused mid(1) by (simp_all add: run_uncrowded)
  have one: "one_limit k n (new_rate_limiter d m) earlier" using lim(1) by (simp add: one_limit_def)
  note start = started_ok [OF before one few2(1) lim(2)]
  have lims: "limit_for ov rl0 = n" "limit_for ov' rl0 = n" using lim(1) by (simp_all add: one_limit_def start(2))
  have lim2: "limit_for ov' rl2 = n"
    using lims(2) limit_after_check [of ov' k ov t rl0] run_limit [of ov' others rl1] refused mid(1) by simp
  note own = check_own [OF start(1) order.refl few2(2) lims(1) lim(2)]
  let ?r = "refilled n k t rl0"
  have short: "?r < 1" "refilled n k t rl1 = ?r" "buckets_ok t k n rl1" using own refused by (auto split: if_splits)
  have wait: "wait = max (1 / 1000) ((1 - ?r) / (real_of_int n / 60))"
    using refused lim(2) short(1) by (simp add: rate_check_def Let_def lims)
  have tu: "t \<le> u" using mid(5) wait by simp
  have pos: "0 < real_of_int n / 60" using lim(2) by simp
  have "(1 - ?r) / (real_of_int n / 60) \<le> u - t" using mid(5) wait by simp
  then have enough: "1 - ?r \<le> (u - t) * (real_of_int n / 60)" by (simp only: pos_divide_le_eq [OF pos])
  have later: "refilled n k u rl2 = min (real_of_int n) (?r + (u - t) * (real_of_int n / 60))" and ok: "buckets_ok u k n rl2"
    using run_other [OF mid(1) short(3) mid(2) mid(3) tu mid(4) few2(3) lim(2)]
      refilled_later [OF tu lim(2), of k rl1] short(2) by simp_all
  have n1: "1 \<le> real_of_int n" using lim(2) by linarith
  have "1 \<le> ?r + (u - t) * (real_of_int n / 60)" using enough by linarith
  then have "1 \<le> refilled n k u rl2" unfolding later using n1 by (simp only: min.bounded_iff)
  then show ?thesis using check_own(1) [OF ok order.refl few2(4) lim2 lim(2)] by simp
qed

section \<open>Witnesses\<close>

definition ex_rate_calls :: "rate_call list" where
  "ex_rate_calls = [(''a'', None, 0), (''a'', None, 0), (''b'', None, 1), (''a'', None, 1)]"

definition ex_limiter :: "int \<Rightarrow> rate_limiter" where
  "ex_limiter d = new_rate_limiter d 10"

lemma rate_run_pair: "rate_run cs rl = (fst (rate_run cs rl), snd (rate_run cs rl))"
  by simp

lemmas ex_rate_defs = ex_limiter_def new_rate_limiter_def rate_check_def refilled_def limit_for_def Let_def
  evict_def until_def one_limit_def


theorem retry_after_sufficient_witness:
  "fst (rate_check ''a'' None 60 (snd (rate_run [(''b'', None, 30)]
     (snd (rate_check ''a'' None 0 (snd (rate_run [(''a'', None, 0)] (ex_limiter 1)))))))) = None"
proof -
  let ?rl = "snd (rate_run [(''a'', None, 0)] (new_rate_limiter 1 10))"
  have refused: "rate_check ''a'' None 0 ?rl = (Some 60, snd (rate_check ''a'' None 0 ?rl))"
    by (simp add: ex_rate_defs)
  show ?thesis
    unfolding ex_limiter_def
    by (rule retry_after_sufficient [where since = 0 and n = 1, OF rate_run_pair _ _ _ refused rate_run_pair])
      (simp_all add: ex_rate_defs)
qed

end
