(* ===== verification/Cp_Inventory.thy ===== *)
theory Cp_Inventory
  imports Cp_Store "HOL-Library.Sublist"
begin

text \<open>
  The inventory of discovered agents: its records (\<^verbatim>\<open>domain/inventory.py\<close>), the facts connectors yield
  (\<^verbatim>\<open>discovery/model.py\<close>), the tables of the store (\<^verbatim>\<open>store/memory.py\<close>) and the rules that classify an
  entity (\<^verbatim>\<open>discovery/classify.py\<close>). What \<open>EntityRecord.attrs\<close> may hold is a field each: evidence by
  source, the pinned tool definition, merged ids, removals and manual links.
\<close>

section \<open>Records\<close>

record source_entry =
  so_kind :: string
  so_connector :: string
  so_signals :: "string list"
  so_attrs :: jobj
  so_managed :: int
  so_direct :: int
  so_at :: "instant option"
  so_run :: "string option"
  so_environment :: "string option"
  so_owner :: "string option"

record pinned_definition =
  pn_hash :: json
  pn_description :: json
  pn_at :: instant
  pn_approved_by :: "string option"

record removal =
  rm_connector :: string
  rm_kind :: string
  rm_at :: instant

record manual_link =
  ml_agent_id :: string
  ml_by :: string
  ml_at :: instant

datatype likelihood = Confirmed | Probable | NoAgent

datatype entity_state = StManaged | StUnmanaged | StShadow | StStale | StNotAgent

record entity =
  en_id :: string
  en_tenant_id :: string
  en_kind :: string
  en_name :: string
  en_strong_keys :: "string list"
  en_weak_keys :: "string list"
  en_by_source :: "(string \<times> source_entry) list"
  en_pinned :: "pinned_definition option"
  en_merged_from :: "string list"
  en_removed_from :: "removal list"
  en_manual_links :: "manual_link list"
  en_sources :: "string list"
  en_environment :: "string option"
  en_first_seen :: instant
  en_last_seen :: instant
  en_likelihood :: likelihood
  en_reasons :: "string list"
  en_state :: entity_state
  en_registry_agent :: "string option"
  en_owner_guess :: "string option"
  en_managed_volume :: int
  en_direct_volume :: int
  en_probable_matches :: "string list"
  en_ignored_until :: "instant option"
  en_ignore_reason :: "string option"
  en_updated_at :: instant

definition ignored :: "entity \<Rightarrow> instant \<Rightarrow> bool" where
  "ignored e now \<longleftrightarrow> (case en_ignored_until e of None \<Rightarrow> False | Some u \<Rightarrow> now < u)"

record edge =
  ed_id :: string
  ed_tenant_id :: string
  ed_src :: string
  ed_dst :: string
  ed_kind :: string
  ed_attrs :: jobj
  ed_source :: string
  ed_confidence :: real
  ed_valid_from :: instant
  ed_valid_to :: "instant option"
  ed_last_seen :: instant
  ed_evidence :: "string option"

datatype finding_kind = ShadowAgent | ProbableShadowAgent | UnmanagedAgent | StaleAgent | ToolDefinitionChanged

datatype finding_status = FindingOpen | FindingResolved | FindingAccepted

datatype severity = SevLow | SevMedium | SevHigh

datatype finding_details =
    StateDetails "string list" "string list" "string option"  \<comment> \<open>reasons, sources, owner\<close>
  | ToolDetails json json json json  \<comment> \<open>old and new hash, old and new description\<close>

record inventory_finding =
  fi_id :: string
  fi_tenant_id :: string
  fi_entity_id :: string
  fi_kind :: finding_kind
  fi_severity :: severity
  fi_summary :: string
  fi_details :: finding_details
  fi_status :: finding_status
  fi_created_at :: instant
  fi_updated_at :: instant
  fi_resolved_at :: "instant option"
  fi_resolved_by :: "string option"
  fi_note :: string

datatype run_status = RunRunning | RunOk | RunPartial | RunError

record connector =
  cx_id :: string
  cx_tenant_id :: string
  cx_kind :: string
  cx_name :: string
  cx_config :: jobj
  cx_environment :: "string option"
  cx_interval_minutes :: int
  cx_enabled :: bool
  cx_created_by :: string
  cx_created_at :: instant
  cx_updated_at :: instant
  cx_last_run_at :: "instant option"
  cx_last_status :: "run_status option"
  cx_last_error :: "string option"
  cx_lease_owner :: "string option"
  cx_lease_until :: "instant option"

record sync_run =
  sr_id :: string
  sr_tenant_id :: string
  sr_connector_id :: string
  sr_triggered_by :: string
  sr_started_at :: instant
  sr_finished_at :: "instant option"
  sr_status :: run_status
  sr_observations :: nat
  sr_entities_created :: nat
  sr_entities_updated :: nat
  sr_edges_opened :: nat
  sr_edges_closed :: nat
  sr_findings_opened :: nat
  sr_findings_resolved :: nat
  sr_warnings :: "string list"
  sr_error :: "string option"

record observation_record =
  ob_id :: string
  ob_tenant_id :: string
  ob_connector_id :: string
  ob_run_id :: string
  ob_kind :: string
  ob_source_ref :: string
  ob_observed_at :: instant
  ob_payload_hash :: string
  ob_attrs :: jobj
  ob_entity_id :: "string option"

text \<open>What a connector yields.\<close>

record entity_fact =
  ef_ref :: string
  ef_kind :: string
  ef_name :: string
  ef_strong_keys :: "string list"
  ef_weak_keys :: "string list"
  ef_attrs :: jobj
  ef_signals :: "string list"
  ef_environment :: "string option"
  ef_owner :: "string option"
  ef_managed_volume :: int
  ef_direct_volume :: int

record edge_fact =
  xf_src :: string
  xf_dst :: string
  xf_kind :: string
  xf_attrs :: jobj
  xf_confidence :: real

record observation =
  os_kind :: string
  os_source_ref :: string
  os_entities :: "entity_fact list"
  os_edges :: "edge_fact list"
  os_attrs :: jobj
  os_observed_at :: "instant option"

section \<open>The tables\<close>

text \<open>
  \<open>iv_agents\<close> is the agents table of the control store. \<open>iv_next\<close> counts the ids handed out: the
  n-th new id is a parameter (\<open>uuid4\<close>).
\<close>

record inventory =
  iv_agents :: "agent_record list"
  iv_connectors :: "(string \<times> connector) list"
  iv_runs :: "(string \<times> sync_run) list"
  iv_observations :: "observation_record list"
  iv_entities :: "(string \<times> entity) list"
  iv_edges :: "(string \<times> edge) list"
  iv_findings :: "(string \<times> inventory_finding) list"
  iv_next :: nat

definition empty_inventory :: inventory where
  "empty_inventory = \<lparr>iv_agents = [], iv_connectors = [], iv_runs = [], iv_observations = [], iv_entities = [],
     iv_edges = [], iv_findings = [], iv_next = 0\<rparr>"

text \<open>The first \<open>n\<close> rows; the length is compared first, so that a large limit costs nothing.\<close>

definition limited :: "int \<Rightarrow> 'a list \<Rightarrow> 'a list" where
  "limited n xs = (if int (length xs) \<le> n then xs else take (nat n) xs)"

lemma limited_all: "int (length xs) \<le> n \<Longrightarrow> limited n xs = xs"
  by (simp add: limited_def)

lemma limited_subset: "set (limited n xs) \<subseteq> set xs"
  by (auto simp: limited_def dest: in_set_takeD)

definition tenant_agents :: "inventory \<Rightarrow> string \<Rightarrow> agent_record list" where
  "tenant_agents s t = filter (\<lambda>a. agr_tenant_id a = t) (iv_agents s)"

definition put_connector :: "connector \<Rightarrow> inventory \<Rightarrow> inventory" where
  "put_connector c s = s\<lparr>iv_connectors := AList.update (cx_id c) c (iv_connectors s)\<rparr>"

definition get_connector :: "inventory \<Rightarrow> string \<Rightarrow> connector option" where
  "get_connector s i = map_of (iv_connectors s) i"

definition list_connectors :: "inventory \<Rightarrow> string option \<Rightarrow> connector list" where
  "list_connectors s tenant =
     sort_key (\<lambda>c. (cx_tenant_id c, cx_name c, cx_id c))
       (filter (\<lambda>c. tenant = None \<or> tenant = Some (cx_tenant_id c)) (map snd (iv_connectors s)))"

definition delete_connector :: "string \<Rightarrow> inventory \<Rightarrow> bool \<times> inventory" where
  "delete_connector i s =
     (map_of (iv_connectors s) i \<noteq> None, s\<lparr>iv_connectors := AList.delete i (iv_connectors s)\<rparr>)"

definition due :: "connector \<Rightarrow> instant \<Rightarrow> bool" where
  "due c now \<longleftrightarrow> cx_enabled c \<and>
     (case cx_last_run_at c of None \<Rightarrow> True | Some l \<Rightarrow> l + cx_interval_minutes c * 60 * 1000000 \<le> now)"

definition claim_connector ::
  "string \<Rightarrow> string \<Rightarrow> instant \<Rightarrow> instant \<Rightarrow> bool \<Rightarrow> inventory \<Rightarrow> bool \<times> inventory" where
  "claim_connector i owner now lease_until only_if_due s =
     (case map_of (iv_connectors s) i of
        None \<Rightarrow> (False, s)
      | Some c \<Rightarrow>
          if (case cx_lease_until c of None \<Rightarrow> False | Some u \<Rightarrow> now < u) then (False, s)
          else if only_if_due \<and> \<not> due c now then (False, s)
          else (True, put_connector (c\<lparr>cx_lease_owner := Some owner, cx_lease_until := Some lease_until\<rparr>) s))"

definition release_connector ::
  "string \<Rightarrow> string \<Rightarrow> run_status \<Rightarrow> string option \<Rightarrow> instant \<Rightarrow> inventory \<Rightarrow> inventory" where
  "release_connector i owner st err finished s =
     (case map_of (iv_connectors s) i of
        None \<Rightarrow> s
      | Some c \<Rightarrow>
          if cx_lease_owner c \<noteq> Some owner then s
          else put_connector (c\<lparr>cx_lease_owner := None, cx_lease_until := None, cx_last_run_at := Some finished,
                                cx_last_status := Some st, cx_last_error := err\<rparr>) s)"

definition put_run :: "sync_run \<Rightarrow> inventory \<Rightarrow> inventory" where
  "put_run r s = s\<lparr>iv_runs := AList.update (sr_id r) r (iv_runs s)\<rparr>"

definition list_runs :: "inventory \<Rightarrow> string \<Rightarrow> nat \<Rightarrow> sync_run list" where
  "list_runs s i limit =
     take limit (sorted_desc sr_started_at (filter (\<lambda>r. sr_connector_id r = i) (map snd (iv_runs s))))"

definition add_observations :: "observation_record list \<Rightarrow> inventory \<Rightarrow> inventory" where
  "add_observations os s = s\<lparr>iv_observations := iv_observations s @ os\<rparr>"

definition list_observations ::
  "inventory \<Rightarrow> string \<Rightarrow> string option \<Rightarrow> string option \<Rightarrow> nat \<Rightarrow> observation_record list" where
  "list_observations s t eid rid limit =
     take limit (sorted_desc ob_observed_at
       (filter (\<lambda>x. ob_tenant_id x = t \<and> (eid = None \<or> ob_entity_id x = eid) \<and> (rid = None \<or> rid = Some (ob_run_id x)))
         (iv_observations s)))"

definition prune_observations :: "instant \<Rightarrow> inventory \<Rightarrow> nat \<times> inventory" where
  "prune_observations before s =
     (let keep = filter (\<lambda>x. before \<le> ob_observed_at x) (iv_observations s)
      in (length (iv_observations s) - length keep, s\<lparr>iv_observations := keep\<rparr>))"

definition put_entity :: "entity \<Rightarrow> inventory \<Rightarrow> inventory" where
  "put_entity e s = s\<lparr>iv_entities := AList.update (en_id e) e (iv_entities s)\<rparr>"

definition get_entity :: "inventory \<Rightarrow> string \<Rightarrow> string \<Rightarrow> entity option" where
  "get_entity s t i =
     (case map_of (iv_entities s) i of None \<Rightarrow> None | Some e \<Rightarrow> if en_tenant_id e = t then Some e else None)"

definition delete_entity :: "string \<Rightarrow> string \<Rightarrow> inventory \<Rightarrow> inventory" where
  "delete_entity t i s =
     (case get_entity s t i of None \<Rightarrow> s | Some e \<Rightarrow> s\<lparr>iv_entities := AList.delete i (iv_entities s)\<rparr>)"

definition find_entities :: "inventory \<Rightarrow> string \<Rightarrow> string list \<Rightarrow> entity list" where
  "find_entities s t keys =
     filter (\<lambda>e. en_tenant_id e = t \<and> set keys \<inter> set (en_strong_keys e) \<noteq> {}) (map snd (iv_entities s))"

text \<open>\<open>list_entities\<close> without its search filters.\<close>

definition tenant_entities :: "inventory \<Rightarrow> string \<Rightarrow> int \<Rightarrow> entity list" where
  "tenant_entities s t limit =
     limited limit (sort_key (\<lambda>e. (en_kind e, en_name e, en_id e))
       (filter (\<lambda>e. en_tenant_id e = t) (map snd (iv_entities s))))"

definition put_edge :: "edge \<Rightarrow> inventory \<Rightarrow> inventory" where
  "put_edge e s = s\<lparr>iv_edges := AList.update (ed_id e) e (iv_edges s)\<rparr>"

text \<open>\<open>list_edges\<close>: the open ones (or those valid at a time) of some entities or of a connector.\<close>

definition edge_selected ::
  "string \<Rightarrow> string list option \<Rightarrow> string option \<Rightarrow> instant option \<Rightarrow> edge \<Rightarrow> bool" where
  "edge_selected t ids source as_of e \<longleftrightarrow>
     ed_tenant_id e = t \<and> (source = None \<or> source = Some (ed_source e)) \<and>
     (case ids of None \<Rightarrow> True | Some is \<Rightarrow> ed_src e \<in> set is \<or> ed_dst e \<in> set is) \<and>
     (case as_of of
        Some a \<Rightarrow> ed_valid_from e \<le> a \<and> (case ed_valid_to e of None \<Rightarrow> True | Some v \<Rightarrow> a < v)
      | None \<Rightarrow> ed_valid_to e = None)"

definition list_edges ::
  "inventory \<Rightarrow> string \<Rightarrow> string list option \<Rightarrow> string option \<Rightarrow> instant option \<Rightarrow> edge list" where
  "list_edges s t ids source as_of =
     sort_key (\<lambda>e. (ed_valid_from e, ed_id e)) (filter (edge_selected t ids source as_of) (map snd (iv_edges s)))"

definition put_finding :: "inventory_finding \<Rightarrow> inventory \<Rightarrow> inventory" where
  "put_finding f s = s\<lparr>iv_findings := AList.update (fi_id f) f (iv_findings s)\<rparr>"

definition get_finding :: "inventory \<Rightarrow> string \<Rightarrow> string \<Rightarrow> inventory_finding option" where
  "get_finding s t i =
     (case map_of (iv_findings s) i of None \<Rightarrow> None | Some f \<Rightarrow> if fi_tenant_id f = t then Some f else None)"

definition list_findings ::
  "inventory \<Rightarrow> string \<Rightarrow> finding_status option \<Rightarrow> string option \<Rightarrow> finding_kind option \<Rightarrow> int \<Rightarrow>
   inventory_finding list" where
  "list_findings s t st eid k limit =
     limited limit (sorted_desc fi_created_at
       (filter (\<lambda>f. fi_tenant_id f = t \<and> (st = None \<or> st = Some (fi_status f)) \<and>
                    (eid = None \<or> eid = Some (fi_entity_id f)) \<and> (k = None \<or> k = Some (fi_kind f)))
         (map snd (iv_findings s))))"

section \<open>Classification\<close>

definition AGENT_CAPABLE :: "string list" where
  "AGENT_CAPABLE = [''agent'', ''workload'', ''endpoint'', ''identity'']"

definition AUTO_FINDINGS :: "finding_kind list" where
  "AUTO_FINDINGS = [ShadowAgent, ProbableShadowAgent, UnmanagedAgent, StaleAgent]"

definition REGISTRY_SOURCE :: string where
  "REGISTRY_SOURCE = ''registry''"

definition STALE_AFTER :: int where
  "STALE_AFTER = 30 * 86400 * 1000000"

definition classify :: "string \<Rightarrow> string list \<Rightarrow> likelihood \<times> string list" where
  "classify kind signals =
     (if kind \<notin> set AGENT_CAPABLE then (NoAgent, [])
      else if ''human_identity'' \<in> set signals then (NoAgent, [''a person'' @ [CHR 0x27] @ ''s identity''])
      else if ''registered'' \<in> set signals then (Confirmed, [''registered in the agent registry''])
      else if ''agent_runtime'' \<in> set signals then (Confirmed, [''a managed agent runtime reports it as an agent''])
      else if ''gateway_client'' \<in> set signals \<and> kind = ''agent''
      then (Confirmed, [''calls the guardrail gateway as an agent''])
      else if ''llm_server'' \<in> set signals \<and> ''calls_model'' \<notin> set signals
      then (NoAgent, [''serves a model (LLM server)''])
      else if ''calls_model'' \<in> set signals \<and> (''uses_tools'' \<in> set signals \<or> ''mcp_client'' \<in> set signals)
      then (Confirmed, [''calls a model and uses tools or data''])
      else if ''calls_model'' \<in> set signals \<and> ''agent_framework'' \<in> set signals
      then (Confirmed, [''calls a model with an agent framework''])
      else if ''agent_framework'' \<in> set signals then (Probable, [''runs an agent framework''])
      else if ''mcp_client'' \<in> set signals then (Probable, [''is an MCP client''])
      else if ''calls_model'' \<in> set signals then (Probable, [''calls a model; no tool or data use seen yet''])
      else (NoAgent, []))"

text \<open>\<open>day\<close> prints the date of a time.\<close>

definition state_of ::
  "(instant \<Rightarrow> string) \<Rightarrow> entity \<Rightarrow> string list \<Rightarrow> bool \<Rightarrow> instant \<Rightarrow> entity_state \<times> string list" where
  "state_of day e signals observed now =
     (if en_likelihood e = NoAgent then (StNotAgent, [])
      else if en_registry_agent e \<noteq> None \<and> en_registry_agent e \<noteq> Some []
      then (if \<not> observed
            then (if en_first_seen e < now - STALE_AFTER
                  then (StStale, [''registered, not observed by any connector for 30 days''])
                  else (StUnmanaged, [''registered; not observed by any connector yet'']))
            else if en_last_seen e < now - STALE_AFTER
            then (StStale, [''registered, last observed '' @ day (en_last_seen e)])
            else if ''direct_model_access'' \<in> set signals
            then (StUnmanaged, [''registered, but calls a model provider without the gateway''])
            else if ''gateway_client'' \<in> set signals
            then (StManaged, [''registered and calling through the guardrail gateway''])
            else (StUnmanaged, [''registered, but never seen calling through the gateway'']))
      else if ''gateway_client'' \<in> set signals \<and> en_kind e = ''agent''
      then (StShadow, [''calls the gateway with an agent_id that is not in the registry''])
      else (StShadow, [''agent-like behaviour with no registry entry'']))"

definition agent_text :: "entity \<Rightarrow> string" where
  "agent_text e = (case en_registry_agent e of None \<Rightarrow> ''None'' | Some a \<Rightarrow> a)"

definition wanted_findings ::
  "entity \<Rightarrow> bool \<Rightarrow> instant \<Rightarrow> (finding_kind \<times> severity \<times> string) list" where
  "wanted_findings e observed now =
     (if ignored e now then []
      else if en_state e = StStale
      then [(StaleAgent, SevLow, ''Registered agent '' @ agent_text e @ '' not seen for 30 days'')]
      else if \<not> observed \<or> en_last_seen e < now - STALE_AFTER then []
      else
        (let prod = (en_environment e = Some ''production'');
             place = (case en_environment e of None \<Rightarrow> [] | Some v \<Rightarrow> if v = [] then [] else '' in '' @ v) in
         if en_state e = StShadow
         then (if en_likelihood e = Confirmed
               then [(ShadowAgent, if prod then SevHigh else SevMedium, ''Unregistered agent '' @ en_name e @ place)]
               else [(ProbableShadowAgent, if prod then SevMedium else SevLow,
                      ''Possible unregistered agent '' @ en_name e @ place)])
         else if en_state e = StUnmanaged
         then [(UnmanagedAgent, SevMedium, ''Registered agent '' @ agent_text e @
                 (if sublist ''without the gateway'' (join '' '' (en_reasons e))
                  then '' calls models around the gateway'' else '' is not seen at the gateway'') @ place)]
         else []))"

end
