(* ===== verification/Cp_Discovery.thy ===== *)
theory Cp_Discovery
  imports Cp_Inventory
begin

text \<open>
  The discovery pipeline (\<^verbatim>\<open>discovery/pipeline.py\<close>): one connector run resolves what was observed to
  entities by strong keys, keeps temporal relations, drops what a clean snapshot no longer lists, and
  reconciles the tenant with the registry. A run holds the tenant's lock, so a run is one step here.
  Collecting is I/O: what a connector yields, how it failed and its warnings are arguments. New ids,
  the printed date and the hash of a payload are parameters; events are left out.
\<close>

record discovery_settings =
  ds_new_id :: "nat \<Rightarrow> string"
  ds_day :: "instant \<Rightarrow> string"
  ds_payload_hash :: "observation \<Rightarrow> string"
  ds_max_observations :: nat

definition VOLUME_WINDOW_7 :: int where
  "VOLUME_WINDOW_7 = 7 * 86400 * 1000000"

definition SYSTEM_ACTOR :: string where
  "SYSTEM_ACTOR = ''discovery''"

definition set_sorted :: "string list \<Rightarrow> string list" where
  \<comment> \<open>\<open>sorted(set(xs))\<close>\<close>
  "set_sorted xs = sort (remdups xs)"

lemma set_set_sorted [simp]: "set (set_sorted xs) = set xs"
  by (simp add: set_sorted_def)

section \<open>What is stored of an observation\<close>

definition clean_text :: "int \<Rightarrow> string \<Rightarrow> string" where
  "clean_text limit s = limited limit (filter (\<lambda>c. c \<noteq> CHR 0x00) s)"

fun clean_json :: "int \<Rightarrow> json \<Rightarrow> json" where
  "clean_json limit (JStr s) = JStr (clean_text limit s)"
| "clean_json limit (JArr xs) = JArr (limited 500 (map (clean_json limit) xs))"
| "clean_json limit (JObj kvs) =
     JObj (foldl (\<lambda>d kv. AList.update (fst kv) (snd kv) d) []
       (limited 500 (map (\<lambda>kv. (clean_text 200 (fst kv), clean_json limit (snd kv))) kvs)))"
| "clean_json limit v = v"

definition clean_obj :: "jobj \<Rightarrow> jobj" where
  "clean_obj kvs = (case clean_json 4000 (JObj kvs) of JObj d \<Rightarrow> d | _ \<Rightarrow> [])"

definition sanitize_fact :: "entity_fact \<Rightarrow> entity_fact" where
  "sanitize_fact f =
     (let name = clean_text 500 (ef_name f) in
      f\<lparr>ef_name := (if name \<noteq> [] then name else ''?''),
        ef_owner := (case ef_owner f of None \<Rightarrow> None | Some x \<Rightarrow> if x \<noteq> [] then Some (clean_text 255 x) else None),
        ef_environment := (if ef_environment f \<in> {Some ''dev'', Some ''staging'', Some ''production''}
                           then ef_environment f else None),
        ef_strong_keys := map (clean_text 1000) (filter (\<lambda>k. k \<noteq> []) (ef_strong_keys f)),
        ef_weak_keys := map (clean_text 1000) (filter (\<lambda>k. k \<noteq> []) (ef_weak_keys f)),
        ef_attrs := clean_obj (ef_attrs f)\<rparr>)"

definition sanitize_observation :: "observation \<Rightarrow> observation" where
  "sanitize_observation x =
     x\<lparr>os_source_ref := clean_text 2000 (os_source_ref x), os_attrs := clean_obj (os_attrs x),
       os_entities := map sanitize_fact (os_entities x),
       os_edges := map (\<lambda>d. d\<lparr>xf_attrs := clean_obj (xf_attrs d)\<rparr>) (os_edges x)\<rparr>"

section \<open>What follows from the evidence\<close>

definition signals_of :: "entity \<Rightarrow> string list" where
  "signals_of e = concat (map (\<lambda>kv. so_signals (snd kv)) (en_by_source e))"

definition observed_by_connector :: "entity \<Rightarrow> bool" where
  "observed_by_connector e \<longleftrightarrow> list_ex (\<lambda>kv. fst kv \<noteq> REGISTRY_SOURCE) (en_by_source e)"

definition present :: "string option \<Rightarrow> bool" where
  \<comment> \<open>Python truth\<close>
  "present x \<longleftrightarrow> x \<noteq> None \<and> x \<noteq> Some []"

definition refresh_derived :: "instant \<Rightarrow> entity \<Rightarrow> entity" where
  "refresh_derived now e =
     (let entries = map snd (en_by_source e);
          seen = map (\<lambda>kv. the (so_at (snd kv)))
                   (filter (\<lambda>kv. fst kv \<noteq> REGISTRY_SOURCE \<and> so_at (snd kv) \<noteq> None) (en_by_source e));
          recent = filter (\<lambda>v. case so_at v of None \<Rightarrow> False | Some t \<Rightarrow> now - VOLUME_WINDOW_7 \<le> t) entries;
          envs = filter present (map so_environment entries);
          owners = filter present (map so_owner entries)
      in e\<lparr>en_sources := sort (map fst (en_by_source e)),
           en_last_seen := (if seen \<noteq> [] then foldl max (hd seen) (tl seen) else en_last_seen e),
           en_managed_volume := sum_list (map so_managed recent),
           en_direct_volume := sum_list (map so_direct recent),
           en_environment := (if envs \<noteq> [] \<and> \<not> present (en_environment e) then hd envs else en_environment e),
           en_owner_guess := (if owners \<noteq> [] then hd owners else en_owner_guess e)\<rparr>)"

section \<open>Merging\<close>

definition newer_entry :: "instant \<Rightarrow> source_entry \<Rightarrow> source_entry \<Rightarrow> bool" where
  "newer_entry first_seen theirs mine \<longleftrightarrow>
     (case so_at mine of None \<Rightarrow> first_seen | Some t \<Rightarrow> t) < (case so_at theirs of None \<Rightarrow> first_seen | Some t \<Rightarrow> t)"

definition merge_sources ::
  "instant \<Rightarrow> (string \<times> source_entry) list \<Rightarrow> (string \<times> source_entry) list \<Rightarrow> (string \<times> source_entry) list" where
  "merge_sources first_seen mine theirs =
     foldl (\<lambda>d kv. case map_of d (fst kv) of
                None \<Rightarrow> AList.update (fst kv) (snd kv) d
              | Some m \<Rightarrow> if newer_entry first_seen (snd kv) m then AList.update (fst kv) (snd kv) d else d)
       mine theirs"

definition merge_into :: "entity \<Rightarrow> entity \<Rightarrow> entity" where
  "merge_into keep other =
     (let later = (case en_ignored_until other of
                     None \<Rightarrow> False
                   | Some u \<Rightarrow> (case en_ignored_until keep of None \<Rightarrow> True | Some v \<Rightarrow> v < u))
      in keep\<lparr>en_strong_keys := set_sorted (en_strong_keys keep @ en_strong_keys other),
             en_weak_keys := set_sorted (en_weak_keys keep @ en_weak_keys other),
             en_by_source := merge_sources (en_first_seen keep) (en_by_source keep) (en_by_source other),
             en_pinned := (if en_pinned keep = None then en_pinned other else en_pinned keep),
             en_removed_from := (if en_removed_from keep = [] then en_removed_from other else en_removed_from keep),
             en_manual_links := (if en_manual_links keep = [] then en_manual_links other else en_manual_links keep),
             en_merged_from := set_sorted (en_merged_from keep @ en_merged_from other @ [en_id other]),
             en_first_seen := min (en_first_seen keep) (en_first_seen other),
             en_last_seen := max (en_last_seen keep) (en_last_seen other),
             en_kind := (if en_kind keep \<noteq> ''agent'' \<and> en_kind other = ''agent'' \<and>
                            en_kind keep \<notin> {''workload'', ''endpoint'', ''identity''}
                         then ''agent'' else en_kind keep),
             en_registry_agent := (if present (en_registry_agent keep) then en_registry_agent keep
                                   else en_registry_agent other),
             en_ignored_until := (if later then en_ignored_until other else en_ignored_until keep),
             en_ignore_reason := (if later then en_ignore_reason other else en_ignore_reason keep)\<rparr>)"

lemma merge_into_fields [simp]:
  "en_id (merge_into k other) = en_id k" "en_tenant_id (merge_into k other) = en_tenant_id k"
  "set (en_strong_keys (merge_into k other)) = set (en_strong_keys k) \<union> set (en_strong_keys other)"
  by (simp_all add: merge_into_def Let_def)

text \<open>\<open>_merge\<close>: the relations and findings of the other entity move over, and it is deleted.\<close>

definition fresh_row :: "discovery_settings \<Rightarrow> inventory \<Rightarrow> string \<times> inventory" where
  "fresh_row ds s = (ds_new_id ds (iv_next s), s\<lparr>iv_next := Suc (iv_next s)\<rparr>)"

definition move_edge ::
  "discovery_settings \<Rightarrow> string \<Rightarrow> string \<Rightarrow> instant \<Rightarrow>
   (string \<times> string \<times> string \<times> string) list \<times> inventory \<Rightarrow> edge \<Rightarrow>
   (string \<times> string \<times> string \<times> string) list \<times> inventory" where
  "move_edge ds keep other now cs e =
     (case cs of (current, s) \<Rightarrow>
        let was_current = (ed_valid_to e = None);
            s1 = (if was_current then put_edge (e\<lparr>ed_valid_to := Some now\<rparr>) s else s);
            src = (if ed_src e = other then keep else ed_src e);
            dst = (if ed_dst e = other then keep else ed_dst e);
            ident = (src, dst, ed_kind e, ed_source e)
        in if was_current \<and> src \<noteq> dst \<and> ident \<notin> set current
           then (let (i, s2) = fresh_row ds s1
                 in (current @ [ident],
                     put_edge (e\<lparr>ed_id := i, ed_src := src, ed_dst := dst, ed_valid_from := now,
                                 ed_valid_to := None\<rparr>) s2))
           else (current, s1))"

definition move_edges ::
  "discovery_settings \<Rightarrow> string \<Rightarrow> string \<Rightarrow> string \<Rightarrow> instant \<Rightarrow> inventory \<Rightarrow> inventory" where
  "move_edges ds t keep other now s =
     (let current = map (\<lambda>e. (ed_src e, ed_dst e, ed_kind e, ed_source e))
                      (filter (\<lambda>e. ed_valid_to e = None) (list_edges s t (Some [keep]) None None))
      in snd (foldl (move_edge ds keep other now) (current, s) (list_edges s t (Some [other]) None None)))"

definition live_finding :: "inventory_finding \<Rightarrow> bool" where
  "live_finding f \<longleftrightarrow> fi_status f = FindingOpen \<or> fi_status f = FindingAccepted"

definition move_finding ::
  "string \<Rightarrow> instant \<Rightarrow> finding_kind list \<times> inventory \<Rightarrow> inventory_finding \<Rightarrow> finding_kind list \<times> inventory" where
  "move_finding keep now hs f =
     (case hs of (kinds, s) \<Rightarrow>
        let moved = f\<lparr>fi_entity_id := keep, fi_updated_at := now\<rparr> in
        if live_finding f \<and> fi_kind f \<in> set kinds
        then (kinds, put_finding (moved\<lparr>fi_status := FindingResolved, fi_resolved_at := Some now,
                 fi_resolved_by := Some SYSTEM_ACTOR,
                 fi_note := ''duplicate: merged into another entity'' @ [CHR 0x27] @ ''s finding''\<rparr>) s)
        else if live_finding f then (kinds @ [fi_kind f], put_finding moved s)
        else (kinds, put_finding moved s))"

definition move_findings :: "string \<Rightarrow> string \<Rightarrow> string \<Rightarrow> instant \<Rightarrow> inventory \<Rightarrow> inventory" where
  "move_findings t keep other now s =
     (let kinds = map fi_kind (filter live_finding (list_findings s t None (Some keep) None 500))
      in snd (foldl (move_finding keep now) (kinds, s) (list_findings s t None (Some other) None 500)))"

definition merge_rows ::
  "discovery_settings \<Rightarrow> entity \<Rightarrow> entity \<Rightarrow> instant \<Rightarrow> inventory \<Rightarrow> entity \<times> inventory" where
  "merge_rows ds keep other now s =
     (let t = en_tenant_id keep in
      (merge_into keep other,
       delete_entity t (en_id other)
         (move_findings t (en_id keep) (en_id other) now
           (move_edges ds t (en_id keep) (en_id other) now s))))"

section \<open>Resolving facts\<close>

text \<open>The working set of a run. Entities are shared objects in the code: \<open>re_by_id\<close> holds their values.\<close>

record resolver =
  re_by_id :: "(string \<times> entity) list"
  re_by_key :: "(string \<times> string) list"
  re_created :: "string list"
  re_merged_away :: "(string \<times> string) list"

definition new_resolver :: resolver where
  "new_resolver = \<lparr>re_by_id = [], re_by_key = [], re_created = [], re_merged_away = []\<rparr>"

definition index_entity :: "entity \<Rightarrow> resolver \<Rightarrow> resolver" where
  "index_entity e r =
     r\<lparr>re_by_id := AList.update (en_id e) e (re_by_id r),
       re_by_key := foldl (\<lambda>d k. AList.update k (en_id e) d) (re_by_key r) (en_strong_keys e)\<rparr>"

definition survivor :: "resolver \<Rightarrow> string \<Rightarrow> string" where
  "survivor r i = (case map_of (re_merged_away r) i of None \<Rightarrow> i | Some j \<Rightarrow> j)"

definition load_found :: "resolver \<times> string list \<Rightarrow> entity \<Rightarrow> resolver \<times> string list" where
  "load_found rf e =
     (case rf of (r, ids) \<Rightarrow>
        let i = survivor r (en_id e)
        in (if map_of (re_by_id r) i = None then index_entity e r else r, ids @ [i]))"

definition candidates :: "string \<Rightarrow> string list \<Rightarrow> inventory \<Rightarrow> resolver \<Rightarrow> entity list \<times> resolver" where
  "candidates t keys s r =
     (let known = map (\<lambda>k. the (map_of (re_by_key r) k)) (filter (\<lambda>k. map_of (re_by_key r) k \<noteq> None) keys);
          missing = filter (\<lambda>k. map_of (re_by_key r) k = None) keys;
          (r1, ids) = (if missing = [] then (r, known) else foldl load_found (r, known) (find_entities s t missing))
      in (sort_key (\<lambda>e. (en_first_seen e, en_id e))
            (map the (filter (\<lambda>x. x \<noteq> None) (map (map_of (re_by_id r1)) (fromkeys ids)))), r1))"

definition resolver_merge :: "entity \<Rightarrow> string \<Rightarrow> resolver \<Rightarrow> resolver" where
  "resolver_merge keep other r =
     index_entity keep
       (r\<lparr>re_by_id := AList.delete other (re_by_id r), re_created := removeAll other (re_created r),
          re_merged_away := AList.update other (en_id keep) (re_merged_away r),
          re_by_key := map (\<lambda>kv. if snd kv = other then (fst kv, en_id keep) else kv) (re_by_key r)\<rparr>)"

definition merge_found ::
  "discovery_settings \<Rightarrow> instant \<Rightarrow> entity \<times> resolver \<times> inventory \<Rightarrow> entity \<Rightarrow> entity \<times> resolver \<times> inventory" where
  "merge_found ds now krs other =
     (case krs of (keep, r, s) \<Rightarrow>
        let (keep', s') = merge_rows ds keep other now s
        in (keep', resolver_merge keep' (en_id other) r, s'))"

section \<open>Pinned tool definitions\<close>

record run_stats =
  st_edges_opened :: nat
  st_edges_closed :: nat
  st_findings_opened :: nat
  st_findings_resolved :: nat
  st_state_changes :: "(string \<times> entity_state \<times> entity_state) list"

definition no_stats :: run_stats where
  "no_stats = \<lparr>st_edges_opened = 0, st_edges_closed = 0, st_findings_opened = 0, st_findings_resolved = 0,
     st_state_changes = []\<rparr>"

definition resolve_finding ::
  "instant \<Rightarrow> string \<Rightarrow> run_stats \<times> inventory \<Rightarrow> inventory_finding \<Rightarrow> run_stats \<times> inventory" where
  "resolve_finding now nt xs f =
     (case xs of (st, s) \<Rightarrow>
        (st\<lparr>st_findings_resolved := Suc (st_findings_resolved st)\<rparr>,
         put_finding (f\<lparr>fi_status := FindingResolved, fi_resolved_at := Some now, fi_resolved_by := Some SYSTEM_ACTOR,
                        fi_updated_at := now, fi_note := nt\<rparr>) s))"

definition open_finding ::
  "discovery_settings \<Rightarrow> string \<Rightarrow> string \<Rightarrow> finding_kind \<Rightarrow> severity \<Rightarrow> string \<Rightarrow> finding_details \<Rightarrow> instant \<Rightarrow>
   run_stats \<times> inventory \<Rightarrow> run_stats \<times> inventory" where
  "open_finding ds t e k sev summary det now xs =
     (case xs of (st, s) \<Rightarrow>
        let (i, s1) = fresh_row ds s
        in (st\<lparr>st_findings_opened := Suc (st_findings_opened st)\<rparr>,
            put_finding \<lparr>fi_id = i, fi_tenant_id = t, fi_entity_id = e, fi_kind = k, fi_severity = sev,
              fi_summary = summary, fi_details = det, fi_status = FindingOpen, fi_created_at = now,
              fi_updated_at = now, fi_resolved_at = None, fi_resolved_by = None, fi_note = []\<rparr> s1))"

definition details_new_hash :: "finding_details \<Rightarrow> json" where
  "details_new_hash d = (case d of ToolDetails _ n _ _ \<Rightarrow> n | StateDetails _ _ _ \<Rightarrow> JNull)"

definition obj_get_or :: "jobj \<Rightarrow> string \<Rightarrow> json \<Rightarrow> json" where
  "obj_get_or d k v = (case map_of d k of None \<Rightarrow> v | Some x \<Rightarrow> x)"

definition check_definition ::
  "discovery_settings \<Rightarrow> entity \<Rightarrow> entity_fact \<Rightarrow> instant \<Rightarrow> run_stats \<times> inventory \<Rightarrow>
   entity \<times> run_stats \<times> inventory" where
  "check_definition ds e f now xs =
     (let new_hash = obj_get (ef_attrs f) ''definition_hash'';
          descr = obj_get_or (ef_attrs f) ''description'' (JStr []) in
      if en_kind e \<noteq> ''tool'' \<or> \<not> truthy new_hash then (e, xs)
      else (case en_pinned e of
              None \<Rightarrow> (e\<lparr>en_pinned := Some \<lparr>pn_hash = new_hash, pn_description = descr, pn_at = now,
                                              pn_approved_by = None\<rparr>\<rparr>, xs)
            | Some p \<Rightarrow>
                let opens = list_findings (snd xs) (en_tenant_id e) (Some FindingOpen) (Some (en_id e))
                              (Some ToolDefinitionChanged) 500 in
                if new_hash = pn_hash p
                then (e, foldl (resolve_finding now ''the definition is back to the pinned version'') xs opens)
                else if list_ex (\<lambda>x. details_new_hash (fi_details x) = new_hash) opens then (e, xs)
                else (e, open_finding ds (en_tenant_id e) (en_id e) ToolDefinitionChanged SevHigh
                        (''Tool definition changed: '' @ en_name e)
                        (ToolDetails (pn_hash p) new_hash (pn_description p) descr) now
                        (foldl (resolve_finding now ''superseded by a newer change'') xs opens))))"

end
