(* ===== verification/Cp_Discovery_Run.thy ===== *)
theory Cp_Discovery_Run
  imports Cp_Discovery
begin

text \<open>
  The steps of a run (\<^verbatim>\<open>discovery/pipeline.py\<close>): facts to entities, relations, what a clean snapshot
  no longer lists, and the reconciliation of the whole tenant.
\<close>

section \<open>Facts to entities\<close>

definition entry_of ::
  "connector \<Rightarrow> entity_fact \<Rightarrow> string \<Rightarrow> instant \<Rightarrow> source_entry option \<Rightarrow> source_entry" where
  "entry_of c f run_id now prev =
     (let env = (if present (ef_environment f) then ef_environment f else cx_environment c);
          entry = \<lparr>so_kind = cx_kind c, so_connector = cx_name c, so_signals = set_sorted (ef_signals f),
                   so_attrs = ef_attrs f, so_managed = ef_managed_volume f, so_direct = ef_direct_volume f,
                   so_at = Some now, so_run = Some run_id, so_environment = env, so_owner = ef_owner f\<rparr>
      in case prev of
           None \<Rightarrow> entry
         | Some p \<Rightarrow>
             if so_run p = Some run_id
             then entry\<lparr>so_signals := set_sorted (so_signals p @ ef_signals f),
                        so_attrs := foldl (\<lambda>d kv. AList.update (fst kv) (snd kv) d) (so_attrs p) (ef_attrs f),
                        so_managed := so_managed p + ef_managed_volume f,
                        so_direct := so_direct p + ef_direct_volume f\<rparr>
             else entry)"

definition new_entity :: "connector \<Rightarrow> entity_fact \<Rightarrow> string list \<Rightarrow> string \<Rightarrow> instant \<Rightarrow> entity" where
  "new_entity c f keys i now =
     \<lparr>en_id = i, en_tenant_id = cx_tenant_id c, en_kind = ef_kind f, en_name = limited 500 (ef_name f),
      en_strong_keys = keys, en_weak_keys = [], en_by_source = [], en_pinned = None, en_merged_from = [],
      en_removed_from = [], en_manual_links = [], en_sources = [],
      en_environment = (if present (ef_environment f) then ef_environment f else cx_environment c),
      en_first_seen = now, en_last_seen = now, en_likelihood = NoAgent, en_reasons = [], en_state = StNotAgent,
      en_registry_agent = None, en_owner_guess = None, en_managed_volume = 0, en_direct_volume = 0,
      en_probable_matches = [], en_ignored_until = None, en_ignore_reason = None, en_updated_at = now\<rparr>"

text \<open>What a fact adds to the entity it was resolved to.\<close>

definition add_fact :: "connector \<Rightarrow> entity_fact \<Rightarrow> string list \<Rightarrow> string \<Rightarrow> instant \<Rightarrow> entity \<Rightarrow> entity" where
  "add_fact c f keys run_id now e =
     e\<lparr>en_strong_keys := set_sorted (en_strong_keys e @ keys),
       en_weak_keys := set_sorted (en_weak_keys e @ ef_weak_keys f),
       en_kind := (if ef_kind f = ''agent'' \<and>
                      en_kind e \<in> {''tool'', ''datastore'', ''destination'', ''project'', ''credential''}
                   then ''agent'' else en_kind e),
       en_environment := (if \<not> present (en_environment e)
                          then (if present (ef_environment f) then ef_environment f else cx_environment c)
                          else en_environment e),
       en_by_source := AList.update (cx_id c) (entry_of c f run_id now (map_of (en_by_source e) (cx_id c)))
                         (en_by_source e),
       en_updated_at := now\<rparr>"

record run_state =
  ru_resolver :: resolver
  ru_edges :: "((string \<times> string \<times> string) \<times> jobj \<times> real \<times> string) list"  \<comment> \<open>\<open>edges_seen\<close>\<close>
  ru_stats :: run_stats
  ru_store :: inventory

definition resolve_fact ::
  "discovery_settings \<Rightarrow> connector \<Rightarrow> string \<Rightarrow> instant \<Rightarrow> entity_fact \<Rightarrow> run_state \<Rightarrow> entity \<times> run_state" where
  "resolve_fact ds c run_id now f u =
     (let keys = set_sorted (ef_strong_keys f);
          (found, r1) = candidates (cx_tenant_id c) keys (ru_store u) (ru_resolver u);
          (e, r2, s2) =
            (case found of
               [] \<Rightarrow>
                 (let (i, s1) = fresh_row ds (ru_store u); e0 = new_entity c f keys i now;
                      r = index_entity e0 r1
                  in (e0, r\<lparr>re_created := re_created r @ [i]\<rparr>, s1))
             | e0 # others \<Rightarrow> foldl (merge_found ds now) (e0, r1, ru_store u) others);
          (e3, st3, s3) = check_definition ds (add_fact c f keys run_id now e) f now (ru_stats u, s2)
      in (e3, u\<lparr>ru_resolver := index_entity e3 r2, ru_stats := st3, ru_store := s3\<rparr>))"

definition resolve_refs ::
  "discovery_settings \<Rightarrow> connector \<Rightarrow> string \<Rightarrow> instant \<Rightarrow> (string \<times> string) list \<times> run_state \<Rightarrow> entity_fact \<Rightarrow>
   (string \<times> string) list \<times> run_state" where
  "resolve_refs ds c run_id now xu f =
     (let (e, u') = resolve_fact ds c run_id now f (snd xu)
      in (AList.update (ef_ref f) (en_id e) (fst xu), u'))"

definition note_edge ::
  "(string \<times> string) list \<Rightarrow> string \<Rightarrow> ((string \<times> string \<times> string) \<times> jobj \<times> real \<times> string) list \<Rightarrow> edge_fact \<Rightarrow>
   ((string \<times> string \<times> string) \<times> jobj \<times> real \<times> string) list" where
  "note_edge refs rec_id seen x =
     (case (map_of refs (xf_src x), map_of refs (xf_dst x)) of
        (Some a, Some b) \<Rightarrow>
          if a \<noteq> [] \<and> b \<noteq> [] \<and> a \<noteq> b
          then AList.update (a, b, xf_kind x) (xf_attrs x, xf_confidence x, rec_id) seen else seen
      | _ \<Rightarrow> seen)"

definition apply_observation ::
  "discovery_settings \<Rightarrow> connector \<Rightarrow> string \<Rightarrow> instant \<Rightarrow> observation_record list \<times> run_state \<Rightarrow> observation \<Rightarrow>
   observation_record list \<times> run_state" where
  "apply_observation ds c run_id now ru x =
     (let (rec_id, s0) = fresh_row ds (ru_store (snd ru));
          (refs, u1) = foldl (resolve_refs ds c run_id now) ([], (snd ru)\<lparr>ru_store := s0\<rparr>) (os_entities x);
          rec = \<lparr>ob_id = rec_id, ob_tenant_id = cx_tenant_id c, ob_connector_id = cx_id c, ob_run_id = run_id,
                 ob_kind = os_kind x, ob_source_ref = limited 2000 (os_source_ref x),
                 ob_observed_at = (case os_observed_at x of None \<Rightarrow> now | Some t \<Rightarrow> t),
                 ob_payload_hash = ds_payload_hash ds x, ob_attrs = os_attrs x,
                 ob_entity_id = (if present (map_of refs ''self'') then map_of refs ''self''
                                 else case refs of [] \<Rightarrow> None | kv # _ \<Rightarrow> Some (snd kv))\<rparr>
      in (fst ru @ [rec], u1\<lparr>ru_edges := foldl (note_edge refs rec_id) (ru_edges u1) (os_edges x)\<rparr>))"

section \<open>Relations\<close>

definition EDGE_TTL :: int where
  "EDGE_TTL = 30 * 86400 * 1000000"

definition close_edge :: "instant \<Rightarrow> run_stats \<times> inventory \<Rightarrow> edge \<Rightarrow> run_stats \<times> inventory" where
  "close_edge now xs e =
     ((fst xs)\<lparr>st_edges_closed := Suc (st_edges_closed (fst xs))\<rparr>, put_edge (e\<lparr>ed_valid_to := Some now\<rparr>) (snd xs))"

definition existing_edges ::
  "connector \<Rightarrow> resolver \<Rightarrow> inventory \<Rightarrow> ((string \<times> string \<times> string) \<times> edge) list" where
  "existing_edges c r s =
     foldl (\<lambda>d e. AList.update (survivor r (ed_src e), survivor r (ed_dst e), ed_kind e) e d) []
       (list_edges s (cx_tenant_id c) None (Some (cx_id c)) None)"

definition reconcile_edge ::
  "discovery_settings \<Rightarrow> connector \<Rightarrow> instant \<Rightarrow>
   ((string \<times> string \<times> string) \<times> edge) list \<times> run_stats \<times> inventory \<Rightarrow>
   (string \<times> string \<times> string) \<times> jobj \<times> real \<times> string \<Rightarrow>
   ((string \<times> string \<times> string) \<times> edge) list \<times> run_stats \<times> inventory" where
  "reconcile_edge ds c now ex seen =
     (let (key, attrs, confidence, evidence) = seen; (existing, xs) = ex;
          current = map_of existing key; rest = AList.delete key existing in
      if (case current of None \<Rightarrow> False | Some e \<Rightarrow> ed_attrs e = attrs \<and> ed_confidence e = confidence)
      then (rest, fst xs, put_edge ((the current)\<lparr>ed_last_seen := now, ed_evidence := Some evidence\<rparr>) (snd xs))
      else (let (st1, s1) = (case current of None \<Rightarrow> xs | Some e \<Rightarrow> close_edge now xs e);
                (i, s2) = fresh_row ds s1
            in (rest, st1\<lparr>st_edges_opened := Suc (st_edges_opened st1)\<rparr>,
                put_edge \<lparr>ed_id = i, ed_tenant_id = cx_tenant_id c, ed_src = fst key, ed_dst = fst (snd key),
                          ed_kind = snd (snd key), ed_attrs = attrs, ed_source = cx_id c, ed_confidence = confidence,
                          ed_valid_from = now, ed_valid_to = None, ed_last_seen = now,
                          ed_evidence = Some evidence\<rparr> s2)))"

definition reconcile_edges ::
  "discovery_settings \<Rightarrow> connector \<Rightarrow> ((string \<times> string \<times> string) \<times> jobj \<times> real \<times> string) list \<Rightarrow> instant \<Rightarrow> bool \<Rightarrow>
   resolver \<Rightarrow> run_stats \<times> inventory \<Rightarrow> run_stats \<times> inventory" where
  "reconcile_edges ds c seen now full r xs =
     (let (left, ys) = foldl (reconcile_edge ds c now) (existing_edges c r (snd xs), xs) seen
      in foldl (close_edge now) ys
           (filter (\<lambda>e. full \<or> ed_last_seen e < now - EDGE_TTL) (map snd left)))"

definition drop_source :: "string \<Rightarrow> instant \<Rightarrow> entity \<Rightarrow> entity" where
  "drop_source i now e =
     (case map_of (en_by_source e) i of
        None \<Rightarrow> e
      | Some gone \<Rightarrow>
          let h = en_removed_from e in
          refresh_derived now
            (e\<lparr>en_by_source := AList.delete i (en_by_source e),
               en_removed_from := drop (length h - 9) h @
                 [\<lparr>rm_connector = i, rm_kind = so_kind gone, rm_at = now\<rparr>],
               en_updated_at := now\<rparr>))"

definition drop_unseen :: "connector \<Rightarrow> resolver \<Rightarrow> instant \<Rightarrow> inventory \<Rightarrow> inventory" where
  "drop_unseen c r now s =
     foldl (\<lambda>s e. put_entity (drop_source (cx_id c) now e) s) s
       (filter (\<lambda>e. map_of (re_by_id r) (en_id e) = None \<and> map_of (en_by_source e) (cx_id c) \<noteq> None)
         (tenant_entities s (cx_tenant_id c) 1000000))"

section \<open>The registry\<close>

definition registry_keys :: "string \<Rightarrow> string list" where
  "registry_keys a = [''agent:'' @ a, ''agent-name:'' @ a]"

definition registry_entry :: "agent_record \<Rightarrow> source_entry" where
  "registry_entry a = \<lparr>so_kind = ''registry'', so_connector = ''registry'', so_signals = [''registered''],
     so_attrs = [(''base_trust_score'', JInt (agr_base_trust_score a)),
                 (''allowed_tools'', JArr (map JStr (agr_allowed_tools a)))],
     so_managed = 0, so_direct = 0, so_at = None, so_run = None, so_environment = None, so_owner = agr_owner a\<rparr>"

definition registry_entity :: "agent_record \<Rightarrow> string \<Rightarrow> string \<Rightarrow> instant \<Rightarrow> entity" where
  "registry_entity a t i now =
     \<lparr>en_id = i, en_tenant_id = t, en_kind = ''agent'', en_name = agr_agent_id a,
      en_strong_keys = registry_keys (agr_agent_id a), en_weak_keys = [],
      en_by_source = [(REGISTRY_SOURCE, registry_entry a)], en_pinned = None, en_merged_from = [],
      en_removed_from = [], en_manual_links = [], en_sources = [], en_environment = None,
      en_first_seen = now, en_last_seen = now, en_likelihood = NoAgent, en_reasons = [], en_state = StNotAgent,
      en_registry_agent = Some (agr_agent_id a), en_owner_guess = None, en_managed_volume = 0,
      en_direct_volume = 0, en_probable_matches = [], en_ignored_until = None, en_ignore_reason = None,
      en_updated_at = now\<rparr>"

definition sync_agent :: "discovery_settings \<Rightarrow> string \<Rightarrow> instant \<Rightarrow> inventory \<Rightarrow> agent_record \<Rightarrow> inventory" where
  "sync_agent ds t now s a =
     (let keys = registry_keys (agr_agent_id a); entry = registry_entry a in
      case find_entities s t keys of
        [] \<Rightarrow> (let (i, s1) = fresh_row ds s in put_entity (registry_entity a t i now) s1)
      | e # _ \<Rightarrow>
          if map_of (en_by_source e) REGISTRY_SOURCE \<noteq> Some entry \<or> \<not> set keys \<subseteq> set (en_strong_keys e)
          then put_entity (e\<lparr>en_by_source := AList.update REGISTRY_SOURCE entry (en_by_source e),
                             en_strong_keys := set_sorted (en_strong_keys e @ keys)\<rparr>) s
          else s)"

text \<open>The agent ids after a prefix among the keys.\<close>

definition keyed_ids :: "string \<Rightarrow> string list \<Rightarrow> string list" where
  "keyed_ids prefix_text keys =
     map (drop (length prefix_text)) (filter (\<lambda>k. take (length prefix_text) k = prefix_text) keys)"

definition registry_gone :: "string list \<Rightarrow> entity \<Rightarrow> bool" where
  "registry_gone ids e \<longleftrightarrow>
     map_of (en_by_source e) REGISTRY_SOURCE \<noteq> None \<and>
     (case en_registry_agent e of None \<Rightarrow> True | Some a \<Rightarrow> a \<notin> set ids) \<and>
     list_all (\<lambda>a. a \<notin> set ids)
       (keyed_ids ''agent:'' (en_strong_keys e) @ keyed_ids ''agent-name:'' (en_strong_keys e))"

definition sync_registry :: "discovery_settings \<Rightarrow> string \<Rightarrow> instant \<Rightarrow> inventory \<Rightarrow> inventory" where
  "sync_registry ds t now s =
     (let agents = tenant_agents s t; s1 = foldl (sync_agent ds t now) s agents
      in foldl (\<lambda>s e. put_entity (e\<lparr>en_by_source := AList.delete REGISTRY_SOURCE (en_by_source e),
                                    en_registry_agent := None\<rparr>) s) s1
           (filter (registry_gone (map agr_agent_id agents)) (tenant_entities s1 t 1000000)))"

definition registry_link :: "string list \<Rightarrow> entity \<Rightarrow> string option" where
  "registry_link ids e =
     (case filter (\<lambda>a. a \<in> set ids)
             (keyed_ids ''agent:'' (en_strong_keys e) @ keyed_ids ''agent-name:'' (en_strong_keys e)) of
        [] \<Rightarrow> None | a # _ \<Rightarrow> Some a)"

section \<open>Deduplication\<close>

text \<open>\<open>owner\<close> maps a key to the id of its entity, whose current value is in the pool.\<close>

record dedupe_state =
  dd_pool :: "(string \<times> entity) list"
  dd_owner :: "(string \<times> string) list"
  dd_gone :: "string list"
  dd_store :: inventory

definition other_owners :: "dedupe_state \<Rightarrow> entity \<Rightarrow> string list" where
  "other_owners d e =
     filter (\<lambda>j. j \<noteq> en_id e)
       (map (\<lambda>k. the (map_of (dd_owner d) k)) (filter (\<lambda>k. map_of (dd_owner d) k \<noteq> None) (en_strong_keys e)))"

definition dedupe_target :: "dedupe_state \<Rightarrow> entity \<Rightarrow> string option" where
  "dedupe_target d e = (case other_owners d e of [] \<Rightarrow> None | j # _ \<Rightarrow> Some j)"

definition own_keys :: "string \<Rightarrow> string list \<Rightarrow> (string \<times> string) list \<Rightarrow> (string \<times> string) list" where
  "own_keys i keys ow = foldl (\<lambda>d k. AList.update k i d) ow keys"

definition dedupe_step :: "discovery_settings \<Rightarrow> instant \<Rightarrow> dedupe_state \<Rightarrow> entity \<Rightarrow> dedupe_state" where
  "dedupe_step ds now d e =
     (if en_id e \<in> set (dd_gone d) then d
      else (case dedupe_target d e of
              None \<Rightarrow> d\<lparr>dd_owner := own_keys (en_id e) (en_strong_keys e) (dd_owner d)\<rparr>
            | Some j \<Rightarrow>
                (let (t, s) = merge_rows ds (the (map_of (dd_pool d) j)) e now (dd_store d)
                 in d\<lparr>dd_pool := AList.update j t (dd_pool d),
                      dd_owner := own_keys j (en_strong_keys t) (dd_owner d),
                      dd_gone := dd_gone d @ [en_id e],
                      dd_store := put_entity t s\<rparr>)))"

definition dedupe ::
  "discovery_settings \<Rightarrow> entity list \<Rightarrow> instant \<Rightarrow> inventory \<Rightarrow> entity list \<times> inventory" where
  "dedupe ds es now s =
     (let d = foldl (dedupe_step ds now)
                \<lparr>dd_pool = map (\<lambda>e. (en_id e, e)) es, dd_owner = [], dd_gone = [], dd_store = s\<rparr>
                (sort_key (\<lambda>e. (en_first_seen e, en_id e)) es)
      in (map (\<lambda>e. the (map_of (dd_pool d) (en_id e))) (filter (\<lambda>e. en_id e \<notin> set (dd_gone d)) es), dd_store d))"

section \<open>Reconciling a tenant\<close>

definition probable_matches :: "entity list \<Rightarrow> entity \<Rightarrow> string list" where
  "probable_matches es e =
     limited 50 (set_sorted (filter (\<lambda>i. i \<noteq> en_id e)
       (concat (map (\<lambda>k. map en_id (filter (\<lambda>x. k \<in> set (en_weak_keys x)) es)) (en_weak_keys e)))))"

definition aged :: "instant \<Rightarrow> entity \<Rightarrow> entity" where
  "aged now e =
     e\<lparr>en_by_source := filter (\<lambda>kv. \<not> (fst kv \<noteq> REGISTRY_SOURCE \<and>
         (case so_at (snd kv) of None \<Rightarrow> False | Some t \<Rightarrow> t < now - EDGE_TTL))) (en_by_source e)\<rparr>"

text \<open>The evidence as of now, and what the rules make of it.\<close>

definition refreshed :: "agent_record list \<Rightarrow> entity list \<Rightarrow> instant \<Rightarrow> entity \<Rightarrow> entity" where
  "refreshed agents es now e =
     (let e1 = refresh_derived now (aged now (e\<lparr>en_probable_matches := probable_matches es e\<rparr>))
      in e1\<lparr>en_registry_agent := registry_link (map agr_agent_id agents) e1\<rparr>)"

definition registry_owner :: "agent_record list \<Rightarrow> string option \<Rightarrow> string option" where
  "registry_owner agents a =
     (if present a
      then (case map_of (map (\<lambda>x. (agr_agent_id x, x)) (rev agents)) (the a) of None \<Rightarrow> None | Some x \<Rightarrow> agr_owner x)
      else None)"

definition judged :: "discovery_settings \<Rightarrow> agent_record list \<Rightarrow> instant \<Rightarrow> entity \<Rightarrow> entity" where
  "judged ds agents now e =
     (let cl = classify (en_kind e) (signals_of e);
          e3 = e\<lparr>en_likelihood := fst cl\<rparr>;
          so = state_of (ds_day ds) e3 (signals_of e) (observed_by_connector e) now;
          ign = (if ignored e now
                 then [''ignored until '' @ ds_day ds (the (en_ignored_until e)) @ '': '' @
                       (case en_ignore_reason e of None \<Rightarrow> ''None'' | Some r \<Rightarrow> r)] else []);
          owner = registry_owner agents (en_registry_agent e)
      in e3\<lparr>en_state := fst so, en_reasons := snd cl @ snd so @ ign,
            en_owner_guess := (if present owner then owner else en_owner_guess e)\<rparr>)"

definition reconciled ::
  "discovery_settings \<Rightarrow> agent_record list \<Rightarrow> entity list \<Rightarrow> instant \<Rightarrow> entity \<Rightarrow> entity" where
  "reconciled ds agents es now e = judged ds agents now (refreshed agents es now e)"

definition watched :: "entity \<Rightarrow> entity_state \<times> likelihood \<times> string option \<times> string list \<times> string list \<times> instant \<times>
   string list \<times> int \<times> int \<times> string option \<times> string option" where
  "watched e = (en_state e, en_likelihood e, en_registry_agent e, en_reasons e, en_sources e, en_last_seen e,
     en_probable_matches e, en_managed_volume e, en_direct_volume e, en_owner_guess e, en_environment e)"

text \<open>The two loops over the findings of an entity.\<close>

definition resolve_step ::
  "bool \<Rightarrow> finding_kind set \<Rightarrow> instant \<Rightarrow> run_stats \<times> inventory \<Rightarrow> inventory_finding \<Rightarrow> run_stats \<times> inventory" where
  "resolve_step observed wanted now xs f =
     (if fi_kind f \<in> set AUTO_FINDINGS \<and> fi_kind f \<notin> wanted
      then resolve_finding now ''no longer applies'' xs f
      else if fi_kind f = ToolDefinitionChanged \<and> \<not> observed
      then resolve_finding now ''the tool is no longer listed by any server'' xs f
      else xs)"

definition open_step ::
  "discovery_settings \<Rightarrow> string \<Rightarrow> entity \<Rightarrow> finding_kind set \<Rightarrow> (string \<times> finding_kind) list \<Rightarrow> instant \<Rightarrow>
   run_stats \<times> inventory \<Rightarrow> finding_kind \<times> severity \<times> string \<Rightarrow> run_stats \<times> inventory" where
  "open_step ds t e have_kinds accepted now xs wanted =
     (if fst wanted \<in> have_kinds \<or> (en_id e, fst wanted) \<in> set accepted then xs
      else open_finding ds t (en_id e) (fst wanted) (fst (snd wanted)) (snd (snd wanted))
             (StateDetails (en_reasons e) (en_sources e) (en_owner_guess e)) now xs)"

definition update_findings ::
  "discovery_settings \<Rightarrow> string \<Rightarrow> entity \<Rightarrow> inventory_finding list \<Rightarrow> (string \<times> finding_kind) list \<Rightarrow> instant \<Rightarrow>
   run_stats \<times> inventory \<Rightarrow> run_stats \<times> inventory" where
  "update_findings ds t e opens accepted now xs =
     (let observed = observed_by_connector e; wanted = wanted_findings e observed now
      in foldl (open_step ds t e (fi_kind ` set opens) accepted now)
           (foldl (resolve_step observed (fst ` set wanted) now) xs opens) wanted)"

definition reconcile_entity ::
  "discovery_settings \<Rightarrow> string \<Rightarrow> agent_record list \<Rightarrow> entity list \<Rightarrow> inventory_finding list \<Rightarrow>
   (string \<times> finding_kind) list \<Rightarrow> instant \<Rightarrow> run_stats \<times> inventory \<Rightarrow> entity \<Rightarrow> run_stats \<times> inventory" where
  "reconcile_entity ds t agents es opens accepted now xs e =
     (let e' = reconciled ds agents es now e;
          st = fst xs;
          xs1 = (if watched e' \<noteq> watched e
                 then ((if en_state e \<noteq> en_state e'
                        then st\<lparr>st_state_changes := st_state_changes st @ [(en_id e, en_state e, en_state e')]\<rparr>
                        else st),
                       put_entity (e'\<lparr>en_updated_at := now\<rparr>) (snd xs))
                 else xs)
      in update_findings ds t e' (filter (\<lambda>f. fi_entity_id f = en_id e) opens) accepted now xs1)"

text \<open>The loop over the entities that deduplication left, and the steps before it.\<close>

definition reconcile_entities ::
  "discovery_settings \<Rightarrow> string \<Rightarrow> instant \<Rightarrow> run_stats \<Rightarrow> entity list \<times> inventory \<Rightarrow> run_stats \<times> inventory" where
  "reconcile_entities ds t now st ess =
     foldl (reconcile_entity ds t (tenant_agents (snd ess) t) (fst ess)
              (list_findings (snd ess) t (Some FindingOpen) None None 1000000)
              (map (\<lambda>f. (fi_entity_id f, fi_kind f)) (list_findings (snd ess) t (Some FindingAccepted) None None 1000000))
              now)
       (st, snd ess) (fst ess)"

definition dedupe_tenant :: "discovery_settings \<Rightarrow> string \<Rightarrow> instant \<Rightarrow> inventory \<Rightarrow> entity list \<times> inventory" where
  "dedupe_tenant ds t now s = dedupe ds (tenant_entities s t 1000000) now s"

definition reconcile_tenant ::
  "discovery_settings \<Rightarrow> string \<Rightarrow> instant \<Rightarrow> run_stats \<times> inventory \<Rightarrow> run_stats \<times> inventory" where
  "reconcile_tenant ds t now xs =
     reconcile_entities ds t now (fst xs) (dedupe_tenant ds t now (sync_registry ds t now (snd xs)))"

section \<open>One run\<close>

text \<open>
  What collecting gave: whether the connector lists everything (\<open>full_snapshot\<close>), the observations,
  the error that ended them and the warnings.
\<close>

record collected =
  cl_full_snapshot :: bool
  cl_observations :: "observation list"
  cl_error :: "string option"
  cl_warnings :: "string list"

definition cut_off :: "discovery_settings \<Rightarrow> collected \<Rightarrow> bool" where
  "cut_off ds g \<longleftrightarrow> ds_max_observations ds < length (cl_observations g)"

definition run_error :: "discovery_settings \<Rightarrow> collected \<Rightarrow> string option" where
  "run_error ds g = (if cut_off ds g then None else cl_error g)"

definition run_warnings :: "discovery_settings \<Rightarrow> collected \<Rightarrow> string list" where
  "run_warnings ds g =
     (if cut_off ds g \<and> length (cl_warnings g) < 50
      then cl_warnings g @ [''stopped at '' @ str_int (int (ds_max_observations ds)) @
                            '' observations (DISCOVERY_MAX_OBSERVATIONS)'']
      else cl_warnings g)"

definition clean_run :: "discovery_settings \<Rightarrow> collected \<Rightarrow> bool" where
  "clean_run ds g \<longleftrightarrow> run_error ds g = None \<and> cl_warnings g = [] \<and> \<not> cut_off ds g"

definition run_observations ::
  "discovery_settings \<Rightarrow> connector \<Rightarrow> string \<Rightarrow> instant \<Rightarrow> collected \<Rightarrow> inventory \<Rightarrow>
   observation_record list \<times> run_state" where
  "run_observations ds c run_id now g s =
     foldl (apply_observation ds c run_id now)
       ([], \<lparr>ru_resolver = new_resolver, ru_edges = [], ru_stats = no_stats, ru_store = s\<rparr>)
       (map sanitize_observation (take (ds_max_observations ds) (cl_observations g)))"

definition save_run :: "instant \<Rightarrow> observation_record list \<times> run_state \<Rightarrow> inventory" where
  "save_run now ru =
     foldl (\<lambda>s e. put_entity (refresh_derived now e) s) (add_observations (fst ru) (ru_store (snd ru)))
       (map snd (re_by_id (ru_resolver (snd ru))))"

definition run_edges ::
  "discovery_settings \<Rightarrow> connector \<Rightarrow> instant \<Rightarrow> bool \<Rightarrow> observation_record list \<times> run_state \<Rightarrow>
   run_stats \<times> inventory" where
  "run_edges ds c now full ru =
     reconcile_edges ds c (ru_edges (snd ru)) now full (ru_resolver (snd ru)) (ru_stats (snd ru), save_run now ru)"

definition run_drop ::
  "connector \<Rightarrow> instant \<Rightarrow> bool \<Rightarrow> observation_record list \<times> run_state \<Rightarrow> run_stats \<times> inventory \<Rightarrow>
   run_stats \<times> inventory" where
  "run_drop c now full ru xs =
     (fst xs, if full then drop_unseen c (ru_resolver (snd ru)) now (snd xs) else snd xs)"

definition run_result ::
  "discovery_settings \<Rightarrow> collected \<Rightarrow> sync_run \<Rightarrow> instant \<Rightarrow> observation_record list \<times> run_state \<Rightarrow>
   run_stats \<times> inventory \<Rightarrow> sync_run \<times> inventory" where
  "run_result ds g run finished ru xs =
     (run\<lparr>sr_observations := length (fst ru),
          sr_entities_created := length (re_created (ru_resolver (snd ru))),
          sr_entities_updated := length (re_by_id (ru_resolver (snd ru))) - length (re_created (ru_resolver (snd ru))),
          sr_edges_opened := st_edges_opened (fst xs), sr_edges_closed := st_edges_closed (fst xs),
          sr_findings_opened := st_findings_opened (fst xs), sr_findings_resolved := st_findings_resolved (fst xs),
          sr_warnings := run_warnings ds g, sr_error := run_error ds g,
          sr_status := (if present (run_error ds g) \<and> fst ru = [] then RunError
                        else if clean_run ds g then RunOk else RunPartial),
          sr_finished_at := Some finished\<rparr>, snd xs)"

text \<open>The part under the tenant's lock, after the observations were applied.\<close>

definition conclude_run ::
  "discovery_settings \<Rightarrow> connector \<Rightarrow> collected \<Rightarrow> sync_run \<Rightarrow> instant \<Rightarrow> instant \<Rightarrow>
   observation_record list \<times> run_state \<Rightarrow> sync_run \<times> inventory" where
  "conclude_run ds c g run now finished ru =
     run_result ds g run finished ru
       (reconcile_tenant ds (cx_tenant_id c) now
         (run_drop c now (clean_run ds g \<and> cl_full_snapshot g) ru
           (run_edges ds c now (clean_run ds g \<and> cl_full_snapshot g) ru)))"

definition discovery_run ::
  "discovery_settings \<Rightarrow> connector \<Rightarrow> collected option \<Rightarrow> sync_run \<Rightarrow> instant \<Rightarrow> instant \<Rightarrow> inventory \<Rightarrow>
   sync_run \<times> inventory" where
  "discovery_run ds c got run now finished s =
     (case got of
        None \<Rightarrow> (run\<lparr>sr_status := RunError, sr_error := Some (''unknown connector kind '' @ cx_kind c)\<rparr>, s)
      | Some g \<Rightarrow> conclude_run ds c g run now finished (run_observations ds c (sr_id run) now g s))"

end
