(* ===== verification/Cp_Discovery_Props.thy ===== *)
theory Cp_Discovery_Props
  imports Cp_Discovery_Run
begin

text \<open>
  What the discovery pipeline guarantees: deduplication and where one pass stops short, the findings a
  reconciliation leaves open, and the relations a run records.
\<close>

section \<open>Examples\<close>

definition ex_discovery :: discovery_settings where
  "ex_discovery = \<lparr>ds_new_id = (\<lambda>n. replicate (Suc n) (CHR ''n'')), ds_day = (\<lambda>t. ''d''), ds_payload_hash = (\<lambda>x. ''h''),
     ds_max_observations = 10\<rparr>"

definition ex_connector :: connector where
  "ex_connector = \<lparr>cx_id = ''c'', cx_tenant_id = ''t'', cx_kind = ''k'', cx_name = ''k'', cx_config = [],
     cx_environment = None, cx_interval_minutes = 60, cx_enabled = True, cx_created_by = ''o'',
     cx_created_at = 0, cx_updated_at = 0, cx_last_run_at = None, cx_last_status = None, cx_last_error = None,
     cx_lease_owner = None, cx_lease_until = None\<rparr>"

definition ex_fact :: "string \<Rightarrow> string list \<Rightarrow> entity_fact" where
  "ex_fact r keys = \<lparr>ef_ref = r, ef_kind = ''w'', ef_name = ''n'', ef_strong_keys = keys, ef_weak_keys = [],
     ef_attrs = [], ef_signals = [], ef_environment = None, ef_owner = None, ef_managed_volume = 0,
     ef_direct_volume = 0\<rparr>"

definition ex_observation :: "entity_fact list \<Rightarrow> edge_fact list \<Rightarrow> observation" where
  "ex_observation fs es = \<lparr>os_kind = ''o'', os_source_ref = ''f'', os_entities = fs, os_edges = es,
     os_attrs = [], os_observed_at = None\<rparr>"

definition ex_entity :: "string \<Rightarrow> string list \<Rightarrow> instant \<Rightarrow> entity" where
  "ex_entity i keys t = new_entity ex_connector (ex_fact i keys) keys i t"

definition ex_run :: sync_run where
  "ex_run = \<lparr>sr_id = ''r'', sr_tenant_id = ''t'', sr_connector_id = ''c'', sr_triggered_by = ''o'',
     sr_started_at = 0, sr_finished_at = None, sr_status = RunRunning, sr_observations = 0,
     sr_entities_created = 0, sr_entities_updated = 0, sr_edges_opened = 0, sr_edges_closed = 0,
     sr_findings_opened = 0, sr_findings_resolved = 0, sr_warnings = [], sr_error = None\<rparr>"

text \<open>
  First a pod and the credential it holds; then a report that the pod's key belongs to a workload that
  was known before.
\<close>

definition ex_collected :: collected where
  "ex_collected = \<lparr>cl_full_snapshot = True,
     cl_observations =
       [ex_observation [ex_fact ''s'' [''p''], ex_fact ''c'' [''x'']]
          [\<lparr>xf_src = ''s'', xf_dst = ''c'', xf_kind = ''h'', xf_attrs = [], xf_confidence = 1\<rparr>],
        ex_observation [ex_fact ''s'' [''p'', ''w'']] []],
     cl_error = None, cl_warnings = []\<rparr>"

definition ex_inventory :: inventory where
  "ex_inventory = put_entity (ex_entity ''e'' [''w''] 5) empty_inventory"

definition dangling :: "inventory \<Rightarrow> edge \<Rightarrow> bool" where
  "dangling s e \<longleftrightarrow> ed_valid_to e = None \<and>
     (get_entity s (ed_tenant_id e) (ed_src e) = None \<or> get_entity s (ed_tenant_id e) (ed_dst e) = None)"

text \<open>A clean run can leave an open relation whose end was merged away within the same run and no longer
  exists: the relations seen are recorded under the ids entities had when they were observed, and only the
  relations already stored are mapped to the surviving entity.\<close>

theorem run_leaves_dangling_edge:
  "iv_edges ex_inventory = [] \<and>
   (case discovery_run ex_discovery ex_connector (Some ex_collected) ex_run 10 11 ex_inventory of
      (r, s) \<Rightarrow> sr_status r = RunOk \<and> list_ex (dangling s) (map snd (iv_edges s)))"
  by code_simp

section \<open>Deduplication\<close>

definition keys_disjoint :: "entity list \<Rightarrow> bool" where
  "keys_disjoint es \<longleftrightarrow>
     (\<forall>e \<in> set es. \<forall>x \<in> set es. en_id e \<noteq> en_id x \<longrightarrow> set (en_strong_keys e) \<inter> set (en_strong_keys x) = {})"

definition all_keys :: "entity list \<Rightarrow> string set" where
  "all_keys es = (\<Union>e \<in> set es. set (en_strong_keys e))"

text \<open>What reconciling again and again does to the entities.\<close>

definition dedupe_rounds ::
  "discovery_settings \<Rightarrow> instant \<Rightarrow> nat \<Rightarrow> entity list \<times> inventory \<Rightarrow> entity list \<times> inventory" where
  "dedupe_rounds ds now n ess = ((\<lambda>(es, s). dedupe ds es now s) ^^ n) ess"

lemma own_keys_map [simp]:
  "map_of (own_keys i ks ow) k = (if k \<in> set ks then Some i else map_of ow k)"
  unfolding own_keys_def by (induction ks arbitrary: ow) (auto simp: update_conv')

definition pool_value :: "dedupe_state \<Rightarrow> string \<Rightarrow> entity" where
  "pool_value d i = the (map_of (dd_pool d) i)"

text \<open>After some entities \<open>ps\<close> of \<open>es\<close> were visited.\<close>

definition dedupe_inv :: "entity list \<Rightarrow> entity list \<Rightarrow> dedupe_state \<Rightarrow> bool" where
  "dedupe_inv es ps d \<longleftrightarrow>
     set ps \<subseteq> set es \<and> dom (map_of (dd_pool d)) = en_id ` set es \<and>
     (\<forall>i \<in> en_id ` set es. en_id (pool_value d i) = i) \<and>
     (\<forall>k i. map_of (dd_owner d) k = Some i \<longrightarrow> i \<in> en_id ` set ps \<and> i \<notin> set (dd_gone d)) \<and>
     set (dd_gone d) \<subseteq> en_id ` set ps \<and>
     (\<forall>e \<in> set es - set ps. pool_value d (en_id e) = e) \<and>
     (\<Union>i \<in> en_id ` set es - set (dd_gone d). set (en_strong_keys (pool_value d i))) = all_keys es \<and>
     (dd_gone d = [] \<longrightarrow> (\<forall>e \<in> set es. pool_value d (en_id e) = e) \<and>
        (\<forall>e \<in> set ps. \<forall>k \<in> set (en_strong_keys e). map_of (dd_owner d) k = Some (en_id e)))"

lemma set_other_owners:
  "set (other_owners d e) = {j. j \<noteq> en_id e \<and> (\<exists>k \<in> set (en_strong_keys e). map_of (dd_owner d) k = Some j)}"
  by (force simp: other_owners_def)

lemma target_some:
  assumes "dedupe_target d e = Some j"
  shows "\<exists>k \<in> set (en_strong_keys e). map_of (dd_owner d) k = Some j" "j \<noteq> en_id e"
proof -
  have "j \<in> set (other_owners d e)" using assms by (auto simp: dedupe_target_def split: list.splits)
  then show "\<exists>k \<in> set (en_strong_keys e). map_of (dd_owner d) k = Some j" "j \<noteq> en_id e"
    by (simp_all add: set_other_owners)
qed

lemma target_none:
  assumes "dedupe_target d e = None" "k \<in> set (en_strong_keys e)" "map_of (dd_owner d) k = Some j"
  shows "j = en_id e"
proof -
  have "other_owners d e = []" using assms(1) by (simp add: dedupe_target_def split: list.splits)
  then have "set (other_owners d e) = {}" by simp
  then show ?thesis using assms(2,3) by (auto simp: set_other_owners)
qed

lemma merge_rows_entity [simp]: "fst (merge_rows ds keep other now s) = merge_into keep other"
  by (simp add: merge_rows_def Let_def)

lemma dedupe_step_keeps:
  assumes inv: "dedupe_inv es ps d" and e: "e \<in> set es" and new: "en_id e \<notin> en_id ` set ps"
    and ids: "distinct (map en_id es)"
  shows "dedupe_inv es (ps @ [e]) (dedupe_step ds now d e)"
proof -
  have gone: "en_id e \<notin> set (dd_gone d)" using inv new by (auto simp: dedupe_inv_def)
  have val: "pool_value d (en_id e) = e" using inv e new by (auto simp: dedupe_inv_def)
  have same: "x = y" if "x \<in> set es" "y \<in> set es" "en_id x = en_id y" for x y
    using that ids by (auto simp: distinct_map inj_on_def)
  show ?thesis
  proof (cases "dedupe_target d e")
    case None
    let ?d = "d\<lparr>dd_owner := own_keys (en_id e) (en_strong_keys e) (dd_owner d)\<rparr>"
    have step: "dedupe_step ds now d e = ?d" using gone None by (simp add: dedupe_step_def)
    have pv: "pool_value ?d = pool_value d" by (rule ext) (simp add: pool_value_def)
    have own: "map_of (dd_owner ?d) k = Some (en_id x)"
      if "dd_gone d = []" "x \<in> set ps" "k \<in> set (en_strong_keys x)" for x k
    proof -
      have "map_of (dd_owner d) k = Some (en_id x)" using inv that by (auto simp: dedupe_inv_def)
      then show ?thesis using target_none [OF None, of k "en_id x"] by auto
    qed
    have owns: "\<forall>x \<in> set (ps @ [e]). \<forall>k \<in> set (en_strong_keys x). map_of (dd_owner ?d) k = Some (en_id x)"
      if "dd_gone d = []"
      using own [OF that] by simp
    show ?thesis
      unfolding step dedupe_inv_def pv
    proof (intro conjI)
      show "dd_gone ?d = [] \<longrightarrow> (\<forall>x \<in> set es. pool_value d (en_id x) = x) \<and>
          (\<forall>x \<in> set (ps @ [e]). \<forall>k \<in> set (en_strong_keys x). map_of (dd_owner ?d) k = Some (en_id x))"
        using inv owns by (simp add: dedupe_inv_def)
      show "\<forall>k i. map_of (dd_owner ?d) k = Some i \<longrightarrow> i \<in> en_id ` set (ps @ [e]) \<and> i \<notin> set (dd_gone ?d)"
        using inv gone by (auto simp: dedupe_inv_def)
    qed (use inv e in \<open>auto simp: dedupe_inv_def\<close>)
  next
    case (Some j)
    let ?t = "merge_into (pool_value d j) e"
    obtain s where m: "merge_rows ds (pool_value d j) e now (dd_store d) = (?t, s)"
      by (metis merge_rows_entity prod.collapse)
    let ?d = "d\<lparr>dd_pool := AList.update j ?t (dd_pool d), dd_owner := own_keys j (en_strong_keys ?t) (dd_owner d),
                dd_gone := dd_gone d @ [en_id e], dd_store := put_entity ?t s\<rparr>"
    have step: "dedupe_step ds now d e = ?d"
      using gone Some m by (simp add: dedupe_step_def pool_value_def)
    obtain k where k: "map_of (dd_owner d) k = Some j" using target_some(1) [OF Some] by blast
    have j: "j \<in> en_id ` set ps" "j \<notin> set (dd_gone d)" "j \<noteq> en_id e"
      using inv k target_some(2) [OF Some] by (auto simp: dedupe_inv_def)
    have jes: "j \<in> en_id ` set es" using inv j(1) by (auto simp: dedupe_inv_def)
    have pv: "pool_value ?d i = (if i = j then ?t else pool_value d i)" for i
      by (simp add: pool_value_def update_conv')
    have ejd: "pool_value d j \<noteq> e" using inv jes j(3) by (auto simp: dedupe_inv_def)
    have keys: "(\<Union>i \<in> en_id ` set es - set (dd_gone ?d). set (en_strong_keys (pool_value ?d i))) = all_keys es"
    proof -
      let ?I = "en_id ` set es - set (dd_gone d)"
      let ?R = "?I - {j, en_id e}"
      have "?I = insert j (insert (en_id e) ?R)" using jes j gone e by auto
      then have "(\<Union>i \<in> ?I. set (en_strong_keys (pool_value d i))) =
          set (en_strong_keys (pool_value d j)) \<union> set (en_strong_keys e) \<union>
          (\<Union>i \<in> ?R. set (en_strong_keys (pool_value d i)))"
        by (metis (no_types, lifting) UN_insert val sup_assoc)
      moreover have "en_id ` set es - set (dd_gone ?d) = insert j ?R" using jes j gone by auto
      moreover have "(\<Union>i \<in> insert j ?R. set (en_strong_keys (pool_value ?d i))) =
          set (en_strong_keys (pool_value d j)) \<union> set (en_strong_keys e) \<union>
          (\<Union>i \<in> ?R. set (en_strong_keys (pool_value d i)))"
        by (simp add: pv)
      moreover have "(\<Union>i \<in> ?I. set (en_strong_keys (pool_value d i))) = all_keys es"
        using inv unfolding dedupe_inv_def by blast
      ultimately show ?thesis by simp
    qed
    have unseen: "pool_value ?d (en_id x) = x" if "x \<in> set es - set (ps @ [e])" for x
    proof -
      obtain y where "y \<in> set ps" "j = en_id y" using j(1) by auto
      moreover have "set ps \<subseteq> set es" using inv by (simp add: dedupe_inv_def)
      ultimately have "en_id x \<noteq> j" using that same by auto
      then show ?thesis using inv that by (auto simp: dedupe_inv_def pv)
    qed
    show ?thesis
      unfolding step dedupe_inv_def
    proof (intro conjI)
      show "dom (map_of (dd_pool ?d)) = en_id ` set es"
        using inv jes by (auto simp: dedupe_inv_def update_conv')
      show "\<forall>i \<in> en_id ` set es. en_id (pool_value ?d i) = i"
        using inv jes by (auto simp: dedupe_inv_def pv)
      show "\<forall>k i. map_of (dd_owner ?d) k = Some i \<longrightarrow> i \<in> en_id ` set (ps @ [e]) \<and> i \<notin> set (dd_gone ?d)"
        using inv j new by (auto simp: dedupe_inv_def)
    qed (use inv e keys unseen in \<open>auto simp: dedupe_inv_def\<close>)
  qed
qed


lemma dedupe_fold_keeps:
  assumes "dedupe_inv es ps d" "set zs \<subseteq> set es" "distinct (map en_id (ps @ zs))" "distinct (map en_id es)"
  shows "dedupe_inv es (ps @ zs) (foldl (dedupe_step ds now) d zs)"
  using assms
proof (induction zs arbitrary: ps d)
  case (Cons e zs)
  have "dedupe_inv es (ps @ [e]) (dedupe_step ds now d e)"
    using Cons.prems by (intro dedupe_step_keeps) auto
  then show ?case using Cons.IH [of "ps @ [e]" "dedupe_step ds now d e"] Cons.prems by simp
qed simp

text \<open>The state at the end of a pass.\<close>

definition dedupe_end :: "discovery_settings \<Rightarrow> entity list \<Rightarrow> instant \<Rightarrow> inventory \<Rightarrow> dedupe_state" where
  "dedupe_end ds es now s =
     foldl (dedupe_step ds now) \<lparr>dd_pool = map (\<lambda>e. (en_id e, e)) es, dd_owner = [], dd_gone = [], dd_store = s\<rparr>
       (sort_key (\<lambda>e. (en_first_seen e, en_id e)) es)"

lemma dedupe_alt:
  "dedupe ds es now s =
     (map (\<lambda>e. pool_value (dedupe_end ds es now s) (en_id e))
        (filter (\<lambda>e. en_id e \<notin> set (dd_gone (dedupe_end ds es now s))) es), dd_store (dedupe_end ds es now s))"
  by (simp add: dedupe_def dedupe_end_def pool_value_def Let_def)

lemma pool_start:
  assumes "distinct (map en_id es)" "e \<in> set es"
  shows "map_of (map (\<lambda>e. (en_id e, e)) es) (en_id e) = Some e"
  using assms by (intro map_of_is_SomeI) (auto simp: comp_def)

lemma dedupe_end_inv:
  assumes ids: "distinct (map en_id es)"
  shows "dedupe_inv es (sort_key (\<lambda>e. (en_first_seen e, en_id e)) es) (dedupe_end ds es now s)"
proof -
  let ?d = "\<lparr>dd_pool = map (\<lambda>e. (en_id e, e)) es, dd_owner = [], dd_gone = [], dd_store = s\<rparr>"
  have pv: "pool_value ?d (en_id e) = e" if "e \<in> set es" for e
    using pool_start [OF ids that] by (simp add: pool_value_def)
  have "dom (map_of (dd_pool ?d)) = en_id ` set es" by (simp add: dom_map_of_conv_image_fst image_image)
  then have "dedupe_inv es [] ?d" by (auto simp: dedupe_inv_def pv all_keys_def)
  moreover have "distinct (map en_id (sort_key (\<lambda>e. (en_first_seen e, en_id e)) es))"
    using ids by (simp add: distinct_map)
  ultimately show ?thesis
    unfolding dedupe_end_def
    using dedupe_fold_keeps [of es "[]" ?d "sort_key (\<lambda>e. (en_first_seen e, en_id e)) es" ds now] ids by simp
qed

lemma dedupe_ids:
  assumes "distinct (map en_id es)"
  shows "map en_id (fst (dedupe ds es now s)) =
    filter (\<lambda>i. i \<notin> set (dd_gone (dedupe_end ds es now s))) (map en_id es)"
proof -
  have "\<And>e. e \<in> set es \<Longrightarrow> en_id (pool_value (dedupe_end ds es now s) (en_id e)) = en_id e"
    using dedupe_end_inv [OF assms, of ds now s] by (auto simp: dedupe_inv_def)
  then show ?thesis by (simp add: dedupe_alt filter_map comp_def)
qed

lemma dedupe_keys:
  assumes "distinct (map en_id es)"
  shows "all_keys (fst (dedupe ds es now s)) = all_keys es"
proof -
  let ?d = "dedupe_end ds es now s"
  have "all_keys (fst (dedupe ds es now s)) =
      (\<Union>i \<in> en_id ` set es - set (dd_gone ?d). set (en_strong_keys (pool_value ?d i)))"
    by (auto simp: dedupe_alt all_keys_def)
  then show ?thesis using dedupe_end_inv [OF assms, of ds now s] by (simp add: dedupe_inv_def)
qed

text \<open>A pass that merges nothing found disjoint keys, and disjoint keys give such a pass.\<close>

lemma unmerged_disjoint:
  assumes ids: "distinct (map en_id es)" and none: "dd_gone (dedupe_end ds es now s) = []"
  shows "keys_disjoint es"
  unfolding keys_disjoint_def
proof (intro ballI impI)
  fix e x assume "e \<in> set es" "x \<in> set es" "en_id e \<noteq> en_id x"
  moreover have "\<forall>e \<in> set es. \<forall>k \<in> set (en_strong_keys e).
      map_of (dd_owner (dedupe_end ds es now s)) k = Some (en_id e)"
    using dedupe_end_inv [OF ids, of ds now s] none by (simp add: dedupe_inv_def)
  ultimately show "set (en_strong_keys e) \<inter> set (en_strong_keys x) = {}"
    by (metis disjoint_iff option.inject)
qed

lemma disjoint_fold:
  assumes "keys_disjoint es" "set zs \<subseteq> set es" "dd_gone d = []"
    "\<And>k i. map_of (dd_owner d) k = Some i \<Longrightarrow> \<exists>x \<in> set es. en_id x = i \<and> k \<in> set (en_strong_keys x)"
  shows "dd_gone (foldl (dedupe_step ds now) d zs) = [] \<and> dd_pool (foldl (dedupe_step ds now) d zs) = dd_pool d \<and>
    dd_store (foldl (dedupe_step ds now) d zs) = dd_store d"
  using assms
proof (induction zs arbitrary: d)
  case (Cons e zs)
  have e: "e \<in> set es" using Cons.prems by simp
  have "dedupe_target d e = None"
  proof (cases "dedupe_target d e")
    case (Some j)
    then obtain k where k: "k \<in> set (en_strong_keys e)" "map_of (dd_owner d) k = Some j" "j \<noteq> en_id e"
      using target_some by blast
    then obtain x where "x \<in> set es" "en_id x = j" "k \<in> set (en_strong_keys x)" using Cons.prems(4) by blast
    then show ?thesis using Cons.prems(1) e k by (auto simp: keys_disjoint_def)
  qed
  then have step: "dedupe_step ds now d e = d\<lparr>dd_owner := own_keys (en_id e) (en_strong_keys e) (dd_owner d)\<rparr>"
    using Cons.prems(3) by (simp add: dedupe_step_def)
  have owned: "\<exists>x \<in> set es. en_id x = i \<and> k \<in> set (en_strong_keys x)"
    if "map_of (dd_owner (dedupe_step ds now d e)) k = Some i" for k i
    using that Cons.prems(4) e by (auto simp: step split: if_splits)
  show ?case
    using Cons.IH [of "dedupe_step ds now d e", OF Cons.prems(1) _ _ owned] Cons.prems(2,3) by (simp add: step)
qed simp

lemma disjoint_stable:
  assumes "keys_disjoint es" "distinct (map en_id es)"
  shows "dedupe ds es now s = (es, s)"
proof -
  let ?d = "\<lparr>dd_pool = map (\<lambda>e. (en_id e, e)) es, dd_owner = [], dd_gone = [], dd_store = s\<rparr>"
  have fin: "dd_gone (dedupe_end ds es now s) = [] \<and> dd_pool (dedupe_end ds es now s) = dd_pool ?d \<and>
      dd_store (dedupe_end ds es now s) = s"
    unfolding dedupe_end_def
    using disjoint_fold [OF assms(1), of "sort_key (\<lambda>e. (en_first_seen e, en_id e)) es" ?d ds now] by simp
  have "pool_value (dedupe_end ds es now s) (en_id e) = e" if "e \<in> set es" for e
    using fin pool_start [OF assms(2) that] by (simp add: pool_value_def)
  then show ?thesis using fin by (simp add: dedupe_alt map_idI)
qed

lemma dedupe_shrinks:
  assumes ids: "distinct (map en_id es)" and shared: "\<not> keys_disjoint es"
  shows "length (fst (dedupe ds es now s)) < length es"
proof -
  let ?g = "dd_gone (dedupe_end ds es now s)"
  have "?g \<noteq> []" using unmerged_disjoint [OF ids] shared by blast
  moreover have "set ?g \<subseteq> en_id ` set es"
    using dedupe_end_inv [OF ids, of ds now s] by (simp add: dedupe_inv_def)
  ultimately obtain e where "e \<in> set es" "en_id e \<in> set ?g" by (cases ?g) auto
  then have "length (filter (\<lambda>e. en_id e \<notin> set ?g) es) < length es" by (intro length_filter_less) auto
  then show ?thesis by (simp add: dedupe_alt)
qed

lemma rounds_Suc: "dedupe_rounds ds now (Suc n) (es, s) = dedupe_rounds ds now n (dedupe ds es now s)"
  by (simp add: dedupe_rounds_def funpow_swap1)

text \<open>C40. Passes of deduplication end: after at most as many passes as there are entities no two entities share
  a strong key, further passes change nothing, and no key was lost.\<close>

theorem dedupe_converges:
  assumes "distinct (map en_id es)"
  shows "\<exists>n \<le> length es. keys_disjoint (fst (dedupe_rounds ds now n (es, s))) \<and>
           dedupe_rounds ds now (Suc n) (es, s) = dedupe_rounds ds now n (es, s) \<and>
           all_keys (fst (dedupe_rounds ds now n (es, s))) = all_keys es"
  using assms
proof (induction "length es" arbitrary: es s rule: less_induct)
  case less
  show ?case
  proof (cases "keys_disjoint es")
    case True
    then show ?thesis
      using disjoint_stable [OF True less.prems, of ds now s]
      by (intro exI [of _ 0]) (simp add: dedupe_rounds_def)
  next
    case False
    obtain es' s' where d: "dedupe ds es now s = (es', s')" by (cases "dedupe ds es now s")
    have shorter: "length es' < length es" using dedupe_shrinks [OF less.prems False, of ds now s] d by simp
    have ids: "distinct (map en_id es')" using dedupe_ids [OF less.prems, of ds now s] less.prems d by simp
    obtain n where n: "n \<le> length es'" "keys_disjoint (fst (dedupe_rounds ds now n (es', s')))"
      "dedupe_rounds ds now (Suc n) (es', s') = dedupe_rounds ds now n (es', s')"
      "all_keys (fst (dedupe_rounds ds now n (es', s'))) = all_keys es'"
      using less.hyps [OF shorter ids, of s'] by blast
    have "all_keys es' = all_keys es" using dedupe_keys [OF less.prems, of ds now s] d by simp
    then show ?thesis using n shorter rounds_Suc [of ds now n es s] rounds_Suc [of ds now "Suc n" es s] d
      by (intro exI [of _ "Suc n"]) simp
  qed
qed

definition ex_triangle :: "entity list" where
  "ex_triangle = [ex_entity ''a'' [''p''] 1, ex_entity ''b'' [''w''] 2, ex_entity ''c'' [''p'', ''w''] 3]"

theorem dedupe_converges_witness:
  "\<exists>n \<le> length ex_triangle. keys_disjoint (fst (dedupe_rounds ex_discovery 5 n (ex_triangle, ex_inventory))) \<and>
     dedupe_rounds ex_discovery 5 (Suc n) (ex_triangle, ex_inventory) =
       dedupe_rounds ex_discovery 5 n (ex_triangle, ex_inventory) \<and>
     all_keys (fst (dedupe_rounds ex_discovery 5 n (ex_triangle, ex_inventory))) = all_keys ex_triangle"
  by (rule dedupe_converges) (simp add: ex_triangle_def ex_entity_def new_entity_def)

text \<open>One pass is not enough: an entity that shares a key with each of two others is merged into the first
  only, and the two that are left share a key.\<close>

theorem one_pass_leaves_shared_key:
  "map (\<lambda>e. (en_id e, en_strong_keys e)) (fst (dedupe ex_discovery ex_triangle 5 ex_inventory)) =
     [(''a'', [''p'', ''w'']), (''b'', [''w''])]"
  by code_simp

end
