(* ===== verification/Cp_Discovery_Findings.thy ===== *)
theory Cp_Discovery_Findings
  imports Cp_Discovery_Props
begin

text \<open>
  The findings a reconciliation leaves: for every entity, a kind of automatic finding is open afterwards
  exactly when the rules want it and it was open already or was not accepted.
\<close>

section \<open>Rows of the findings table\<close>

definition rows :: "inventory \<Rightarrow> inventory_finding set" where
  "rows s = snd ` set (iv_findings s)"

text \<open>Every row is stored under its id, and ids to come are new.\<close>

definition findings_ok :: "discovery_settings \<Rightarrow> inventory \<Rightarrow> bool" where
  "findings_ok ds s \<longleftrightarrow>
     distinct (map fst (iv_findings s)) \<and> (\<forall>kv \<in> set (iv_findings s). fst kv = fi_id (snd kv)) \<and>
     inj (ds_new_id ds) \<and> (\<forall>n \<ge> iv_next s. ds_new_id ds n \<notin> fi_id ` rows s)"

lemma set_update_row:
  "distinct (map fst xs) \<Longrightarrow> set (AList.update i f xs) = {kv \<in> set xs. fst kv \<noteq> i} \<union> {(i, f)}"
  by (induction xs) (auto simp: image_iff)

lemma rows_put:
  assumes "findings_ok ds s"
  shows "rows (put_finding f s) = {g \<in> rows s. fi_id g \<noteq> fi_id f} \<union> {f}"
proof -
  have k: "\<And>a b. (a, b) \<in> set (iv_findings s) \<Longrightarrow> a = fi_id b"
    using assms by (auto simp: findings_ok_def)
  have d: "distinct (map fst (iv_findings s))" using assms by (simp add: findings_ok_def)
  have "rows (put_finding f s) = snd ` ({kv \<in> set (iv_findings s). fst kv \<noteq> fi_id f} \<union> {(fi_id f, f)})"
    unfolding set_update_row [OF d, symmetric] by (simp add: rows_def put_finding_def)
  also have "\<dots> = {g \<in> rows s. fi_id g \<noteq> fi_id f} \<union> {f}"
    using k by (auto simp: rows_def image_iff)
  finally show ?thesis .
qed

lemma rows_unique: "findings_ok ds s \<Longrightarrow> f \<in> rows s \<Longrightarrow> g \<in> rows s \<Longrightarrow> fi_id f = fi_id g \<Longrightarrow> f = g"
proof -
  assume ok: "findings_ok ds s" and f: "f \<in> rows s" and g: "g \<in> rows s" and eq: "fi_id f = fi_id g"
  have k: "\<And>x. x \<in> rows s \<Longrightarrow> (fi_id x, x) \<in> set (iv_findings s)"
    using ok by (force simp: findings_ok_def rows_def)
  have d: "distinct (map fst (iv_findings s))" using ok by (simp add: findings_ok_def)
  show "f = g" using eq_key_imp_eq_value [OF d k [OF f]] k [OF g] eq by simp
qed

lemma ok_put:
  assumes ok: "findings_ok ds s" and old: "\<forall>n \<ge> iv_next s. ds_new_id ds n \<noteq> fi_id f"
  shows "findings_ok ds (put_finding f s)"
  using ok old set_update_row [of "iv_findings s" "fi_id f" f]
  unfolding findings_ok_def rows_put [OF ok]
  by (auto simp: put_finding_def distinct_update)

lemma row_not_new: "findings_ok ds s \<Longrightarrow> f \<in> rows s \<Longrightarrow> iv_next s \<le> n \<Longrightarrow> ds_new_id ds n \<noteq> fi_id f"
  by (auto simp: findings_ok_def)

lemma rows_fresh [simp]: "rows (snd (fresh_row ds s)) = rows s"
  by (simp add: fresh_row_def rows_def)

lemma ok_fresh: "findings_ok ds s \<Longrightarrow> findings_ok ds (snd (fresh_row ds s))"
  by (simp add: findings_ok_def fresh_row_def rows_def)

section \<open>Resolving and opening\<close>

definition resolved :: "inventory_finding \<Rightarrow> inventory_finding \<Rightarrow> bool" where
  "resolved f g \<longleftrightarrow> fi_id g = fi_id f \<and> fi_entity_id g = fi_entity_id f \<and> fi_status g = FindingResolved"

lemma resolve_rows:
  assumes ok: "findings_ok ds s" and f: "f \<in> rows s"
  obtains g where "resolved f g" "rows (snd (resolve_finding now nt (st, s) f)) = rows s - {f} \<union> {g}"
    "findings_ok ds (snd (resolve_finding now nt (st, s) f))"
proof -
  let ?g = "f\<lparr>fi_status := FindingResolved, fi_resolved_at := Some now, fi_resolved_by := Some SYSTEM_ACTOR,
              fi_updated_at := now, fi_note := nt\<rparr>"
  have "rows (put_finding ?g s) = rows s - {f} \<union> {?g}"
    using rows_unique [OF ok _ f] by (auto simp: rows_put [OF ok])
  moreover have "findings_ok ds (put_finding ?g s)"
    using ok row_not_new [OF ok f] by (intro ok_put) auto
  moreover have "resolved f ?g" by (simp add: resolved_def)
  ultimately show ?thesis using that by (simp add: resolve_finding_def)
qed

lemma open_rows:
  assumes ok: "findings_ok ds s"
  obtains g where "fi_entity_id g = e" "fi_tenant_id g = t" "fi_kind g = k" "fi_status g = FindingOpen"
    "rows (snd (open_finding ds t e k sev summary det now (st, s))) = insert g (rows s)"
    "findings_ok ds (snd (open_finding ds t e k sev summary det now (st, s)))"
proof -
  let ?s = "snd (fresh_row ds s)"
  let ?g = "\<lparr>fi_id = ds_new_id ds (iv_next s), fi_tenant_id = t, fi_entity_id = e, fi_kind = k, fi_severity = sev,
      fi_summary = summary, fi_details = det, fi_status = FindingOpen, fi_created_at = now, fi_updated_at = now,
      fi_resolved_at = None, fi_resolved_by = None, fi_note = []\<rparr>"
  have new: "\<And>g. g \<in> rows s \<Longrightarrow> fi_id g \<noteq> ds_new_id ds (iv_next s)"
    using row_not_new [OF ok _ order.refl] by metis
  have "rows (put_finding ?g ?s) = insert ?g (rows s)" using new by (auto simp: rows_put [OF ok_fresh [OF ok]])
  moreover have "findings_ok ds (put_finding ?g ?s)"
    using ok by (intro ok_put ok_fresh) (auto simp: findings_ok_def fresh_row_def inj_eq)
  ultimately show ?thesis
    using that [of ?g] by (simp add: open_finding_def fresh_row_def)
qed

text \<open>What happens to the rows of one entity: those to resolve are, nothing else changes.\<close>

definition to_resolve :: "bool \<Rightarrow> finding_kind set \<Rightarrow> inventory_finding \<Rightarrow> bool" where
  "to_resolve observed wanted f \<longleftrightarrow>
     (fi_kind f \<in> set AUTO_FINDINGS \<and> fi_kind f \<notin> wanted) \<or> (fi_kind f = ToolDefinitionChanged \<and> \<not> observed)"

lemma resolve_all:
  assumes "findings_ok ds (snd xs)" "set opens \<subseteq> rows (snd xs)" "distinct opens"
    "\<And>f. f \<in> set opens \<Longrightarrow> fi_entity_id f = i"
  shows "findings_ok ds (snd (foldl (resolve_step ob w now) xs opens)) \<and>
    (\<forall>g. fi_status g \<noteq> FindingResolved \<or> fi_entity_id g \<noteq> i \<longrightarrow>
       (g \<in> rows (snd (foldl (resolve_step ob w now) xs opens)) \<longleftrightarrow>
        g \<in> rows (snd xs) \<and> \<not> (g \<in> set opens \<and> to_resolve ob w g)))"
  using assms
proof (induction opens arbitrary: xs)
  case (Cons f opens)
  obtain st s where xs: "xs = (st, s)" by (cases xs)
  let ?x = "resolve_step ob w now xs f"
  have f: "f \<in> rows s" and i: "fi_entity_id f = i" using Cons.prems by (auto simp: xs)
  have ok: "findings_ok ds s" using Cons.prems by (simp add: xs)
  have "\<exists>g. resolved f g \<and> findings_ok ds (snd ?x) \<and>
      rows (snd ?x) = (if to_resolve ob w f then rows s - {f} \<union> {g} else rows s)"
  proof (cases "to_resolve ob w f")
    case True
    then have "?x = resolve_finding now ''no longer applies'' (st, s) f \<or>
        ?x = resolve_finding now ''the tool is no longer listed by any server'' (st, s) f"
      by (auto simp: resolve_step_def to_resolve_def xs)
    then obtain nt where "?x = resolve_finding now nt (st, s) f" by blast
    then show ?thesis using resolve_rows [OF ok f, of now nt st] True by metis
  next
    case False
    then have "?x = xs" by (auto simp: resolve_step_def to_resolve_def)
    then show ?thesis using False ok by (auto simp: xs resolved_def intro: exI [of _ "f\<lparr>fi_status := FindingResolved\<rparr>"])
  qed
  then obtain g where g: "resolved f g" "findings_ok ds (snd ?x)"
    "rows (snd ?x) = (if to_resolve ob w f then rows s - {f} \<union> {g} else rows s)" by blast
  have sub: "set opens \<subseteq> rows (snd ?x)" using Cons.prems g by (auto simp: xs)
  have "\<And>h. h \<in> rows (snd ?x) \<and> (fi_status h \<noteq> FindingResolved \<or> fi_entity_id h \<noteq> i) \<longleftrightarrow>
      (h \<in> rows s \<and> \<not> (h = f \<and> to_resolve ob w h)) \<and> (fi_status h \<noteq> FindingResolved \<or> fi_entity_id h \<noteq> i)"
    using g i by (auto simp: resolved_def)
  moreover have "f \<notin> set opens" using Cons.prems by simp
  ultimately show ?case
    using Cons.IH [OF g(2) sub] Cons.prems by (auto simp: xs)
qed simp


definition has_open :: "string \<Rightarrow> inventory \<Rightarrow> string \<Rightarrow> finding_kind \<Rightarrow> bool" where
  "has_open t s i k \<longleftrightarrow>
     (\<exists>f \<in> rows s. fi_tenant_id f = t \<and> fi_entity_id f = i \<and> fi_kind f = k \<and> fi_status f = FindingOpen)"

definition wanted_kinds :: "entity \<Rightarrow> instant \<Rightarrow> finding_kind set" where
  "wanted_kinds e now = fst ` set (wanted_findings e (observed_by_connector e) now)"

lemma wanted_one: "wanted_findings e ob now = [] \<or> (\<exists>x. wanted_findings e ob now = [x])"
  by (simp add: wanted_findings_def Let_def)

lemma open_step_effect:
  assumes ok: "findings_ok ds (snd xs)"
  shows "findings_ok ds (snd (open_step ds t e hs acc now xs x)) \<and>
    (\<forall>g. fi_entity_id g \<noteq> en_id e \<longrightarrow> g \<in> rows (snd (open_step ds t e hs acc now xs x)) \<longleftrightarrow> g \<in> rows (snd xs)) \<and>
    (has_open t (snd (open_step ds t e hs acc now xs x)) (en_id e) k \<longleftrightarrow>
       has_open t (snd xs) (en_id e) k \<or> (k = fst x \<and> fst x \<notin> hs \<and> (en_id e, fst x) \<notin> set acc))"
proof (cases "fst x \<in> hs \<or> (en_id e, fst x) \<in> set acc")
  case True
  then show ?thesis using ok by (auto simp: open_step_def)
next
  case False
  obtain st s where xs: "xs = (st, s)" by (cases xs)
  let ?y = "open_finding ds t (en_id e) (fst x) (fst (snd x)) (snd (snd x))
             (StateDetails (en_reasons e) (en_sources e) (en_owner_guess e)) now (st, s)"
  have "findings_ok ds s" using ok by (simp add: xs)
  then obtain g where g: "fi_entity_id g = en_id e" "fi_tenant_id g = t" "fi_kind g = fst x" "fi_status g = FindingOpen"
    "rows (snd ?y) = insert g (rows s)" "findings_ok ds (snd ?y)"
    by (rule open_rows)
  have "open_step ds t e hs acc now xs x = ?y" using False by (simp add: open_step_def xs)
  then show ?thesis using g False by (auto simp: xs has_open_def)
qed

lemma update_effect:
  fixes e :: entity
  assumes ok: "findings_ok ds (snd xs)" and d: "distinct opens" and k: "k \<in> set AUTO_FINDINGS"
    and opens: "\<And>f. f \<in> set opens \<longleftrightarrow> f \<in> rows (snd xs) \<and> fi_tenant_id f = t \<and> fi_entity_id f = en_id e \<and>
        fi_status f = FindingOpen"
  shows "findings_ok ds (snd (update_findings ds t e opens acc now xs)) \<and>
    (\<forall>g. fi_entity_id g \<noteq> en_id e \<longrightarrow>
       g \<in> rows (snd (update_findings ds t e opens acc now xs)) \<longleftrightarrow> g \<in> rows (snd xs)) \<and>
    (has_open t (snd (update_findings ds t e opens acc now xs)) (en_id e) k \<longleftrightarrow>
       k \<in> wanted_kinds e now \<and> (has_open t (snd xs) (en_id e) k \<or> (en_id e, k) \<notin> set acc))"
proof -
  let ?ob = "observed_by_connector e"
  let ?w = "wanted_findings e ?ob now"
  let ?y = "foldl (resolve_step ?ob (fst ` set ?w) now) xs opens"
  let ?hs = "fi_kind ` set opens"
  have sub: "set opens \<subseteq> rows (snd xs)" "\<And>f. f \<in> set opens \<Longrightarrow> fi_entity_id f = en_id e" using opens by auto
  note r = resolve_all [OF ok sub(1) d sub(2), of ?ob "fst ` set ?w" now]
  have y_ok: "findings_ok ds (snd ?y)" using r by blast
  have y_other: "fi_entity_id g \<noteq> en_id e \<Longrightarrow> g \<in> rows (snd ?y) \<longleftrightarrow> g \<in> rows (snd xs)" for g
    using r sub(2) by blast
  have hs: "k \<in> ?hs \<longleftrightarrow> has_open t (snd xs) (en_id e) k" using opens by (auto simp: has_open_def image_iff)
  have y_open: "has_open t (snd ?y) (en_id e) k \<longleftrightarrow> has_open t (snd xs) (en_id e) k \<and> k \<in> fst ` set ?w"
  proof -
    have "g \<in> rows (snd ?y) \<longleftrightarrow> g \<in> rows (snd xs) \<and> k \<in> fst ` set ?w"
      if "fi_tenant_id g = t" "fi_entity_id g = en_id e" "fi_kind g = k" "fi_status g = FindingOpen" for g
    proof -
      have "to_resolve ?ob (fst ` set ?w) g \<longleftrightarrow> k \<notin> fst ` set ?w"
        using that k by (auto simp: to_resolve_def AUTO_FINDINGS_def)
      moreover have "g \<in> set opens \<longleftrightarrow> g \<in> rows (snd xs)" using that opens by simp
      moreover have "g \<in> rows (snd ?y) \<longleftrightarrow> g \<in> rows (snd xs) \<and> \<not> (g \<in> set opens \<and> to_resolve ?ob (fst ` set ?w) g)"
        using r that by (metis finding_status.distinct(1))
      ultimately show ?thesis by blast
    qed
    then show ?thesis unfolding has_open_def by blast
  qed
  have u: "update_findings ds t e opens acc now xs = foldl (open_step ds t e ?hs acc now) ?y ?w"
    by (simp add: update_findings_def Let_def)
  consider "?w = []" | x where "?w = [x]" using wanted_one by blast
  then show ?thesis
  proof cases
    case 1
    then show ?thesis using y_ok y_other y_open u by (simp add: wanted_kinds_def)
  next
    case 2
    note o1 = open_step_effect [OF y_ok, of t e ?hs acc now x k]
    show ?thesis
      using o1 y_other y_open hs 2 unfolding u by (auto simp: wanted_kinds_def)
  qed
qed


section \<open>All entities of a tenant\<close>

lemma refreshed_id [simp]: "en_id (refreshed agents es now e) = en_id e"
proof -
  have "en_id (refresh_derived now x) = en_id x" for x by (simp add: refresh_derived_def Let_def)
  then show ?thesis by (simp add: refreshed_def aged_def Let_def)
qed

lemma reconciled_id [simp]: "en_id (reconciled ds agents es now e) = en_id e"
  by (simp add: reconciled_def judged_def Let_def)

lemma put_entity_findings [simp]:
  "rows (put_entity e s) = rows s" "findings_ok ds (put_entity e s) = findings_ok ds s"
  by (simp_all add: rows_def findings_ok_def put_entity_def)

lemma has_open_rows: "rows s = rows s' \<Longrightarrow> has_open t s i k = has_open t s' i k"
  by (simp add: has_open_def)

lemma has_open_other:
  assumes "\<And>g. fi_entity_id g = i \<Longrightarrow> g \<in> rows s \<longleftrightarrow> g \<in> rows s'"
  shows "has_open t s i k \<longleftrightarrow> has_open t s' i k"
  using assms unfolding has_open_def by blast

lemma reconcile_entity_effect:
  fixes e :: entity
  assumes ok: "findings_ok ds (snd xs)" and d: "distinct opens" and k: "k \<in> set AUTO_FINDINGS"
    and opens: "\<And>f. fi_entity_id f = en_id e \<Longrightarrow> f \<in> set opens \<longleftrightarrow>
        f \<in> rows (snd xs) \<and> fi_tenant_id f = t \<and> fi_status f = FindingOpen"
  shows "findings_ok ds (snd (reconcile_entity ds t agents es opens acc now xs e)) \<and>
    (\<forall>g. fi_entity_id g \<noteq> en_id e \<longrightarrow>
       g \<in> rows (snd (reconcile_entity ds t agents es opens acc now xs e)) \<longleftrightarrow> g \<in> rows (snd xs)) \<and>
    (has_open t (snd (reconcile_entity ds t agents es opens acc now xs e)) (en_id e) k \<longleftrightarrow>
       k \<in> wanted_kinds (reconciled ds agents es now e) now \<and>
       (has_open t (snd xs) (en_id e) k \<or> (en_id e, k) \<notin> set acc))"
proof -
  let ?e = "reconciled ds agents es now e"
  obtain ys where ys: "rows (snd ys) = rows (snd xs)" "findings_ok ds (snd ys)"
    "reconcile_entity ds t agents es opens acc now xs e =
       update_findings ds t ?e (filter (\<lambda>f. fi_entity_id f = en_id e) opens) acc now ys"
    using that [of "if watched ?e \<noteq> watched e
        then ((if en_state e \<noteq> en_state ?e
               then (fst xs)\<lparr>st_state_changes := st_state_changes (fst xs) @ [(en_id e, en_state e, en_state ?e)]\<rparr>
               else fst xs), put_entity (?e\<lparr>en_updated_at := now\<rparr>) (snd xs)) else xs"] ok
    by (simp add: reconcile_entity_def Let_def)
  have "f \<in> set (filter (\<lambda>f. fi_entity_id f = en_id e) opens) \<longleftrightarrow>
      f \<in> rows (snd ys) \<and> fi_tenant_id f = t \<and> fi_entity_id f = en_id ?e \<and> fi_status f = FindingOpen" for f
    using opens by (auto simp: ys)
  from update_effect [OF ys(2) distinct_filter [OF d] k this, where now = now and acc = acc] show ?thesis
    by (simp add: ys has_open_rows [OF ys(1)])
qed

lemma reconcile_fold:
  assumes "findings_ok ds (snd xs)" "distinct opens" "k \<in> set AUTO_FINDINGS" "distinct (map en_id zs)"
    "\<And>f. fi_entity_id f \<in> en_id ` set zs \<Longrightarrow> f \<in> set opens \<longleftrightarrow>
        f \<in> rows (snd xs) \<and> fi_tenant_id f = t \<and> fi_status f = FindingOpen"
  shows "(\<forall>g. fi_entity_id g \<notin> en_id ` set zs \<longrightarrow>
       g \<in> rows (snd (foldl (reconcile_entity ds t agents es opens acc now) xs zs)) \<longleftrightarrow> g \<in> rows (snd xs)) \<and>
    (\<forall>e \<in> set zs. has_open t (snd (foldl (reconcile_entity ds t agents es opens acc now) xs zs)) (en_id e) k \<longleftrightarrow>
       k \<in> wanted_kinds (reconciled ds agents es now e) now \<and>
       (has_open t (snd xs) (en_id e) k \<or> (en_id e, k) \<notin> set acc))"
  using assms
proof (induction zs arbitrary: xs)
  case (Cons e zs)
  let ?x = "reconcile_entity ds t agents es opens acc now xs e"
  let ?r = "foldl (reconcile_entity ds t agents es opens acc now) ?x zs"
  have one: "\<And>f. fi_entity_id f = en_id e \<Longrightarrow> f \<in> set opens \<longleftrightarrow>
      f \<in> rows (snd xs) \<and> fi_tenant_id f = t \<and> fi_status f = FindingOpen"
    using Cons.prems(5) by simp
  note eff = reconcile_entity_effect [where e = e, OF Cons.prems(1-3) one, where agents = agents and es = es and acc = acc and now = now]
  have new: "en_id e \<notin> en_id ` set zs" using Cons.prems(4) by simp
  have rest: "\<And>f. fi_entity_id f \<in> en_id ` set zs \<Longrightarrow> f \<in> set opens \<longleftrightarrow>
      f \<in> rows (snd ?x) \<and> fi_tenant_id f = t \<and> fi_status f = FindingOpen"
  proof -
    fix f :: inventory_finding assume f: "fi_entity_id f \<in> en_id ` set zs"
    then have "fi_entity_id f \<noteq> en_id e" using new by metis
    then have "f \<in> rows (snd ?x) \<longleftrightarrow> f \<in> rows (snd xs)" using eff by blast
    then show "f \<in> set opens \<longleftrightarrow> f \<in> rows (snd ?x) \<and> fi_tenant_id f = t \<and> fi_status f = FindingOpen"
      using Cons.prems(5) [of f] f by simp
  qed
  have ids: "distinct (map en_id zs)" using Cons.prems(4) by simp
  have ok': "findings_ok ds (snd ?x)" using eff by blast
  have ih: "(\<forall>g. fi_entity_id g \<notin> en_id ` set zs \<longrightarrow> g \<in> rows (snd ?r) \<longleftrightarrow> g \<in> rows (snd ?x)) \<and>
      (\<forall>e \<in> set zs. has_open t (snd ?r) (en_id e) k \<longleftrightarrow>
         k \<in> wanted_kinds (reconciled ds agents es now e) now \<and>
         (has_open t (snd ?x) (en_id e) k \<or> (en_id e, k) \<notin> set acc))"
    by (rule Cons.IH [OF ok' Cons.prems(2,3) ids]) (rule rest)
  have e: "has_open t (snd ?r) (en_id e) k \<longleftrightarrow> has_open t (snd ?x) (en_id e) k"
    using ih new by (intro has_open_other) auto
  have zs: "has_open t (snd ?x) (en_id z) k \<longleftrightarrow> has_open t (snd xs) (en_id z) k" if "z \<in> set zs" for z
  proof (rule has_open_other)
    fix g :: inventory_finding assume "fi_entity_id g = en_id z"
    then have "fi_entity_id g \<noteq> en_id e" using new that by (metis imageI)
    then show "g \<in> rows (snd ?x) \<longleftrightarrow> g \<in> rows (snd xs)" using eff by blast
  qed
  show ?case
    using ih eff e zs by auto
qed simp

definition has_accepted :: "string \<Rightarrow> inventory \<Rightarrow> string \<Rightarrow> finding_kind \<Rightarrow> bool" where
  "has_accepted t s i k \<longleftrightarrow>
     (\<exists>f \<in> rows s. fi_tenant_id f = t \<and> fi_entity_id f = i \<and> fi_kind f = k \<and> fi_status f = FindingAccepted)"

lemma sorted_desc_simps [simp]:
  "length (sorted_desc f xs) = length xs" "set (sorted_desc f xs) = set xs"
  "distinct (sorted_desc f xs) = distinct xs"
  by (simp_all add: sorted_desc_def)

lemma list_findings_all:
  assumes "findings_ok ds s" "length (iv_findings s) \<le> 1000000"
  shows "set (list_findings s t (Some st) None None 1000000) = {f \<in> rows s. fi_tenant_id f = t \<and> fi_status f = st}"
    and "distinct (list_findings s t (Some st) None None 1000000)"
proof -
  let ?P = "\<lambda>f :: inventory_finding. fi_tenant_id f = t \<and> st = fi_status f"
  have len: "int (length (sorted_desc fi_created_at (filter ?P (map snd (iv_findings s))))) \<le> 1000000"
    using order.trans [OF length_filter_le [of ?P "map snd (iv_findings s)"]] assms(2)
    unfolding sorted_desc_simps length_map by fastforce
  have l: "list_findings s t (Some st) None None 1000000 = sorted_desc fi_created_at (filter ?P (map snd (iv_findings s)))"
    using limited_all [OF len] by (simp add: list_findings_def)
  show "set (list_findings s t (Some st) None None 1000000) = {f \<in> rows s. fi_tenant_id f = t \<and> fi_status f = st}"
    unfolding l by (auto simp: rows_def)
  have "distinct (map fst (iv_findings s))" "\<And>kv. kv \<in> set (iv_findings s) \<Longrightarrow> fst kv = fi_id (snd kv)"
    using assms(1) by (simp_all add: findings_ok_def)
  then have "distinct (map snd (iv_findings s))"
    by (auto simp: distinct_map inj_on_def prod_eq_iff)
  then show "distinct (list_findings s t (Some st) None None 1000000)"
    unfolding l by simp
qed

text \<open>C39. After a reconciliation, for every entity of the tenant an automatic finding of a kind is open exactly
  when the rules want that kind for the reconciled entity, and it was open before or was not accepted: no shadow,
  unmanaged or stale agent goes unreported, and no finding stays open that no longer applies.\<close>

theorem findings_follow_rules:
  assumes ok: "findings_ok ds s" and ids: "distinct (map en_id es)" and few: "length (iv_findings s) \<le> 1000000"
    and e: "e \<in> set es" and k: "k \<in> set AUTO_FINDINGS"
  shows "has_open t (snd (reconcile_entities ds t now st (es, s))) (en_id e) k \<longleftrightarrow>
    k \<in> wanted_kinds (reconciled ds (tenant_agents s t) es now e) now \<and>
    (has_open t s (en_id e) k \<or> \<not> has_accepted t s (en_id e) k)"
proof -
  let ?acc = "map (\<lambda>f. (fi_entity_id f, fi_kind f)) (list_findings s t (Some FindingAccepted) None None 1000000)"
  have acc: "(en_id e, k) \<in> set ?acc \<longleftrightarrow> has_accepted t s (en_id e) k"
    using list_findings_all(1) [OF ok few, of t FindingAccepted] by (auto simp: has_accepted_def image_iff)
  show ?thesis
    using reconcile_fold [of ds "(st, s)", OF _ list_findings_all(2) [OF ok few] k ids,
        where t = t and agents = "tenant_agents s t" and es = es and acc = ?acc and now = now] ok e acc list_findings_all(1) [OF ok few, of t FindingOpen]
    by (simp add: reconcile_entities_def)
qed

text \<open>A workload that calls a model and uses tools, in no registry.\<close>

definition ex_shadow :: entity where
  "ex_shadow = add_fact ex_connector
     ((ex_fact ''s'' [''p''])\<lparr>ef_kind := ''agent'', ef_signals := [''calls_model'', ''uses_tools'']\<rparr>)
     [''p''] ''r'' 5 (ex_entity ''a'' [''p''] 5)\<lparr>en_kind := ''agent''\<rparr>"

theorem findings_follow_rules_witness:
  "has_open ''t'' (snd (reconcile_entities ex_discovery ''t'' 10 no_stats ([ex_shadow], ex_inventory))) (en_id ex_shadow) ShadowAgent"
proof -
  have ok: "findings_ok ex_discovery ex_inventory"
    by (auto simp: findings_ok_def ex_inventory_def empty_inventory_def put_entity_def rows_def ex_discovery_def
        inj_def replicate_eq_replicate)
  have few: "length (iv_findings ex_inventory) \<le> 1000000"
    by (simp add: ex_inventory_def empty_inventory_def put_entity_def)
  have "ShadowAgent \<in> wanted_kinds (reconciled ex_discovery (tenant_agents ex_inventory ''t'') [ex_shadow] 10 ex_shadow) 10"
    by code_simp
  moreover have "\<not> has_accepted ''t'' ex_inventory (en_id ex_shadow) ShadowAgent"
    by (simp add: has_accepted_def rows_def ex_inventory_def empty_inventory_def put_entity_def)
  ultimately show ?thesis
    by (subst findings_follow_rules [OF ok _ few]) (simp_all add: AUTO_FINDINGS_def)
qed

end
