(* ===== verification/Cp_Discovery_Service.thy ===== *)
theory Cp_Discovery_Service
  imports Cp_Discovery_Run Cp_Fleet
begin

text \<open>
  The discovery service (\<^verbatim>\<open>services/discovery.py\<close>): connectors and their leases, runs, the inventory
  and what operators decide about it. Its state is the control store with the tables of the inventory;
  the agents the inventory sees are those of the store. After a change the catalog is published again,
  whose flags come from the open findings. The connector kinds (\<^verbatim>\<open>discovery/registry.py\<close>) are a
  parameter: what validating a configuration gives, and what a run collects.
\<close>

section \<open>State and settings\<close>

record discovery_service =
  dv_pipeline :: discovery_settings
  dv_catalog :: catalog_settings
  dv_instance :: string
  dv_config :: "string \<Rightarrow> jobj \<Rightarrow> (string list + jobj) option"  \<comment> \<open>\<open>get_kind(kind).Config\<close>\<close>

record discovery_world =
  dw_store :: control_store
  dw_tables :: inventory

definition inventory_of :: "discovery_world \<Rightarrow> inventory" where
  "inventory_of w = (dw_tables w)\<lparr>iv_agents := list_agent_rows (dw_store w) None\<rparr>"

definition LEASE :: int where
  "LEASE = 30 * 60 * 1000000"

definition MAX_GRAPH_NODES :: nat where
  "MAX_GRAPH_NODES = 300"

definition OBSERVATION_RETENTION :: int where
  "OBSERVATION_RETENTION = 90 * 86400 * 1000000"

fun finding_kind_value :: "finding_kind \<Rightarrow> string" where
  "finding_kind_value ShadowAgent = ''shadow_agent''"
| "finding_kind_value ProbableShadowAgent = ''probable_shadow_agent''"
| "finding_kind_value UnmanagedAgent = ''unmanaged_agent''"
| "finding_kind_value StaleAgent = ''stale_agent''"
| "finding_kind_value ToolDefinitionChanged = ''tool_definition_changed''"

fun finding_status_value :: "finding_status \<Rightarrow> string" where
  "finding_status_value FindingOpen = ''open''"
| "finding_status_value FindingResolved = ''resolved''"
| "finding_status_value FindingAccepted = ''accepted''"

text \<open>What \<open>_inventory_flags\<close> of the catalog service reads.\<close>

definition catalog_view :: "catalog_settings \<Rightarrow> inventory \<Rightarrow> catalog_settings" where
  "catalog_view kg s =
     kg\<lparr>kg_open_findings := (\<lambda>t. map (\<lambda>f. (finding_kind_value (fi_kind f), fi_entity_id f))
           (list_findings s t (Some FindingOpen) None None 100000)),
        kg_entities := (\<lambda>t. map (\<lambda>e. (en_id e, en_name e, en_registry_agent e)) (tenant_entities s t 1000000))\<rparr>"

text \<open>\<open>_republish\<close>: a catalog that cannot be built is only logged.\<close>

definition republish :: "discovery_service \<Rightarrow> instant \<Rightarrow> string \<Rightarrow> discovery_world \<Rightarrow> discovery_world" where
  "republish sv now fresh w =
     w\<lparr>dw_store := snd (publish_catalog (catalog_view (dv_catalog sv) (inventory_of w)) now fresh (dw_store w))\<rparr>"

definition logged :: "string \<Rightarrow> string \<Rightarrow> string \<Rightarrow> admin \<Rightarrow> discovery_world \<Rightarrow> discovery_world" where
  "logged entity i what p w = w\<lparr>dw_store := log_change entity i what (actor p) (dw_store w)\<rparr>"

section \<open>Connectors\<close>

definition require_connector :: "string \<Rightarrow> string \<Rightarrow> discovery_world \<Rightarrow> cp_error + connector" where
  "require_connector t i w =
     (case get_connector (dw_tables w) i of
        Some c \<Rightarrow> if cx_tenant_id c = t then Inr c else Inl (NotFound (''connector '' @ i @ '' not found''))
      | None \<Rightarrow> Inl (NotFound (''connector '' @ i @ '' not found'')))"

definition validated_config :: "discovery_service \<Rightarrow> string \<Rightarrow> jobj \<Rightarrow> cp_error + jobj" where
  "validated_config sv kind config =
     (case dv_config sv kind config of
        None \<Rightarrow> Inl (ValidationFailed (''unknown connector kind '' @ quoted kind) [''see GET /inv/v1/connector-kinds''] [])
      | Some (Inl errs) \<Rightarrow> Inl (ValidationFailed (''invalid '' @ kind @ '' configuration'') errs [])
      | Some (Inr c) \<Rightarrow> Inr c)"

definition checked_environment :: "string option \<Rightarrow> cp_error + string option" where
  "checked_environment env =
     (if env \<notin> {None, Some ''dev'', Some ''staging'', Some ''production''}
      then Inl (ValidationFailed ''environment must be one of dev, staging, production'' [] []) else Inr env)"

definition visible_connector :: "admin \<Rightarrow> connector \<Rightarrow> connector" where
  "visible_connector p c = (if can p DiscoveryWrite (Some (cx_tenant_id c)) then c else c\<lparr>cx_config := []\<rparr>)"

definition connectors_for :: "admin \<Rightarrow> string \<Rightarrow> discovery_world \<Rightarrow> cp_error + connector list" where
  "connectors_for p t w =
     (if \<not> can p PermRead (Some t) then Inl (Forbidden PermRead (Some t))
      else Inr (map (visible_connector p) (list_connectors (dw_tables w) (Some t))))"

definition view_connector :: "admin \<Rightarrow> string \<Rightarrow> string \<Rightarrow> discovery_world \<Rightarrow> cp_error + connector" where
  "view_connector p t i w =
     (if \<not> can p PermRead (Some t) then Inl (Forbidden PermRead (Some t))
      else result_bind (require_connector t i w) (\<lambda>c. Inr (visible_connector p c)))"

text \<open>The field constraints of \<open>ConnectorRecord\<close>.\<close>

definition connector_problems :: "string \<Rightarrow> int \<Rightarrow> string list" where
  "connector_problems name interval =
     (if 1 \<le> length name \<and> length name \<le> 100 then [] else [''name'']) @
     (if 5 \<le> interval \<and> interval \<le> 10080 then [] else [''interval_minutes''])"

record connector_body =
  cb_kind :: string
  cb_name :: string
  cb_config :: jobj
  cb_environment :: "string option"
  cb_interval_minutes :: int
  cb_enabled :: bool

definition create_connector ::
  "discovery_service \<Rightarrow> admin \<Rightarrow> string \<Rightarrow> connector_body \<Rightarrow> instant \<Rightarrow> discovery_world \<Rightarrow>
   (cp_error + connector) \<times> discovery_world" where
  "create_connector sv p t b now w =
     (if \<not> can p DiscoveryWrite (Some t) then (Inl (Forbidden DiscoveryWrite (Some t)), w)
      else (case result_bind (require_tenant t (dw_store w)) (\<lambda>_.
                   result_bind (validated_config sv (cb_kind b) (cb_config b)) (\<lambda>config.
                   result_bind (checked_environment (cb_environment b)) (\<lambda>env.
                   result_bind (guard_that (connector_problems (cb_name b) (cb_interval_minutes b) = [])
                       (ValidationFailed ''invalid connector'' (connector_problems (cb_name b) (cb_interval_minutes b)) []))
                   (\<lambda>_. Inr (config, env))))) of
              Inl e \<Rightarrow> (Inl e, w)
            | Inr (config, env) \<Rightarrow>
                (let (i, s) = fresh_row (dv_pipeline sv) (dw_tables w);
                     c = \<lparr>cx_id = i, cx_tenant_id = t, cx_kind = cb_kind b, cx_name = cb_name b, cx_config = config,
                          cx_environment = env, cx_interval_minutes = cb_interval_minutes b,
                          cx_enabled = cb_enabled b, cx_created_by = actor p, cx_created_at = now,
                          cx_updated_at = now, cx_last_run_at = None, cx_last_status = None, cx_last_error = None,
                          cx_lease_owner = None, cx_lease_until = None\<rparr>
                 in (Inr c, logged ''connector'' i ''create'' p (w\<lparr>dw_tables := put_connector c s\<rparr>)))))"

text \<open>The keys of a patch; only the outer \<open>None\<close> of a field means that the key is absent.\<close>

record connector_changes =
  cc_config :: "jobj option option"
  cc_environment :: "string option option"
  cc_name :: "string option"
  cc_interval_minutes :: "int option"
  cc_enabled :: "bool option"

definition changed_connector ::
  "discovery_service \<Rightarrow> connector_changes \<Rightarrow> instant \<Rightarrow> connector \<Rightarrow> cp_error + connector" where
  "changed_connector sv ch now c =
     result_bind (case cc_config ch of
                    None \<Rightarrow> Inr (cx_config c)
                  | Some x \<Rightarrow> validated_config sv (cx_kind c) (case x of None \<Rightarrow> [] | Some d \<Rightarrow> d)) (\<lambda>config.
     result_bind (case cc_environment ch of None \<Rightarrow> Inr (cx_environment c) | Some e \<Rightarrow> checked_environment e) (\<lambda>env.
       let name = (case cc_name ch of None \<Rightarrow> cx_name c | Some n \<Rightarrow> n);
           interval = (case cc_interval_minutes ch of None \<Rightarrow> cx_interval_minutes c | Some n \<Rightarrow> n);
           enabled = (case cc_enabled ch of None \<Rightarrow> cx_enabled c | Some b \<Rightarrow> b)
       in if connector_problems name interval \<noteq> []
          then Inl (ValidationFailed ''invalid connector'' (connector_problems name interval) [])
          else Inr (c\<lparr>cx_config := config, cx_environment := env, cx_name := name, cx_interval_minutes := interval,
                      cx_enabled := enabled, cx_updated_at := now\<rparr>)))"

text \<open>\<open>update_connector_fields\<close> sets the edited fields of the row as it is now: a run that finishes
  meanwhile keeps its lease and outcome.\<close>

definition update_connector_fields :: "string \<Rightarrow> (connector \<Rightarrow> connector) \<Rightarrow> inventory \<Rightarrow> inventory" where
  "update_connector_fields i set_fields s =
     (case get_connector s i of None \<Rightarrow> s | Some c \<Rightarrow> put_connector (set_fields c) s)"

definition edited_fields :: "connector_changes \<Rightarrow> connector \<Rightarrow> connector \<Rightarrow> connector" where
  "edited_fields ch new c =
     c\<lparr>cx_config := (if cc_config ch = None then cx_config c else cx_config new),
       cx_environment := (if cc_environment ch = None then cx_environment c else cx_environment new),
       cx_name := (if cc_name ch = None then cx_name c else cx_name new),
       cx_interval_minutes := (if cc_interval_minutes ch = None then cx_interval_minutes c
                               else cx_interval_minutes new),
       cx_enabled := (if cc_enabled ch = None then cx_enabled c else cx_enabled new),
       cx_updated_at := cx_updated_at new\<rparr>"

definition update_connector ::
  "discovery_service \<Rightarrow> admin \<Rightarrow> string \<Rightarrow> string \<Rightarrow> connector_changes \<Rightarrow> instant \<Rightarrow> discovery_world \<Rightarrow>
   (cp_error + connector) \<times> discovery_world" where
  "update_connector sv p t i ch now w =
     (if \<not> can p DiscoveryWrite (Some t) then (Inl (Forbidden DiscoveryWrite (Some t)), w)
      else (case result_bind (require_connector t i w) (changed_connector sv ch now) of
              Inl e \<Rightarrow> (Inl e, w)
            | Inr c \<Rightarrow> (Inr c, logged ''connector'' i ''update'' p
                (w\<lparr>dw_tables := update_connector_fields i (edited_fields ch c) (dw_tables w)\<rparr>))))"

definition remove_connector ::
  "admin \<Rightarrow> string \<Rightarrow> string \<Rightarrow> instant \<Rightarrow> discovery_world \<Rightarrow> (cp_error + unit) \<times> discovery_world" where
  "remove_connector p t i now w =
     (if \<not> can p DiscoveryWrite (Some t) then (Inl (Forbidden DiscoveryWrite (Some t)), w)
      else (case require_connector t i w of
              Inl e \<Rightarrow> (Inl e, w)
            | Inr _ \<Rightarrow>
                (let s = foldl (\<lambda>s e. put_edge (e\<lparr>ed_valid_to := Some now\<rparr>) s) (dw_tables w)
                           (list_edges (dw_tables w) t None (Some i) None)
                 in (Inr (), logged ''connector'' i ''delete'' p (w\<lparr>dw_tables := snd (delete_connector i s)\<rparr>)))))"

definition runs_for :: "admin \<Rightarrow> string \<Rightarrow> string \<Rightarrow> int \<Rightarrow> discovery_world \<Rightarrow> cp_error + sync_run list" where
  "runs_for p t i limit w =
     (if \<not> can p PermRead (Some t) then Inl (Forbidden PermRead (Some t))
      else result_bind (require_connector t i w)
             (\<lambda>_. Inr (list_runs (dw_tables w) i (nat (max 1 (min limit 100))))))"

section \<open>Runs\<close>

text \<open>
  A run claims the lease, collects (other handlers run meanwhile), applies what it got under the
  tenant's lock, and releases the lease. \<open>start_run\<close> and \<open>finish_run\<close> are the two ends. What the
  collection gave is \<open>Inr\<close> of what \<^verbatim>\<open>pipeline.run\<close> starts from, or \<open>Inl\<close> the class of an exception
  before anything was stored.
\<close>

definition start_run ::
  "discovery_service \<Rightarrow> string \<Rightarrow> string \<Rightarrow> bool \<Rightarrow> instant \<Rightarrow> discovery_world \<Rightarrow>
   (connector \<times> sync_run) option \<times> discovery_world" where
  "start_run sv i triggered_by only_if_due now w =
     (case claim_connector i (dv_instance sv) now (now + LEASE) only_if_due (dw_tables w) of
        (False, s) \<Rightarrow> (None, w\<lparr>dw_tables := s\<rparr>)
      | (True, s) \<Rightarrow>
          (let c = the (get_connector s i); (rid, s1) = fresh_row (dv_pipeline sv) s;
               run = \<lparr>sr_id = rid, sr_tenant_id = cx_tenant_id c, sr_connector_id = cx_id c,
                      sr_triggered_by = triggered_by, sr_started_at = now, sr_finished_at = None,
                      sr_status = RunRunning, sr_observations = 0, sr_entities_created = 0, sr_entities_updated = 0,
                      sr_edges_opened = 0, sr_edges_closed = 0, sr_findings_opened = 0, sr_findings_resolved = 0,
                      sr_warnings = [], sr_error = None\<rparr>
           in (Some (c, run), w\<lparr>dw_tables := put_run run s1\<rparr>)))"

text \<open>What the context of the run asks the source for: everything, or what is new since the last good run.\<close>

definition run_since :: "connector \<Rightarrow> instant option" where
  "run_since c = (if cx_last_status c = Some RunOk then cx_last_run_at c else None)"

definition finish_run ::
  "discovery_service \<Rightarrow> connector \<Rightarrow> sync_run \<Rightarrow> string + collected option \<Rightarrow> instant \<Rightarrow> string \<Rightarrow>
   discovery_world \<Rightarrow> sync_run \<times> discovery_world" where
  "finish_run sv c run got finished fresh w =
     (let (r, s) =
        (case got of
           Inl cls \<Rightarrow> (run\<lparr>sr_status := RunError, sr_error := Some (''internal error: '' @ cls),
                           sr_finished_at := Some finished\<rparr>, dw_tables w)
         | Inr g \<Rightarrow> discovery_run (dv_pipeline sv) c g run (sr_started_at run) finished (inventory_of w));
          s' = release_connector (cx_id c) (dv_instance sv) (sr_status r) (sr_error r)
                 (case sr_finished_at r of None \<Rightarrow> finished | Some t \<Rightarrow> t) (put_run r s)
      in (r, republish sv finished fresh (w\<lparr>dw_tables := s'\<rparr>)))"

text \<open>\<open>run_connector\<close> when nothing runs between its ends.\<close>

definition run_connector ::
  "discovery_service \<Rightarrow> string \<Rightarrow> string \<Rightarrow> bool \<Rightarrow> string + collected option \<Rightarrow> instant \<Rightarrow> instant \<Rightarrow> string \<Rightarrow>
   discovery_world \<Rightarrow> sync_run option \<times> discovery_world" where
  "run_connector sv i triggered_by only_if_due got now finished fresh w =
     (case start_run sv i triggered_by only_if_due now w of
        (None, w1) \<Rightarrow> (None, w1)
      | (Some (c, run), w1) \<Rightarrow>
          (case finish_run sv c run got finished fresh w1 of (r, w2) \<Rightarrow> (Some r, w2)))"

text \<open>\<open>sync\<close> up to the claim; the run itself is \<open>start_run\<close> and \<open>finish_run\<close>.\<close>

definition sync_check :: "admin \<Rightarrow> string \<Rightarrow> string \<Rightarrow> discovery_world \<Rightarrow> cp_error + connector" where
  "sync_check p t i w =
     (if \<not> can p InventoryWrite (Some t) then Inl (Forbidden InventoryWrite (Some t)) else require_connector t i w)"

definition sync_connector ::
  "discovery_service \<Rightarrow> admin \<Rightarrow> string \<Rightarrow> string \<Rightarrow> string + collected option \<Rightarrow> instant \<Rightarrow> instant \<Rightarrow> string \<Rightarrow>
   discovery_world \<Rightarrow> (cp_error + sync_run) \<times> discovery_world" where
  "sync_connector sv p t i got now finished fresh w =
     (case sync_check p t i w of
        Inl e \<Rightarrow> (Inl e, w)
      | Inr c \<Rightarrow>
          (case run_connector sv (cx_id c) (actor p) False got now finished fresh w of
             (None, w1) \<Rightarrow> (Inl (StateConflict ''this connector is already running; try again when it finishes''), w1)
           | (Some r, w1) \<Rightarrow> (Inr r, w1)))"

text \<open>
  The scheduler's tick: the connectors that were due when it began, one after the other; each is
  claimed only if it still is. Times and what is collected are given per connector.
\<close>

definition run_due ::
  "discovery_service \<Rightarrow> (string \<Rightarrow> string + collected option) \<Rightarrow> (string \<Rightarrow> instant \<times> instant) \<Rightarrow> (string \<Rightarrow> string) \<Rightarrow>
   instant \<Rightarrow> discovery_world \<Rightarrow> nat \<times> discovery_world" where
  "run_due sv got clock fresh now w =
     foldl (\<lambda>nw c.
         (case run_connector sv (cx_id c) ''schedule'' True (got (cx_id c)) (fst (clock (cx_id c)))
                 (snd (clock (cx_id c))) (fresh (cx_id c)) (snd nw) of
            (None, w1) \<Rightarrow> (fst nw, w1)
          | (Some _, w1) \<Rightarrow> (Suc (fst nw), w1)))
       (0, w) (filter (\<lambda>c. due c now) (list_connectors (dw_tables w) None))"

definition reconcile_world :: "discovery_service \<Rightarrow> string \<Rightarrow> instant \<Rightarrow> discovery_world \<Rightarrow> run_stats \<times> discovery_world" where
  "reconcile_world sv t now w =
     (case reconcile_tenant (dv_pipeline sv) t now (no_stats, inventory_of w) of
        (st, s) \<Rightarrow> (st, w\<lparr>dw_tables := s\<rparr>))"

definition housekeeping ::
  "discovery_service \<Rightarrow> instant \<Rightarrow> string \<Rightarrow> discovery_world \<Rightarrow> nat \<times> discovery_world" where
  "housekeeping sv now fresh w =
     (let (removed, s) = prune_observations (now - OBSERVATION_RETENTION) (dw_tables w)
      in (removed, republish sv now fresh
            (foldl (\<lambda>w t. snd (reconcile_world sv (tn_id t) now w)) (w\<lparr>dw_tables := s\<rparr>)
               (list_tenants (dw_store w)))))"

section \<open>The inventory\<close>

text \<open>\<open>list_entities\<close> of the store with its filters; \<open>query\<close> is looked for in names and strong keys.\<close>

record entity_query =
  qe_kind :: "string option"
  qe_state :: "string option"
  qe_agents_only :: bool
  qe_query :: "string option"

fun entity_state_value :: "entity_state \<Rightarrow> string" where
  "entity_state_value StManaged = ''managed''"
| "entity_state_value StUnmanaged = ''registered_unmanaged''"
| "entity_state_value StShadow = ''shadow''"
| "entity_state_value StStale = ''stale''"
| "entity_state_value StNotAgent = ''not_agent''"

definition ENTITY_STATES :: "string list" where
  "ENTITY_STATES = map entity_state_value [StManaged, StUnmanaged, StShadow, StStale, StNotAgent]"

definition entity_matches :: "entity_query \<Rightarrow> entity \<Rightarrow> bool" where
  "entity_matches q e \<longleftrightarrow>
     (let text = str_lower (case qe_query q of None \<Rightarrow> [] | Some x \<Rightarrow> x) in
      (qe_kind q = None \<or> qe_kind q = Some (en_kind e)) \<and>
      (qe_state q = None \<or> qe_state q = Some (entity_state_value (en_state e))) \<and>
      (\<not> qe_agents_only q \<or> en_likelihood e \<noteq> NoAgent) \<and>
      (text = [] \<or> sublist text (str_lower (en_name e)) \<or>
       list_ex (\<lambda>k. sublist text (str_lower k)) (en_strong_keys e)))"

definition list_entities :: "inventory \<Rightarrow> string \<Rightarrow> entity_query \<Rightarrow> int \<Rightarrow> entity list" where
  "list_entities s t q limit =
     limited limit (sort_key (\<lambda>e. (en_kind e, en_name e, en_id e))
       (filter (\<lambda>e. en_tenant_id e = t \<and> entity_matches q e) (map snd (iv_entities s))))"

definition entities_for ::
  "admin \<Rightarrow> string \<Rightarrow> entity_query \<Rightarrow> int \<Rightarrow> discovery_world \<Rightarrow> cp_error + entity list" where
  "entities_for p t q limit w =
     (if \<not> can p PermRead (Some t) then Inl (Forbidden PermRead (Some t))
      else if (case qe_state q of None \<Rightarrow> False | Some x \<Rightarrow> x \<notin> set ENTITY_STATES)
      then Inl (ValidationFailed (''state must be one of '' @ join '', '' ENTITY_STATES) [] [])
      else Inr (list_entities (dw_tables w) t q (max 1 (min limit 2000))))"

definition require_entity :: "string \<Rightarrow> string \<Rightarrow> discovery_world \<Rightarrow> cp_error + entity" where
  "require_entity t i w =
     (case get_entity (dw_tables w) t i of
        None \<Rightarrow> Inl (NotFound (''entity '' @ i @ '' not found'')) | Some e \<Rightarrow> Inr e)"

record entity_name =
  nm_id :: string
  nm_kind :: string
  nm_name :: string
  nm_state :: entity_state

definition name_of :: "inventory \<Rightarrow> string \<Rightarrow> string \<Rightarrow> entity_name option" where
  "name_of s t i =
     map_option (\<lambda>e. \<lparr>nm_id = en_id e, nm_kind = en_kind e, nm_name = en_name e, nm_state = en_state e\<rparr>)
       (get_entity s t i)"

record entity_relation =
  el_edge :: edge
  el_outgoing :: bool
  el_other :: "entity_name option"

record entity_details =
  dl_entity :: entity
  dl_evidence :: "observation_record list"
  dl_relations :: "entity_relation list"
  dl_findings :: "inventory_finding list"

definition evidence_of :: "inventory \<Rightarrow> string \<Rightarrow> entity \<Rightarrow> observation_record list" where
  "evidence_of s t e =
     take 50 (sorted_desc ob_observed_at
       (concat (map (\<lambda>i. list_observations s t (Some i) None 50) (take 20 (en_id e # en_merged_from e)))))"

definition relation_of :: "inventory \<Rightarrow> string \<Rightarrow> string \<Rightarrow> edge \<Rightarrow> entity_relation" where
  "relation_of s t i e =
     \<lparr>el_edge = e, el_outgoing = (ed_src e = i), el_other = name_of s t (if ed_src e = i then ed_dst e else ed_src e)\<rparr>"

definition view_entity :: "admin \<Rightarrow> string \<Rightarrow> string \<Rightarrow> discovery_world \<Rightarrow> cp_error + entity_details" where
  "view_entity p t i w =
     (if \<not> can p PermRead (Some t) then Inl (Forbidden PermRead (Some t))
      else result_bind (require_entity t i w) (\<lambda>e.
        let s = dw_tables w in
        Inr \<lparr>dl_entity = e, dl_evidence = evidence_of s t e,
             dl_relations = map (relation_of s t (en_id e)) (list_edges s t (Some [en_id e]) None None),
             dl_findings = list_findings s t None (Some (en_id e)) None 500\<rparr>))"

section \<open>The relation graph\<close>

text \<open>
  Breadth first over the relations valid now or at a time. The sets \<open>seen\<close> and \<open>frontier\<close> are lists in the
  order their members were added; the code sorts the frontier before the query and looks names up
  per member, so their order is not observable beyond that of the answer's nodes.
\<close>

record graph_walk =
  gr_seen :: "string list"
  gr_next :: "string list"
  gr_edges :: "(string \<times> edge) list"
  gr_truncated :: bool

definition reach_node :: "graph_walk \<Rightarrow> string \<Rightarrow> graph_walk" where
  "reach_node g x =
     (if x \<in> set (gr_seen g) then g
      else if MAX_GRAPH_NODES \<le> length (gr_seen g) then g\<lparr>gr_truncated := True\<rparr>
      else g\<lparr>gr_seen := gr_seen g @ [x], gr_next := gr_next g @ [x]\<rparr>)"

definition walk_edge :: "graph_walk \<Rightarrow> edge \<Rightarrow> graph_walk" where
  "walk_edge g e =
     reach_node (reach_node (g\<lparr>gr_edges := AList.update (ed_id e) e (gr_edges g)\<rparr>) (ed_src e)) (ed_dst e)"

definition walk_level :: "inventory \<Rightarrow> string \<Rightarrow> instant option \<Rightarrow> graph_walk \<Rightarrow> graph_walk" where
  "walk_level s t as_of g =
     (if gr_next g = [] then g
      else foldl walk_edge (g\<lparr>gr_next := []\<rparr>) (list_edges s t (Some (gr_next g)) None as_of))"

record entity_graph =
  gg_root :: string
  gg_as_of :: "instant option"
  gg_depth :: int
  gg_nodes :: "entity_name list"
  gg_edges :: "edge list"
  gg_truncated :: bool

definition walked :: "inventory \<Rightarrow> string \<Rightarrow> string \<Rightarrow> nat \<Rightarrow> instant option \<Rightarrow> graph_walk" where
  "walked s t i depth as_of =
     (walk_level s t as_of ^^ depth) \<lparr>gr_seen = [i], gr_next = [i], gr_edges = [], gr_truncated = False\<rparr>"

definition graph_of :: "admin \<Rightarrow> string \<Rightarrow> string \<Rightarrow> int \<Rightarrow> instant option \<Rightarrow> discovery_world \<Rightarrow> cp_error + entity_graph" where
  "graph_of p t i depth as_of w =
     (if \<not> can p PermRead (Some t) then Inl (Forbidden PermRead (Some t))
      else result_bind (require_entity t i w) (\<lambda>_.
        let s = dw_tables w; d = max 1 (min depth 4); g = walked s t i (nat d) as_of;
            known = (\<lambda>x. x \<in> set (gr_seen g) \<and> name_of s t x \<noteq> None)
        in Inr \<lparr>gg_root = i, gg_as_of = as_of, gg_depth = d, gg_nodes = List.map_filter (name_of s t) (gr_seen g),
                gg_edges = filter (\<lambda>e. known (ed_src e) \<and> known (ed_dst e)) (map snd (gr_edges g)),
                gg_truncated = gr_truncated g\<rparr>))"

section \<open>Coverage and summary\<close>

text \<open>\<open>round(x, 4)\<close>.\<close>

definition round4 :: "real \<Rightarrow> real" where
  "round4 x = of_int (py_round (x * 10000)) / 10000"

record coverage =
  cg_agents :: nat
  cg_active :: nat
  cg_by_state :: "(entity_state \<times> nat) list"
  cg_coverage :: "real option"
  cg_gateway_requests :: int
  cg_direct :: "(json \<times> int) list"
  cg_open_findings :: nat
  cg_connectors :: "(string \<times> string \<times> string \<times> instant option \<times> run_status option) list"

definition add_direct :: "(json \<times> int) list \<Rightarrow> source_entry \<Rightarrow> (json \<times> int) list" where
  "add_direct d v =
     (let unit = (case map_of (so_attrs v) ''volume_unit'' of None \<Rightarrow> JStr ''calls'' | Some u \<Rightarrow> u)
      in AList.update unit ((case map_of d unit of None \<Rightarrow> 0 | Some n \<Rightarrow> n) + so_direct v) d)"

definition active_agent :: "entity \<Rightarrow> bool" where
  "active_agent e \<longleftrightarrow> en_state e \<noteq> StStale \<and> observed_by_connector e"

definition coverage_agents :: "inventory \<Rightarrow> string \<Rightarrow> string option \<Rightarrow> instant \<Rightarrow> entity list" where
  "coverage_agents s t env now =
     filter (\<lambda>e. (env = None \<or> en_environment e = env) \<and> \<not> ignored e now)
       (list_entities s t \<lparr>qe_kind = None, qe_state = None, qe_agents_only = True, qe_query = None\<rparr> 1000000)"

definition coverage_for :: "admin \<Rightarrow> string \<Rightarrow> string option \<Rightarrow> instant \<Rightarrow> discovery_world \<Rightarrow> cp_error + coverage" where
  "coverage_for p t env now w =
     (if \<not> can p PermRead (Some t) then Inl (Forbidden PermRead (Some t))
      else
        (let s = dw_tables w; agents = coverage_agents s t env now; active = filter active_agent agents;
             managed = filter (\<lambda>e. en_state e = StManaged) active;
             outside = filter (\<lambda>e. en_state e \<noteq> StManaged \<and> en_direct_volume e \<noteq> 0) active
         in Inr \<lparr>cg_agents = length agents, cg_active = length active,
                 cg_by_state = map (\<lambda>x. (x, length (filter (\<lambda>e. en_state e = x) agents)))
                                 [StManaged, StUnmanaged, StShadow, StStale],
                 cg_coverage = (if active = [] then None
                                else Some (round4 (real (length managed) / real (length active)))),
                 cg_gateway_requests = sum_list (map en_managed_volume agents),
                 cg_direct = foldl add_direct [] (concat (map (\<lambda>e. map snd (en_by_source e)) outside)),
                 cg_open_findings = length (list_findings s t (Some FindingOpen) None None 1000000),
                 cg_connectors = map (\<lambda>c. (cx_id c, cx_kind c, cx_name c, cx_last_run_at c, cx_last_status c))
                                   (list_connectors s (Some t))\<rparr>))"

definition count_in :: "(string \<times> nat) list \<Rightarrow> string \<Rightarrow> (string \<times> nat) list" where
  "count_in d k = AList.update k ((case map_of d k of None \<Rightarrow> 0 | Some n \<Rightarrow> n) + 1) d"

fun severity_value :: "severity \<Rightarrow> string" where
  "severity_value SevHigh = ''high''" | "severity_value SevMedium = ''medium''" | "severity_value SevLow = ''low''"

definition summary_of_tenant ::
  "admin \<Rightarrow> string \<Rightarrow> discovery_world \<Rightarrow> cp_error + nat \<times> (string \<times> nat) list \<times> (string \<times> nat) list" where
  "summary_of_tenant p t w =
     (if \<not> can p PermRead (Some t) then Inl (Forbidden PermRead (Some t))
      else
        (let s = dw_tables w; es = tenant_entities s t 1000000;
             fs = list_findings s t (Some FindingOpen) None None 1000000
         in Inr (length es, foldl count_in [] (map en_kind es),
                 foldl count_in [(''high'', 0), (''medium'', 0), (''low'', 0)]
                   (map (\<lambda>f. severity_value (fi_severity f)) fs))))"

definition findings_for ::
  "admin \<Rightarrow> string \<Rightarrow> finding_status option \<Rightarrow> finding_kind option \<Rightarrow> int \<Rightarrow> discovery_world \<Rightarrow>
   cp_error + inventory_finding list" where
  "findings_for p t st k limit w =
     (if \<not> can p PermRead (Some t) then Inl (Forbidden PermRead (Some t))
      else Inr (list_findings (dw_tables w) t st None k (max 1 (min limit 2000))))"

section \<open>Decisions of operators\<close>

definition link_key :: "string \<Rightarrow> string" where
  "link_key agent = ''agent:'' @ agent"

definition linked_entity :: "admin \<Rightarrow> string \<Rightarrow> instant \<Rightarrow> entity \<Rightarrow> entity" where
  "linked_entity p agent now e =
     (let links = en_manual_links e @ [\<lparr>ml_agent_id = agent, ml_by = actor p, ml_at = now\<rparr>]
      in e\<lparr>en_strong_keys := set_sorted (en_strong_keys e @ [link_key agent]),
           en_manual_links := drop (length links - 10) links\<rparr>)"

definition link_check :: "admin \<Rightarrow> string \<Rightarrow> string \<Rightarrow> string \<Rightarrow> discovery_world \<Rightarrow> cp_error + entity" where
  "link_check p t i agent w =
     (if \<not> can p InventoryWrite (Some t) then Inl (Forbidden InventoryWrite (Some t))
      else result_bind (require_entity t i w) (\<lambda>e.
        if get_agent_row (dw_store w) t agent = None
        then Inl (ValidationFailed (''agent '' @ quoted agent @ '' is not registered in tenant '' @ quoted t) [] [])
        else if en_kind e \<notin> set AGENT_CAPABLE
        then Inl (ValidationFailed (''a '' @ en_kind e @ '' can'' @ [CHR 0x27] @
                    ''t be an agent; link the workload or identity that runs it'') [] [])
        else Inr e))"

definition link_entity ::
  "discovery_service \<Rightarrow> admin \<Rightarrow> string \<Rightarrow> string \<Rightarrow> string \<Rightarrow> instant \<Rightarrow> string \<Rightarrow> discovery_world \<Rightarrow>
   (cp_error + entity) \<times> discovery_world" where
  "link_entity sv p t i agent now fresh w =
     (case link_check p t i agent w of
        Inl e \<Rightarrow> (Inl e, w)
      | Inr e \<Rightarrow>
          (let w1 = logged ''inventory_entity'' i ''link'' p
                      (w\<lparr>dw_tables := put_entity (linked_entity p agent now e) (dw_tables w)\<rparr>);
               w2 = snd (reconcile_world sv t now w1);
               w3 = republish sv now fresh w2
           in (case find_entities (dw_tables w2) t [link_key agent] of
                 x # _ \<Rightarrow> (Inr x, w3) | [] \<Rightarrow> (require_entity t i w3, w3))))"

definition register_entity ::
  "discovery_service \<Rightarrow> admin \<Rightarrow> string \<Rightarrow> string \<Rightarrow> string \<Rightarrow> int \<Rightarrow> string list \<Rightarrow> string option \<Rightarrow> instant \<Rightarrow>
   string \<Rightarrow> string \<Rightarrow> discovery_world \<Rightarrow> (cp_error + entity) \<times> discovery_world" where
  "register_entity sv p t i agent trust tools owner now fresh1 fresh2 w =
     (if \<not> can p InventoryWrite (Some t) then (Inl (Forbidden InventoryWrite (Some t)), w)
      else (case require_entity t i w of
              Inl e \<Rightarrow> (Inl e, w)
            | Inr e \<Rightarrow>
                if get_agent_row (dw_store w) t agent \<noteq> None
                then (Inl (StateConflict (''agent '' @ quoted agent @ '' is already registered; link the entity to it instead'')), w)
                else (case put_agent (catalog_view (dv_catalog sv) (inventory_of w)) p t agent trust tools
                             (if present owner then owner else en_owner_guess e) now fresh1 (dw_store w) of
                        (Inl x, s) \<Rightarrow> (Inl x, w\<lparr>dw_store := s\<rparr>)
                      | (Inr _, s) \<Rightarrow> link_entity sv p t i agent now fresh2 (w\<lparr>dw_store := s\<rparr>))))"

definition ignored_entity :: "string \<Rightarrow> int \<Rightarrow> instant \<Rightarrow> entity \<Rightarrow> entity" where
  "ignored_entity reason days now e =
     e\<lparr>en_ignored_until := (if days \<noteq> 0 then Some (now + days * 86400 * 1000000) else None),
       en_ignore_reason := (if days \<noteq> 0 then Some (limited 500 (str_strip reason)) else None)\<rparr>"

definition ignore_entity ::
  "discovery_service \<Rightarrow> admin \<Rightarrow> string \<Rightarrow> string \<Rightarrow> string \<Rightarrow> int \<Rightarrow> instant \<Rightarrow> string \<Rightarrow> discovery_world \<Rightarrow>
   (cp_error + entity) \<times> discovery_world" where
  "ignore_entity sv p t i reason days now fresh w =
     (let d = max 0 (min days 365) in
      if \<not> can p InventoryWrite (Some t) then (Inl (Forbidden InventoryWrite (Some t)), w)
      else if str_strip reason = [] then (Inl (ValidationFailed ''say why it is ignored'' [] []), w)
      else (case require_entity t i w of
              Inl e \<Rightarrow> (Inl e, w)
            | Inr e \<Rightarrow>
                (let w1 = logged ''inventory_entity'' i (if d \<noteq> 0 then ''ignore'' else ''unignore'') p
                            (w\<lparr>dw_tables := put_entity (ignored_entity reason d now e) (dw_tables w)\<rparr>);
                     w2 = republish sv now fresh (snd (reconcile_world sv t now w1))
                 in (require_entity t i w2, w2))))"

definition reconcile_now ::
  "discovery_service \<Rightarrow> admin \<Rightarrow> string \<Rightarrow> instant \<Rightarrow> string \<Rightarrow> discovery_world \<Rightarrow>
   (cp_error + nat \<times> nat \<times> nat) \<times> discovery_world" where
  "reconcile_now sv p t now fresh w =
     (if \<not> can p InventoryWrite (Some t) then (Inl (Forbidden InventoryWrite (Some t)), w)
      else (case require_tenant t (dw_store w) of
              Inl e \<Rightarrow> (Inl e, w)
            | Inr _ \<Rightarrow>
                (case reconcile_world sv t now w of
                   (st, w1) \<Rightarrow> (Inr (st_findings_opened st, st_findings_resolved st, length (st_state_changes st)),
                               republish sv now fresh w1))))"

text \<open>Which changes of a finding's status operators may make.\<close>

definition status_change_allowed :: "finding_status \<Rightarrow> finding_status \<Rightarrow> bool" where
  "status_change_allowed old new \<longleftrightarrow>
     (case old of FindingOpen \<Rightarrow> new = FindingAccepted \<or> new = FindingResolved
      | FindingAccepted \<Rightarrow> new = FindingOpen | FindingResolved \<Rightarrow> new = FindingOpen)"

definition decided_finding :: "admin \<Rightarrow> finding_status \<Rightarrow> string \<Rightarrow> instant \<Rightarrow> inventory_finding \<Rightarrow> inventory_finding" where
  "decided_finding p st text now f =
     f\<lparr>fi_status := st, fi_note := limited 2000 (str_strip text), fi_updated_at := now,
       fi_resolved_at := (if st = FindingOpen then None else Some now),
       fi_resolved_by := (if st = FindingOpen then None else Some (actor p))\<rparr>"

text \<open>Accepting a changed tool definition pins the new one.\<close>

definition approve_definition :: "admin \<Rightarrow> instant \<Rightarrow> inventory_finding \<Rightarrow> inventory \<Rightarrow> inventory" where
  "approve_definition p now f s =
     (case get_entity s (fi_tenant_id f) (fi_entity_id f) of
        None \<Rightarrow> s
      | Some e \<Rightarrow>
          put_entity (e\<lparr>en_pinned := Some
             (case fi_details f of
                ToolDetails _ new_hash _ new_text \<Rightarrow>
                  \<lparr>pn_hash = new_hash, pn_description = new_text, pn_at = now, pn_approved_by = Some (actor p)\<rparr>
              | StateDetails _ _ _ \<Rightarrow>
                  \<lparr>pn_hash = JNull, pn_description = JStr [], pn_at = now, pn_approved_by = Some (actor p)\<rparr>)\<rparr>) s)"

definition update_finding ::
  "discovery_service \<Rightarrow> admin \<Rightarrow> string \<Rightarrow> string \<Rightarrow> finding_status \<Rightarrow> string \<Rightarrow> instant \<Rightarrow> string \<Rightarrow>
   discovery_world \<Rightarrow> (cp_error + inventory_finding) \<times> discovery_world" where
  "update_finding sv p t i st text now fresh w =
     (if \<not> can p InventoryWrite (Some t) then (Inl (Forbidden InventoryWrite (Some t)), w)
      else (case get_finding (dw_tables w) t i of
              None \<Rightarrow> (Inl (NotFound (''finding '' @ i @ '' not found'')), w)
            | Some f0 \<Rightarrow>
                if \<not> status_change_allowed (fi_status f0) st
                then (Inl (StateConflict (''a finding that is '' @ finding_status_value (fi_status f0) @ '' can'' @
                        [CHR 0x27] @ ''t become '' @ finding_status_value st)), w)
                else (let f = decided_finding p st text now f0;
                          s = (if fi_kind f = ToolDefinitionChanged \<and> st = FindingAccepted
                               then approve_definition p now f (dw_tables w) else dw_tables w);
                          w1 = republish sv now fresh (w\<lparr>dw_tables := put_finding f s\<rparr>)
                      in (Inr f, logged ''inventory_finding'' i (finding_status_value st) p w1))))"

end
