(* ===== verification/Cp_Discovery_Writes.thy ===== *)
theory Cp_Discovery_Writes
  imports Cp_Discovery_Run
begin

text \<open>
  What the discovery pipeline writes. It changes the tables only by the calls of the store below, so a
  relation that holds across each of those calls holds across every step of the pipeline; some steps
  write edges and findings only.
\<close>

lemma delete_eq_filter: "AList.delete i xs = filter (\<lambda>kv. fst kv \<noteq> i) xs"
  by (induction xs) auto

lemma update_subset: "set (AList.update i k xs) \<subseteq> insert (i, k) (set xs)"
  by (induction xs) auto

locale row_writes =
  fixes R :: "inventory \<Rightarrow> inventory \<Rightarrow> bool"
  assumes refl: "R s s"
    and trans: "R s u \<Longrightarrow> R u v \<Longrightarrow> R s v"
    and edge: "R s (put_edge g s)"
    and finding: "R s (put_finding f s)"
    and fresh: "R s (snd (fresh_row ds s))"
begin

lemma row_steps:
  assumes "R s u"
  shows "R s (put_edge g u)" "R s (put_finding f u)" "R s (snd (fresh_row ds u))"
  using assms by (blast intro: trans edge finding fresh)+

lemma folds: "(\<And>a x. R (g a) (g (f a x))) \<Longrightarrow> R (g a) (g (foldl f a xs))"
  by (induction xs arbitrary: a) (auto intro: refl trans)

lemma folds_id: "(\<And>s x. R s (f s x)) \<Longrightarrow> R s (foldl f s xs)"
  by (rule folds [where g = "\<lambda>s. s"])

lemma folds_from: "R s (g a) \<Longrightarrow> (\<And>a x. R (g a) (g (f a x))) \<Longrightarrow> R s (g (foldl f a xs))"
  by (rule trans [OF _ folds])

lemma move_edge: "R (snd cs) (snd (move_edge ds k i now cs e))"
  by (auto simp: move_edge_def Let_def split_beta intro!: refl row_steps)

lemma move_edges: "R s (move_edges ds t k i now s)"
  unfolding move_edges_def Let_def by (rule folds_from) (simp_all add: refl move_edge)

lemma move_finding: "R (snd hs) (snd (move_finding k now hs f))"
  by (auto simp: move_finding_def Let_def split_beta intro!: refl row_steps)

lemma move_findings: "R s (move_findings t k i now s)"
  unfolding move_findings_def Let_def by (rule folds_from) (simp_all add: refl move_finding)

lemma resolve_finding: "R (snd xs) (snd (resolve_finding now nt xs f))"
  by (simp add: resolve_finding_def split_beta finding)

lemma resolve_findings: "R (snd xs) (snd (foldl (resolve_finding now nt) xs fs))"
  by (rule folds) (rule resolve_finding)

lemma open_finding: "R (snd xs) (snd (open_finding ds t e k sev sm det now xs))"
  by (simp add: open_finding_def split_beta Let_def row_steps refl)

lemma check_definition: "R (snd xs) (snd (snd (check_definition ds e f now xs)))"
  by (auto simp: check_definition_def Let_def
      intro: refl resolve_findings trans [OF resolve_findings open_finding] split: option.split)

lemma close_edge: "R (snd xs) (snd (close_edge now xs e))"
  by (simp add: close_edge_def edge)

lemma reconcile_edge: "R (snd (snd ex)) (snd (snd (reconcile_edge ds c now ex g)))"
  by (auto simp: reconcile_edge_def Let_def split_beta close_edge_def intro!: refl row_steps split: option.splits)

lemma reconcile_edges: "R (snd xs) (snd (reconcile_edges ds c g now full r xs))"
proof -
  have "R (snd xs) (snd (snd (foldl (reconcile_edge ds c now) (existing_edges c r (snd xs), xs) g)))"
    by (rule folds_from [where g = "\<lambda>x. snd (snd x)"]) (simp_all add: refl reconcile_edge)
  then show ?thesis
    unfolding reconcile_edges_def Let_def split_beta by (rule folds_from) (rule close_edge)
qed

lemma resolve_step: "R (snd xs) (snd (resolve_step ob wd now xs f))"
  by (simp add: resolve_step_def refl resolve_finding)

lemma open_step: "R (snd xs) (snd (open_step ds t e hs acc now xs x))"
  by (simp add: open_step_def refl open_finding)

lemma update_findings: "R s (snd xs) \<Longrightarrow> R s (snd (update_findings ds t e opens acc now xs))"
  unfolding update_findings_def Let_def
  by (intro folds_from [where g = snd] resolve_step open_step)

end

locale pipeline_writes = row_writes +
  assumes entity: "R s (put_entity e s)"
    and gone: "R s (delete_entity t i s)"
    and seen: "R s (add_observations obs s)"
begin

lemma steps:
  assumes "R s u"
  shows "R s (put_entity e u)" "R s (delete_entity t i u)" "R s (put_edge g u)" "R s (put_finding f u)"
    "R s (snd (fresh_row ds u))" "R s (add_observations obs u)"
  using assms by (blast intro: trans entity gone edge finding fresh seen)+

lemma merge_rows: "R s (snd (merge_rows ds k e now s))"
  unfolding merge_rows_def Let_def snd_conv by (rule steps trans [OF move_edges move_findings])+

lemma merge_found: "R (snd (snd krs)) (snd (snd (merge_found ds now krs e)))"
  by (simp add: merge_found_def split_beta Let_def merge_rows)

lemma resolve_fact: "R (ru_store u) (ru_store (snd (resolve_fact ds c rid now f u)))"
proof -
  obtain found r1 where c: "candidates (cx_tenant_id c) (set_sorted (ef_strong_keys f)) (ru_store u) (ru_resolver u) = (found, r1)"
    by fastforce
  have d: "R s (snd (snd (check_definition ds e f now (st, u))))" if "R s u" for s u e st
    using trans [OF that] check_definition [where xs = "(st, u)"] by simp
  have m: "R (ru_store u) (snd (snd (foldl (merge_found ds now) (e, r1, ru_store u) xs)))" for e xs
    by (rule folds_from [where g = "\<lambda>x. snd (snd x)"]) (simp_all add: refl merge_found)
  show ?thesis
  proof (cases found)
    case Nil
    then show ?thesis by (simp add: resolve_fact_def c Let_def split_beta d steps refl)
  next
    case (Cons e es)
    then show ?thesis by (simp add: resolve_fact_def c Let_def split_beta d m del: foldl_Cons)
  qed
qed

lemma resolve_refs: "R (ru_store (snd xu)) (ru_store (snd (resolve_refs ds c rid now xu f)))"
  by (simp add: resolve_refs_def split_beta Let_def resolve_fact)

lemma apply_observation: "R (ru_store (snd ru)) (ru_store (snd (apply_observation ds c rid now ru x)))"
proof -
  have "R (ru_store (snd ru)) (ru_store (snd (foldl (resolve_refs ds c rid now)
      ([], (snd ru)\<lparr>ru_store := snd (fresh_row ds (ru_store (snd ru)))\<rparr>) (os_entities x))))"
    by (rule folds_from [where g = "\<lambda>x. ru_store (snd x)"]) (simp_all add: fresh resolve_refs)
  then show ?thesis by (simp add: apply_observation_def Let_def split_beta)
qed

lemma drop_unseen: "R s (drop_unseen c r now s)"
  unfolding drop_unseen_def by (rule folds_id) (rule entity)

lemma sync_agent: "R s (sync_agent ds t now s a)"
  by (auto simp: sync_agent_def Let_def split_beta intro!: refl steps split: list.split)

lemma sync_registry: "R s (sync_registry ds t now s)"
  unfolding sync_registry_def Let_def
  by (rule trans [OF folds_id folds_id]) (rule sync_agent entity)+

lemma dedupe_step: "R (dd_store d) (dd_store (dedupe_step ds now d e))"
  by (auto simp: dedupe_step_def Let_def split_beta intro!: refl steps merge_rows split: option.split)

lemma dedupe: "R s (snd (dedupe ds es now s))"
  unfolding dedupe_def Let_def snd_conv by (rule folds_from) (simp_all add: refl dedupe_step)

lemma reconcile_entity: "R (snd xs) (snd (reconcile_entity ds t ags es opens acc now xs e))"
  by (simp add: reconcile_entity_def Let_def update_findings refl entity)

lemma reconcile_tenant: "R (snd xs) (snd (reconcile_tenant ds t now xs))"
proof -
  have "R s (snd (reconcile_entities ds t now st ess))" if "R s (snd ess)" for s st ess
    unfolding reconcile_entities_def by (rule folds_from) (simp_all add: that reconcile_entity)
  then show ?thesis
    unfolding reconcile_tenant_def dedupe_tenant_def by (simp add: trans [OF sync_registry dedupe])
qed

lemma discovery_run: "R s (snd (discovery_run ds c got run now finished s))"
proof (cases got)
  case None
  then show ?thesis by (simp add: discovery_run_def refl)
next
  case (Some g)
  let ?ru = "run_observations ds c (sr_id run) now g s"
  have a: "R s (ru_store (snd ?ru))"
    unfolding run_observations_def
    by (rule folds_from [where g = "\<lambda>x. ru_store (snd x)"]) (simp_all add: refl apply_observation)
  have b: "R (ru_store (snd ?ru)) (save_run now ?ru)"
    unfolding save_run_def by (rule trans [OF seen folds_id]) (rule entity)
  have c: "R (save_run now ?ru) (snd (run_edges ds c now full ?ru))" for full
    unfolding run_edges_def using reconcile_edges [of "(_, save_run now ?ru)"] by simp
  have d: "R (snd xs) (snd (run_drop c now full ?ru xs))" for full xs
    by (simp add: run_drop_def refl drop_unseen)
  show ?thesis
    using Some by (auto simp: discovery_run_def conclude_run_def run_result_def
        intro: trans [OF a trans [OF b trans [OF c trans [OF d reconcile_tenant]]]])
qed

end

end
