(* ===== verification/Cp_Discovery_Lease.thy ===== *)
theory Cp_Discovery_Lease
  imports Cp_Discovery_Service Cp_Discovery_Writes
begin

text \<open>
  Leases of connectors: whatever replicas run and operators do, at most one run of a connector is within
  its lease, as long as runs end within theirs; and what happens when one does not.
\<close>

section \<open>The pipeline and the connectors\<close>

text \<open>The pipeline leaves the connectors alone and only hands out new ids.\<close>

definition same_connectors :: "inventory \<Rightarrow> inventory \<Rightarrow> bool" where
  "same_connectors s u \<longleftrightarrow> iv_connectors u = iv_connectors s \<and> iv_next s \<le> iv_next u"

interpretation writes: pipeline_writes same_connectors
  by unfold_locales
    (auto simp: same_connectors_def put_entity_def delete_entity_def put_edge_def put_finding_def fresh_row_def
      add_observations_def split: option.split)

section \<open>Replicas at work\<close>

text \<open>
  The replicas run one service, each under its own instance name. \<open>lw_active\<close> is history: the runs that
  were started and have not ended, newest first, with the replica that started them.
\<close>

type_synonym active_run = "string \<times> connector \<times> sync_run"

record lease_world =
  lw_now :: instant
  lw_world :: discovery_world
  lw_active :: "active_run list"

definition replica :: "discovery_service \<Rightarrow> string \<Rightarrow> discovery_service" where
  "replica sv a = sv\<lparr>dv_instance := a\<rparr>"

text \<open>What operators and the housekeeping do to the world besides runs.\<close>

inductive operated :: "discovery_service \<Rightarrow> instant \<Rightarrow> discovery_world \<Rightarrow> discovery_world \<Rightarrow> bool"
  for sv now where
  Created: "operated sv now w (snd (create_connector sv p t b now w))"
| Updated: "operated sv now w (snd (update_connector sv p t i ch now w))"
| Removed: "operated sv now w (snd (remove_connector p t i now w))"
| Linked: "operated sv now w (snd (link_entity sv p t i agent now fresh w))"
| Registered: "operated sv now w (snd (register_entity sv p t i agent trust tools owner now fresh1 fresh2 w))"
| Ignored: "operated sv now w (snd (ignore_entity sv p t i reason days now fresh w))"
| Reconciled: "operated sv now w (snd (reconcile_now sv p t now fresh w))"
| Decided: "operated sv now w (snd (update_finding sv p t i st nt now fresh w))"
| Kept: "operated sv now w (snd (housekeeping sv now fresh w))"
| Stored: "operated sv now w (w\<lparr>dw_store := s\<rparr>)"

text \<open>A run that ends, ends within its lease.\<close>

inductive lease_step :: "discovery_service \<Rightarrow> lease_world \<Rightarrow> lease_world \<Rightarrow> bool" for sv where
  Started: "lw_now x \<le> t \<Longrightarrow> start_run (replica sv a) i who only_due t (lw_world x) = (Some (c, r), w) \<Longrightarrow>
    lease_step sv x \<lparr>lw_now = t, lw_world = w, lw_active = (a, c, r) # lw_active x\<rparr>"
| Busy: "lw_now x \<le> t \<Longrightarrow> start_run (replica sv a) i who only_due t (lw_world x) = (None, w) \<Longrightarrow>
    lease_step sv x \<lparr>lw_now = t, lw_world = w, lw_active = lw_active x\<rparr>"
| Ended: "lw_now x \<le> t \<Longrightarrow> (a, c, r) \<in> set (lw_active x) \<Longrightarrow> t < sr_started_at r + LEASE \<Longrightarrow>
    lease_step sv x \<lparr>lw_now = t, lw_world = snd (finish_run (replica sv a) c r got t fresh (lw_world x)),
      lw_active = remove1 (a, c, r) (lw_active x)\<rparr>"
| Else: "lw_now x \<le> t \<Longrightarrow> operated sv t (lw_world x) w \<Longrightarrow>
    lease_step sv x \<lparr>lw_now = t, lw_world = w, lw_active = lw_active x\<rparr>"

definition lease_start :: "control_store \<Rightarrow> lease_world" where
  "lease_start s = \<lparr>lw_now = 0, lw_world = \<lparr>dw_store = s, dw_tables = empty_inventory\<rparr>, lw_active = []\<rparr>"

section \<open>What keeps the connectors\<close>

definition keeps_connectors :: "discovery_world \<Rightarrow> discovery_world \<Rightarrow> bool" where
  "keeps_connectors w v \<longleftrightarrow> same_connectors (dw_tables w) (dw_tables v)"

lemma keeps_trans: "keeps_connectors u v \<Longrightarrow> keeps_connectors v w \<Longrightarrow> keeps_connectors u w"
  by (auto simp: keeps_connectors_def same_connectors_def)

lemma keeps_tables:
  "same_connectors (dw_tables w) s \<Longrightarrow> keeps_connectors w (w\<lparr>dw_tables := s\<rparr>)"
  "same_connectors (dw_tables w) s \<Longrightarrow> keeps_connectors w (w\<lparr>dw_tables := s, dw_store := c\<rparr>)"
  "keeps_connectors w (w\<lparr>dw_store := c\<rparr>)" "keeps_connectors w w"
  by (simp_all add: keeps_connectors_def writes.refl)

lemma world_simps [simp]:
  "dw_tables (republish sv now fresh w) = dw_tables w" "dw_tables (logged en i what p w) = dw_tables w"
  "same_connectors (inventory_of w) s = same_connectors (dw_tables w) s"
  by (simp_all add: republish_def logged_def inventory_of_def same_connectors_def)

lemma reconcile_world_keeps: "keeps_connectors w (snd (reconcile_world sv t now w))"
  using writes.reconcile_tenant [of "(no_stats, inventory_of w)" "dv_pipeline sv" t now]
  by (auto simp: reconcile_world_def keeps_connectors_def split_beta)

lemma keeps_via:
  assumes "keeps_connectors w v"
  shows "keeps_connectors w (republish sv now fresh v)" "keeps_connectors w (logged en i what p v)"
    "keeps_connectors w (v\<lparr>dw_tables := put_entity e (dw_tables v)\<rparr>)"
    "keeps_connectors w (v\<lparr>dw_tables := put_finding f (dw_tables v)\<rparr>)"
    "keeps_connectors w (snd (reconcile_world sv t now v))"
  using assms keeps_trans [OF assms reconcile_world_keeps] writes.steps(1,4)
  by (auto simp: keeps_connectors_def)

lemma link_keeps: "keeps_connectors w (snd (link_entity sv p t i agent now fresh w))"
  by (auto simp: link_entity_def Let_def intro!: keeps_via keeps_tables(4) split: sum.split list.split)

lemma operated_cases:
  assumes "operated sv now w v"
  obtains (same) "keeps_connectors w v"
  | (created) p t b where "v = snd (create_connector sv p t b now w)"
  | (updated) p t i ch where "v = snd (update_connector sv p t i ch now w)"
  | (removed) p t i where "v = snd (remove_connector p t i now w)"
  using assms
proof cases
  case (Linked p t i agent fresh)
  then show ?thesis using same link_keeps by blast
next
  case (Registered p t i agent trust tools own f1 f2)
  have "keeps_connectors w (snd (link_entity sv p t i agent now f2 (w\<lparr>dw_store := s\<rparr>)))" for s
    by (rule keeps_trans [OF keeps_tables(3) link_keeps])
  then show ?thesis
    using Registered same by (auto simp: register_entity_def keeps_tables split: sum.splits prod.splits if_splits)
next
  case (Ignored p t i reason days fresh)
  then show ?thesis
    using same by (auto simp: ignore_entity_def Let_def keeps_via keeps_tables(4) split: sum.splits if_splits)
next
  case (Reconciled p t fresh)
  then show ?thesis
    using same keeps_via(1) [OF reconcile_world_keeps]
    by (fastforce simp: reconcile_now_def keeps_tables(4) split_beta split: sum.splits if_splits)
next
  case (Decided p t i st nt fresh)
  have "keeps_connectors w (w\<lparr>dw_tables := put_finding f (approve_definition p now g (dw_tables w))\<rparr>)" for f g
    using writes.steps(4) [OF writes.steps(1) [OF writes.refl]] writes.finding
    by (auto simp: keeps_connectors_def approve_definition_def split: option.split)
  then show ?thesis
    using Decided same
    by (auto simp: update_finding_def Let_def keeps_via keeps_tables(4) split: option.splits if_splits)
next
  case (Kept fresh)
  have "keeps_connectors w (foldl (\<lambda>w t. snd (reconcile_world sv (tn_id t) now w)) (w\<lparr>dw_tables := s\<rparr>) ts)"
    if "same_connectors (dw_tables w) s" for s ts
    using keeps_tables(1) [OF that]
    by (induction ts rule: rev_induct) (auto intro: keeps_via)
  from this [of "snd (prune_observations (now - OBSERVATION_RETENTION) (dw_tables w))" "list_tenants (dw_store w)"]
  have "keeps_connectors w v"
    unfolding Kept housekeeping_def split_beta snd_conv Let_def
    by (intro keeps_via) (simp add: prune_observations_def Let_def same_connectors_def)
  then show ?thesis by (rule same)
next
  case (Stored s)
  then show ?thesis using keeps_tables(3) same by simp
qed (rule created updated removed, assumption)+

section \<open>The invariant\<close>

text \<open>
  Connectors are stored under their ids, which were handed out; so were those of the active runs. An
  active run within its lease holds the lease of its connector, if that still exists, and a newer run of
  the same connector was started only after the lease of the older one.
\<close>

definition holds_lease :: "inventory \<Rightarrow> active_run \<Rightarrow> bool" where
  "holds_lease s x \<longleftrightarrow>
     (case x of (a, c, r) \<Rightarrow>
       (case map_of (iv_connectors s) (cx_id c) of
          None \<Rightarrow> True
        | Some k \<Rightarrow> cx_lease_owner k = Some a \<and> cx_lease_until k = Some (sr_started_at r + LEASE)))"

definition run_id_of :: "active_run \<Rightarrow> string" where "run_id_of x = cx_id (fst (snd x))"

definition started_at :: "active_run \<Rightarrow> instant" where "started_at x = sr_started_at (snd (snd x))"

definition known_ids :: "discovery_service \<Rightarrow> inventory \<Rightarrow> string set" where
  "known_ids sv s = ds_new_id (dv_pipeline sv) ` {..<iv_next s}"

definition lease_inv :: "discovery_service \<Rightarrow> lease_world \<Rightarrow> bool" where
  "lease_inv sv x \<longleftrightarrow>
     (\<forall>(i, k) \<in> set (iv_connectors (dw_tables (lw_world x))). i = cx_id k \<and> i \<in> known_ids sv (dw_tables (lw_world x))) \<and>
     (\<forall>y \<in> set (lw_active x). run_id_of y \<in> known_ids sv (dw_tables (lw_world x)) \<and> started_at y \<le> lw_now x \<and>
        (lw_now x < started_at y + LEASE \<longrightarrow> holds_lease (dw_tables (lw_world x)) y)) \<and>
     sorted_wrt (\<lambda>y z. run_id_of y = run_id_of z \<longrightarrow> started_at z + LEASE \<le> started_at y) (lw_active x)"

lemma known_mono: "iv_next s \<le> iv_next u \<Longrightarrow> i \<in> known_ids sv s \<Longrightarrow> i \<in> known_ids sv u"
  by (auto simp: known_ids_def)

text \<open>What does not touch the lease of a connector with an active run keeps the invariant.\<close>

lemma lease_inv_keep:
  assumes inv: "lease_inv sv x" and t: "lw_now x \<le> t"
    and ids: "iv_next (dw_tables (lw_world x)) \<le> iv_next (dw_tables w)"
    and rows: "\<And>i k. (i, k) \<in> set (iv_connectors (dw_tables w)) \<Longrightarrow> i = cx_id k \<and> i \<in> known_ids sv (dw_tables w)"
    and leases: "\<And>y. y \<in> set (lw_active x) \<Longrightarrow> holds_lease (dw_tables (lw_world x)) y \<Longrightarrow> holds_lease (dw_tables w) y"
  shows "lease_inv sv \<lparr>lw_now = t, lw_world = w, lw_active = lw_active x\<rparr>"
  unfolding lease_inv_def
proof (intro conjI ballI)
  fix y assume "y \<in> set (lw_active \<lparr>lw_now = t, lw_world = w, lw_active = lw_active x\<rparr>)"
  then have y: "y \<in> set (lw_active x)" by simp
  with inv have o: "run_id_of y \<in> known_ids sv (dw_tables (lw_world x))" "started_at y \<le> lw_now x"
    "lw_now x < started_at y + LEASE \<Longrightarrow> holds_lease (dw_tables (lw_world x)) y"
    by (auto simp: lease_inv_def)
  with t show "run_id_of y \<in> known_ids sv (dw_tables (lw_world \<lparr>lw_now = t, lw_world = w, lw_active = lw_active x\<rparr>))"
    "started_at y \<le> lw_now \<lparr>lw_now = t, lw_world = w, lw_active = lw_active x\<rparr>"
    using known_mono [OF ids] by auto
  show "lw_now \<lparr>lw_now = t, lw_world = w, lw_active = lw_active x\<rparr> < started_at y + LEASE \<longrightarrow>
      holds_lease (dw_tables (lw_world \<lparr>lw_now = t, lw_world = w, lw_active = lw_active x\<rparr>)) y"
    using leases [OF y] o(3) t by auto
qed (use rows inv in \<open>auto simp: lease_inv_def\<close>)

lemma same_rows:
  assumes inv: "lease_inv sv x" and same: "same_connectors (dw_tables (lw_world x)) s"
  shows "(i, k) \<in> set (iv_connectors s) \<Longrightarrow> i = cx_id k \<and> i \<in> known_ids sv s"
    "holds_lease (dw_tables (lw_world x)) y \<Longrightarrow> holds_lease s y"
proof -
  have s: "iv_connectors s = iv_connectors (dw_tables (lw_world x))" "iv_next (dw_tables (lw_world x)) \<le> iv_next s"
    using same by (simp_all add: same_connectors_def)
  show "i = cx_id k \<and> i \<in> known_ids sv s" if "(i, k) \<in> set (iv_connectors s)"
    using inv that known_mono [OF s(2)] unfolding s(1) lease_inv_def by fast
  show "holds_lease (dw_tables (lw_world x)) y \<Longrightarrow> holds_lease s y"
    by (simp add: holds_lease_def s(1))
qed

lemma get_put_connector: "map_of (iv_connectors (put_connector c s)) i = (if i = cx_id c then Some c else map_of (iv_connectors s) i)"
  by (simp add: put_connector_def update_conv')

lemma put_connector_next [simp]: "iv_next (put_connector c s) = iv_next s"
  by (simp add: put_connector_def)

lemma known_ids_simps [simp]:
  "known_ids sv (put_connector c s) = known_ids sv s"
  "known_ids sv (release_connector i a st err fin s) = known_ids sv s"
  by (simp_all add: known_ids_def release_connector_def put_connector_def split: option.split)

lemma put_connector_rows: "(i, k) \<in> set (iv_connectors (put_connector c s)) \<Longrightarrow> (i = cx_id c \<and> k = c) \<or> (i, k) \<in> set (iv_connectors s)"
  using update_subset by (fastforce simp: put_connector_def)

section \<open>Every step keeps it\<close>

lemma start_run_some:
  assumes "start_run sv i who only_due t w = (Some (c, r), v)"
    and keyed: "\<And>k. map_of (iv_connectors (dw_tables w)) i = Some k \<Longrightarrow> cx_id k = i"
  obtains k where "map_of (iv_connectors (dw_tables w)) i = Some k"
    "\<And>u. cx_lease_until k = Some u \<Longrightarrow> u \<le> t"
    "c = k\<lparr>cx_lease_owner := Some (dv_instance sv), cx_lease_until := Some (t + LEASE)\<rparr>" "sr_started_at r = t"
    "same_connectors (put_connector c (dw_tables w)) (dw_tables v)"
proof -
  obtain k where k: "map_of (iv_connectors (dw_tables w)) i = Some k"
    and u: "\<And>u. cx_lease_until k = Some u \<Longrightarrow> u \<le> t"
    and s: "claim_connector i (dv_instance sv) t (t + LEASE) only_due (dw_tables w) =
      (True, put_connector (k\<lparr>cx_lease_owner := Some (dv_instance sv), cx_lease_until := Some (t + LEASE)\<rparr>) (dw_tables w))"
    using assms(1) by (auto simp: start_run_def claim_connector_def not_less split: option.splits if_splits)
  let ?c = "k\<lparr>cx_lease_owner := Some (dv_instance sv), cx_lease_until := Some (t + LEASE)\<rparr>"
  let ?s = "put_connector ?c (dw_tables w)"
  have c: "c = the (get_connector ?s i)" "sr_started_at r = t" "same_connectors ?s (dw_tables v)"
    using assms(1) unfolding start_run_def s
    by (auto simp: Let_def split_beta fresh_row_def put_run_def same_connectors_def)
  have "get_connector ?s i = Some ?c" using keyed [OF k] by (simp add: get_connector_def get_put_connector)
  then show thesis using that [OF k u] c by simp
qed

lemma in_remove1: "y \<in> set (remove1 z xs) \<Longrightarrow> y \<in> set xs"
  by (meson notin_set_remove1)

lemma sorted_wrt_others:
  assumes "sorted_wrt P xs" "z \<in> set xs"
  shows "sorted_wrt P (remove1 z xs)" "y \<in> set (remove1 z xs) \<Longrightarrow> P y z \<or> P z y"
  using assms by (induction xs) (auto split: if_splits dest: in_remove1)

lemma LEASE_pos: "0 < LEASE"
  by (simp add: LEASE_def)

lemma lease_invD:
  assumes "lease_inv sv x"
  shows "map_of (iv_connectors (dw_tables (lw_world x))) i = Some k \<Longrightarrow> cx_id k = i \<and> i \<in> known_ids sv (dw_tables (lw_world x))"
    and "y \<in> set (lw_active x) \<Longrightarrow> run_id_of y \<in> known_ids sv (dw_tables (lw_world x)) \<and> started_at y \<le> lw_now x"
    and "y \<in> set (lw_active x) \<Longrightarrow> lw_now x < started_at y + LEASE \<Longrightarrow> holds_lease (dw_tables (lw_world x)) y"
    and "sorted_wrt (\<lambda>y z. run_id_of y = run_id_of z \<longrightarrow> started_at z + LEASE \<le> started_at y) (lw_active x)"
  using assms by (auto simp: lease_inv_def dest!: map_of_SomeD)

lemma started_keeps:
  assumes inv: "lease_inv sv x" and t: "lw_now x \<le> t"
    and start: "start_run (replica sv a) i who only_due t (lw_world x) = (Some (c, r), w)"
  shows "lease_inv sv \<lparr>lw_now = t, lw_world = w, lw_active = (a, c, r) # lw_active x\<rparr>"
proof -
  let ?S = "dw_tables (lw_world x)" and ?T = "dw_tables w"
  obtain k where k: "map_of (iv_connectors ?S) i = Some k" "\<And>u. cx_lease_until k = Some u \<Longrightarrow> u \<le> t"
    and c: "c = k\<lparr>cx_lease_owner := Some a, cx_lease_until := Some (t + LEASE)\<rparr>" "sr_started_at r = t"
    and T: "same_connectors (put_connector c ?S) ?T"
    using start_run_some [OF start] lease_invD(1) [OF inv] by (auto simp: replica_def)
  have i: "cx_id c = i" "i \<in> known_ids sv ?S" using lease_invD(1) [OF inv k(1)] c(1) by simp_all
  have con: "iv_connectors ?T = iv_connectors (put_connector c ?S)" and nx: "iv_next ?S \<le> iv_next ?T"
    using T by (simp_all add: same_connectors_def)
  have over: "started_at y + LEASE \<le> t" if "y \<in> set (lw_active x)" "run_id_of y = i" for y
  proof (rule ccontr)
    assume "\<not> started_at y + LEASE \<le> t"
    then have "holds_lease ?S y" using lease_invD(3) [OF inv that(1)] t by simp
    then show False
      using that(2) k \<open>\<not> started_at y + LEASE \<le> t\<close>
      by (auto simp: holds_lease_def run_id_of_def started_at_def split: prod.splits)
  qed
  have rows: "j = cx_id l \<and> j \<in> known_ids sv ?T" if "(j, l) \<in> set (iv_connectors ?T)" for j l
    using put_connector_rows [OF that [unfolded con]] i known_mono [OF nx] inv by (auto simp: lease_inv_def)
  have runs: "run_id_of y \<in> known_ids sv ?T \<and> started_at y \<le> t \<and> (t < started_at y + LEASE \<longrightarrow> holds_lease ?T y)"
    if "y \<in> set ((a, c, r) # lw_active x)" for y
  proof (cases "y = (a, c, r)")
    case True
    then show ?thesis
      using i c known_mono [OF nx i(2)]
      by (simp add: run_id_of_def started_at_def holds_lease_def con get_put_connector)
  next
    case False
    then have y: "y \<in> set (lw_active x)" using that by simp
    have "holds_lease ?T y" if "t < started_at y + LEASE"
    proof -
      have "holds_lease ?S y" "run_id_of y \<noteq> i" using lease_invD(3) [OF inv y] over [OF y] that t by auto
      then show ?thesis
        using i(1) by (auto simp: holds_lease_def run_id_of_def con get_put_connector split: prod.splits)
    qed
    then show ?thesis using lease_invD(2) [OF inv y] known_mono [OF nx] t by auto
  qed
  have "sorted_wrt (\<lambda>y z. run_id_of y = run_id_of z \<longrightarrow> started_at z + LEASE \<le> started_at y) ((a, c, r) # lw_active x)"
    using lease_invD(4) [OF inv] over i(1) c(2) by (auto simp: run_id_of_def started_at_def)
  then show ?thesis unfolding lease_inv_def using rows runs by auto
qed

lemma finish_run_tables:
  obtains s st err fin where
    "dw_tables (snd (finish_run sv c r got t fresh w)) = release_connector (cx_id c) (dv_instance sv) st err fin s"
    "same_connectors (dw_tables w) s"
proof -
  have p: "same_connectors u (put_run z u)" for z u by (simp add: same_connectors_def put_run_def)
  have d: "same_connectors (dw_tables w) (snd (discovery_run (dv_pipeline sv) c g r (sr_started_at r) t (inventory_of w)))" for g
    using writes.discovery_run [of "inventory_of w"] by simp
  show thesis
    using that [OF _ writes.trans [OF d p]] that [OF _ p]
    by (cases got) (auto simp: finish_run_def Let_def split_beta)
qed

lemma ended_keeps:
  assumes inv: "lease_inv sv x" and t: "lw_now x \<le> t" and y0: "(a, c, r) \<in> set (lw_active x)"
    and early: "t < sr_started_at r + LEASE"
  shows "lease_inv sv \<lparr>lw_now = t, lw_world = snd (finish_run (replica sv a) c r got t fresh (lw_world x)),
           lw_active = remove1 (a, c, r) (lw_active x)\<rparr>"
proof -
  let ?w = "snd (finish_run (replica sv a) c r got t fresh (lw_world x))"
  let ?P = "\<lambda>y z. run_id_of y = run_id_of z \<longrightarrow> started_at z + LEASE \<le> started_at y"
  obtain s st err fin where T: "dw_tables ?w = release_connector (cx_id c) a st err fin s"
    and s: "same_connectors (dw_tables (lw_world x)) s"
    by (rule finish_run_tables [of "replica sv a" c r got t fresh "lw_world x"]) (simp add: replica_def)
  note keep = same_rows [OF inv s]
  have nx: "iv_next (dw_tables (lw_world x)) \<le> iv_next (dw_tables ?w)"
    using s unfolding T by (auto simp: release_connector_def same_connectors_def split: option.split)
  have rows: "j = cx_id l \<and> j \<in> known_ids sv (dw_tables ?w)" if "(j, l) \<in> set (iv_connectors (dw_tables ?w))" for j l
    using that keep(1) [of j l] keep(1) [OF map_of_SomeD]
    unfolding T known_ids_simps by (auto simp: release_connector_def split: option.splits if_splits dest!: put_connector_rows)
  have other: "run_id_of y \<noteq> cx_id c" if "y \<in> set (remove1 (a, c, r) (lw_active x))" "t < started_at y + LEASE" for y
  proof
    assume "run_id_of y = cx_id c"
    then have "started_at y + LEASE \<le> sr_started_at r \<or> sr_started_at r + LEASE \<le> started_at y"
      using sorted_wrt_others(2) [OF lease_invD(4) [OF inv] y0 that(1)] by (auto simp: run_id_of_def started_at_def)
    moreover have "started_at y \<le> t" "sr_started_at r \<le> t"
      using lease_invD(2) [OF inv] y0 in_remove1 [OF that(1)] t by (fastforce simp: started_at_def)+
    ultimately show False using early that(2) by linarith
  qed
  have "holds_lease (dw_tables ?w) y" if y: "y \<in> set (remove1 (a, c, r) (lw_active x))" and "t < started_at y + LEASE" for y
  proof -
    have "holds_lease s y" using keep(2) lease_invD(3) [OF inv in_remove1 [OF y]] that(2) t by simp
    then show ?thesis
      using other [OF y that(2)] keep(1) [OF map_of_SomeD]
      unfolding T by (auto simp: holds_lease_def run_id_of_def release_connector_def get_put_connector split: option.splits prod.splits)
  qed
  then have runs: "run_id_of y \<in> known_ids sv (dw_tables ?w) \<and> started_at y \<le> t \<and>
      (t < started_at y + LEASE \<longrightarrow> holds_lease (dw_tables ?w) y)" if "y \<in> set (remove1 (a, c, r) (lw_active x))" for y
    using lease_invD(2) [OF inv in_remove1 [OF that]] known_mono [OF nx] t that by auto
  show ?thesis
    unfolding lease_inv_def
    using rows runs sorted_wrt_others(1) [OF lease_invD(4) [OF inv] y0] by simp blast
qed

lemma created_keeps:
  assumes inv: "lease_inv sv x" and t: "lw_now x \<le> t" and new: "inj (ds_new_id (dv_pipeline sv))"
  shows "lease_inv sv \<lparr>lw_now = t, lw_world = snd (create_connector sv p tn b t (lw_world x)), lw_active = lw_active x\<rparr>"
proof -
  let ?S = "dw_tables (lw_world x)" and ?T = "dw_tables (snd (create_connector sv p tn b t (lw_world x)))"
  have "?T = ?S \<or> (\<exists>k. ?T = put_connector k (?S\<lparr>iv_next := Suc (iv_next ?S)\<rparr>) \<and>
      cx_id k = ds_new_id (dv_pipeline sv) (iv_next ?S))"
    by (auto simp: create_connector_def fresh_row_def Let_def split: sum.split prod.split)
  then consider (same) "?T = ?S" | (put) k where "?T = put_connector k (?S\<lparr>iv_next := Suc (iv_next ?S)\<rparr>)"
    "cx_id k = ds_new_id (dv_pipeline sv) (iv_next ?S)" by blast
  then show ?thesis
  proof cases
    case same
    show ?thesis by (rule lease_inv_keep [OF inv t]) (use same inv in \<open>auto simp: lease_inv_def\<close>)
  next
    case put
    let ?U = "?S\<lparr>iv_next := Suc (iv_next ?S)\<rparr>"
    have U: "same_connectors ?S ?U" by (simp add: same_connectors_def)
    have fresh: "cx_id k \<notin> known_ids sv ?S" "cx_id k \<in> known_ids sv ?U"
      unfolding put(2) known_ids_def using new by (auto simp: inj_def)
    show ?thesis
    proof (rule lease_inv_keep [OF inv t])
      fix y assume y: "y \<in> set (lw_active x)" and "holds_lease ?S y"
      then show "holds_lease ?T y"
        using lease_invD(2) [OF inv y] fresh(1)
        by (auto simp: put(1) holds_lease_def run_id_of_def get_put_connector split: prod.splits)
    next
      fix i l assume "(i, l) \<in> set (iv_connectors ?T)"
      then show "i = cx_id l \<and> i \<in> known_ids sv ?T"
        using same_rows(1) [OF inv U] fresh(2) unfolding put(1) known_ids_simps by (auto dest!: put_connector_rows)
    qed (simp add: put(1))
  qed
qed

lemma updated_keeps:
  assumes inv: "lease_inv sv x" and t: "lw_now x \<le> t"
  shows "lease_inv sv \<lparr>lw_now = t, lw_world = snd (update_connector sv p tn i ch t (lw_world x)), lw_active = lw_active x\<rparr>"
proof -
  let ?S = "dw_tables (lw_world x)" and ?T = "dw_tables (snd (update_connector sv p tn i ch t (lw_world x)))"
  have "?T = ?S \<or> (\<exists>k n. ?T = put_connector (edited_fields ch n k) ?S \<and> map_of (iv_connectors ?S) i = Some k)"
    by (auto simp: update_connector_def update_connector_fields_def get_connector_def split: sum.split option.split)
  then consider (same) "?T = ?S" | (put) k n where "?T = put_connector (edited_fields ch n k) ?S"
    "map_of (iv_connectors ?S) i = Some k" by blast
  then show ?thesis
  proof cases
    case same
    show ?thesis by (rule lease_inv_keep [OF inv t]) (use same inv in \<open>auto simp: lease_inv_def\<close>)
  next
    case put
    let ?k = "edited_fields ch n k"
    have k: "cx_id ?k = i" "i \<in> known_ids sv ?S" "cx_lease_owner ?k = cx_lease_owner k" "cx_lease_until ?k = cx_lease_until k"
      using lease_invD(1) [OF inv put(2)] by (simp_all add: edited_fields_def)
    show ?thesis
    proof (rule lease_inv_keep [OF inv t])
      fix y assume "y \<in> set (lw_active x)" and "holds_lease ?S y"
      then show "holds_lease ?T y"
        using put(2) k by (auto simp: put(1) holds_lease_def get_put_connector split: prod.splits)
    next
      fix j l assume "(j, l) \<in> set (iv_connectors ?T)"
      then show "j = cx_id l \<and> j \<in> known_ids sv ?T"
        using same_rows(1) [OF inv writes.refl] k unfolding put(1) known_ids_simps by (auto dest!: put_connector_rows)
    qed (simp add: put(1))
  qed
qed

lemma removed_keeps:
  assumes inv: "lease_inv sv x" and t: "lw_now x \<le> t"
  shows "lease_inv sv \<lparr>lw_now = t, lw_world = snd (remove_connector p tn i t (lw_world x)), lw_active = lw_active x\<rparr>"
proof -
  let ?S = "dw_tables (lw_world x)" and ?T = "dw_tables (snd (remove_connector p tn i t (lw_world x)))"
  have "same_connectors ?S (foldl (\<lambda>s e. put_edge (e\<lparr>ed_valid_to := Some t\<rparr>) s) ?S es)" for es
    by (rule writes.folds_id) (rule writes.edge)
  then have "?T = ?S \<or> (\<exists>u. same_connectors ?S u \<and> ?T = u\<lparr>iv_connectors := AList.delete i (iv_connectors u)\<rparr>)"
    by (auto simp: remove_connector_def delete_connector_def Let_def split: sum.split)
  then obtain u where u: "same_connectors ?S u" "?T = ?S \<or> ?T = u\<lparr>iv_connectors := AList.delete i (iv_connectors u)\<rparr>"
    using writes.refl by blast
  have T: "iv_next ?S \<le> iv_next ?T" "set (iv_connectors ?T) \<subseteq> set (iv_connectors ?S)"
    using u by (auto simp: same_connectors_def delete_eq_filter)
  have M: "map_of (iv_connectors ?T) j = None \<or> map_of (iv_connectors ?T) j = map_of (iv_connectors ?S) j" for j
    using u by (auto simp: same_connectors_def delete_conv')
  show ?thesis
  proof (rule lease_inv_keep [OF inv t T(1)])
    fix y assume "holds_lease ?S y"
    then show "holds_lease ?T y" using M [of "run_id_of y"]
      by (auto simp: holds_lease_def run_id_of_def split: prod.splits option.splits)
  next
    fix j l assume "(j, l) \<in> set (iv_connectors ?T)"
    then show "j = cx_id l \<and> j \<in> known_ids sv ?T"
      using same_rows(1) [OF inv writes.refl, of j l] T(2) known_mono [OF T(1)] by blast
  qed
qed

lemma lease_step_keeps:
  assumes "lease_step sv x y" "lease_inv sv x" "inj (ds_new_id (dv_pipeline sv))"
  shows "lease_inv sv y"
  using assms(1)
proof cases
  case (Started t a i who only_due c r w)
  then show ?thesis using started_keeps [OF assms(2)] by simp
next
  case (Busy t a i who only_due w)
  then have "dw_tables w = dw_tables (lw_world x)"
    by (auto simp: start_run_def claim_connector_def Let_def split: prod.splits option.splits if_splits bool.splits)
  then show ?thesis
    using lease_inv_keep [OF assms(2) Busy(2), of w] assms(2) Busy(1) by (auto simp: lease_inv_def)
next
  case (Ended t a c r got fresh)
  then show ?thesis using ended_keeps [OF assms(2)] by simp
next
  case (Else t w)
  from Else(3) show ?thesis
  proof (cases rule: operated_cases)
    case same
    then have s: "same_connectors (dw_tables (lw_world x)) (dw_tables w)" by (simp add: keeps_connectors_def)
    show ?thesis
      unfolding Else(1) by (rule lease_inv_keep [OF assms(2) Else(2)])
        (use s same_rows [OF assms(2) s] in \<open>simp_all add: same_connectors_def\<close>)
  next
    case (created p tn b)
    then show ?thesis using created_keeps [OF assms(2) Else(2) assms(3)] Else(1) by simp
  next
    case (updated p tn i ch)
    then show ?thesis using updated_keeps [OF assms(2) Else(2)] Else(1) by simp
  next
    case (removed p tn i)
    then show ?thesis using removed_keeps [OF assms(2) Else(2)] Else(1) by simp
  qed
qed

section \<open>One run at a time\<close>

text \<open>C37. Whatever the replicas start and end and the operators do in between, at most one run of a connector
  is within its lease, as long as no run ends after its own.\<close>

theorem one_run_per_connector:
  assumes new: "inj (ds_new_id (dv_pipeline sv))" and run: "(lease_step sv)\<^sup>*\<^sup>* (lease_start s) x"
  shows "length (filter (\<lambda>y. run_id_of y = i \<and> lw_now x < started_at y + LEASE) (lw_active x)) \<le> 1"
proof -
  have inv: "lease_inv sv x"
    using run
  proof (induction rule: rtranclp_induct)
    case base
    show ?case by (simp add: lease_inv_def lease_start_def empty_inventory_def)
  next
    case (step y z)
    then show ?case using lease_step_keeps new by blast
  qed
  let ?l = "filter (\<lambda>y. run_id_of y = i \<and> lw_now x < started_at y + LEASE) (lw_active x)"
  have sorted: "sorted_wrt (\<lambda>y z. run_id_of y = run_id_of z \<longrightarrow> started_at z + LEASE \<le> started_at y) ?l"
    using lease_invD(4) [OF inv] by (rule sorted_wrt_filter)
  have within: "run_id_of y = i \<and> lw_now x < started_at y + LEASE \<and> started_at y \<le> lw_now x" if "y \<in> set ?l" for y
    using that lease_invD(2) [OF inv] by simp
  have "False" if l: "?l = y # z # l" for y z l
    using sorted within [of y] within [of z] unfolding l by auto
  then show ?thesis by (cases ?l rule: remdups_adj.cases) auto
qed

section \<open>An example\<close>

definition ex_replicas :: discovery_service where
  "ex_replicas =
     \<lparr>dv_pipeline = \<lparr>ds_new_id = (\<lambda>n. replicate n CHR ''x''), ds_day = str_int, ds_payload_hash = os_kind,
                       ds_max_observations = 100\<rparr>,
      dv_catalog = \<lparr>kg_digest = (\<lambda>_. ''digest''), kg_time_text = str_int, kg_open_findings = (\<lambda>_. []),
                     kg_entities = (\<lambda>_. [])\<rparr>,
      dv_instance = ''a'', dv_config = (\<lambda>_ c. Some (Inr c))\<rparr>"

definition ex_operator :: admin where
  "ex_operator = \<lparr>adm_key_id = ''ann'', adm_name = ''ann'', adm_roles = [''admin''], adm_tenant = None\<rparr>"

definition ex_tenant_store :: control_store where
  "ex_tenant_store = put_tenant \<lparr>tn_id = ''t'', tn_name = ''T'', tn_status = TenantActive, tn_created_at = 0,
     tn_advisor_data_classes = []\<rparr> empty_store"

definition ex_connected :: discovery_world where
  "ex_connected = snd (create_connector ex_replicas ex_operator ''t''
     \<lparr>cb_kind = ''k8s'', cb_name = ''cluster'', cb_config = [], cb_environment = None, cb_interval_minutes = 60,
      cb_enabled = True\<rparr> 0 \<lparr>dw_store = ex_tenant_store, dw_tables = empty_inventory\<rparr>)"

definition ex_started :: "(connector \<times> sync_run) option \<times> discovery_world" where
  "ex_started = start_run (replica ex_replicas ''b'') [] ''ann'' False 5 ex_connected"

lemma ex_started_some: "\<exists>c r. fst ex_started = Some (c, r) \<and> cx_id c = []"
proof -
  have "case fst ex_started of None \<Rightarrow> False | Some (c, r) \<Rightarrow> cx_id c = []" by code_simp
  then show ?thesis by (auto split: option.splits)
qed

theorem one_run_per_connector_witness:
  "\<exists>x :: lease_world. lw_active x \<noteq> [] \<and> run_id_of (hd (lw_active x)) = [] \<and>
     length (filter (\<lambda>y. run_id_of y = [] \<and> lw_now x < started_at y + LEASE) (lw_active x)) \<le> 1"
proof -
  obtain c r where s: "fst ex_started = Some (c, r)" "cx_id c = []" using ex_started_some by blast
  let ?x = "\<lparr>lw_now = 5, lw_world = snd ex_started, lw_active = [(''b'', c, r)]\<rparr>"
  let ?y = "\<lparr>lw_now = 0, lw_world = ex_connected, lw_active = []\<rparr>"
  have "lease_step ex_replicas (lease_start ex_tenant_store) ?y"
    using lease_step.Else [of "lease_start ex_tenant_store" 0 ex_replicas] operated.Created
    by (simp add: lease_start_def ex_connected_def)
  moreover have "lease_step ex_replicas ?y ?x"
    using lease_step.Started [of ?y 5 ex_replicas "''b''" "[]" "''ann''" False c r "snd ex_started"] s
    by (simp add: ex_started_def prod_eq_iff)
  ultimately have run: "(lease_step ex_replicas)\<^sup>*\<^sup>* (lease_start ex_tenant_store) ?x" by simp
  have "inj (ds_new_id (dv_pipeline ex_replicas))"
    by (simp add: ex_replicas_def inj_def replicate_eq_replicate)
  note one = one_run_per_connector [OF this run, of "[]"]
  show ?thesis
    by (rule exI [where x = ?x], intro conjI one) (simp_all add: run_id_of_def s)
qed

text \<open>
  A run that outlives its lease frees the lease of the next one when it ends: replica \<open>a\<close> starts a run,
  starts a second one when the lease is over, and when the first ends at minute 31 a third can start at
  minute 32, although the second is within its lease. The release compares the name of the replica, not
  the run.
\<close>

definition ex_minute :: int where "ex_minute = 60 * 1000000"

definition ex_first :: "(connector \<times> sync_run) option \<times> discovery_world" where
  "ex_first = start_run ex_replicas [] ''ann'' False 0 ex_connected"

definition ex_second :: "(connector \<times> sync_run) option \<times> discovery_world" where
  "ex_second = start_run ex_replicas [] ''ann'' False (30 * ex_minute) (snd ex_first)"

definition ex_first_ends :: discovery_world where
  "ex_first_ends = snd (finish_run ex_replicas (fst (the (fst ex_first))) (snd (the (fst ex_first))) (Inl ''Timeout'')
     (31 * ex_minute) ''c'' (snd ex_second))"

definition ex_third :: "(connector \<times> sync_run) option \<times> discovery_world" where
  "ex_third = start_run ex_replicas [] ''ann'' False (32 * ex_minute) ex_first_ends"

definition started_when :: "(connector \<times> sync_run) option \<times> discovery_world \<Rightarrow> (string \<times> instant) option" where
  "started_when x = map_option (\<lambda>cr. (cx_id (fst cr), sr_started_at (snd cr))) (fst x)"

lemma start_after_republish: "fst (start_run sv i who od t (republish sv u fr w)) = fst (start_run sv i who od t w)"
  by (auto simp: start_run_def Let_def split_beta split: prod.split bool.split)

lemma failed_run:
  "snd (finish_run sv c r (Inl cls) t fr w) =
     republish sv t fr (w\<lparr>dw_tables := release_connector (cx_id c) (dv_instance sv) RunError
       (Some (''internal error: '' @ cls)) t
       (put_run (r\<lparr>sr_status := RunError, sr_error := Some (''internal error: '' @ cls), sr_finished_at := Some t\<rparr>)
         (dw_tables w))\<rparr>)"
  by (simp add: finish_run_def Let_def)

theorem late_run_frees_lease:
  "started_when ex_first = Some ([], 0) \<and> started_when ex_second = Some ([], 30 * ex_minute) \<and>
   started_when ex_third = Some ([], 32 * ex_minute) \<and> 32 * ex_minute < 30 * ex_minute + LEASE"
  unfolding started_when_def ex_third_def ex_first_ends_def failed_run start_after_republish by code_simp

end
