(* ===== verification/Cp_Discovery_Pins.thy ===== *)
theory Cp_Discovery_Pins
  imports Cp_Discovery_Lease
begin

text \<open>
  Pinned tool definitions: once a tool is pinned, only an operator who accepts the change can move the
  pin, whatever servers report later. And what operators can do to the inventory by linking and reopening.
\<close>

section \<open>Pins are kept\<close>

text \<open>
  Relative to tables \<open>s0\<close>: an entity that was pinned there still has that pin, ids handed out
  since are new, and every entity is stored under its id.
\<close>

definition pin_kept :: "inventory \<Rightarrow> entity \<Rightarrow> bool" where
  "pin_kept s0 e \<longleftrightarrow>
     (case map_of (iv_entities s0) (en_id e) of
        None \<Rightarrow> True | Some e0 \<Rightarrow> en_pinned e0 \<noteq> None \<longrightarrow> en_pinned e = en_pinned e0)"

definition old_ids :: "discovery_settings \<Rightarrow> inventory \<Rightarrow> bool" where
  "old_ids ds s \<longleftrightarrow> inj (ds_new_id ds) \<and> (\<forall>(i, e) \<in> set (iv_entities s). i = en_id e \<and> i \<in> ds_new_id ds ` {..<iv_next s})"

definition pins_ok :: "inventory \<Rightarrow> inventory \<Rightarrow> bool" where
  "pins_ok s0 s \<longleftrightarrow> iv_next s0 \<le> iv_next s \<and> (\<forall>(i, e) \<in> set (iv_entities s). i = en_id e \<and> pin_kept s0 e)"

lemma pin_kept_same:
  "en_id e' = en_id e \<Longrightarrow> en_pinned e' = en_pinned e \<Longrightarrow> pin_kept s0 e' = pin_kept s0 e"
  by (simp add: pin_kept_def split: option.split)

lemma pin_kept_moves:
  "en_id e' = en_id e \<Longrightarrow> en_pinned e = None \<or> en_pinned e' = en_pinned e \<Longrightarrow> pin_kept s0 e \<Longrightarrow> pin_kept s0 e'"
  by (auto simp: pin_kept_def split: option.splits)

lemma pin_kept_new:
  assumes "old_ids ds s0" "iv_next s0 \<le> n" "en_id e = ds_new_id ds n"
  shows "pin_kept s0 e"
proof -
  have "map_of (iv_entities s0) (en_id e) = None"
    using assms by (fastforce simp: old_ids_def inj_def map_of_eq_None_iff)
  then show ?thesis by (simp add: pin_kept_def)
qed

lemma pinned_fields [simp]:
  "en_id (refresh_derived now e) = en_id e" "en_pinned (refresh_derived now e) = en_pinned e"
  "en_id (drop_source i now e) = en_id e" "en_pinned (drop_source i now e) = en_pinned e"
  "en_id (add_fact c f keys rid now e) = en_id e" "en_pinned (add_fact c f keys rid now e) = en_pinned e"
  "en_id (new_entity c f keys i now) = i" "en_id (registry_entity a t i now) = i"
  by (simp_all add: refresh_derived_def drop_source_def add_fact_def new_entity_def registry_entity_def Let_def split: option.split)

lemma reconciled_pinned [simp]:
  "en_id (reconciled ds ags es now e) = en_id e" "en_pinned (reconciled ds ags es now e) = en_pinned e"
proof -
  have r: "en_id (refreshed ags es now e) = en_id e" "en_pinned (refreshed ags es now e) = en_pinned e"
    by (simp_all add: refreshed_def aged_def Let_def)
  show "en_id (reconciled ds ags es now e) = en_id e" "en_pinned (reconciled ds ags es now e) = en_pinned e"
    by (simp_all add: reconciled_def judged_def Let_def r)
qed

lemma merge_into_pinned: "pin_kept s0 k \<Longrightarrow> pin_kept s0 (merge_into k other)"
  by (rule pin_kept_moves) (auto simp: merge_into_def Let_def)

lemma pins_put: "pins_ok s0 s \<Longrightarrow> pin_kept s0 e \<Longrightarrow> pins_ok s0 (put_entity e s)"
  using update_subset by (fastforce simp: pins_ok_def put_entity_def)

lemma pins_other:
  assumes "pins_ok s0 s"
  shows "pins_ok s0 (delete_entity t i s)" "pins_ok s0 (put_edge g s)" "pins_ok s0 (put_finding f s)"
    "pins_ok s0 (snd (fresh_row ds s))" "pins_ok s0 (add_observations obs s)" "pins_ok s0 (put_connector c s)"
    "pins_ok s0 (put_run r s)" "pins_ok s0 (s\<lparr>iv_agents := ags\<rparr>)" "pins_ok s0 (s\<lparr>iv_observations := obs\<rparr>)"
  using assms
  by (auto simp: pins_ok_def delete_entity_def put_edge_def put_finding_def fresh_row_def add_observations_def
      put_connector_def put_run_def delete_eq_filter split: option.split)

lemma pins_fold:
  assumes "P a" "\<And>a x. P a \<Longrightarrow> x \<in> set xs \<Longrightarrow> P (f a x)"
  shows "P (foldl f a xs)"
  using assms by (induction xs arbitrary: a) auto

lemma pins_row: "pins_ok s0 s \<Longrightarrow> e \<in> snd ` set (iv_entities s) \<Longrightarrow> pin_kept s0 e"
  by (auto simp: pins_ok_def)

text \<open>Rewriting edges and findings leaves the entities alone.\<close>

definition same_entities :: "inventory \<Rightarrow> inventory \<Rightarrow> bool" where
  "same_entities s u \<longleftrightarrow> iv_entities u = iv_entities s \<and> iv_next s \<le> iv_next u"

lemma pins_same: "same_entities s u \<Longrightarrow> pins_ok s0 s \<Longrightarrow> pins_ok s0 u"
  by (auto simp: same_entities_def pins_ok_def)

interpretation rows: row_writes same_entities
  by unfold_locales (auto simp: same_entities_def put_edge_def put_finding_def fresh_row_def)

section \<open>Through a run\<close>

lemma merge_rows_pins:
  assumes "pin_kept s0 k" "pins_ok s0 s"
  shows "pin_kept s0 (fst (merge_rows ds k e now s))" "pins_ok s0 (snd (merge_rows ds k e now s))"
  using assms pins_same [OF rows.move_edges] pins_same [OF rows.move_findings] pins_other(1)
  by (simp_all add: merge_rows_def Let_def merge_into_pinned)

lemma check_definition_pins:
  assumes "pin_kept s0 e" "pins_ok s0 (snd xs)"
  shows "pin_kept s0 (fst (check_definition ds e f now xs))" "pins_ok s0 (snd (snd (check_definition ds e f now xs)))"
proof -
  have "en_id (fst (check_definition ds e f now xs)) = en_id e"
    "en_pinned e = None \<or> en_pinned (fst (check_definition ds e f now xs)) = en_pinned e"
    by (auto simp: check_definition_def Let_def split: option.split)
  then show "pin_kept s0 (fst (check_definition ds e f now xs))" using pin_kept_moves assms(1) by blast
  show "pins_ok s0 (snd (snd (check_definition ds e f now xs)))"
    by (rule pins_same [OF rows.check_definition assms(2)])
qed

definition resolver_ok :: "inventory \<Rightarrow> resolver \<Rightarrow> bool" where
  "resolver_ok s0 r \<longleftrightarrow> (\<forall>(i, e) \<in> set (re_by_id r). i = en_id e \<and> pin_kept s0 e)"

lemma resolver_index: "resolver_ok s0 r \<Longrightarrow> pin_kept s0 e \<Longrightarrow> resolver_ok s0 (index_entity e r)"
  using update_subset by (fastforce simp: resolver_ok_def index_entity_def)

lemma resolver_load:
  "resolver_ok s0 (fst ri) \<Longrightarrow> pin_kept s0 e \<Longrightarrow> resolver_ok s0 (fst (load_found ri e))"
  by (auto simp: load_found_def Let_def resolver_index split: prod.split)

lemma resolver_merged: "resolver_ok s0 r \<Longrightarrow> pin_kept s0 k \<Longrightarrow> resolver_ok s0 (resolver_merge k i r)"
  unfolding resolver_merge_def by (rule resolver_index) (auto simp: resolver_ok_def delete_eq_filter)

lemma candidates_resolver:
  "snd (candidates t keys s r) = r \<or>
     (\<exists>known ks. snd (candidates t keys s r) = fst (foldl load_found (r, known) (find_entities s t ks)))"
proof (cases "filter (\<lambda>k. map_of (re_by_key r) k = None) keys = []")
  case True
  then show ?thesis unfolding candidates_def Let_def split_beta snd_conv by (simp only: if_True fst_conv simp_thms)
next
  case False
  then show ?thesis unfolding candidates_def Let_def split_beta snd_conv by (simp only: if_False fst_conv) blast
qed

lemma candidates_found:
  "\<exists>ids. fst (candidates t keys s r) = sort_key (\<lambda>e. (en_first_seen e, en_id e))
     (map the (filter (\<lambda>x. x \<noteq> None) (map (map_of (re_by_id (snd (candidates t keys s r)))) ids)))"
  unfolding candidates_def Let_def split_beta snd_conv fst_conv by blast

lemma found_pins:
  assumes s: "pins_ok s0 s" and r: "resolver_ok s0 r" and c: "candidates t keys s r = (found, r1)"
  shows "resolver_ok s0 r1" "\<And>e. e \<in> set found \<Longrightarrow> pin_kept s0 e"
proof -
  have "resolver_ok s0 (fst (foldl load_found (r, known) (find_entities s t ks)))" for known ks
  proof (rule pins_fold [where P = "\<lambda>ri. resolver_ok s0 (fst ri)"])
    fix ri :: "resolver \<times> string list" and e assume "resolver_ok s0 (fst ri)" and e: "e \<in> set (find_entities s t ks)"
    have "pin_kept s0 e" by (rule pins_row [OF s]) (use e in \<open>auto simp: find_entities_def\<close>)
    then show "resolver_ok s0 (fst (load_found ri e))"
      using \<open>resolver_ok s0 (fst ri)\<close> by (rule resolver_load [rotated])
  qed (simp add: r)
  then show 1: "resolver_ok s0 r1" using candidates_resolver [of t keys s r] r c by auto
  show "pin_kept s0 e" if e: "e \<in> set found" for e
  proof -
    obtain ids where "found = sort_key (\<lambda>e. (en_first_seen e, en_id e))
        (map the (filter (\<lambda>x. x \<noteq> None) (map (map_of (re_by_id r1)) ids)))"
      using candidates_found [of t keys s r] c by auto
    then obtain i where "map_of (re_by_id r1) i = Some e" using e by auto
    then show ?thesis using 1 by (auto simp: resolver_ok_def dest!: map_of_SomeD)
  qed
qed

lemma merge_found_pins:
  assumes "pin_kept s0 (fst krs)" "resolver_ok s0 (fst (snd krs))" "pins_ok s0 (snd (snd krs))"
  shows "pin_kept s0 (fst (merge_found ds now krs e)) \<and> resolver_ok s0 (fst (snd (merge_found ds now krs e))) \<and>
    pins_ok s0 (snd (snd (merge_found ds now krs e)))"
  using assms merge_rows_pins by (simp add: merge_found_def split_beta Let_def resolver_merged)

definition run_ok :: "inventory \<Rightarrow> run_state \<Rightarrow> bool" where
  "run_ok s0 u \<longleftrightarrow> resolver_ok s0 (ru_resolver u) \<and> pins_ok s0 (ru_store u)"

lemma resolve_fact_pins:
  assumes old: "old_ids ds s0" and u: "run_ok s0 u"
  shows "run_ok s0 (snd (resolve_fact ds c rid now f u))"
proof -
  obtain found r1 where f: "candidates (cx_tenant_id c) (set_sorted (ef_strong_keys f)) (ru_store u) (ru_resolver u) = (found, r1)"
    by fastforce
  have s: "pins_ok s0 (ru_store u)" "resolver_ok s0 (ru_resolver u)" using u by (simp_all add: run_ok_def)
  note fp = found_pins [OF s f]
  let ?keys = "set_sorted (ef_strong_keys f)"
  let ?check = "\<lambda>e s2. check_definition ds (add_fact c f ?keys rid now e) f now (ru_stats u, s2)"
  have checked: "resolver_ok s0 (index_entity (fst (?check e s2)) r2) \<and> pins_ok s0 (snd (snd (?check e s2)))"
    if "pin_kept s0 e" "resolver_ok s0 r2" "pins_ok s0 s2" for e r2 s2
  proof -
    have "pin_kept s0 (add_fact c f ?keys rid now e)" by (subst pin_kept_same [of _ e]) (simp_all add: that)
    note p = check_definition_pins [OF this, of "(ru_stats u, s2)", unfolded snd_conv, OF that(3)]
    show ?thesis by (intro conjI resolver_index that(2) p)
  qed
  show ?thesis
  proof (cases found)
    case Nil
    have "pin_kept s0 (new_entity c f keys (ds_new_id ds (iv_next (ru_store u))) now)" for keys
      by (rule pin_kept_new [OF old, of "iv_next (ru_store u)"]) (use s(1) in \<open>simp_all add: pins_ok_def\<close>)
    note new = this [of ?keys]
    let ?e = "new_entity c f ?keys (ds_new_id ds (iv_next (ru_store u))) now" and ?s2 = "snd (fresh_row ds (ru_store u))"
    let ?r = "index_entity ?e r1"
    have "resolver_ok s0 (?r\<lparr>re_created := x\<rparr>)" for x
      using resolver_index [OF fp(1) new] by (simp add: resolver_ok_def)
    note k = checked [OF new this pins_other(4) [OF s(1)]]
    have "snd (resolve_fact ds c rid now f u) =
        u\<lparr>ru_resolver := index_entity (fst (?check ?e ?s2)) (?r\<lparr>re_created := re_created ?r @ [en_id ?e]\<rparr>),
          ru_stats := fst (snd (?check ?e ?s2)), ru_store := snd (snd (?check ?e ?s2))\<rparr>"
      by (simp add: resolve_fact_def f Nil Let_def split_beta fresh_row_def)
    then show ?thesis using k unfolding run_ok_def by simp
  next
    case (Cons e es)
    let ?m = "foldl (merge_found ds now) (e, r1, ru_store u) es"
    have m: "pin_kept s0 (fst ?m) \<and> resolver_ok s0 (fst (snd ?m)) \<and> pins_ok s0 (snd (snd ?m))"
      by (rule pins_fold [where P = "\<lambda>k. pin_kept s0 (fst k) \<and> resolver_ok s0 (fst (snd k)) \<and> pins_ok s0 (snd (snd k))"])
        (use Cons fp s merge_found_pins in auto)
    have "snd (resolve_fact ds c rid now f u) =
        u\<lparr>ru_resolver := index_entity (fst (?check (fst ?m) (snd (snd ?m)))) (fst (snd ?m)),
          ru_stats := fst (snd (?check (fst ?m) (snd (snd ?m)))), ru_store := snd (snd (?check (fst ?m) (snd (snd ?m))))\<rparr>"
      by (simp add: resolve_fact_def f Cons Let_def split_beta del: foldl_Cons)
    then show ?thesis using checked [of "fst ?m" "fst (snd ?m)" "snd (snd ?m)"] m unfolding run_ok_def by simp
  qed
qed

lemma apply_observation_pins:
  assumes old: "old_ids ds s0" and u: "run_ok s0 (snd ru)"
  shows "run_ok s0 (snd (apply_observation ds c rid now ru x))"
proof -
  have "run_ok s0 (snd (foldl (resolve_refs ds c rid now)
      ([], (snd ru)\<lparr>ru_store := snd (fresh_row ds (ru_store (snd ru)))\<rparr>) (os_entities x)))"
    by (rule pins_fold [where P = "\<lambda>xu. run_ok s0 (snd xu)"])
      (use u resolve_fact_pins [OF old] in \<open>simp_all add: run_ok_def pins_other resolve_refs_def split_beta Let_def\<close>)
  then show ?thesis by (simp add: apply_observation_def Let_def split_beta run_ok_def)
qed

lemma put_all_pins:
  assumes "pins_ok s0 s" "\<And>e. e \<in> set es \<Longrightarrow> pin_kept s0 (g e)"
  shows "pins_ok s0 (foldl (\<lambda>s e. put_entity (g e) s) s es)"
  by (rule pins_fold) (use assms pins_put in auto)

lemma tenant_entities_pins: "pins_ok s0 s \<Longrightarrow> e \<in> set (tenant_entities s t n) \<Longrightarrow> pin_kept s0 e"
  using limited_subset by (fastforce simp: tenant_entities_def intro: pins_row)

lemma drop_unseen_pins: "pins_ok s0 s \<Longrightarrow> pins_ok s0 (drop_unseen c r now s)"
  unfolding drop_unseen_def
proof (rule put_all_pins)
  fix e assume "pins_ok s0 s" and "e \<in> set (filter (\<lambda>e. map_of (re_by_id r) (en_id e) = None \<and>
    map_of (en_by_source e) (cx_id c) \<noteq> None) (tenant_entities s (cx_tenant_id c) 1000000))"
  then have "pin_kept s0 e" using tenant_entities_pins by auto
  then show "pin_kept s0 (drop_source (cx_id c) now e)" by (subst pin_kept_same [of _ e]) simp_all
qed

section \<open>Through a reconciliation\<close>

lemma sync_agent_pins:
  assumes old: "old_ids ds s0" and s: "pins_ok s0 s"
  shows "pins_ok s0 (sync_agent ds t now s a)"
proof -
  have new: "pin_kept s0 (registry_entity a t (ds_new_id ds (iv_next s)) now)"
    by (rule pin_kept_new [OF old, of "iv_next s"]) (use s in \<open>simp_all add: pins_ok_def\<close>)
  have known: "pins_ok s0 (put_entity (e\<lparr>en_by_source := b, en_strong_keys := k\<rparr>) s)"
    if "e \<in> set (find_entities s t ks)" for e b k ks
  proof -
    have "pin_kept s0 e" by (rule pins_row [OF s]) (use that in \<open>auto simp: find_entities_def\<close>)
    then have "pin_kept s0 (e\<lparr>en_by_source := b, en_strong_keys := k\<rparr>)" by (subst pin_kept_same [of _ e]) simp_all
    then show ?thesis by (rule pins_put [OF s])
  qed
  show ?thesis
  proof (cases "find_entities s t (registry_keys (agr_agent_id a))")
    case Nil
    then show ?thesis
      using pins_put [OF pins_other(4) [OF s, of ds] new] by (simp add: sync_agent_def fresh_row_def)
  next
    case (Cons e es)
    then show ?thesis using known [of e "registry_keys (agr_agent_id a)"] s by (simp add: sync_agent_def Let_def)
  qed
qed

lemma sync_registry_pins:
  assumes old: "old_ids ds s0" and s: "pins_ok s0 s"
  shows "pins_ok s0 (sync_registry ds t now s)"
proof -
  have s1: "pins_ok s0 (foldl (sync_agent ds t now) s as)" for as
    by (rule pins_fold) (use s sync_agent_pins [OF old] in auto)
  show ?thesis
    unfolding sync_registry_def Let_def
  proof (rule put_all_pins [OF s1])
    fix e assume "e \<in> set (filter (registry_gone (map agr_agent_id (tenant_agents s t)))
        (tenant_entities (foldl (sync_agent ds t now) s (tenant_agents s t)) t 1000000))"
    then have "pin_kept s0 e" using tenant_entities_pins [OF s1] by auto
    then show "pin_kept s0 (e\<lparr>en_by_source := AList.delete REGISTRY_SOURCE (en_by_source e), en_registry_agent := None\<rparr>)"
      by (subst pin_kept_same [of _ e]) simp_all
  qed
qed

definition pool_ok :: "inventory \<Rightarrow> entity list \<Rightarrow> dedupe_state \<Rightarrow> bool" where
  "pool_ok s0 es d \<longleftrightarrow> pins_ok s0 (dd_store d) \<and> dom (map_of (dd_pool d)) = en_id ` set es \<and>
     (\<forall>i e. map_of (dd_pool d) i = Some e \<longrightarrow> en_id e = i \<and> pin_kept s0 e) \<and>
     (\<forall>k j. map_of (dd_owner d) k = Some j \<longrightarrow> j \<in> en_id ` set es)"

lemma own_keys_owner: "map_of (own_keys i ks ow) k = (if k \<in> set ks then Some i else map_of ow k)"
  unfolding own_keys_def by (induction ks arbitrary: ow) (auto simp: update_conv')

lemma target_owner:
  assumes "dedupe_target d e = Some j"
  shows "\<exists>k. map_of (dd_owner d) k = Some j"
proof -
  have "j \<in> set (other_owners d e)" using assms by (auto simp: dedupe_target_def split: list.splits)
  then show ?thesis by (auto simp: other_owners_def)
qed

lemma dedupe_step_pins:
  assumes d: "pool_ok s0 es d" and e: "e \<in> set es"
  shows "pool_ok s0 es (dedupe_step ds now d e)"
proof (cases "dedupe_target d e")
  case None
  then show ?thesis using d e by (auto simp: dedupe_step_def pool_ok_def own_keys_owner split: if_splits)
next
  case (Some j)
  obtain x where "map_of (dd_owner d) x = Some j" using target_owner [OF Some] by blast
  then have "j \<in> en_id ` set es" using d by (auto simp: pool_ok_def)
  moreover from d have "dom (map_of (dd_pool d)) = en_id ` set es" by (simp add: pool_ok_def)
  ultimately obtain k where k: "map_of (dd_pool d) j = Some k" by blast
  have kj: "en_id k = j" "pin_kept s0 k" and st: "pins_ok s0 (dd_store d)" using d k by (auto simp: pool_ok_def)
  note m = merge_rows_pins [OF kj(2) st, of ds e now]
  have mid: "en_id (fst (merge_rows ds k e now (dd_store d))) = j"
    using kj by (simp add: merge_rows_def Let_def)
  show ?thesis
    using d k m mid pins_put [OF m(2,1)] \<open>j \<in> en_id ` set es\<close>
    by (auto simp: dedupe_step_def Some Let_def split_beta pool_ok_def own_keys_owner update_conv' split: if_splits)
qed

lemma dedupe_pins:
  assumes s: "pins_ok s0 s" and es: "\<And>e. e \<in> set es \<Longrightarrow> pin_kept s0 e"
  shows "pins_ok s0 (snd (dedupe ds es now s))" "e \<in> set (fst (dedupe ds es now s)) \<Longrightarrow> pin_kept s0 e"
proof -
  let ?first = "\<lparr>dd_pool = map (\<lambda>e. (en_id e, e)) es, dd_owner = [], dd_gone = [], dd_store = s\<rparr>"
  let ?d = "foldl (dedupe_step ds now) ?first (sort_key (\<lambda>e. (en_first_seen e, en_id e)) es)"
  have keys: "dom (map_of (map (\<lambda>e. (en_id e, e)) es)) = en_id ` set es" by (simp add: dom_map_of_conv_image_fst image_image)
  have vals: "\<forall>i x. map_of (dd_pool ?first) i = Some x \<longrightarrow> en_id x = i \<and> pin_kept s0 x"
  proof (intro allI impI)
    fix i x assume "map_of (dd_pool ?first) i = Some x"
    then have "(i, x) \<in> set (map (\<lambda>e. (en_id e, e)) es)" by (auto dest: map_of_SomeD)
    then show "en_id x = i \<and> pin_kept s0 x" using es by auto
  qed
  have "pool_ok s0 es ?first" unfolding pool_ok_def by (intro conjI vals) (simp_all add: s keys)
  then have "pool_ok s0 es ?d" by (rule pins_fold) (rule dedupe_step_pins, assumption, simp)
  then have d: "pins_ok s0 (dd_store ?d)" "dom (map_of (dd_pool ?d)) = en_id ` set es"
    "\<And>i y. map_of (dd_pool ?d) i = Some y \<Longrightarrow> pin_kept s0 y"
    unfolding pool_ok_def by blast+
  show "pins_ok s0 (snd (dedupe ds es now s))" using d(1) by (simp add: dedupe_def Let_def)
  show "pin_kept s0 e" if e: "e \<in> set (fst (dedupe ds es now s))"
  proof -
    obtain x where x: "x \<in> set es" "e = the (map_of (dd_pool ?d) (en_id x))"
      using e by (auto simp: dedupe_def Let_def)
    then obtain y where "map_of (dd_pool ?d) (en_id x) = Some y" using d(2) by blast
    then show ?thesis using d(3) x(2) by simp
  qed
qed

lemma reconcile_entity_pins:
  assumes "pins_ok s0 (snd xs)" "pin_kept s0 e"
  shows "pins_ok s0 (snd (reconcile_entity ds t ags es opens acc now xs e))"
proof -
  let ?e = "(reconciled ds ags es now e)\<lparr>en_updated_at := now\<rparr>"
  have "pin_kept s0 ?e" using assms(2) by (subst pin_kept_same [of _ e]) simp_all
  note p = pins_put [OF assms(1) this]
  have u: "same_entities (snd ys) (snd (update_findings ds t e' opens' acc now ys))" for ys e' opens'
    by (rule rows.update_findings [OF rows.refl])
  show ?thesis
    unfolding reconcile_entity_def Let_def by (rule pins_same [OF u]) (simp add: p assms(1))
qed

lemma reconcile_tenant_pins:
  assumes old: "old_ids ds s0" and s: "pins_ok s0 (snd xs)"
  shows "pins_ok s0 (snd (reconcile_tenant ds t now xs))"
proof -
  let ?s1 = "sync_registry ds t now (snd xs)"
  note s1 = sync_registry_pins [OF old s, of t now]
  show ?thesis
    unfolding reconcile_tenant_def reconcile_entities_def dedupe_tenant_def
  proof (rule pins_fold [where P = "\<lambda>ys. pins_ok s0 (snd ys)"])
    show "pins_ok s0 (snd (fst xs, snd (dedupe ds (tenant_entities ?s1 t 1000000) now ?s1)))"
      using dedupe_pins(1) [OF s1] tenant_entities_pins [OF s1] by simp
    fix ys :: "run_stats \<times> inventory" and e assume "pins_ok s0 (snd ys)" and "e \<in> set (fst (dedupe ds (tenant_entities ?s1 t 1000000) now ?s1))"
    then show "pins_ok s0 (snd (reconcile_entity ds t (tenant_agents (snd (dedupe ds (tenant_entities ?s1 t 1000000) now ?s1)) t)
        (fst (dedupe ds (tenant_entities ?s1 t 1000000) now ?s1))
        (list_findings (snd (dedupe ds (tenant_entities ?s1 t 1000000) now ?s1)) t (Some FindingOpen) None None 1000000)
        (map (\<lambda>f. (fi_entity_id f, fi_kind f))
          (list_findings (snd (dedupe ds (tenant_entities ?s1 t 1000000) now ?s1)) t (Some FindingAccepted) None None 1000000))
        now ys e))"
      using reconcile_entity_pins dedupe_pins(2) [OF s1] tenant_entities_pins [OF s1] by blast
  qed
qed

lemma discovery_run_pins:
  assumes old: "old_ids ds s0" and s: "pins_ok s0 s"
  shows "pins_ok s0 (snd (discovery_run ds c got run now finished s))"
proof (cases got)
  case None
  then show ?thesis using s by (simp add: discovery_run_def)
next
  case (Some g)
  let ?ru = "run_observations ds c (sr_id run) now g s"
  have "run_ok s0 (snd ?ru)"
    unfolding run_observations_def
    by (rule pins_fold [where P = "\<lambda>ru. run_ok s0 (snd ru)"], simp add: run_ok_def resolver_ok_def new_resolver_def s)
      (rule apply_observation_pins [OF old])
  then have ru: "resolver_ok s0 (ru_resolver (snd ?ru))" "pins_ok s0 (ru_store (snd ?ru))" by (simp_all add: run_ok_def)
  have "pins_ok s0 (save_run now ?ru)"
    unfolding save_run_def
  proof (rule put_all_pins [OF pins_other(5) [OF ru(2)]])
    fix e assume "e \<in> set (map snd (re_by_id (ru_resolver (snd ?ru))))"
    then have "pin_kept s0 e" using ru(1) by (auto simp: resolver_ok_def)
    then show "pin_kept s0 (refresh_derived now e)" by (subst pin_kept_same [of _ e]) simp_all
  qed
  then have "pins_ok s0 (snd (run_edges ds c now full ?ru))" for full
    unfolding run_edges_def using pins_same [OF rows.reconcile_edges] by simp
  then have "pins_ok s0 (snd (run_drop c now full ?ru (run_edges ds c now full ?ru)))" for full
    by (simp add: run_drop_def drop_unseen_pins)
  from reconcile_tenant_pins [OF old this] show ?thesis
    by (simp add: Some discovery_run_def conclude_run_def run_result_def)
qed

section \<open>What operators and replicas do short of approving\<close>

text \<open>Every handler of the service and both ends of a run, except accepting a changed tool definition.\<close>

inductive unapproved :: "discovery_service \<Rightarrow> discovery_world \<Rightarrow> discovery_world \<Rightarrow> bool" for sv where
  Run_starts: "unapproved sv w (snd (start_run (replica sv a) i who only_due now w))"
| Run_ends: "unapproved sv w (snd (finish_run (replica sv a) c r got now fresh w))"
| Creates: "unapproved sv w (snd (create_connector sv p t b now w))"
| Updates: "unapproved sv w (snd (update_connector sv p t i ch now w))"
| Removes: "unapproved sv w (snd (remove_connector p t i now w))"
| Links: "unapproved sv w (snd (link_entity sv p t i agent now fresh w))"
| Registers: "unapproved sv w (snd (register_entity sv p t i agent trust tools owner now fresh1 fresh2 w))"
| Ignores: "unapproved sv w (snd (ignore_entity sv p t i reason days now fresh w))"
| Reconciles: "unapproved sv w (snd (reconcile_now sv p t now fresh w))"
| Decides: "st \<noteq> FindingAccepted \<Longrightarrow> unapproved sv w (snd (update_finding sv p t i st nt now fresh w))"
| Housekeeps: "unapproved sv w (snd (housekeeping sv now fresh w))"
| Stores: "unapproved sv w (w\<lparr>dw_store := s\<rparr>)"

definition world_pins :: "inventory \<Rightarrow> discovery_world \<Rightarrow> bool" where
  "world_pins s0 w \<longleftrightarrow> pins_ok s0 (dw_tables w)"

lemma world_pins_simps [simp]:
  "world_pins s0 (republish sv now fresh w) = world_pins s0 w" "world_pins s0 (logged en i what p w) = world_pins s0 w"
  "world_pins s0 (w\<lparr>dw_store := c\<rparr>) = world_pins s0 w" "world_pins s0 (w\<lparr>dw_tables := s\<rparr>) = pins_ok s0 s"
  by (simp_all add: world_pins_def)

lemma inventory_pins: "world_pins s0 w \<Longrightarrow> pins_ok s0 (inventory_of w)"
  unfolding inventory_of_def world_pins_def by (rule pins_other)

lemma reconcile_world_pins:
  assumes "old_ids (dv_pipeline sv) s0" "world_pins s0 w"
  shows "world_pins s0 (snd (reconcile_world sv t now w))"
  using reconcile_tenant_pins [OF assms(1), of "(no_stats, inventory_of w)"] inventory_pins [OF assms(2)]
  by (simp add: reconcile_world_def split_beta)

lemma changed_entity_pins:
  assumes "world_pins s0 w" "require_entity t i w = Inr e" "en_id e' = en_id e" "en_pinned e' = en_pinned e"
  shows "pins_ok s0 (put_entity e' (dw_tables w))"
proof -
  have "pin_kept s0 e"
    using assms(1,2) pins_row
    by (fastforce simp: world_pins_def require_entity_def get_entity_def split: option.splits if_splits dest: map_of_SomeD)
  then have "pin_kept s0 e'" using assms(3,4) pin_kept_same by blast
  then show ?thesis using assms(1) pins_put by (simp add: world_pins_def)
qed

lemma link_pins:
  assumes "old_ids (dv_pipeline sv) s0" "world_pins s0 w"
  shows "world_pins s0 (snd (link_entity sv p t i agent now fresh w))"
proof (cases "link_check p t i agent w")
  case (Inl e)
  then show ?thesis using assms(2) by (simp add: link_entity_def)
next
  case (Inr e)
  then have "require_entity t i w = Inr e"
    by (auto simp: link_check_def result_bind_Inr_iff split: if_splits)
  from changed_entity_pins [OF assms(2) this, of "linked_entity p agent now e"]
  show ?thesis
    using Inr reconcile_world_pins [OF assms(1)] by (simp add: link_entity_def Let_def linked_entity_def split: list.split)
qed

lemma unapproved_pins:
  assumes step: "unapproved sv w v" and old: "old_ids (dv_pipeline sv) s0" and w: "world_pins s0 w"
  shows "world_pins s0 v"
  using step
proof cases
  case (Run_starts a i who only_due now)
  have "pins_ok s0 (snd (claim_connector i b t u od (dw_tables w)))" for b t u od
    using w pins_other(6) by (auto simp: claim_connector_def world_pins_def split: option.split)
  from this [of "dv_instance (replica sv a)" now "now + LEASE" only_due] w
  show ?thesis
    unfolding Run_starts start_run_def
    by (auto simp: Let_def split_beta pins_other split: bool.split)
next
  case (Run_ends a c r got now fresh)
  have run: "pins_ok s0 (snd (discovery_run (dv_pipeline sv) c g r (sr_started_at r) now (inventory_of w)))" for g
    by (rule discovery_run_pins [OF old inventory_pins [OF w]])
  have rel: "pins_ok s0 (release_connector i b st err fin (put_run z s))" if "pins_ok s0 s" for i b st err fin z s
    using that pins_other(6,7) by (simp add: release_connector_def split: option.split)
  show ?thesis
    unfolding Run_ends using w rel run
    by (cases got) (simp_all add: finish_run_def Let_def split_beta replica_def world_pins_def)
next
  case (Creates p t b now)
  then show ?thesis
    using w pins_other(4,6) by (auto simp: create_connector_def Let_def split_beta world_pins_def split: sum.split)
next
  case (Updates p t i ch now)
  then show ?thesis
    using w pins_other(6)
    by (auto simp: update_connector_def update_connector_fields_def world_pins_def split: sum.split option.split)
next
  case (Removes p t i now)
  have "same_entities s (foldl (\<lambda>s e. put_edge (e\<lparr>ed_valid_to := Some now\<rparr>) s) s es)" for s es
    by (rule rows.folds_id) (rule rows.edge)
  from pins_same [OF this] w show ?thesis
    unfolding Removes by (auto simp: remove_connector_def delete_connector_def Let_def world_pins_def pins_ok_def split: sum.split)
next
  case (Registers p t i agent trust tools own now f1 f2)
  then show ?thesis
    using w link_pins [OF old] by (auto simp: register_entity_def split: sum.split prod.split)
next
  case (Ignores p t i reason days now fresh)
  have "pins_ok s0 (put_entity (ignored_entity reason d now e) (dw_tables w))" if "require_entity t i w = Inr e" for e d
    by (rule changed_entity_pins [OF w that]) (simp_all add: ignored_entity_def)
  then show ?thesis
    using Ignores w reconcile_world_pins [OF old] by (auto simp: ignore_entity_def Let_def split: sum.split)
next
  case (Housekeeps now fresh)
  have all: "world_pins s0 (foldl (\<lambda>w t. snd (reconcile_world sv (tn_id t) now w)) x ts)" if "world_pins s0 x" for x ts
    by (rule pins_fold) (use that reconcile_world_pins [OF old] in auto)
  have pruned: "pins_ok s0 (snd (prune_observations d (dw_tables w)))" for d
    using w pins_other(9) by (simp add: prune_observations_def Let_def world_pins_def)
  show ?thesis
    unfolding Housekeeps housekeeping_def split_beta Let_def snd_conv world_pins_simps(1)
    by (rule all) (simp add: pruned)
qed (use w old link_pins reconcile_world_pins pins_other(3) in
  \<open>auto simp: reconcile_now_def update_finding_def Let_def split_beta world_pins_def split: sum.split option.split\<close>)

lemma pins_start:
  assumes "old_ids ds s" "distinct (map fst (iv_entities s))"
  shows "pins_ok s s"
  using assms by (auto simp: old_ids_def pins_ok_def pin_kept_def map_of_eq_Some_iff)


text \<open>Accepting the change is what moves the pin.\<close>

lemma approval_moves_pin:
  assumes "can p InventoryWrite (Some t)" "get_finding (dw_tables w) t i = Some f" "fi_status f = FindingOpen"
    and "fi_kind f = ToolDefinitionChanged" "fi_details f = ToolDetails old new old_text new_text"
    and "get_entity (dw_tables w) t (fi_entity_id f) = Some e" "en_id e = fi_entity_id f"
  shows "map_option en_pinned (map_of (iv_entities (dw_tables
           (snd (update_finding sv p t i FindingAccepted nt now fresh w)))) (fi_entity_id f)) =
         Some (Some \<lparr>pn_hash = new, pn_description = new_text, pn_at = now, pn_approved_by = Some (actor p)\<rparr>)"
proof -
  have "fi_tenant_id f = t" using assms(2) by (auto simp: get_finding_def split: option.splits if_splits)
  then show ?thesis
    using assms
    by (simp add: update_finding_def status_change_allowed_def Let_def approve_definition_def decided_finding_def
        put_finding_def put_entity_def update_conv')
qed

section \<open>Examples\<close>

definition ex_scanner :: connector where
  "ex_scanner = \<lparr>cx_id = ''mcp'', cx_tenant_id = ''t'', cx_kind = ''mcp'', cx_name = ''servers'', cx_config = [],
     cx_environment = None, cx_interval_minutes = 60, cx_enabled = True, cx_created_by = ''ann'', cx_created_at = 0,
     cx_updated_at = 0, cx_last_run_at = None, cx_last_status = None, cx_last_error = None, cx_lease_owner = None,
     cx_lease_until = None\<rparr>"

definition ex_report :: "string \<Rightarrow> entity_fact" where
  "ex_report h = \<lparr>ef_ref = ''self'', ef_kind = ''tool'', ef_name = ''s/pay'', ef_strong_keys = [''tool:s/pay''],
     ef_weak_keys = [], ef_attrs = [(''definition_hash'', JStr h)], ef_signals = [], ef_environment = None,
     ef_owner = None, ef_managed_volume = 0, ef_direct_volume = 0\<rparr>"

definition ex_scan :: "string \<Rightarrow> string + collected option" where
  "ex_scan h = Inr (Some \<lparr>cl_full_snapshot = False, cl_observations =
     [\<lparr>os_kind = ''mcp.tool'', os_source_ref = ''s'', os_entities = [ex_report h], os_edges = [],
       os_attrs = [], os_observed_at = None\<rparr>], cl_error = None, cl_warnings = []\<rparr>)"

definition ex_scan_run :: sync_run where
  "ex_scan_run = \<lparr>sr_id = ''r'', sr_tenant_id = ''t'', sr_connector_id = ''mcp'', sr_triggered_by = ''ann'', sr_started_at = 9,
     sr_finished_at = None, sr_status = RunRunning, sr_observations = 0, sr_entities_created = 0, sr_entities_updated = 0,
     sr_edges_opened = 0, sr_edges_closed = 0, sr_findings_opened = 0, sr_findings_resolved = 0, sr_warnings = [],
     sr_error = None\<rparr>"

definition ex_pin :: pinned_definition where
  "ex_pin = \<lparr>pn_hash = JStr ''h1'', pn_description = JStr [], pn_at = 1, pn_approved_by = None\<rparr>"

definition ex_tool :: entity where
  "ex_tool = (new_entity ex_scanner (ex_report ''h1'') [''tool:s/pay''] [] 1)\<lparr>en_pinned := Some ex_pin\<rparr>"

definition ex_pinned_world :: discovery_world where
  "ex_pinned_world = \<lparr>dw_store = ex_tenant_store, dw_tables = put_entity ex_tool (empty_inventory\<lparr>iv_next := 1\<rparr>)\<rparr>"

definition ex_changed_world :: discovery_world where
  "ex_changed_world = snd (finish_run (replica ex_replicas ''a'') ex_scanner ex_scan_run (ex_scan ''h2'') 10 ''c'' ex_pinned_world)"

lemma finished_entities:
  "iv_entities (dw_tables (snd (finish_run sv c r (Inr g) now fresh w))) =
     iv_entities (snd (discovery_run (dv_pipeline sv) c g r (sr_started_at r) now (inventory_of w)))"
  by (simp add: finish_run_def Let_def split_beta release_connector_def put_connector_def put_run_def split: option.split)

lemma ex_changed_scan:
  "case discovery_run (dv_pipeline ex_replicas) ex_scanner (projr (ex_scan ''h2'')) ex_scan_run 9 10 (inventory_of ex_pinned_world) of
     (r, s) \<Rightarrow> map_of (iv_entities s) [] \<noteq> None \<and> map (fi_kind \<circ> snd) (iv_findings s) = [ToolDefinitionChanged]"
  by code_simp


end
