(* ===== verification/Proxy.thy ===== *)
theory Proxy
  imports Flow
begin

text \<open>
  The provider proxy (\<^verbatim>\<open>gateway/proxy.py\<close>): an OpenAI-compatible chat completion behind the gateway. The
  input stage checks the request, the provider answers, and the output and tool stages check every text and
  tool call of the answer, which is rebuilt from the fields they check. The provider, \<open>json.loads\<close> and
  \<open>json.dumps\<close> (with Python's floats and Unicode) and the printed form of arbitrary values are parameters;
  each stage is \<open>run_stage\<close>, with other requests between the stages.
\<close>

section \<open>Results\<close>

record proxy_config =
  px_upstream_url :: string
  px_upstream_api_key :: "string option"
  px_default_agent_id :: string
  px_models :: "string list"  \<comment> \<open>empty: any model\<close>

record proxy_result =
  pq_status :: int
  pq_body :: jobj
  pq_headers :: "(string \<times> string) list"

text \<open>\<open>ProxyRejected\<close>, or another exception (which the server answers with 500).\<close>

datatype proxy_error = Rejected proxy_result | Crashed string

definition openai_error :: "int \<Rightarrow> string \<Rightarrow> string \<Rightarrow> jobj \<Rightarrow> proxy_result" where
  "openai_error status message kind extra =
     \<lparr>pq_status = status,
      pq_body = [(''error'', JObj ([(''message'', JStr message), (''type'', JStr kind), (''code'', JStr kind),
                                   (''param'', JNull)] @ extra))],
      pq_headers = []\<rparr>"

definition reject :: "int \<Rightarrow> string \<Rightarrow> string \<Rightarrow> proxy_error + 'a" where
  "reject status message kind = Inl (Rejected (openai_error status message kind []))"

fun map_results :: "('a \<Rightarrow> 'e + 'b) \<Rightarrow> 'a list \<Rightarrow> 'e + 'b list" where
  "map_results f [] = Inr []"
| "map_results f (x # xs) = result_bind (f x) (\<lambda>y. result_bind (map_results f xs) (\<lambda>ys. Inr (y # ys)))"

section \<open>JSON values\<close>

definition index_text :: "nat \<Rightarrow> string" where
  "index_text i = str_int (int i)"

text \<open>\<open>for x in (v or [])\<close>: a dictionary gives its keys and a string its characters; anything else raises.\<close>

fun iterated :: "json \<Rightarrow> proxy_error + json list" where
  "iterated (JArr xs) = Inr xs"
| "iterated (JObj kvs) = Inr (map (\<lambda>kv. JStr (fst kv)) kvs)"
| "iterated (JStr s) = Inr (map (\<lambda>c. JStr [c]) s)"
| "iterated v = (if truthy v then Inl (Crashed ''TypeError'') else Inr [])"

text \<open>A list or a dictionary cannot be looked up in a set or a dictionary.\<close>

fun hashable :: "json \<Rightarrow> bool" where
  "hashable (JArr _) = False" | "hashable (JObj _) = False" | "hashable _ = True"

fun type_name :: "json \<Rightarrow> string" where
  "type_name JNull = ''NoneType''" | "type_name (JBool _) = ''bool''" | "type_name (JInt _) = ''int''"
| "type_name (JFloat _) = ''float''" | "type_name (JStr _) = ''str''" | "type_name (JArr _) = ''list''"
| "type_name (JObj _) = ''dict''"

text \<open>Places in a document: the setters assign to one.\<close>

datatype path_step = Key string | Item nat

type_synonym path = "path_step list"

fun set_path :: "path \<Rightarrow> json \<Rightarrow> json \<Rightarrow> json" where
  "set_path [] v j = v"
| "set_path (Key k # p) v (JObj kvs) = JObj (AList.update k (set_path p v (obj_get kvs k)) kvs)"
| "set_path (Item i # p) v (JArr xs) = JArr (xs[i := set_path p v (xs ! i)])"
| "set_path _ v j = j"

section \<open>Requests\<close>

datatype upstream_answer = Unreachable string | NotJson int | JsonAnswer int json

record upstream_request =
  uq_url :: string
  uq_headers :: "(string \<times> string) list"
  uq_body :: jobj

record 'v proxy_env =
  pe_services :: "nat \<Rightarrow> 'v services"  \<comment> \<open>as they are at the n-th stage call\<close>
  pe_now :: "nat \<Rightarrow> real"
  pe_uid :: "nat \<Rightarrow> string"
  pe_between :: "nat \<Rightarrow> 'v gateway_state \<Rightarrow> 'v gateway_state"  \<comment> \<open>what other requests do before it\<close>
  pe_upstream :: "upstream_request \<Rightarrow> upstream_answer"
  pe_loads :: "string \<Rightarrow> json option"
  pe_dumps :: "jobj \<Rightarrow> string"
  pe_repr :: "json \<Rightarrow> string"
  pe_str :: "json \<Rightarrow> string"

text \<open>The gateway, and the local variables of \<open>_chat\<close> that its loops change.\<close>

record 'v proxy_state =
  pz_gateway :: "'v gateway_state"
  pz_calls :: nat
  pz_sent :: "upstream_request list"
  pz_decisions :: "(string \<times> decision) list"

definition GUARDED_ROLES :: "(string \<times> role) list" where
  "GUARDED_ROLES = [(''system'', RSystem), (''developer'', RSystem), (''user'', RUser), (''assistant'', RAssistant),
     (''tool'', RTool)]"

definition unsupported_part :: "string \<Rightarrow> string \<Rightarrow> proxy_error + 'a" where
  "unsupported_part place kind =
     reject 400 (place @ '': content part of type '' @ kind @ '' can'' @ [CHR 0x27] @
       ''t be checked by the guardrails; send text only'') ''unsupported_content''"

definition part_text :: "(json \<Rightarrow> string) \<Rightarrow> string \<Rightarrow> json \<Rightarrow> proxy_error + string" where
  "part_text repr place part =
     (case part of
        JObj o' \<Rightarrow>
          (case (obj_get o' ''type'' = JStr ''text'', obj_get o' ''text'') of
             (True, JStr t) \<Rightarrow> Inr t
           | _ \<Rightarrow> unsupported_part place (repr (obj_get o' ''type'')))
      | _ \<Rightarrow> unsupported_part place (repr (JStr (type_name part))))"

definition text_of :: "(json \<Rightarrow> string) \<Rightarrow> json \<Rightarrow> string \<Rightarrow> proxy_error + string" where
  "text_of repr content place =
     (case content of
        JNull \<Rightarrow> Inr []
      | JStr s \<Rightarrow> Inr s
      | JArr parts \<Rightarrow> result_bind (map_results (part_text repr place) parts) (\<lambda>texts. Inr (join [CHR 0x0A] texts))
      | _ \<Rightarrow> reject 400 (place @ '': unsupported content'') ''invalid_request_error'')"

definition with_text :: "json \<Rightarrow> string \<Rightarrow> json" where
  "with_text content t =
     (case content of
        JArr _ \<Rightarrow> JArr [JObj [(''type'', JStr ''text''), (''text'', JStr t)]]
      | _ \<Rightarrow> JStr t)"

definition UNSUPPORTED_REQUEST :: "(string \<times> string) list" where
  "UNSUPPORTED_REQUEST =
     [(''logprobs'', ''logprobs would return the raw model tokens next to the checked text''),
      (''top_logprobs'', ''logprobs would return the raw model tokens next to the checked text''),
      (''audio'', ''audio output can'' @ [CHR 0x27] @ ''t be checked''),
      (''functions'', ''legacy functions are not supported; use tools''),
      (''function_call'', ''legacy function_call is not supported; use tool_choice''),
      (''prediction'', ''predicted outputs are not supported'')]"

definition function_tool :: "json \<Rightarrow> bool" where
  "function_tool tool \<longleftrightarrow>
     (case tool of
        JObj t \<Rightarrow> obj_get t ''type'' = JStr ''function'' \<and> (case obj_get t ''function'' of JObj _ \<Rightarrow> True | _ \<Rightarrow> False)
      | _ \<Rightarrow> False)"

definition refuse_unsupported_request :: "jobj \<Rightarrow> proxy_error + unit" where
  "refuse_unsupported_request body =
     (if truthy (obj_get body ''stream'')
      then reject 400 ''stream=true is not supported through the guardrail proxy'' ''unsupported_stream''
      else (case List.find (\<lambda>kw. truthy (obj_get body (fst kw))) UNSUPPORTED_REQUEST of
              Some (key, why) \<Rightarrow> reject 400 (key @ '': '' @ why) ''unsupported_parameter''
            | None \<Rightarrow>
                if obj_get body ''modalities'' \<notin> {JNull, JArr [JStr ''text'']}
                then reject 400 (''only text output can be checked (modalities=['' @ [CHR 0x27] @ ''text'' @ [CHR 0x27] @ ''])'')
                       ''unsupported_parameter''
                else result_bind (iterated (obj_get body ''tools'')) (\<lambda>tools.
                       (case List.find (\<lambda>it. \<not> function_tool (snd it)) (List.enumerate 0 tools) of
                          Some (i, _) \<Rightarrow> reject 400 (''tools['' @ index_text i @ '']: only function tools are supported'')
                                           ''unsupported_parameter''
                        | None \<Rightarrow> Inr ()))))"

text \<open>Texts besides message contents that reach the provider: where, the role for the stage, and the text.\<close>

type_synonym extra = "path \<times> role \<times> string"

definition call_extras :: "nat \<Rightarrow> nat \<times> json \<Rightarrow> extra list" where
  "call_extras i jc =
     (case snd jc of
        JObj c \<Rightarrow>
          (case obj_get c ''function'' of
             JObj f \<Rightarrow>
               (case obj_get f ''arguments'' of
                  JStr a \<Rightarrow>
                    if a = [] then []
                    else [([Key ''messages'', Item i, Key ''tool_calls'', Item (fst jc), Key ''function'', Key ''arguments''],
                           RAssistant, a)]
                | _ \<Rightarrow> [])
           | _ \<Rightarrow> [])
      | _ \<Rightarrow> [])"

definition message_extras :: "nat \<times> json \<Rightarrow> proxy_error + extra list" where
  "message_extras im =
     (case snd im of
        JObj m \<Rightarrow> result_bind (iterated (obj_get m ''tool_calls'')) (\<lambda>calls.
                    Inr (concat (map (call_extras (fst im)) (List.enumerate 0 calls))))
      | _ \<Rightarrow> Inr [])"

definition tool_extras :: "nat \<times> json \<Rightarrow> extra list" where
  "tool_extras kt =
     (case snd kt of
        JObj t \<Rightarrow>
          (case obj_get t ''function'' of
             JObj f \<Rightarrow>
               (case obj_get f ''description'' of
                  JStr d \<Rightarrow> if d = [] then []
                            else [([Key ''tools'', Item (fst kt), Key ''function'', Key ''description''], RSystem, d)]
                | _ \<Rightarrow> [])
           | _ \<Rightarrow> [])
      | _ \<Rightarrow> [])"

definition request_extras :: "jobj \<Rightarrow> proxy_error + extra list" where
  "request_extras body =
     result_bind (iterated (obj_get body ''messages'')) (\<lambda>messages.
     result_bind (map_results message_extras (List.enumerate 0 messages)) (\<lambda>calls.
     result_bind (iterated (obj_get body ''tools'')) (\<lambda>tools.
       Inr (concat calls @ concat (map tool_extras (List.enumerate 0 tools))))))"

definition guarded_message :: "(json \<Rightarrow> string) \<Rightarrow> nat \<times> json \<Rightarrow> proxy_error + message" where
  "guarded_message repr im =
     (let place = ''messages['' @ index_text (fst im) @ '']'';
          unsupported = reject 400 (place @ '': unsupported role'') ''invalid_request_error'' in
      case snd im of
        JObj m \<Rightarrow>
          (if \<not> hashable (obj_get m ''role'') then Inl (Crashed ''TypeError'')
           else (case obj_get m ''role'' of
                   JStr r \<Rightarrow>
                     (case map_of GUARDED_ROLES r of
                        None \<Rightarrow> unsupported
                      | Some role \<Rightarrow>
                          result_bind (text_of repr (obj_get m ''content'') place)
                            (\<lambda>t. Inr \<lparr>msg_role = role, msg_content = t\<rparr>))
                 | _ \<Rightarrow> unsupported))
      | _ \<Rightarrow> unsupported)"

text \<open>The document that goes to the provider: a copy with the texts the input stage returned.\<close>

definition put_content :: "(nat \<times> json) \<times> message \<Rightarrow> json \<Rightarrow> json" where
  "put_content im j =
     (case snd (fst im) of
        JObj m \<Rightarrow>
          if obj_get m ''content'' = JNull then j
          else set_path [Key ''messages'', Item (fst (fst im)), Key ''content'']
                 (with_text (obj_get m ''content'') (msg_content (snd im))) j
      | _ \<Rightarrow> j)"

definition forward_body :: "jobj \<Rightarrow> json list \<Rightarrow> extra list \<Rightarrow> message list option \<Rightarrow> json" where
  "forward_body body messages extras redacted =
     (case redacted of
        None \<Rightarrow> JObj body
      | Some ms \<Rightarrow>
          foldl (\<lambda>j xm. set_path (fst (fst xm)) (JStr (msg_content (snd xm))) j)
            (foldl (\<lambda>j im. put_content im j) (JObj body) (zip (List.enumerate 0 messages) ms))
            (zip extras (drop (length messages) ms)))"

section \<open>Stages\<close>

definition nonempty_or :: "string option \<Rightarrow> string \<Rightarrow> string" where
  "nonempty_or x d = (case x of None \<Rightarrow> d | Some [] \<Rightarrow> d | Some s \<Rightarrow> s)"

record proxy_meta =
  pm_agent_id :: string
  pm_action :: string
  pm_data_classification :: string
  pm_user_id :: "string option"
  pm_session_id :: "string option"

definition meta_of :: "(string \<Rightarrow> string option) \<Rightarrow> jobj \<Rightarrow> proxy_config \<Rightarrow> string option \<Rightarrow> proxy_meta" where
  "meta_of headers body cfg bound_agent =
     \<lparr>pm_agent_id = nonempty_or (headers ''x-agent-id'') (nonempty_or bound_agent (px_default_agent_id cfg)),
      pm_action = nonempty_or (headers ''x-guardrail-action'') ''llm.chat'',
      pm_data_classification = str_upper (nonempty_or (headers ''x-data-classification'') ''INTERNAL''),
      pm_user_id = (case headers ''x-user-id'' of
                      Some (c # cs) \<Rightarrow> Some (c # cs)
                    | _ \<Rightarrow> (case obj_get body ''user'' of JStr u \<Rightarrow> Some u | _ \<Rightarrow> None)),
      pm_session_id = headers ''x-session-id''\<rparr>"

definition classification_of :: "string \<Rightarrow> classification option" where
  "classification_of s = List.find (\<lambda>c. classification_value c = s) [PUBLIC, INTERNAL, CONFIDENTIAL, PII]"

text \<open>The first error of validating a \<open>GuardRequest\<close>, in the order of its fields.\<close>

definition meta_problems :: "proxy_meta \<Rightarrow> string list" where
  "meta_problems m =
     (let short = (\<lambda>s. if s = [] then [''String should have at least 1 character''] else []);
          long = (\<lambda>s. if 128 < length s then [''String should have at most 128 characters''] else []);
          opt = (\<lambda>x. case x of None \<Rightarrow> [] | Some s \<Rightarrow> long s);
          q = (\<lambda>s. [CHR 0x27] @ s @ [CHR 0x27])
      in short (pm_agent_id m) @ long (pm_agent_id m) @ short (pm_action m) @ long (pm_action m) @
         opt (pm_user_id m) @ opt (pm_session_id m) @
         (if classification_of (pm_data_classification m) = None
          then [''Input should be '' @ q ''PUBLIC'' @ '', '' @ q ''INTERNAL'' @ '', '' @ q ''CONFIDENTIAL'' @ '' or '' @ q ''PII'']
          else []))"

definition proxy_request :: "proxy_meta \<Rightarrow> string + guard_request" where
  "proxy_request m =
     (case meta_problems m of
        e # _ \<Rightarrow> Inl e
      | [] \<Rightarrow> Inr \<lparr>gq_agent_id = pm_agent_id m, gq_action = pm_action m, gq_resource = None,
                   gq_user_id = pm_user_id m, gq_session_id = pm_session_id m, gq_arguments = [],
                   gq_data_classification = the (classification_of (pm_data_classification m)),
                   gq_delegation_chain = [], gq_tool_metadata = None, gq_accepts_obligations = None,
                   gq_verification_channels = None\<rparr>)"

definition refusal :: "stage \<Rightarrow> string \<Rightarrow> nat \<Rightarrow> guard_response \<Rightarrow> proxy_result option" where
  "refusal stg request_id status r =
     (let opt = (\<lambda>x. case x of None \<Rightarrow> JNull | Some s \<Rightarrow> JStr s) in
      if status = 202 \<or> gp_decision r = Escalate
      then Some (openai_error 403 (stage_value stg @ '' held for human review: '' @ gp_reason r) ''guardrail_escalated''
                   [(''escalation_id'', opt (gp_escalation_id r)), (''request_id'', JStr request_id)])
      else if gp_decision r = Block
      then Some (openai_error 403 (stage_value stg @ '' blocked: '' @ gp_reason r) ''guardrail_blocked''
                   [(''request_id'', JStr request_id)])
      else None)"

definition empty_payload :: "stage \<Rightarrow> payload" where
  "empty_payload stg = \<lparr>pl_stage = stg, pl_text = None, pl_messages = None, pl_chunks = None, pl_tool_call = None,
                        pl_extensions = []\<rparr>"

text \<open>\<open>_stage\<close>: one call of the gateway's own evaluation. An error other than a \<open>GuardError\<close> is not caught.\<close>

definition proxy_stage ::
  "'v proxy_env \<Rightarrow> principal \<Rightarrow> stage \<Rightarrow> proxy_meta \<Rightarrow> payload \<Rightarrow> string \<times> string \<Rightarrow> 'v proxy_state \<Rightarrow>
   (proxy_error + guard_response) \<times> 'v proxy_state" where
  "proxy_stage env p stg meta pl ids st =
     (case proxy_request meta of
        Inl msg \<Rightarrow> (reject 400 msg ''invalid_request_error'', st)
      | Inr req \<Rightarrow>
          (let k = pz_calls st in
           case run_stage (pe_services env k) (pe_now env k) (pe_uid env k) p stg req pl (fst ids) (snd ids)
                  (pe_between env k (pz_gateway st)) of
             (x, gs) \<Rightarrow>
               ((case x of
                   Inl e \<Rightarrow> if ge_status e = 500 then Inl (Crashed (ge_message e))
                            else reject (int (ge_status e)) (ge_message e) ''guardrail_unavailable''
                 | Inr (status, r) \<Rightarrow> (case refusal stg (fst ids) status r of Some e \<Rightarrow> Inl (Rejected e) | None \<Rightarrow> Inr r)),
                st\<lparr>pz_gateway := gs, pz_calls := Suc k\<rparr>)))"

definition decision_rank :: "decision \<Rightarrow> nat" where
  "decision_rank d = (case d of Allow \<Rightarrow> 0 | Modify \<Rightarrow> 1 | Escalate \<Rightarrow> 2 | Block \<Rightarrow> 3)"

definition strongest :: "decision option \<Rightarrow> decision \<Rightarrow> decision" where
  "strongest a b = (case a of None \<Rightarrow> b | Some x \<Rightarrow> if decision_rank x < decision_rank b then b else x)"

definition note_decision :: "string \<Rightarrow> decision \<Rightarrow> 'v proxy_state \<Rightarrow> 'v proxy_state" where
  "note_decision k d st =
     st\<lparr>pz_decisions := AList.update k (strongest (map_of (pz_decisions st) k) d) (pz_decisions st)\<rparr>"

text \<open>Steps that may raise, one after the other.\<close>

definition proxy_then ::
  "('s \<Rightarrow> (proxy_error + 'a) \<times> 's) \<Rightarrow> ('a \<Rightarrow> 's \<Rightarrow> (proxy_error + 'b) \<times> 's) \<Rightarrow> 's \<Rightarrow> (proxy_error + 'b) \<times> 's" where
  "proxy_then f g st = (case f st of (Inl e, st') \<Rightarrow> (Inl e, st') | (Inr x, st') \<Rightarrow> g x st')"

definition proxy_return :: "proxy_error + 'a \<Rightarrow> 's \<Rightarrow> (proxy_error + 'a) \<times> 's" where
  "proxy_return x st = (x, st)"

fun proxy_each :: "('a \<Rightarrow> 's \<Rightarrow> (proxy_error + 'b) \<times> 's) \<Rightarrow> 'a list \<Rightarrow> 's \<Rightarrow> (proxy_error + 'b list) \<times> 's" where
  "proxy_each f [] = proxy_return (Inr [])"
| "proxy_each f (x # xs) =
     proxy_then (f x) (\<lambda>y. proxy_then (proxy_each f xs) (\<lambda>ys. proxy_return (Inr (y # ys))))"

section \<open>The answer of the provider\<close>

record clean_call =
  cl_id :: json
  cl_name :: string
  cl_arguments :: string

record clean_choice =
  ch_index :: json
  ch_role :: json
  ch_content :: "string option"
  ch_refusal :: "string option"
  ch_calls :: "clean_call list"
  ch_finish_reason :: json

definition bad_upstream :: "string \<Rightarrow> proxy_error + 'a" where
  "bad_upstream why = reject 502 (''LLM provider response not understood: '' @ why) ''upstream_error''"

definition cannot_check :: "string \<Rightarrow> proxy_error + 'a" where
  "cannot_check place = reject 403 (place @ '' can'' @ [CHR 0x27] @ ''t be checked by the guardrails; withheld'') ''guardrail_blocked''"

definition text_or_null :: "string \<Rightarrow> json \<Rightarrow> proxy_error + string option" where
  "text_or_null place v =
     (case v of JNull \<Rightarrow> Inr None | JStr s \<Rightarrow> Inr (Some s) | _ \<Rightarrow> cannot_check (place @ '' (not text)''))"

definition sanitize_call :: "(json \<Rightarrow> string) \<Rightarrow> nat \<Rightarrow> nat \<times> json \<Rightarrow> proxy_error + clean_call" where
  "sanitize_call str ci tc =
     (let refuse = cannot_check (''choices['' @ index_text ci @ ''].tool_calls['' @ index_text (fst tc) @ ''] (not a function call)'')
      in case snd tc of
           JObj c \<Rightarrow>
             (case (map_of c ''type'' \<in> {None, Some (JStr ''function'')}, obj_get c ''function'') of
                (True, JObj f) \<Rightarrow>
                  Inr \<lparr>cl_id = obj_get c ''id'',
                       cl_name = (case obj_get f ''name'' of
                                    JStr n \<Rightarrow> n | v \<Rightarrow> if truthy v then str v else []),
                       cl_arguments = (case obj_get f ''arguments'' of
                                         JStr (a # as) \<Rightarrow> a # as
                                       | v \<Rightarrow> if truthy v then [] else ''{}'')\<rparr>
              | _ \<Rightarrow> refuse)
         | _ \<Rightarrow> refuse)"

definition sanitize_choice :: "(json \<Rightarrow> string) \<Rightarrow> nat \<times> json \<Rightarrow> proxy_error + clean_choice" where
  "sanitize_choice str cic =
     (let ci = fst cic; place = ''choices['' @ index_text ci @ '']'';
          missing = bad_upstream (place @ '' has no message'')
      in case snd cic of
           JObj ch \<Rightarrow>
             (case obj_get ch ''message'' of
                JObj m \<Rightarrow>
                  (case List.find (\<lambda>k. truthy (obj_get m k)) [''audio'', ''function_call''] of
                     Some k \<Rightarrow> cannot_check (place @ ''.message.'' @ k)
                   | None \<Rightarrow>
                       result_bind (text_or_null (place @ ''.message.content'') (obj_get m ''content'')) (\<lambda>content.
                       result_bind (text_or_null (place @ ''.message.refusal'') (obj_get m ''refusal'')) (\<lambda>refusal.
                       result_bind (iterated (obj_get m ''tool_calls'')) (\<lambda>calls.
                       result_bind (map_results (sanitize_call str ci) (List.enumerate 0 calls)) (\<lambda>calls.
                         Inr \<lparr>ch_index = (case map_of ch ''index'' of None \<Rightarrow> JInt (int ci) | Some v \<Rightarrow> v),
                              ch_role = (if truthy (obj_get m ''role'') then obj_get m ''role'' else JStr ''assistant''),
                              ch_content = content, ch_refusal = refusal, ch_calls = calls,
                              ch_finish_reason = obj_get ch ''finish_reason''\<rparr>)))))
              | _ \<Rightarrow> missing)
         | _ \<Rightarrow> missing)"

definition passed_fields :: "string list" where
  "passed_fields = [''id'', ''object'', ''created'', ''model'', ''system_fingerprint'', ''service_tier'', ''usage'']"

definition sanitize_response :: "(json \<Rightarrow> string) \<Rightarrow> json \<Rightarrow> proxy_error + jobj \<times> clean_choice list" where
  "sanitize_response str data =
     (case data of
        JObj d \<Rightarrow>
          (case obj_get d ''choices'' of
             JArr cs \<Rightarrow>
               result_bind (map_results (sanitize_choice str) (List.enumerate 0 cs)) (\<lambda>choices.
                 Inr (List.map_filter (\<lambda>k. map_option (Pair k) (map_of d k)) passed_fields, choices))
           | _ \<Rightarrow> bad_upstream ''no choices'')
      | _ \<Rightarrow> bad_upstream ''no choices'')"

section \<open>Checking the answer\<close>

definition check_text ::
  "'v proxy_env \<Rightarrow> principal \<Rightarrow> proxy_meta \<Rightarrow> string \<times> string \<Rightarrow> string option \<Rightarrow> 'v proxy_state \<Rightarrow>
   (proxy_error + string option) \<times> 'v proxy_state" where
  "check_text env p meta ids t =
     (case t of
        Some (c # cs) \<Rightarrow>
          proxy_then (proxy_stage env p Output meta ((empty_payload Output)\<lparr>pl_text := Some (c # cs)\<rparr>) ids)
            (\<lambda>r st. (Inr (case gp_payload r of
                            None \<Rightarrow> Some (c # cs)
                          | Some q \<Rightarrow> (case pl_text q of None \<Rightarrow> Some (c # cs) | Some u \<Rightarrow> Some u)),
                     note_decision ''output'' (gp_decision r) st))
      | _ \<Rightarrow> proxy_return (Inr t))"

definition check_call ::
  "'v proxy_env \<Rightarrow> principal \<Rightarrow> proxy_meta \<Rightarrow> string \<times> string \<Rightarrow> json \<Rightarrow> nat \<times> clean_call \<Rightarrow> 'v proxy_state \<Rightarrow>
   (proxy_error + clean_call) \<times> 'v proxy_state" where
  "check_call env p meta ids index tc =
     (case pe_loads env (cl_arguments (snd tc)) of
        Some (JObj args) \<Rightarrow>
          proxy_then
            (proxy_stage env p Tool (meta\<lparr>pm_action := nonempty_or (Some (cl_name (snd tc))) ''unknown''\<rparr>)
               ((empty_payload Tool)\<lparr>pl_tool_call := Some \<lparr>tc_name = cl_name (snd tc), tc_arguments = args,
                                                           tc_result = JNull\<rparr>\<rparr>) ids)
            (\<lambda>r st. (Inr (case gp_payload r of
                            None \<Rightarrow> snd tc
                          | Some q \<Rightarrow>
                              (case pl_tool_call q of
                                 None \<Rightarrow> snd tc
                               | Some u \<Rightarrow> (snd tc)\<lparr>cl_arguments := pe_dumps env (tc_arguments u)\<rparr>)),
                     note_decision ''tool'' (gp_decision r) st))
      | _ \<Rightarrow> proxy_return (reject 403 (''choices['' @ pe_str env index @ ''].tool_calls['' @ index_text (fst tc) @
               '']: arguments are not a JSON object'') ''guardrail_blocked''))"

definition check_choice ::
  "'v proxy_env \<Rightarrow> principal \<Rightarrow> proxy_meta \<Rightarrow> string \<times> string \<Rightarrow> clean_choice \<Rightarrow> 'v proxy_state \<Rightarrow>
   (proxy_error + clean_choice) \<times> 'v proxy_state" where
  "check_choice env p meta ids ch =
     proxy_then (check_text env p meta ids (ch_content ch)) (\<lambda>content.
     proxy_then (check_text env p meta ids (ch_refusal ch)) (\<lambda>refusal.
     proxy_then (proxy_each (check_call env p meta ids (ch_index ch)) (List.enumerate 0 (ch_calls ch))) (\<lambda>calls.
       proxy_return (Inr (ch\<lparr>ch_content := content, ch_refusal := refusal, ch_calls := calls\<rparr>)))))"

fun text_json :: "string option \<Rightarrow> json" where
  "text_json None = JNull" | "text_json (Some s) = JStr s"

definition call_json :: "clean_call \<Rightarrow> json" where
  "call_json c = JObj [(''id'', cl_id c), (''type'', JStr ''function''),
     (''function'', JObj [(''name'', JStr (cl_name c)), (''arguments'', JStr (cl_arguments c))])]"

definition choice_json :: "clean_choice \<Rightarrow> json" where
  "choice_json c = JObj [(''index'', ch_index c),
     (''message'', JObj ([(''role'', ch_role c), (''content'', text_json (ch_content c)), (''refusal'', text_json (ch_refusal c))] @
        (if ch_calls c = [] then [] else [(''tool_calls'', JArr (map call_json (ch_calls c)))]))),
     (''finish_reason'', ch_finish_reason c)]"

definition answer_body :: "jobj \<Rightarrow> clean_choice list \<Rightarrow> jobj" where
  "answer_body kept choices = kept @ [(''choices'', JArr (map choice_json choices))]"

section \<open>A chat completion\<close>

text \<open>What is checked before any stage: the request, and what the input stage sees of it.\<close>

definition read_request ::
  "'v proxy_env \<Rightarrow> proxy_config \<Rightarrow> jobj \<Rightarrow> proxy_error + json list \<times> message list \<times> extra list" where
  "read_request env cfg body =
     result_bind (refuse_unsupported_request body) (\<lambda>_.
       (case obj_get body ''messages'' of
          JArr (m # ms) \<Rightarrow>
            if px_models cfg \<noteq> [] \<and> \<not> hashable (obj_get body ''model'') then Inl (Crashed ''TypeError'')
            else if px_models cfg \<noteq> [] \<and> obj_get body ''model'' \<notin> JStr ` set (px_models cfg)
            then reject 400 (''model '' @ pe_repr env (obj_get body ''model'') @ '' is not allowed here'') ''model_not_allowed''
            else result_bind (map_results (guarded_message (pe_repr env)) (List.enumerate 0 (m # ms))) (\<lambda>guarded.
                 result_bind (request_extras body) (\<lambda>extras.
                   Inr (m # ms, guarded @ map (\<lambda>x. \<lparr>msg_role = fst (snd x), msg_content = snd (snd x)\<rparr>) extras, extras)))
        | _ \<Rightarrow> reject 400 ''messages must be a non-empty list'' ''invalid_request_error''))"

definition drop_slashes :: "string \<Rightarrow> string" where
  "drop_slashes s = rev (dropWhile (\<lambda>c. c = CHR 0x2F) (rev s))"

definition upstream_request_of :: "proxy_config \<Rightarrow> jobj \<Rightarrow> upstream_request" where
  "upstream_request_of cfg fwd =
     \<lparr>uq_url = drop_slashes (px_upstream_url cfg) @ ''/chat/completions'',
      uq_headers = (''Content-Type'', ''application/json'') #
        (case px_upstream_api_key cfg of
           Some (c # cs) \<Rightarrow> [(''Authorization'', ''Bearer '' @ c # cs)] | _ \<Rightarrow> []),
      uq_body = fwd\<rparr>"

definition ask_upstream ::
  "'v proxy_env \<Rightarrow> proxy_config \<Rightarrow> jobj \<Rightarrow> 'v proxy_state \<Rightarrow> (proxy_error + int \<times> json) \<times> 'v proxy_state" where
  "ask_upstream env cfg fwd st =
     ((case pe_upstream env (upstream_request_of cfg fwd) of
         Unreachable cls \<Rightarrow> reject 502 (''LLM provider unreachable ('' @ cls @ '')'') ''upstream_unavailable''
       | NotJson n \<Rightarrow> reject 502 (''LLM provider returned HTTP '' @ str_int n @ '' without JSON'') ''upstream_error''
       | JsonAnswer n v \<Rightarrow> Inr (n, v)),
      st\<lparr>pz_sent := pz_sent st @ [upstream_request_of cfg fwd]\<rparr>)"

definition decision_headers :: "(string \<times> decision) list \<Rightarrow> (string \<times> string) list" where
  "decision_headers ds =
     map (\<lambda>kd. (''X-Guardrail-'' @ ascii_upper (hd (fst kd)) # tl (fst kd) @ ''-Decision'', decision_value (snd kd))) ds"

fun object_of :: "json \<Rightarrow> jobj" where
  "object_of (JObj d) = d" | "object_of _ = []"

definition chat_steps ::
  "'v proxy_env \<Rightarrow> proxy_config \<Rightarrow> principal \<Rightarrow> jobj \<Rightarrow> (string \<Rightarrow> string option) \<Rightarrow> string \<times> string \<Rightarrow> 'v proxy_state \<Rightarrow>
   (proxy_error + proxy_result) \<times> 'v proxy_state" where
  "chat_steps env cfg p body headers ids =
     (let meta = meta_of headers body cfg (pr_agent_id p) in
      proxy_then (proxy_return (read_request env cfg body)) (\<lambda>(messages, guarded, extras).
      proxy_then (proxy_stage env p Input meta ((empty_payload Input)\<lparr>pl_messages := Some guarded\<rparr>) ids) (\<lambda>inp.
      proxy_then (ask_upstream env cfg (object_of (forward_body body messages extras
          (case gp_payload inp of None \<Rightarrow> None | Some q \<Rightarrow> pl_messages q)))) (\<lambda>(n, data).
        if 400 \<le> n
        then proxy_return (Inr \<lparr>pq_status = n, pq_body = (case data of JObj d \<Rightarrow> d | _ \<Rightarrow> [(''error'', data)]), pq_headers = []\<rparr>)
        else
          proxy_then (proxy_return (sanitize_response (pe_str env) data)) (\<lambda>(kept, choices) st.
          proxy_then (proxy_each (check_choice env p meta ids) choices) (\<lambda>checked st.
            (Inr \<lparr>pq_status = 200, pq_body = answer_body kept checked,
                  pq_headers = decision_headers (pz_decisions st) @ [(''X-Request-ID'', fst ids)]\<rparr>, st))
            (st\<lparr>pz_decisions := [(''input'', gp_decision inp)]\<rparr>))))))"

definition chat ::
  "'v proxy_env \<Rightarrow> proxy_config \<Rightarrow> principal \<Rightarrow> jobj \<Rightarrow> (string \<Rightarrow> string option) \<Rightarrow> string \<times> string \<Rightarrow> 'v proxy_state \<Rightarrow>
   (proxy_error + proxy_result) \<times> 'v proxy_state" where
  "chat env cfg p body headers ids st =
     (case chat_steps env cfg p body headers ids st of
        (Inl (Rejected r), st') \<Rightarrow>
          (Inr (if map_of (pq_headers r) ''X-Request-ID'' = None
                then r\<lparr>pq_headers := pq_headers r @ [(''X-Request-ID'', fst ids)]\<rparr> else r), st')
      | x \<Rightarrow> x)"

end
