(* ===== verification/Proxy_Props.thy ===== *)
theory Proxy_Props
  imports Proxy Flow_Answers
begin

text \<open>
  Proxy mode: what reaches the caller and what reaches the provider has been through a stage of the gateway.
  An answer is rebuilt from texts and tool calls that the output and tool stages released; a request carries at
  every place the input stage saw exactly what that stage returned.
\<close>

section \<open>Places in a document\<close>

fun get_path :: "path \<Rightarrow> json \<Rightarrow> json option" where
  "get_path [] j = Some j"
| "get_path (Key k # p) (JObj kvs) = (case map_of kvs k of None \<Rightarrow> None | Some v \<Rightarrow> get_path p v)"
| "get_path (Item i # p) (JArr xs) = (if i < length xs then get_path p (xs ! i) else None)"
| "get_path _ _ = None"

fun diverge :: "path \<Rightarrow> path \<Rightarrow> bool" where
  "diverge (a # p) (b # q) \<longleftrightarrow> a \<noteq> b \<or> diverge p q"
| "diverge _ _ \<longleftrightarrow> False"

lemma diverge_sym: "diverge p q \<Longrightarrow> diverge q p"
  by (induction p q rule: diverge.induct) auto

lemma get_set_same: "get_path p j = Some u \<Longrightarrow> get_path p (set_path p v j) = Some v"
  by (induction p j rule: get_path.induct) (auto simp: obj_get_def update_conv' split: option.splits if_splits)

lemma get_nothing: "p \<noteq> [] \<Longrightarrow> get_path p (set_path q v JNull) = None" if "q \<noteq> []"
  using that by (cases q rule: set_path.cases [of "(q, v, JNull)" for q]; cases p) auto

lemma get_set_other: "diverge p q \<Longrightarrow> get_path p (set_path q v j) = get_path p j"
proof (induction q v j arbitrary: p rule: set_path.induct)
  case (2 k q v kvs)
  then obtain a p' where p: "p = a # p'" by (cases p) auto
  show ?case
  proof (cases "a = Key k")
    case True
    with 2 p have d: "diverge p' q" by simp
    then have "p' \<noteq> []" "q \<noteq> []" by (cases p'; cases q; simp)+
    then have "get_path p' (set_path q v JNull) = None" by (simp add: get_nothing)
    with True p 2(1) [OF d] show ?thesis by (auto simp: update_conv' obj_get_def split: option.splits)
  next
    case False
    with p show ?thesis by (cases a) (auto simp: update_conv')
  qed
next
  case (3 i q v xs)
  then obtain a p' where p: "p = a # p'" by (cases p) auto
  then show ?case using 3 by (cases "a = Item i"; cases a) (auto simp: nth_list_update_neq)
qed simp_all

lemma set_path_object: "p = Key k # p' \<Longrightarrow> \<exists>kvs'. set_path p v (JObj kvs) = JObj kvs'"
  by simp

section \<open>What a stage released\<close>

definition released ::
  "'v proxy_env \<Rightarrow> principal \<Rightarrow> stage \<Rightarrow> proxy_meta \<Rightarrow> payload \<Rightarrow> string \<times> string \<Rightarrow> payload \<Rightarrow> bool" where
  "released env p stg meta pl ids q \<longleftrightarrow>
     (\<exists>k gs req status r gs'. proxy_request meta = Inr req \<and>
        run_stage (pe_services env k) (pe_now env k) (pe_uid env k) p stg req pl (fst ids) (snd ids) gs =
          (Inr (status, r), gs') \<and>
        gp_decision r \<in> {Allow, Modify} \<and> gp_payload r = Some q)"

text \<open>A released payload has the shape of the one that was checked.\<close>

lemma released_shape:
  assumes "released env p stg meta pl ids q"
  shows "rel_option (\<lambda>_ _. True) (pl_text pl) (pl_text q)"
    "rel_option (\<lambda>ms ns. map msg_role ms = map msg_role ns) (pl_messages pl) (pl_messages q)"
    "rel_option (\<lambda>t u. tc_name t = tc_name u) (pl_tool_call pl) (pl_tool_call q)"
proof -
  from assms obtain k gs req status r gs' where
    run: "run_stage (pe_services env k) (pe_now env k) (pe_uid env k) p stg req pl (fst ids) (snd ids) gs = (Inr (status, r), gs')"
    and d: "gp_decision r \<in> {Allow, Modify}" and q: "gp_payload r = Some q"
    by (auto simp: released_def)
  obtain n q' where n: "result_bind (validate_payload (pl\<lparr>pl_stage := stg\<rparr>)) (normalize_payload (svc_nfkc (pe_services env k))) = Inr n"
    and q': "same_shape_as n q'" "gp_payload r = Some q'"
    by (rule run_stage_allowed [OF run d]) blast
  then have s: "same_shape_as n q" using q by simp
  have eq: "pl_text n = map_option (normalize_text (svc_nfkc (pe_services env k))) (pl_text pl)"
    "pl_messages n = map_option (map (\<lambda>m. m\<lparr>msg_content := normalize_text (svc_nfkc (pe_services env k)) (msg_content m)\<rparr>)) (pl_messages pl)"
    "rel_option (\<lambda>t u. tc_name t = tc_name u) (pl_tool_call pl) (pl_tool_call n)"
    using n by (auto simp: result_bind_Inr_iff normalize_payload_def option.rel_map
        intro: option.rel_refl dest!: validate_payload_Inr)
  show "rel_option (\<lambda>_ _. True) (pl_text pl) (pl_text q)"
    using s eq(1) by (cases "pl_text pl"; cases "pl_text q") (auto simp: same_shape_iff)
  show "rel_option (\<lambda>ms ns. map msg_role ms = map msg_role ns) (pl_messages pl) (pl_messages q)"
    using s eq(2) by (cases "pl_messages pl"; cases "pl_messages q") (auto simp: same_shape_iff comp_def)
  show "rel_option (\<lambda>t u. tc_name t = tc_name u) (pl_tool_call pl) (pl_tool_call q)"
    using s eq(3) by (cases "pl_tool_call pl"; cases "pl_tool_call n"; cases "pl_tool_call q") (auto simp: same_shape_iff)
qed

lemma proxy_stage_released:
  assumes "proxy_stage env p stg meta pl ids st = (Inr r, st')"
  obtains q where "gp_payload r = Some q" "released env p stg meta pl ids q"
proof -
  from assms obtain req status gs where req: "proxy_request meta = Inr req"
    and run: "run_stage (pe_services env (pz_calls st)) (pe_now env (pz_calls st)) (pe_uid env (pz_calls st)) p stg req pl
       (fst ids) (snd ids) (pe_between env (pz_calls st) (pz_gateway st)) = (Inr (status, r), gs)"
    and ok: "refusal stg (fst ids) status r = None"
    by (auto simp: proxy_stage_def Let_def reject_def split: sum.splits prod.splits option.splits if_splits)
  from ok have d: "gp_decision r \<in> {Allow, Modify}"
    by (cases "gp_decision r") (auto simp: refusal_def Let_def split: if_splits)
  obtain q where q: "gp_payload r = Some q" by (rule run_stage_allowed [OF run d]) blast
  have "released env p stg meta pl ids q" using req run d q unfolding released_def by blast
  with q show thesis by (rule that)
qed

lemma proxy_stage_sent [simp]: "pz_sent (snd (proxy_stage env p stg meta pl ids st)) = pz_sent st"
  by (auto simp: proxy_stage_def Let_def split: sum.split prod.split)

section \<open>Refusals carry an error status\<close>

definition refuses :: "proxy_error + 'a \<Rightarrow> bool" where
  "refuses x \<longleftrightarrow> (\<forall>r. x = Inl (Rejected r) \<longrightarrow> 400 \<le> pq_status r)"

named_theorems refusing

lemma refuses_basic [refusing]:
  "refuses (Inr x)" "refuses (Inl (Crashed e))"
  "400 \<le> s \<Longrightarrow> refuses (reject s m k)"
  "refuses (unsupported_part place kind)" "refuses (bad_upstream why)" "refuses (cannot_check place)"
  by (simp_all add: refuses_def reject_def openai_error_def unsupported_part_def bad_upstream_def cannot_check_def)

lemma refuses_bind [refusing]: "refuses x \<Longrightarrow> (\<And>y. refuses (f y)) \<Longrightarrow> refuses (result_bind x f)"
  by (cases x) (auto simp: refuses_def)

lemma refuses_case [refusing]:
  "refuses a \<Longrightarrow> (\<And>x. refuses (f x)) \<Longrightarrow> refuses (case_option a f v)"
  "(\<And>x y. refuses (g x y)) \<Longrightarrow> refuses (case_prod g pr)"
  "refuses a \<Longrightarrow> refuses b \<Longrightarrow> refuses (case_bool a b c)"
  "refuses a \<Longrightarrow> refuses b \<Longrightarrow> refuses (if c then a else b)"
  "refuses a \<Longrightarrow> (\<And>x xs. refuses (h x xs)) \<Longrightarrow> refuses (case_list a h ys)"
  "refuses a \<Longrightarrow> (\<And>x. refuses (jb x)) \<Longrightarrow> (\<And>x. refuses (ji x)) \<Longrightarrow> (\<And>x. refuses (jf x)) \<Longrightarrow>
     (\<And>x. refuses (js x)) \<Longrightarrow> (\<And>x. refuses (ja x)) \<Longrightarrow> (\<And>x. refuses (jo x)) \<Longrightarrow>
     refuses (case_json a jb ji jf js ja jo w)"
  by (auto split: option.split prod.split bool.split list.split json.split)

lemma refuses_map [refusing]: "(\<And>x. refuses (f x)) \<Longrightarrow> refuses (map_results f xs)"
  by (induction xs) (auto intro!: refusing)

lemma refuses_iterated [refusing]: "refuses (iterated v)"
  by (cases v) (auto simp: refuses_def)

lemma refuses_each [refusing]:
  "(\<And>x st. refuses (fst (f x st))) \<Longrightarrow> refuses (fst (proxy_each f xs st))"
proof (induction xs arbitrary: st)
  case Nil
  then show ?case by (simp add: proxy_return_def refusing)
next
  case (Cons x xs)
  have f: "refuses (fst (f x st))" by (rule Cons.prems)
  have r: "refuses (fst (proxy_each f xs st'))" for st' by (rule Cons.IH [OF Cons.prems])
  show ?case
    using f r [of "snd (f x st)"]
    by (auto simp: proxy_then_def proxy_return_def refuses_def split: sum.splits prod.splits)
qed

lemma refuses_then [refusing]:
  "refuses (fst (f st)) \<Longrightarrow> (\<And>y st'. refuses (fst (g y st'))) \<Longrightarrow> refuses (fst (proxy_then f g st))"
  by (cases "f st"; cases "fst (f st)") (auto simp: proxy_then_def refuses_def)

lemma refuses_stage [refusing]: "refuses (fst (proxy_stage env p stg meta pl ids st))"
proof -
  have "ge_status e \<in> {422, 500, 503}"
    if "run_stage svc now uid p stg req pl a b gs = (Inl e, gs')" for svc :: "'a services" and now uid req a b gs e gs'
    using run_stage_refused [OF that] by simp
  then show ?thesis
    by (fastforce simp: proxy_stage_def Let_def refuses_def reject_def openai_error_def refusal_def
        split: sum.splits prod.splits option.splits if_splits)
qed

lemma refuses_return [refusing]: "refuses x \<Longrightarrow> refuses (fst (proxy_return x st))"
  by (simp add: proxy_return_def)

lemma refuses_texts [refusing]:
  "refuses (part_text repr place part)" "refuses (text_of repr content place)" "refuses (text_or_null place content)"
  unfolding part_text_def text_of_def text_or_null_def by (intro refusing; simp)+

lemma refuses_request [refusing]:
  "refuses (refuse_unsupported_request body)" "refuses (guarded_message repr im)" "refuses (message_extras im)"
  "refuses (request_extras body)"
proof -
  show "refuses (refuse_unsupported_request body)"
    unfolding refuse_unsupported_request_def by (intro refusing; simp)
  show "refuses (guarded_message repr im)"
    unfolding guarded_message_def Let_def by (intro refusing; simp)
  have m: "refuses (message_extras im)" for im unfolding message_extras_def by (intro refusing; simp)
  then show "refuses (message_extras im)" .
  show "refuses (request_extras body)" unfolding request_extras_def by (intro refusing m; simp)
qed

lemma refuses_read [refusing]: "refuses (read_request env cfg body)"
  unfolding read_request_def by (intro refusing; simp)

lemma refuses_sanitize [refusing]:
  "refuses (sanitize_call str ci tc)" "refuses (sanitize_choice str cic)" "refuses (sanitize_response str data)"
proof -
  have call: "refuses (sanitize_call str ci tc)" for ci tc
    unfolding sanitize_call_def Let_def by (intro refusing; simp)
  then show "refuses (sanitize_call str ci tc)" .
  have choice: "refuses (sanitize_choice str cic)" for cic
    unfolding sanitize_choice_def Let_def by (intro refusing call; simp)
  then show "refuses (sanitize_choice str cic)" .
  show "refuses (sanitize_response str data)"
    unfolding sanitize_response_def by (intro refusing choice; simp)
qed

lemma refuses_check [refusing]:
  "refuses (fst (check_text env p meta ids t st))" "refuses (fst (check_call env p meta ids index tc st))"
  by (auto simp: check_text_def check_call_def intro!: refusing split: json.split option.split list.split)

lemma refuses_choice [refusing]: "refuses (fst (check_choice env p meta ids ch st))"
  unfolding check_choice_def by (intro refusing)

lemma refuses_upstream [refusing]: "refuses (fst (ask_upstream env cfg fwd st))"
  by (auto simp: ask_upstream_def intro!: refusing split: upstream_answer.split)

lemma refuses_chat: "refuses (fst (chat_steps env cfg p body headers ids st))"
  unfolding chat_steps_def Let_def split_beta
  by (auto intro!: refusing)

section \<open>What was checked\<close>

definition text_checked ::
  "'v proxy_env \<Rightarrow> principal \<Rightarrow> proxy_meta \<Rightarrow> string \<times> string \<Rightarrow> string option \<Rightarrow> string option \<Rightarrow> bool" where
  "text_checked env p meta ids t u \<longleftrightarrow>
     (if t \<in> {None, Some []} then u = t
      else u \<noteq> None \<and> (\<exists>q. released env p Output meta ((empty_payload Output)\<lparr>pl_text := t\<rparr>) ids q \<and> pl_text q = u))"

definition call_checked ::
  "'v proxy_env \<Rightarrow> principal \<Rightarrow> proxy_meta \<Rightarrow> string \<times> string \<Rightarrow> clean_call \<Rightarrow> clean_call \<Rightarrow> bool" where
  "call_checked env p meta ids c d \<longleftrightarrow>
     (\<exists>args q u. pe_loads env (cl_arguments c) = Some (JObj args) \<and>
        released env p Tool (meta\<lparr>pm_action := nonempty_or (Some (cl_name c)) ''unknown''\<rparr>)
          ((empty_payload Tool)\<lparr>pl_tool_call := Some \<lparr>tc_name = cl_name c, tc_arguments = args, tc_result = JNull\<rparr>\<rparr>) ids q \<and>
        pl_tool_call q = Some u \<and> tc_name u = cl_name c \<and> d = c\<lparr>cl_arguments := pe_dumps env (tc_arguments u)\<rparr>)"

definition choice_checked ::
  "'v proxy_env \<Rightarrow> principal \<Rightarrow> proxy_meta \<Rightarrow> string \<times> string \<Rightarrow> clean_choice \<Rightarrow> clean_choice \<Rightarrow> bool" where
  "choice_checked env p meta ids a b \<longleftrightarrow>
     text_checked env p meta ids (ch_content a) (ch_content b) \<and>
     text_checked env p meta ids (ch_refusal a) (ch_refusal b) \<and>
     list_all2 (call_checked env p meta ids) (ch_calls a) (ch_calls b) \<and>
     ch_index b = ch_index a \<and> ch_role b = ch_role a \<and> ch_finish_reason b = ch_finish_reason a"

lemma proxy_then_Inr:
  "proxy_then f g st = (Inr y, st') \<longleftrightarrow> (\<exists>x s. f st = (Inr x, s) \<and> g x s = (Inr y, st'))"
  by (cases "f st"; cases "fst (f st)") (auto simp: proxy_then_def)

lemma proxy_each_checked:
  assumes "\<And>x y st st'. f x st = (Inr y, st') \<Longrightarrow> P x y" and "proxy_each f xs st = (Inr ys, st')"
  shows "list_all2 P xs ys"
  using assms(2)
  by (induction xs arbitrary: ys st) (auto simp: proxy_then_Inr proxy_return_def intro: assms(1))

lemma check_text_checked:
  assumes "check_text env p meta ids t st = (Inr u, st')"
  shows "text_checked env p meta ids t u"
proof (cases "t \<in> {None, Some []}")
  case True
  with assms show ?thesis by (auto simp: check_text_def text_checked_def proxy_return_def)
next
  case False
  then obtain c cs where t: "t = Some (c # cs)" by (cases t; cases "the t") auto
  from assms obtain r st1 where r: "proxy_stage env p Output meta ((empty_payload Output)\<lparr>pl_text := t\<rparr>) ids st = (Inr r, st1)"
    and u: "u = (case gp_payload r of None \<Rightarrow> t | Some q \<Rightarrow> (case pl_text q of None \<Rightarrow> t | Some v \<Rightarrow> Some v))"
    using t by (auto simp: check_text_def proxy_then_Inr)
  obtain q where q: "gp_payload r = Some q" "released env p Output meta ((empty_payload Output)\<lparr>pl_text := t\<rparr>) ids q"
    by (rule proxy_stage_released [OF r])
  with released_shape(1) [OF q(2)] t u show ?thesis
    by (cases "pl_text q") (auto simp: text_checked_def)
qed

lemma check_call_checked:
  assumes "check_call env p meta ids index tc st = (Inr d, st')"
  shows "call_checked env p meta ids (snd tc) d"
proof -
  let ?m = "meta\<lparr>pm_action := nonempty_or (Some (cl_name (snd tc))) ''unknown''\<rparr>"
  from assms obtain args r st1 where args: "pe_loads env (cl_arguments (snd tc)) = Some (JObj args)"
    and r: "proxy_stage env p Tool ?m ((empty_payload Tool)\<lparr>pl_tool_call := Some \<lparr>tc_name = cl_name (snd tc),
              tc_arguments = args, tc_result = JNull\<rparr>\<rparr>) ids st = (Inr r, st1)"
    and d: "d = (case gp_payload r of None \<Rightarrow> snd tc
                 | Some q \<Rightarrow> (case pl_tool_call q of None \<Rightarrow> snd tc
                              | Some u \<Rightarrow> (snd tc)\<lparr>cl_arguments := pe_dumps env (tc_arguments u)\<rparr>))"
    by (cases "pe_loads env (cl_arguments (snd tc))"; cases "the (pe_loads env (cl_arguments (snd tc)))")
      (auto simp: check_call_def proxy_then_Inr proxy_return_def reject_def)
  obtain q where q: "gp_payload r = Some q" "released env p Tool ?m ((empty_payload Tool)\<lparr>pl_tool_call :=
      Some \<lparr>tc_name = cl_name (snd tc), tc_arguments = args, tc_result = JNull\<rparr>\<rparr>) ids q"
    by (rule proxy_stage_released [OF r])
  with released_shape(3) [OF q(2)] args d show ?thesis
    by (cases "pl_tool_call q") (auto simp: call_checked_def)
qed

lemma list_all2_enumerate: "list_all2 (\<lambda>x. P (snd x)) (List.enumerate n xs) ys \<longleftrightarrow> list_all2 P xs ys"
  by (induction xs arbitrary: n ys) (auto simp: list_all2_Cons1)

lemma check_choice_checked:
  assumes "check_choice env p meta ids a st = (Inr b, st')"
  shows "choice_checked env p meta ids a b"
proof -
  from assms obtain content refusal calls s0 s1 s2 where
    c: "check_text env p meta ids (ch_content a) st = (Inr content, s0)"
    and r: "check_text env p meta ids (ch_refusal a) s0 = (Inr refusal, s1)"
    and t: "proxy_each (check_call env p meta ids (ch_index a)) (List.enumerate 0 (ch_calls a)) s1 = (Inr calls, s2)"
    and b: "b = a\<lparr>ch_content := content, ch_refusal := refusal, ch_calls := calls\<rparr>"
    by (auto simp: check_choice_def proxy_then_Inr proxy_return_def)
  have "list_all2 (\<lambda>x. call_checked env p meta ids (snd x)) (List.enumerate 0 (ch_calls a)) calls"
    by (rule proxy_each_checked [OF check_call_checked t])
  then show ?thesis
    using check_text_checked [OF c] check_text_checked [OF r] b
    by (simp add: choice_checked_def list_all2_enumerate)
qed

section \<open>The answer\<close>

text \<open>Steps that send nothing to the provider.\<close>

definition silent :: "('v proxy_state \<Rightarrow> (proxy_error + 'a) \<times> 'v proxy_state) \<Rightarrow> bool" where
  "silent f \<longleftrightarrow> (\<forall>st. pz_sent (snd (f st)) = pz_sent st)"

lemma silentD: "silent f \<Longrightarrow> f st = (x, st') \<Longrightarrow> pz_sent st' = pz_sent st"
  unfolding silent_def by (metis snd_conv)

lemma silent_return: "silent (proxy_return x)"
  by (simp add: silent_def proxy_return_def)

lemma silent_stage: "silent (proxy_stage env p stg meta pl ids)"
  by (simp add: silent_def)

lemma silent_then: "silent f \<Longrightarrow> (\<And>x. silent (g x)) \<Longrightarrow> silent (proxy_then f g)"
  by (simp add: silent_def proxy_then_def split_beta split: sum.split)

lemma silent_each: "(\<And>x. silent (f x)) \<Longrightarrow> silent (proxy_each f xs)"
  by (induction xs) (simp_all add: silent_return silent_then)

lemma silent_note: "silent (\<lambda>st. (x, note_decision k d st))"
  by (simp add: silent_def note_decision_def)

lemma silent_text: "silent (check_text env p meta ids t)"
  by (cases t; cases "the t")
    (simp_all add: check_text_def silent_return silent_then silent_stage silent_note)

lemma silent_call: "silent (check_call env p meta ids index tc)"
proof (cases "\<exists>args. pe_loads env (cl_arguments (snd tc)) = Some (JObj args)")
  case True
  then show ?thesis by (auto simp: check_call_def intro!: silent_then silent_stage silent_note)
next
  case False
  then show ?thesis by (auto simp: check_call_def silent_return split: option.split json.split)
qed

lemma silent_choice: "silent (check_choice env p meta ids ch)"
  unfolding check_choice_def by (intro silent_then silent_text silent_each silent_call silent_return)

text \<open>An answer with status 200 was asked for and every part of it checked.\<close>

lemma chat_answered:
  assumes "chat_steps env cfg p body headers ids st = (Inr res, st')" "pq_status res < 400"
  obtains rq n data kept raw choices where
    "pe_upstream env rq = JsonAnswer n data" "pz_sent st' = pz_sent st @ [rq]"
    "sanitize_response (pe_str env) data = Inr (kept, raw)"
    "list_all2 (choice_checked env p (meta_of headers body cfg (pr_agent_id p)) ids) raw choices"
    "pq_body res = answer_body kept choices"
proof -
  let ?meta = "meta_of headers body cfg (pr_agent_id p)"
  from assms obtain messages guarded extras inp s1 fwd n data s2 kept raw choices s3 where
    inp: "proxy_stage env p Input ?meta ((empty_payload Input)\<lparr>pl_messages := Some guarded\<rparr>) ids st = (Inr inp, s1)"
    and up: "ask_upstream env cfg fwd s1 = (Inr (n, data), s2)"
    and san: "sanitize_response (pe_str env) data = Inr (kept, raw)"
    and chk: "proxy_each (check_choice env p ?meta ids) raw (s2\<lparr>pz_decisions := [(''input'', gp_decision inp)]\<rparr>) =
                (Inr choices, st')"
    and res: "pq_body res = answer_body kept choices"
    by (auto simp: chat_steps_def Let_def proxy_then_Inr proxy_return_def split: prod.splits if_splits)
  have rq: "pe_upstream env (upstream_request_of cfg fwd) = JsonAnswer n data"
    "pz_sent s2 = pz_sent s1 @ [upstream_request_of cfg fwd]"
    using up by (auto simp: ask_upstream_def reject_def split: upstream_answer.splits)
  have "pz_sent st' = pz_sent s2"
    using silentD [OF silent_each [of "check_choice env p ?meta ids", OF silent_choice] chk] by simp
  then have sent: "pz_sent st' = pz_sent st @ [upstream_request_of cfg fwd]"
    using rq(2) silentD [OF silent_stage inp] by simp
  show thesis
    by (rule that [OF rq(1) sent san proxy_each_checked [OF check_choice_checked chk] res])
qed


section \<open>The request to the provider\<close>

text \<open>Writing at places none of which is under another: each then holds what was written there.\<close>

abbreviation writes_to :: "path \<times> json \<Rightarrow> path \<times> json \<Rightarrow> bool" where
  "writes_to x y \<equiv> diverge (fst x) (fst y)"

definition write_all :: "(path \<times> json) list \<Rightarrow> json \<Rightarrow> json" where
  "write_all ws j = foldl (\<lambda>j w. set_path (fst w) (snd w) j) j ws"

lemma write_all_simps [simp]:
  "write_all [] j = j" "write_all (w # ws) j = write_all ws (set_path (fst w) (snd w) j)"
  "write_all (us @ ws) j = write_all ws (write_all us j)"
  by (simp_all add: write_all_def)

lemma write_all_other: "(\<And>w. w \<in> set ws \<Longrightarrow> diverge p (fst w)) \<Longrightarrow> get_path p (write_all ws j) = get_path p j"
  by (induction ws arbitrary: j) (simp_all add: get_set_other)

lemma write_all_written:
  assumes "sorted_wrt writes_to ws" "(p, v) \<in> set ws" "get_path p j \<noteq> None"
  shows "get_path p (write_all ws j) = Some v"
  using assms
proof (induction ws arbitrary: j)
  case (Cons w ws)
  show ?case
  proof (cases "(p, v) = w")
    case True
    then have "get_path p (set_path p v j) = Some v" using Cons.prems(3) get_set_same by fastforce
    moreover have "get_path p (write_all ws (set_path p v j)) = get_path p (set_path p v j)"
      by (rule write_all_other) (use Cons.prems(1) True in auto)
    ultimately show ?thesis using True by auto
  next
    case False
    with Cons.prems(2) have in_ws: "(p, v) \<in> set ws" by simp
    with Cons.prems(1) have "writes_to w (p, v)" by force
    then have d: "diverge p (fst w)" by (simp add: diverge_sym)
    with Cons.prems in_ws show ?thesis by (auto intro!: Cons.IH simp: get_set_other)
  qed
qed simp

lemma write_all_object:
  "(\<And>w. w \<in> set ws \<Longrightarrow> \<exists>k p. fst w = Key k # p) \<Longrightarrow> \<exists>d. write_all ws (JObj body) = JObj d"
proof (induction ws arbitrary: body)
  case (Cons w ws)
  then obtain k p where "fst w = Key k # p" by (meson list.set_intros(1))
  then show ?case using Cons by simp
qed simp

lemma sorted_enumerated:
  assumes "\<And>i x. sorted_wrt R (f (i, x))"
    and "\<And>i j x y a b. i < j \<Longrightarrow> a \<in> set (f (i, x)) \<Longrightarrow> b \<in> set (f (j, y)) \<Longrightarrow> R a b"
  shows "sorted_wrt R (concat (map f (List.enumerate n xs)))"
proof (induction xs arbitrary: n)
  case (Cons x xs)
  have "R a b" if "a \<in> set (f (n, x))" "(j, y) \<in> set (List.enumerate (Suc n) xs)" "b \<in> set (f (j, y))" for a b j y
    by (rule assms(2) [OF _ that(1,3)]) (use that(2) in \<open>auto simp: in_set_enumerate_eq\<close>)
  with Cons assms(1) show ?case by (auto simp: sorted_wrt_append)
qed simp

lemma map_results_Inr: "map_results f xs = Inr ys \<Longrightarrow> ys = map (\<lambda>x. case f x of Inl _ \<Rightarrow> d x | Inr y \<Rightarrow> y) xs"
  by (induction xs arbitrary: ys) (auto simp: result_bind_Inr_iff)

text \<open>The places of a request: contents, arguments of earlier calls, descriptions of tools.\<close>

definition content_at :: "nat \<Rightarrow> path" where
  "content_at i = [Key ''messages'', Item i, Key ''content'']"

definition content_writes :: "(nat \<times> json) \<times> message \<Rightarrow> (path \<times> json) list" where
  "content_writes im =
     (case snd (fst im) of
        JObj m \<Rightarrow>
          if obj_get m ''content'' = JNull then []
          else [(content_at (fst (fst im)), with_text (obj_get m ''content'') (msg_content (snd im)))]
      | _ \<Rightarrow> [])"

lemma put_content_writes: "put_content im j = write_all (content_writes im) j"
  by (auto simp: put_content_def content_writes_def content_at_def split: json.split)

definition request_writes :: "json list \<Rightarrow> extra list \<Rightarrow> message list \<Rightarrow> (path \<times> json) list" where
  "request_writes messages extras ms =
     concat (map content_writes (zip (List.enumerate 0 messages) ms)) @
     map (\<lambda>xm. (fst (fst xm), JStr (msg_content (snd xm)))) (zip extras (drop (length messages) ms))"

lemma foldl_contents: "foldl (\<lambda>j im. put_content im j) j xs = write_all (concat (map content_writes xs)) j"
  by (induction xs arbitrary: j) (simp_all add: put_content_writes)

lemma foldl_extras:
  "foldl (\<lambda>j xm. set_path (fst (fst xm)) (JStr (msg_content (snd xm))) j) j xs =
   write_all (map (\<lambda>xm. (fst (fst xm), JStr (msg_content (snd xm)))) xs) j"
  by (induction xs arbitrary: j) simp_all

lemma forward_writes:
  "forward_body body messages extras (Some ms) = write_all (request_writes messages extras ms) (JObj body)"
  by (simp add: forward_body_def foldl_contents foldl_extras request_writes_def)

lemma diverging_places:
  "diverge (content_at i) (content_at j) \<longleftrightarrow> i \<noteq> j"
  "a \<in> set (call_extras i jc) \<Longrightarrow> diverge (content_at n) (fst a)"
  "b \<in> set (tool_extras kt) \<Longrightarrow> diverge (content_at n) (fst b)"
  "a \<in> set (call_extras i jc) \<Longrightarrow> b \<in> set (tool_extras kt) \<Longrightarrow> diverge (fst a) (fst b)"
  "a \<in> set (call_extras i jc) \<Longrightarrow> b \<in> set (call_extras i' jc') \<Longrightarrow> (i, fst jc) \<noteq> (i', fst jc') \<Longrightarrow> diverge (fst a) (fst b)"
  "c \<in> set (tool_extras kt) \<Longrightarrow> b \<in> set (tool_extras kt') \<Longrightarrow> fst kt \<noteq> fst kt' \<Longrightarrow> diverge (fst c) (fst b)"
  by (auto simp: content_at_def call_extras_def tool_extras_def split: json.splits if_splits)

abbreviation extra_before :: "extra \<Rightarrow> extra \<Rightarrow> bool" where
  "extra_before x y \<equiv> diverge (fst x) (fst y)"

definition extras_of_message :: "nat \<times> json \<Rightarrow> extra list" where
  "extras_of_message im = (case message_extras im of Inl _ \<Rightarrow> [] | Inr xs \<Rightarrow> xs)"

lemma extras_of_message_calls:
  "extras_of_message (i, m) = [] \<or> (\<exists>d calls. m = JObj d \<and> iterated (obj_get d ''tool_calls'') = Inr calls \<and>
     extras_of_message (i, m) = concat (map (call_extras i) (List.enumerate 0 calls)))"
  by (cases m) (auto simp: extras_of_message_def message_extras_def result_bind_def split: sum.splits)

lemma call_extras_sorted: "sorted_wrt extra_before (call_extras i jc)"
  by (auto simp: call_extras_def split: json.split)

lemma tool_extras_sorted: "sorted_wrt extra_before (tool_extras kt)"
  by (auto simp: tool_extras_def split: json.split)

lemma message_extras_sorted: "sorted_wrt extra_before (extras_of_message (i, m))"
proof -
  have "sorted_wrt extra_before (concat (map (call_extras i) (List.enumerate 0 calls)))" for calls
    by (rule sorted_enumerated) (auto simp: call_extras_sorted intro: diverging_places(5))
  then show ?thesis using extras_of_message_calls [of i m] by (elim disjE exE conjE) simp_all
qed

lemma in_message_extras: "x \<in> set (extras_of_message (i, m)) \<Longrightarrow> \<exists>jc. x \<in> set (call_extras i jc)"
  using extras_of_message_calls [of i m] by (elim disjE exE conjE) auto

lemma request_extras_Inr:
  assumes "request_extras body = Inr xs"
  obtains messages tools where
    "iterated (obj_get body ''messages'') = Inr messages" "iterated (obj_get body ''tools'') = Inr tools"
    "xs = concat (map extras_of_message (List.enumerate 0 messages)) @ concat (map tool_extras (List.enumerate 0 tools))"
proof -
  from assms obtain messages calls tools where
    "iterated (obj_get body ''messages'') = Inr messages" "iterated (obj_get body ''tools'') = Inr tools"
    and c: "map_results message_extras (List.enumerate 0 messages) = Inr calls"
    and "xs = concat calls @ concat (map tool_extras (List.enumerate 0 tools))"
    by (auto simp: request_extras_def result_bind_Inr_iff)
  moreover have "calls = map extras_of_message (List.enumerate 0 messages)"
    using map_results_Inr [OF c, of "\<lambda>_. []"] by (simp add: extras_of_message_def [abs_def])
  ultimately show thesis by (intro that) simp_all
qed

lemma request_extras_sorted:
  assumes "request_extras body = Inr xs"
  shows "sorted_wrt extra_before xs" "\<And>x n. x \<in> set xs \<Longrightarrow> diverge (content_at n) (fst x)"
proof -
  from assms obtain messages tools where
    xs: "xs = concat (map extras_of_message (List.enumerate 0 messages)) @ concat (map tool_extras (List.enumerate 0 tools))"
    by (rule request_extras_Inr)
  have calls: "sorted_wrt extra_before (concat (map extras_of_message (List.enumerate 0 messages)))"
    by (rule sorted_enumerated)
      (auto simp: message_extras_sorted dest!: in_message_extras intro: diverging_places(5))
  have tools: "sorted_wrt extra_before (concat (map tool_extras (List.enumerate 0 tools)))"
    by (rule sorted_enumerated) (auto simp: tool_extras_sorted intro: diverging_places(6))
  show "sorted_wrt extra_before xs"
    unfolding xs sorted_wrt_append using calls tools
    by (auto dest!: in_message_extras intro: diverging_places(4))
  show "diverge (content_at n) (fst x)" if "x \<in> set xs" for x n
    using that unfolding xs by (auto dest!: in_message_extras intro: diverging_places(2,3))
qed

lemma sorted_zip: "sorted_wrt (\<lambda>x y. R (f x) (f y)) xs \<Longrightarrow> sorted_wrt (\<lambda>a b. R (f (fst a)) (f (fst b))) (zip xs ys)"
  by (induction xs ys rule: list_induct2') (auto dest: set_zip_leftD)

lemma zip_enumerate: "zip (List.enumerate n xs) ys = map (\<lambda>(i, x, y). ((i, x), y)) (List.enumerate n (zip xs ys))"
  by (induction xs ys arbitrary: n rule: list_induct2') auto

lemma request_writes_sorted:
  assumes "request_extras body = Inr extras"
  shows "sorted_wrt writes_to (request_writes messages extras ms)"
proof -
  have c: "sorted_wrt writes_to (concat (map (content_writes \<circ> (\<lambda>(i, x, y). ((i, x), y))) (List.enumerate 0 (zip messages ms))))"
    by (rule sorted_enumerated) (auto simp: content_writes_def diverging_places(1) split: json.splits if_splits)
  have e: "sorted_wrt writes_to (map (\<lambda>xm. (fst (fst xm), JStr (msg_content (snd xm)))) (zip extras (drop (length messages) ms)))"
    using sorted_zip [where R = diverge and f = fst, OF request_extras_sorted(1) [OF assms]]
    by (simp add: sorted_wrt_map)
  show ?thesis
    unfolding request_writes_def sorted_wrt_append zip_enumerate
    using c e request_extras_sorted(2) [OF assms]
    by (auto simp: content_writes_def dest!: set_zip_leftD split: json.splits if_splits)
qed

text \<open>What the input stage saw is what stands at those places.\<close>

lemma extras_stand:
  assumes "request_extras body = Inr extras" "x \<in> set extras"
  shows "get_path (fst x) (JObj body) = Some (JStr (snd (snd x)))"
proof -
  from assms(1) obtain messages tools where
    m: "iterated (obj_get body ''messages'') = Inr messages" and t: "iterated (obj_get body ''tools'') = Inr tools"
    and xs: "extras = concat (map extras_of_message (List.enumerate 0 messages)) @ concat (map tool_extras (List.enumerate 0 tools))"
    by (rule request_extras_Inr)
  have arr: "v = JArr ys" if "iterated v = Inr ys" "JObj d \<in> set ys" for v ys d
    using that by (cases v) (auto split: if_splits)
  from assms(2) xs consider i mm where "(i, mm) \<in> set (List.enumerate 0 messages)" "x \<in> set (extras_of_message (i, mm))"
    | k tt where "(k, tt) \<in> set (List.enumerate 0 tools)" "x \<in> set (tool_extras (k, tt))"
    by auto
  then show ?thesis
  proof cases
    case (1 i mm)
    with extras_of_message_calls [of i mm] obtain d calls j c where
      d: "mm = JObj d" "iterated (obj_get d ''tool_calls'') = Inr calls" and
      c: "(j, c) \<in> set (List.enumerate 0 calls)" "x \<in> set (call_extras i (j, c))" by auto
    from c(2) obtain cd where cd: "c = JObj cd" by (cases c) (auto simp: call_extras_def)
    have mi: "i < length messages" "messages ! i = JObj d" using 1(1) d(1) by (auto simp: in_set_enumerate_eq)
    have cj: "j < length calls" "calls ! j = JObj cd" using c(1) cd by (auto simp: in_set_enumerate_eq)
    have "obj_get body ''messages'' = JArr messages" "obj_get d ''tool_calls'' = JArr calls"
      using arr [OF m, of d] arr [OF d(2), of cd] mi cj by (metis nth_mem)+
    with c(2) cd mi cj show ?thesis
      by (auto simp: call_extras_def obj_get_def split: json.splits if_splits option.splits)
  next
    case (2 k tt)
    then obtain td where td: "tt = JObj td" by (cases tt) (auto simp: tool_extras_def)
    have tk: "k < length tools" "tools ! k = JObj td" using 2(1) td by (auto simp: in_set_enumerate_eq)
    have "obj_get body ''tools'' = JArr tools" using arr [OF t, of td] tk by (metis nth_mem)
    with 2(2) td tk show ?thesis
      by (auto simp: tool_extras_def obj_get_def split: json.splits if_splits option.splits)
  qed
qed

lemma request_writes_objects:
  assumes "request_extras body = Inr extras" "w \<in> set (request_writes messages extras ms)"
  shows "\<exists>k p. fst w = Key k # p"
proof -
  from assms(2) consider im where "w \<in> set (content_writes im)" | x m where "(x, m) \<in> set (zip extras (drop (length messages) ms))" "fst w = fst x"
    by (auto simp: request_writes_def)
  then show ?thesis
  proof cases
    case 1
    then show ?thesis by (auto simp: content_writes_def content_at_def split: json.splits if_splits)
  next
    case 2
    then have "x \<in> set extras" by (auto dest: set_zip_leftD)
    from request_extras_sorted(2) [OF assms(1) this, of 0] extras_stand [OF assms(1) this] 2 show ?thesis
      by (cases "fst x"; cases "hd (fst x)") (auto simp: content_at_def)
  qed
qed

lemma map_results_length: "map_results f xs = Inr ys \<Longrightarrow> length ys = length xs"
  by (induction xs arbitrary: ys) (auto simp: result_bind_Inr_iff)

lemma read_request_Inr:
  assumes "read_request env cfg body = Inr (messages, guarded, extras)"
  shows "obj_get body ''messages'' = JArr messages" "request_extras body = Inr extras"
    "length guarded = length messages + length extras"
proof -
  have e: "length (List.enumerate 0 xs) = length xs" for xs :: "json list" by simp
  from assms show "obj_get body ''messages'' = JArr messages" "request_extras body = Inr extras"
    "length guarded = length messages + length extras"
    by (auto simp: read_request_def result_bind_Inr_iff reject_def
        dest!: map_results_length split: json.splits list.splits if_splits)
qed

text \<open>The forwarded document holds what the input stage returned, at every place it saw.\<close>

lemma forwarded:
  assumes read: "read_request env cfg body = Inr (messages, guarded, extras)" and len: "length ns = length guarded"
  obtains d where "forward_body body messages extras (Some ns) = JObj d"
    "\<And>i m. i < length messages \<Longrightarrow> messages ! i = JObj m \<Longrightarrow> obj_get m ''content'' \<noteq> JNull \<Longrightarrow>
       get_path (content_at i) (JObj d) = Some (with_text (obj_get m ''content'') (msg_content (ns ! i)))"
    "\<And>j. j < length extras \<Longrightarrow>
       get_path (fst (extras ! j)) (JObj d) = Some (JStr (msg_content (ns ! (length messages + j))))"
proof -
  note r = read_request_Inr [OF read]
  note sorted = request_writes_sorted [OF r(2), of messages ns]
  have "\<exists>d. write_all (request_writes messages extras ns) (JObj body) = JObj d"
    by (rule write_all_object) (rule request_writes_objects [OF r(2)])
  then obtain d where d: "write_all (request_writes messages extras ns) (JObj body) = JObj d" ..
  have c: "get_path (content_at i) (JObj d) = Some (with_text (obj_get m ''content'') (msg_content (ns ! i)))"
    if m: "i < length messages" "messages ! i = JObj m" "obj_get m ''content'' \<noteq> JNull" for i m
  proof -
    have "((i, JObj m), ns ! i) \<in> set (zip (List.enumerate 0 messages) ns)"
      using m len r(3) by (auto simp: set_zip nth_enumerate_eq intro!: exI [of _ i])
    then have "(content_at i, with_text (obj_get m ''content'') (msg_content (ns ! i))) \<in> set (request_writes messages extras ns)"
      using m(3) by (force simp: request_writes_def content_writes_def)
    moreover have "get_path (content_at i) (JObj body) \<noteq> None"
      using m r(1) by (auto simp: content_at_def obj_get_def split: option.splits)
    ultimately show ?thesis unfolding d [symmetric] by (rule write_all_written [OF sorted])
  qed
  have e: "get_path (fst (extras ! j)) (JObj d) = Some (JStr (msg_content (ns ! (length messages + j))))"
    if j: "j < length extras" for j
  proof -
    have "(extras ! j, ns ! (length messages + j)) \<in> set (zip extras (drop (length messages) ns))"
      using j len r(3) by (auto simp: set_zip intro!: exI [of _ j])
    then have "(fst (extras ! j), JStr (msg_content (ns ! (length messages + j)))) \<in> set (request_writes messages extras ns)"
      by (force simp: request_writes_def)
    moreover have "get_path (fst (extras ! j)) (JObj body) \<noteq> None"
      using extras_stand [OF r(2), of "extras ! j"] j by simp
    ultimately show ?thesis unfolding d [symmetric] by (rule write_all_written [OF sorted])
  qed
  show thesis by (rule that [of d]) (use d c e in \<open>simp_all add: forward_writes\<close>)
qed

lemma silent_rest: "silent (\<lambda>st. proxy_then (proxy_each (check_choice env p meta ids) choices) (\<lambda>checked st. (Inr (f checked st), st))
    (st\<lparr>pz_decisions := ds\<rparr>))"
proof -
  have "silent (proxy_then (proxy_each (check_choice env p meta ids) choices) (\<lambda>checked st. (Inr (f checked st), st)))"
    by (intro silent_then silent_each silent_choice) (simp add: silent_def)
  then show ?thesis by (simp add: silent_def)
qed

lemma chat_steps_sent:
  assumes "chat_steps env cfg p body headers ids st = (x, st')" "pz_sent st' \<noteq> pz_sent st"
  obtains messages guarded extras inp s1 where
    "read_request env cfg body = Inr (messages, guarded, extras)"
    "proxy_stage env p Input (meta_of headers body cfg (pr_agent_id p))
       ((empty_payload Input)\<lparr>pl_messages := Some guarded\<rparr>) ids st = (Inr inp, s1)"
    "pz_sent st' = pz_sent st @ [upstream_request_of cfg (object_of (forward_body body messages extras
       (case gp_payload inp of None \<Rightarrow> None | Some q \<Rightarrow> pl_messages q)))]"
proof -
  let ?meta = "meta_of headers body cfg (pr_agent_id p)"
  obtain messages guarded extras where r: "read_request env cfg body = Inr (messages, guarded, extras)"
    using assms by (cases "read_request env cfg body") (auto simp: chat_steps_def Let_def proxy_then_def proxy_return_def)
  let ?in = "proxy_stage env p Input ?meta ((empty_payload Input)\<lparr>pl_messages := Some guarded\<rparr>) ids"
  obtain y s1 where i: "?in st = (y, s1)" by fastforce
  have s1: "pz_sent s1 = pz_sent st" by (rule silentD [OF silent_stage i])
  obtain inp where inp: "y = Inr inp"
    using assms r i s1 by (cases y) (auto simp: chat_steps_def Let_def proxy_then_def proxy_return_def)
  let ?rq = "upstream_request_of cfg (object_of (forward_body body messages extras
       (case gp_payload inp of None \<Rightarrow> None | Some q \<Rightarrow> pl_messages q)))"
  obtain a s2 where a: "ask_upstream env cfg (object_of (forward_body body messages extras
       (case gp_payload inp of None \<Rightarrow> None | Some q \<Rightarrow> pl_messages q))) s1 = (a, s2)" by fastforce
  have s2: "pz_sent s2 = pz_sent s1 @ [?rq]" using a by (auto simp: ask_upstream_def)
  have "pz_sent st' = pz_sent s2"
  proof (cases a)
    case (Inl e)
    with assms(1) r i inp a show ?thesis by (simp add: chat_steps_def Let_def proxy_then_def proxy_return_def)
  next
    case (Inr nd)
    let ?rest = "if 400 \<le> fst nd
        then proxy_return (Inr \<lparr>pq_status = fst nd, pq_body = (case snd nd of JObj d \<Rightarrow> d | _ \<Rightarrow> [(''error'', snd nd)]), pq_headers = []\<rparr>)
        else proxy_then (proxy_return (sanitize_response (pe_str env) (snd nd))) (\<lambda>(kept, choices) st.
          proxy_then (proxy_each (check_choice env p ?meta ids) choices) (\<lambda>checked st.
            (Inr \<lparr>pq_status = 200, pq_body = answer_body kept checked,
                  pq_headers = decision_headers (pz_decisions st) @ [(''X-Request-ID'', fst ids)]\<rparr>, st))
            (st\<lparr>pz_decisions := [(''input'', gp_decision inp)]\<rparr>))"
    have "silent ?rest" by (auto intro!: silent_return silent_then silent_rest)
    moreover have "?rest s2 = (x, st')"
      using assms(1) r i inp a Inr by (simp add: chat_steps_def Let_def proxy_then_def proxy_return_def split_beta)
    ultimately show ?thesis by (rule silentD)
  qed
  with r i inp s1 s2 show thesis by (intro that) simp_all
qed


section \<open>Example\<close>

definition ex_mask :: plugin where
  "ex_mask ctx pl =
     (12, Returned \<lparr>gr_decision = Modify, gr_reason = ''masked'', gr_risk_score = 40,
        gr_modified_payload = Some (pl\<lparr>pl_messages := map_option (map (\<lambda>m.
          if msg_content m = ''secret'' then m\<lparr>msg_content := ''***''\<rparr> else m)) (pl_messages pl)\<rparr>),
        gr_findings = [], gr_metadata = [], gr_latency_ms = 0\<rparr>)"

definition ex_proxy_env :: "memory_verifications proxy_env" where
  "ex_proxy_env = \<lparr>pe_services = (\<lambda>_. ex_services\<lparr>
       svc_snapshot := Some \<lparr>cs_version = ''v1'', cs_environment = Dev, cs_bound =
         [\<lparr>bg_assignment = ex_assignment ''pii'' Enforce, bg_manifest = ex_manifest ''pii'', bg_guardrail = ex_mask\<rparr>]\<rparr>,
       svc_policy := (\<lambda>i. \<lparr>po_allow = True, po_reason = ''ok'', po_obligations = [], po_error = None\<rparr>)\<rparr>),
     pe_now = (\<lambda>_. 0), pe_uid = (\<lambda>_. ''u''), pe_between = (\<lambda>_ g. g),
     pe_upstream = (\<lambda>_. JsonAnswer 200 (JObj [(''choices'', JArr [JObj [(''message'', JObj [(''content'', JStr ''hello'')])]])])),
     pe_loads = (\<lambda>_. None), pe_dumps = (\<lambda>_. []), pe_repr = (\<lambda>_. []), pe_str = (\<lambda>_. [])\<rparr>"

definition ex_proxy_config :: proxy_config where
  "ex_proxy_config = \<lparr>px_upstream_url = ''u/'', px_upstream_api_key = None, px_default_agent_id = ''bot'', px_models = []\<rparr>"

text \<open>A history with a call in the provider's legacy form.\<close>

definition ex_chat_body :: jobj where
  "ex_chat_body = [(''messages'', JArr
     [JObj [(''role'', JStr ''assistant''), (''content'', JNull),
            (''function_call'', JObj [(''name'', JStr ''f''), (''arguments'', JStr ''secret'')])],
      JObj [(''role'', JStr ''user''), (''content'', JStr ''secret'')]])]"

definition ex_proxy_state :: "memory_verifications proxy_state" where
  "ex_proxy_state = \<lparr>pz_gateway = ex_state, pz_calls = 0, pz_sent = [], pz_decisions = []\<rparr>"

definition ex_chat :: "(proxy_error + proxy_result) \<times> memory_verifications proxy_state" where
  "ex_chat = chat ex_proxy_env ex_proxy_config ex_principal ex_chat_body (\<lambda>_. None) (''r'', ''t'') ex_proxy_state"

definition ex_meta :: proxy_meta where
  "ex_meta = meta_of (\<lambda>_. None) ex_chat_body ex_proxy_config (Some ''bot'')"

definition ex_guarded :: "message list" where
  "ex_guarded = [\<lparr>msg_role = RAssistant, msg_content = []\<rparr>, \<lparr>msg_role = RUser, msg_content = ''secret''\<rparr>]"

definition ex_messages :: "json list" where
  "ex_messages =
     [JObj [(''role'', JStr ''assistant''), (''content'', JNull),
            (''function_call'', JObj [(''name'', JStr ''f''), (''arguments'', JStr ''secret'')])],
      JObj [(''role'', JStr ''user''), (''content'', JStr ''secret'')]]"

definition ex_sent :: jobj where
  "ex_sent = [(''messages'', JArr
     [JObj [(''role'', JStr ''assistant''), (''content'', JNull),
            (''function_call'', JObj [(''name'', JStr ''f''), (''arguments'', JStr ''secret'')])],
      JObj [(''role'', JStr ''user''), (''content'', JStr ''***'')]])]"

definition ex_choice :: clean_choice where
  "ex_choice = \<lparr>ch_index = JInt 0, ch_role = JStr ''assistant'', ch_content = Some ''hello'', ch_refusal = None,
     ch_calls = [], ch_finish_reason = JNull\<rparr>"

lemma ex_read: "read_request ex_proxy_env ex_proxy_config ex_chat_body = Inr (ex_messages, ex_guarded, [])"
  by code_simp

lemma ex_forward:
  "forward_body ex_chat_body ex_messages []
     (Some [\<lparr>msg_role = RAssistant, msg_content = []\<rparr>, \<lparr>msg_role = RUser, msg_content = ''***''\<rparr>]) = JObj ex_sent"
  by code_simp

definition ex_answer_json :: json where
  "ex_answer_json = JObj [(''choices'', JArr [JObj [(''message'', JObj [(''content'', JStr ''hello'')])]])]"

lemma ex_sanitize: "sanitize_response (\<lambda>_. []) ex_answer_json = Inr ([], [ex_choice])"
  by code_simp

definition ex_input :: "(proxy_error + guard_response) \<times> memory_verifications proxy_state" where
  "ex_input = proxy_stage ex_proxy_env ex_principal Input ex_meta ((empty_payload Input)\<lparr>pl_messages := Some ex_guarded\<rparr>)
     (''r'', ''t'') ex_proxy_state"

lemma ex_input_value:
  "case ex_input of (Inl _, _) \<Rightarrow> False
   | (Inr r, s1) \<Rightarrow> gp_decision r = Modify \<and> map_option pl_messages (gp_payload r) =
         Some (Some [\<lparr>msg_role = RAssistant, msg_content = []\<rparr>, \<lparr>msg_role = RUser, msg_content = ''***''\<rparr>])"
  by code_simp

definition ex_asked :: "memory_verifications proxy_state" where
  "ex_asked = (snd ex_input)\<lparr>pz_sent := [upstream_request_of ex_proxy_config ex_sent], pz_decisions := [(''input'', Modify)]\<rparr>"

lemma ex_output_value:
  "case proxy_stage ex_proxy_env ex_principal Output ex_meta ((empty_payload Output)\<lparr>pl_text := Some ''hello''\<rparr>) (''r'', ''t'')
     ex_asked of (Inl _, _) \<Rightarrow> False | (Inr _, _) \<Rightarrow> True"
  by code_simp

lemma ex_chat_value:
  "\<exists>res st'. ex_chat = (Inr res, st') \<and> pq_status res = 200 \<and> pz_sent st' = [upstream_request_of ex_proxy_config ex_sent]"
proof -
  let ?env = "ex_proxy_env" and ?ids = "(''r'', ''t'')"
  let ?ns = "[\<lparr>msg_role = RAssistant, msg_content = []\<rparr>, \<lparr>msg_role = RUser, msg_content = ''***''\<rparr>]"
  obtain inp s1 q where i: "ex_input = (Inr inp, s1)" "gp_decision inp = Modify" "gp_payload inp = Some q" "pl_messages q = Some ?ns"
    using ex_input_value by (auto split: prod.splits sum.splits)
  have s1: "pz_sent s1 = []"
    using silentD [OF silent_stage i(1) [unfolded ex_input_def]] by (simp add: ex_proxy_state_def)
  obtain r s2 where o: "proxy_stage ?env ex_principal Output ex_meta ((empty_payload Output)\<lparr>pl_text := Some ''hello''\<rparr>) ?ids ex_asked = (Inr r, s2)"
    using ex_output_value by (auto split: prod.splits sum.splits)
  have asked: "ex_asked = s1\<lparr>pz_sent := [upstream_request_of ex_proxy_config ex_sent], pz_decisions := [(''input'', Modify)]\<rparr>"
    by (simp add: ex_asked_def i(1))
  obtain b s3 where c: "proxy_each (check_choice ?env ex_principal ex_meta ?ids) [ex_choice] ex_asked = (Inr [b], s3)"
    by (simp add: check_choice_def ex_choice_def proxy_then_def proxy_return_def check_text_def o)
  have s3: "pz_sent s3 = [upstream_request_of ex_proxy_config ex_sent]"
    using silentD [OF silent_each [of "check_choice ?env ex_principal ex_meta ?ids", OF silent_choice] c] by (simp add: ex_asked_def)
  have up: "pe_upstream ?env rq = JsonAnswer 200 ex_answer_json" for rq by (simp add: ex_proxy_env_def ex_answer_json_def)
  have san: "sanitize_response (pe_str ?env) ex_answer_json = Inr ([], [ex_choice])"
    using ex_sanitize by (simp add: ex_proxy_env_def)
  have "pr_agent_id ex_principal = Some ''bot''" by (simp add: ex_principal_def)
  then have "\<exists>res. chat_steps ?env ex_proxy_config ex_principal ex_chat_body (\<lambda>_. None) ?ids ex_proxy_state = (Inr res, s3) \<and> pq_status res = 200"
    using i s1 c asked up san
    by (simp add: chat_steps_def Let_def proxy_then_def proxy_return_def ex_read ex_meta_def [symmetric] ex_input_def
        ask_upstream_def ex_forward)
  then show ?thesis using s3 by (auto simp: ex_chat_def chat_def)
qed



text \<open>Not every text the provider sees is one of those places: the arguments of a call in the legacy form are
  forwarded as the agent wrote them, and the input stage was shown only the empty content of that message.\<close>

theorem legacy_call_unseen:
  "read_request ex_proxy_env ex_proxy_config ex_chat_body = Inr (ex_messages, ex_guarded, [])"
  "''secret'' \<notin> msg_content ` set (take 1 ex_guarded)"
  "\<exists>rq. pz_sent (snd ex_chat) = [rq] \<and>
     get_path [Key ''messages'', Item 0, Key ''function_call'', Key ''arguments''] (JObj (uq_body rq)) = Some (JStr ''secret'')"
proof -
  have "get_path [Key ''messages'', Item 0, Key ''function_call'', Key ''arguments''] (JObj ex_sent) = Some (JStr ''secret'')"
    by code_simp
  moreover have "\<exists>rq. pz_sent (snd ex_chat) = [rq] \<and> uq_body rq = ex_sent"
  proof -
    obtain res st' where r: "ex_chat = (Inr res, st')" "pz_sent st' = [upstream_request_of ex_proxy_config ex_sent]"
      using ex_chat_value by blast
    have "uq_body (upstream_request_of ex_proxy_config ex_sent) = ex_sent" by (simp add: upstream_request_of_def)
    with r(2) show ?thesis unfolding r(1) snd_conv by blast
  qed
  ultimately show "\<exists>rq. pz_sent (snd ex_chat) = [rq] \<and>
     get_path [Key ''messages'', Item 0, Key ''function_call'', Key ''arguments''] (JObj (uq_body rq)) = Some (JStr ''secret'')"
    by auto
qed (simp_all add: ex_read ex_guarded_def)

end
