(* ===== verification/Spec2Isabelle.thy ===== *)
theory Spec2Isabelle
  imports Flow_Answers Session_Props Audit_Chain_Props Audit_Writer_Props
    Cp_Admin Cp_Assignments Cp_Release Catalog_Props
    Cp_Reviews_Props Rate_Limit Cp_Discovery_Findings Cp_Discovery_Decisions Proxy_Props
begin

text \<open>
  A model of the policy guardrails agent gateway and its control plane, with the theorems that make it
  correct. Paths are relative to \<^verbatim>\<open>src/\<close>; \<^verbatim>\<open>gw/\<close> stands for \<^verbatim>\<open>services/guardrail-gateway/app/\<close>, \<^verbatim>\<open>cp/\<close> for
  \<^verbatim>\<open>services/guardrail-control-plane/app/\<close> and \<^verbatim>\<open>sdk/\<close> for \<^verbatim>\<open>packages/guardrail-sdk/guardrail_sdk/\<close>.

  \<^bold>\<open>The program.\<close> An agent sends each message, tool call and tool result to the gateway. The gateway
  authenticates the API key against the catalog and limits its rate, builds a context (who, which action,
  what inherent risk), asks a policy, runs the guardrail pipeline of the live snapshot, scores the request
  against the session history, reads one verdict off a decision table, and answers \<open>allow\<close>, \<open>modify\<close>,
  \<open>block\<close> or \<open>escalate\<close>, possibly after a verification or a hold for human review. Each answer leaves one
  audit event in a hash chain. The control plane owns tenants, keys, agents, actions and the assignments of
  guardrails, publishes snapshots and the catalog to the gateways, holds reviews, and keeps an inventory of
  the agents that its connectors discover.

  \<^bold>\<open>Theories and the code they model.\<close>
  \<^item> \<open>Prelude\<close>, \<open>Json_Text\<close>, \<open>Json_Object\<close>: JSON values and texts, Python's dictionaries, \<open>dict.fromkeys\<close> and
    rounding, and the lemmas shared by all.
  \<^item> \<open>Sdk_Models\<close>, \<open>Snapshots\<close>: \<^verbatim>\<open>sdk/models.py\<close>, \<^verbatim>\<open>manifest.py\<close>, \<^verbatim>\<open>documents.py\<close>: payloads, decisions, manifests,
    assignments and snapshot documents with their validators.
  \<^item> \<open>Registry\<close>, \<open>Pipeline\<close> (and \<open>_Props\<close>): \<^verbatim>\<open>gw/engine/registry.py\<close>, \<^verbatim>\<open>gw/engine/pipeline.py\<close>: which guardrails apply, and
    how they run in groups with time-outs and failure modes.
  \<^item> \<open>Session_Store\<close> (and \<open>Session_Props\<close>), \<open>Descriptors\<close>, \<open>Risk_Engine\<close>, \<open>Decision_Table\<close>, \<open>Risk_Props\<close>:
    \<^verbatim>\<open>gw/session/store.py\<close>, \<^verbatim>\<open>gw/context/descriptors.py\<close>, \<^verbatim>\<open>gw/risk/engine.py\<close>, \<^verbatim>\<open>gw/risk/decision.py\<close>.
  \<^item> \<open>Verify_Model\<close>, \<open>Verify_Plan\<close>, \<open>Verify_Store\<close>, \<open>Verify_Engine\<close>, \<open>Verify_Props\<close>: \<^verbatim>\<open>gw/verify/\<close>: assurance gaps,
    evidence, plans and the engine that turns a \<open>verify\<close> into an answer.
  \<^item> \<open>Advise\<close>, \<open>Context_Build\<close>, \<open>Contextual\<close>: \<^verbatim>\<open>gw/advise/\<close>, \<^verbatim>\<open>gw/context/\<close>, \<^verbatim>\<open>gw/risk/contextual.py\<close>.
  \<^item> \<open>Flow\<close>, \<open>Flow_Props\<close>, \<open>Flow_Answers\<close>: \<^verbatim>\<open>gw/gateway/flow.py\<close>: a whole evaluation.
  \<^item> \<open>Proxy\<close>, \<open>Proxy_Props\<close>: \<^verbatim>\<open>gw/gateway/proxy.py\<close>: a chat completion through the gateway, between the caller and the
    provider.
  \<^item> \<open>Rate_Limit\<close>: \<^verbatim>\<open>gw/gateway/ratelimit.py\<close>.
  \<^item> \<open>Audit_Chain\<close>, \<open>Audit_Writer\<close> (and \<open>_Props\<close>): \<^verbatim>\<open>gw/audit/\<close>: stamping, checking, queueing, spooling.
  \<^item> \<open>Cp_Records\<close>, \<open>Cp_Store\<close>, \<open>Cp_Inventory\<close>: the records, permissions and the in-memory store of the control plane
    (\<^verbatim>\<open>cp/domain/\<close>, \<^verbatim>\<open>cp/store/memory.py\<close>).
  \<^item> \<open>Cp_Registry\<close>, \<open>Cp_Admin\<close>, \<open>Cp_Assignments\<close>, \<open>Cp_Compiler\<close>, \<open>Cp_Publishing\<close> (and \<open>_Props\<close>), \<open>Cp_Catalog\<close>, \<open>Cp_Fleet\<close>:
    the services of \<^verbatim>\<open>cp/services/\<close> and \<^verbatim>\<open>cp/domain/compiler.py\<close>.
  \<^item> \<open>Cp_Release\<close>, \<open>Catalog_Sync\<close>, \<open>Catalog_Props\<close>: what crosses from the control plane to a gateway
    (\<^verbatim>\<open>gw/engine/remote.py\<close>, \<^verbatim>\<open>gw/gateway/auth.py\<close>).
  \<^item> \<open>Cp_Reviews\<close> (and \<open>_Props\<close>): \<^verbatim>\<open>cp/services/reviews.py\<close>.
  \<^item> \<open>Cp_Discovery\<close>, \<open>Cp_Discovery_Run\<close>, \<open>Cp_Discovery_Props\<close>, \<open>Cp_Discovery_Findings\<close>: \<^verbatim>\<open>cp/discovery/\<close>.
  \<^item> \<open>Cp_Discovery_Service\<close>: \<^verbatim>\<open>cp/services/discovery.py\<close>; over it \<open>Cp_Discovery_Writes\<close> (the interfaces that proofs about
    whole runs use), \<open>Cp_Discovery_Lease\<close> (claims and leases of connectors), \<open>Cp_Discovery_Pins\<close> (approved tool
    definitions) and \<open>Cp_Discovery_Decisions\<close> (links and reopened findings).

  \<^bold>\<open>How state and operations correspond.\<close> A Python class is a record with its fields in order, a method is a
  function that takes the state and returns it updated, an exception is the left of a sum. Dictionaries whose
  order the code observes are association lists. Where other handlers can run between two awaits of one
  handler (an approval, a decision on a review, a verification), the handler is two steps, and a run is a list
  of moves that interleaves them with everything else. Times are integers in microseconds on the control plane
  and reals on the gateway; Python's unbounded integers are \<open>int\<close>, its floats are \<open>real\<close>.

  \<^bold>\<open>What the lemmas show.\<close> Each component has its invariant and the lemmas that every operation keeps it, and
  interfaces are locales interpreted on the model: the verification store, the review queue and the like. The
  numbered properties are, in short: the pipeline resolves, runs and releases as specified, and shadow mode
  never interferes; the table is never weaker than policy, quarantine, guardrails and risk band; labels and
  scores only tighten; the gateway releases nothing unless every check let it pass, audits every answer once,
  and an allow after verification rests on fresh, bound, unspent evidence; the audit chain verifies exactly
  for intact logs and no event is silently lost; nothing goes live under the two-person rule without two
  keys, whatever the interleaving; in proxy mode neither the provider nor the caller gets a checked text other than
  the one a stage released; released snapshots load; the gateway accepts the keys in force and
  no others; a held payload leaves only after an approval; the rate limit is a bound and its wait is enough;
  findings follow the rules and deduplication ends; a connector has one run within its lease, and an approved
  tool definition stays pinned until an operator approves another. Some properties state where the code falls
  short: a flood forgets a quarantine, a rejection can be overwritten by an approval, a forced publish is never
  approved. Others of this kind stand as plain theorems: a run can leave a relation to a merged entity, a run that
  outlives its lease frees the lease of the next one, correcting a link merges two registered agents, a reopened
  finding stands beside the newer one, and the proxy forwards a call in the legacy form unread.

  \<^bold>\<open>Parameters.\<close> Code outside the repository is a parameter: the hash functions, the cipher, fresh identifiers, the
  clock (a time per call), the policy's answer, each plugin's answer with its duration, the advisors' answers,
  token verification, Unicode normalization, the database of the audit writer (which batches it accepts),
  what a connector yields, the provider behind the proxy with \<open>json.loads\<close> and \<open>json.dumps\<close>.
  What a theorem needs of one (a digest without collisions on the texts at hand, ids that are new) is a named hypothesis, and its witness gives a concrete function.

  \<^bold>\<open>Bounds and termination.\<close> Every function is total, by structural recursion or by folds over finite lists; there is no
  fuel. The limits of the code (queue sizes, LRU bounds, truncations, 20,000 observations of a run) are kept,
  most as fields of the configuration. Where a query has a limit, a theorem that needs all rows assumes
  that there are at most that many.

  \<^bold>\<open>Not modelled.\<close> HTTP, routing, serialization of requests and start-up; SQL stores (their in-memory twin is
  modelled); Redis; the polling and retry loops around modelled operations; the detectors of the bundled
  plugins and the redaction service, which are regular expressions and language models; connectors,
  which read foreign APIs; JWT verification; the analytics queries, benchmarks, training and
  command-line tools. Of the action descriptors, the SQL and HTTP analysis is a parameter. Characters are Isabelle's
  8-bit \<open>char\<close>; floating-point rounding is not modelled.
\<close>

end
